(* ===== verification/Kernel_Prelude.thy ===== *)
theory Kernel_Prelude
  imports Main "HOL-Library.Word"
begin

text \<open>
  Shared vocabulary of the development: the C integer types of the i386 build, the kernel
  computation type with its combinators, a small Hoare logic for it, and the generic lemmas
  the components use.

  A kernel computation is a function of the kernel state and of an \<^emph>\<open>environment script\<close>.
  The script lists what the rest of the machine does at the successive points where the running
  process gives up the processor: each entry is the transformation of the state between the
  moment \<^verbatim>\<open>schedule()\<close> switches away and the moment it switches back. A computation ends in one
  of six ways, the constructors of \<open>res\<close>.
\<close>

unbundle bit_operations_syntax

section \<open>Machine integers\<close>

type_synonym u8 = "8 word"
type_synonym u16 = "16 word"
type_synonym u32 = "32 word"

text \<open>
  \<^verbatim>\<open>int\<close> and \<^verbatim>\<open>long\<close> are signed 32-bit values. They are modelled as mathematical integers, and
  \<open>wrap32\<close> is applied where an operation of the source can leave the range.
\<close>

definition wrap32 :: "int \<Rightarrow> int" where
  "wrap32 i = signed_take_bit 31 i"

definition in_range32 :: "int \<Rightarrow> bool" where
  "in_range32 i \<longleftrightarrow> - (2 ^ 31) \<le> i \<and> i < 2 ^ 31"

lemma wrap32_id [simp]: "in_range32 i \<Longrightarrow> wrap32 i = i"
  by (auto simp: wrap32_def in_range32_def signed_take_bit_int_eq_self)

lemma wrap32_range [simp, intro]: "in_range32 (wrap32 i)"
proof -
  have "signed_take_bit 31 i < 2 ^ 31"
    by (rule signed_take_bit_int_less_exp)
  moreover have "- (2 ^ 31) \<le> signed_take_bit 31 i"
    by (rule signed_take_bit_int_greater_eq_minus_exp)
  ultimately show ?thesis
    by (simp add: in_range32_def wrap32_def)
qed

text \<open>C's division truncates towards zero.\<close>

definition c_div :: "int \<Rightarrow> int \<Rightarrow> int" where
  "c_div a b = sgn a * sgn b * (\<bar>a\<bar> div \<bar>b\<bar>)"

definition c_mod :: "int \<Rightarrow> int \<Rightarrow> int" where
  "c_mod a b = a - b * c_div a b"

lemma c_div_nonneg [simp]: "0 \<le> a \<Longrightarrow> 0 < b \<Longrightarrow> c_div a b = a div b"
  by (cases "a = 0") (auto simp: c_div_def)

lemma c_mod_nonneg [simp]: "0 \<le> a \<Longrightarrow> 0 < b \<Longrightarrow> c_mod a b = a mod b"
  by (simp add: c_mod_def minus_mult_div_eq_mod)

section \<open>Kernel computations\<close>

text \<open>
  \<^item> \<open>Ok r s e\<close>: the code returned \<open>r\<close> in state \<open>s\<close>, with \<open>e\<close> left of the script;
  \<^item> \<open>Panic msg s\<close>: \<^verbatim>\<open>panic(msg)\<close> was called, the machine stops;
  \<^item> \<open>Fault msg s\<close>: the code read or wrote outside an object (undefined behaviour of C);
  \<^item> \<open>Asleep s\<close>: the process gave up the processor and the script ends before it runs again;
  \<^item> \<open>Hang s\<close>: the code loops forever;
  \<^item> \<open>Exit c s\<close>: \<^verbatim>\<open>do_exit(c)\<close> was called, which never returns to its caller.
\<close>

datatype ('s, 'a) res =
    Ok 'a 's "('s \<Rightarrow> 's) list"
  | Panic string 's
  | Fault string 's
  | Asleep 's
  | Hang 's
  | Exit int 's

type_synonym ('s, 'a) km = "'s \<Rightarrow> ('s \<Rightarrow> 's) list \<Rightarrow> ('s, 'a) res"

definition ret :: "'a \<Rightarrow> ('s, 'a) km" where
  "ret r = (\<lambda>s e. Ok r s e)"

definition bnd :: "('s, 'a) km \<Rightarrow> ('a \<Rightarrow> ('s, 'b) km) \<Rightarrow> ('s, 'b) km" where
  "bnd m f = (\<lambda>s e. case m s e of
     Ok r s' e' \<Rightarrow> f r s' e'
   | Panic msg s' \<Rightarrow> Panic msg s'
   | Fault msg s' \<Rightarrow> Fault msg s'
   | Asleep s' \<Rightarrow> Asleep s'
   | Hang s' \<Rightarrow> Hang s'
   | Exit c s' \<Rightarrow> Exit c s')"

definition seqK :: "('s, 'a) km \<Rightarrow> ('s, 'b) km \<Rightarrow> ('s, 'b) km" where
  "seqK m n = bnd m (\<lambda>_. n)"

definition gets :: "('s \<Rightarrow> 'a) \<Rightarrow> ('s, 'a) km" where
  "gets f = (\<lambda>s e. Ok (f s) s e)"

definition modify :: "('s \<Rightarrow> 's) \<Rightarrow> ('s, unit) km" where
  "modify f = (\<lambda>s e. Ok () (f s) e)"

definition runst :: "('s \<Rightarrow> 'a \<times> 's) \<Rightarrow> ('s, 'a) km" where
  "runst f = (\<lambda>s e. Ok (fst (f s)) (snd (f s)) e)"

definition panic :: "string \<Rightarrow> ('s, 'a) km" where
  "panic msg = (\<lambda>s e. Panic msg s)"

definition fault :: "string \<Rightarrow> ('s, 'a) km" where
  "fault msg = (\<lambda>s e. Fault msg s)"

definition exitK :: "int \<Rightarrow> ('s, 'a) km" where
  "exitK c = (\<lambda>s e. Exit c s)"

definition whenK :: "bool \<Rightarrow> ('s, unit) km \<Rightarrow> ('s, unit) km" where
  "whenK b m = (if b then m else ret ())"

primrec forK :: "'b list \<Rightarrow> ('b \<Rightarrow> ('s, unit) km) \<Rightarrow> ('s, unit) km" where
  "forK [] f = ret ()"
| "forK (x # xs) f = seqK (f x) (forK xs f)"

text \<open>
  A wait that is certain to end, such as the wait for a disk transfer: the environment may act
  meanwhile if the script says so.
\<close>

definition yieldK :: "('s, unit) km" where
  "yieldK = (\<lambda>s e. case e of [] \<Rightarrow> Ok () s [] | f # fs \<Rightarrow> Ok () (f s) fs)"

text \<open>
  A \<^verbatim>\<open>goto repeat\<close> loop that sleeps between its rounds. The body returns \<open>None\<close> to go round
  again. Each further round follows a sleep, which uses up an entry of the script; a round
  that did not give up the processor changes nothing the loop waits for and spins forever.
\<close>

function loopK :: "('s, 'a option) km \<Rightarrow> ('s, 'a) km" where
  "loopK body s e = (case body s e of
     Ok None s' e' \<Rightarrow> (if length e' < length e then loopK body s' e' else Hang s')
   | Ok (Some r) s' e' \<Rightarrow> Ok r s' e'
   | Panic msg s' \<Rightarrow> Panic msg s'
   | Fault msg s' \<Rightarrow> Fault msg s'
   | Asleep s' \<Rightarrow> Asleep s'
   | Hang s' \<Rightarrow> Hang s'
   | Exit c s' \<Rightarrow> Exit c s')"
  by pat_completeness auto
termination
  by (relation "measure (\<lambda>(body, s, e). length e)") auto

declare loopK.simps [simp del]

named_theorems km_simps \<open>evaluation rules of kernel computations\<close>

lemma ret_run [simp, km_simps]: "ret r s e = Ok r s e"
  by (simp add: ret_def)

lemma gets_run [simp, km_simps]: "gets f s e = Ok (f s) s e"
  by (simp add: gets_def)

lemma modify_run [simp, km_simps]: "modify f s e = Ok () (f s) e"
  by (simp add: modify_def)

lemma runst_run [simp, km_simps]: "runst f s e = Ok (fst (f s)) (snd (f s)) e"
  by (simp add: runst_def)

lemma panic_run [simp, km_simps]: "panic msg s e = Panic msg s"
  by (simp add: panic_def)

lemma fault_run [simp, km_simps]: "fault msg s e = Fault msg s"
  by (simp add: fault_def)

lemma exitK_run [simp, km_simps]: "exitK c s e = Exit c s"
  by (simp add: exitK_def)

lemma whenK_run [simp, km_simps]: "whenK b m s e = (if b then m s e else Ok () s e)"
  by (simp add: whenK_def)

lemma bnd_run [km_simps]: "bnd m f s e = (case m s e of
     Ok r s' e' \<Rightarrow> f r s' e'
   | Panic msg s' \<Rightarrow> Panic msg s'
   | Fault msg s' \<Rightarrow> Fault msg s'
   | Asleep s' \<Rightarrow> Asleep s'
   | Hang s' \<Rightarrow> Hang s'
   | Exit c s' \<Rightarrow> Exit c s')"
  by (simp add: bnd_def)

lemma bnd_Ok [simp]: "m s e = Ok r s' e' \<Longrightarrow> bnd m f s e = f r s' e'"
  by (simp add: bnd_def)

lemma seqK_Ok [simp]: "m s e = Ok r s' e' \<Longrightarrow> seqK m n s e = n s' e'"
  by (simp add: seqK_def bnd_def)

lemma bnd_basic [simp]:
  "bnd (gets f) g s e = g (f s) s e" "bnd (ret r) g s e = g r s e"
  "bnd (runst h) g s e = g (fst (h s)) (snd (h s)) e"
  by (simp_all add: bnd_def)

lemma seqK_basic [simp]: "seqK (modify f) n s e = n (f s) e" "seqK (ret r) n s e = n s e"
  by (simp_all add: seqK_def bnd_def)

lemma seqK_run [km_simps]: "seqK m n s e = (case m s e of
     Ok r s' e' \<Rightarrow> n s' e'
   | Panic msg s' \<Rightarrow> Panic msg s'
   | Fault msg s' \<Rightarrow> Fault msg s'
   | Asleep s' \<Rightarrow> Asleep s'
   | Hang s' \<Rightarrow> Hang s'
   | Exit c s' \<Rightarrow> Exit c s')"
  by (simp add: seqK_def bnd_def)

lemma bnd_Ok_iff:
  "bnd m f s e = Ok r t e' \<longleftrightarrow> (\<exists>x s1 e1. m s e = Ok x s1 e1 \<and> f x s1 e1 = Ok r t e')"
  by (auto simp: bnd_def split: res.splits)

lemma seqK_Ok_iff:
  "seqK m n s e = Ok r t e' \<longleftrightarrow> (\<exists>x s1 e1. m s e = Ok x s1 e1 \<and> n s1 e1 = Ok r t e')"
  by (auto simp: seqK_def bnd_Ok_iff)

lemma bnd_cong_right:
  "(\<And>r s' e'. m s e = Ok r s' e' \<Longrightarrow> f r s' e' = g r s' e') \<Longrightarrow> bnd m f s e = bnd m g s e"
  by (auto simp: bnd_def split: res.splits)

lemma forK_append: "forK (xs @ ys) f s e = seqK (forK xs f) (forK ys f) s e"
  by (induction xs arbitrary: s e) (auto simp: seqK_run split: res.splits)

lemma loopK_done: "body s e = Ok (Some r) s' e' \<Longrightarrow> loopK body s e = Ok r s' e'"
  by (subst loopK.simps) simp

lemma loopK_again:
  "body s e = Ok None s' e' \<Longrightarrow> length e' < length e \<Longrightarrow> loopK body s e = loopK body s' e'"
  by (subst loopK.simps) simp

section \<open>Hoare triples\<close>

text \<open>
  \<open>hoare R P m Q\<close>: started in a state with \<open>P\<close>, under a script whose every action respects the
  rely relation \<open>R\<close>, the computation neither panics nor faults, and if it returns \<open>r\<close> then \<open>Q r\<close>
  holds. It may fall asleep, and it may end the process.
\<close>

definition rely :: "('s \<Rightarrow> 's \<Rightarrow> bool) \<Rightarrow> ('s \<Rightarrow> 's) list \<Rightarrow> bool" where
  "rely R e \<longleftrightarrow> (\<forall>f \<in> set e. \<forall>s. R s (f s))"

definition post :: "('s \<Rightarrow> 's \<Rightarrow> bool) \<Rightarrow> ('a \<Rightarrow> 's \<Rightarrow> bool) \<Rightarrow> ('s, 'a) res \<Rightarrow> bool" where
  "post R Q r = (case r of
     Ok x s e \<Rightarrow> Q x s \<and> rely R e
   | Panic _ _ \<Rightarrow> False
   | Fault _ _ \<Rightarrow> False
   | Asleep _ \<Rightarrow> True
   | Hang _ \<Rightarrow> False
   | Exit _ _ \<Rightarrow> True)"

definition hoare ::
  "('s \<Rightarrow> 's \<Rightarrow> bool) \<Rightarrow> ('s \<Rightarrow> bool) \<Rightarrow> ('s, 'a) km \<Rightarrow> ('a \<Rightarrow> 's \<Rightarrow> bool) \<Rightarrow> bool" where
  "hoare R P m Q \<longleftrightarrow> (\<forall>s e. P s \<longrightarrow> rely R e \<longrightarrow> post R Q (m s e))"

lemma rely_Nil [simp]: "rely R []"
  by (simp add: rely_def)

lemma rely_Cons [simp]: "rely R (f # fs) \<longleftrightarrow> (\<forall>s. R s (f s)) \<and> rely R fs"
  by (simp add: rely_def)

lemma post_simps [simp]:
  "post R Q (Ok x s e) \<longleftrightarrow> Q x s \<and> rely R e"
  "post R Q (Panic msg s) \<longleftrightarrow> False"
  "post R Q (Fault msg s) \<longleftrightarrow> False"
  "post R Q (Asleep s) \<longleftrightarrow> True"
  "post R Q (Hang s) \<longleftrightarrow> False"
  "post R Q (Exit c s) \<longleftrightarrow> True"
  by (simp_all add: post_def)

lemma hoareI: "(\<And>s e. P s \<Longrightarrow> rely R e \<Longrightarrow> post R Q (m s e)) \<Longrightarrow> hoare R P m Q"
  by (simp add: hoare_def)

lemma hoareD: "hoare R P m Q \<Longrightarrow> P s \<Longrightarrow> rely R e \<Longrightarrow> post R Q (m s e)"
  by (simp add: hoare_def)

lemma hoare_Ok:
  "hoare R P m Q \<Longrightarrow> P s \<Longrightarrow> rely R e \<Longrightarrow> m s e = Ok r s' e' \<Longrightarrow> Q r s' \<and> rely R e'"
  by (auto dest: hoareD)

lemma post_mono: "post R Q r \<Longrightarrow> (\<And>x s. Q x s \<Longrightarrow> Q' x s) \<Longrightarrow> post R Q' r"
  by (cases r) auto

lemma hoare_pre: "hoare R P' m Q \<Longrightarrow> (\<And>s. P s \<Longrightarrow> P' s) \<Longrightarrow> hoare R P m Q"
  by (simp add: hoare_def)

lemma hoare_post:
  assumes "hoare R P m Q'" and "\<And>r s. Q' r s \<Longrightarrow> Q r s"
  shows "hoare R P m Q"
proof (rule hoareI)
  fix s e
  assume "P s" "rely R e"
  then have "post R Q' (m s e)" by (rule hoareD [OF assms(1)])
  then show "post R Q (m s e)" by (rule post_mono) (rule assms(2))
qed

lemma hoare_ret: "hoare R (\<lambda>s. Q r s) (ret r) Q"
  by (rule hoareI) simp

lemma hoare_gets: "hoare R (\<lambda>s. Q (f s) s) (gets f) Q"
  by (rule hoareI) simp

lemma hoare_modify: "hoare R (\<lambda>s. Q () (f s)) (modify f) Q"
  by (rule hoareI) simp

lemma hoare_bnd:
  assumes "hoare R P m B" and "\<And>r. hoare R (B r) (f r) Q"
  shows "hoare R P (bnd m f) Q"
proof (rule hoareI)
  fix s e
  assume "P s" "rely R e"
  then have "post R B (m s e)" by (rule hoareD [OF assms(1)])
  then show "post R Q (bnd m f s e)"
    using assms(2) by (cases "m s e") (auto simp: bnd_run dest: hoareD)
qed

lemma hoare_seq:
  "hoare R P m B \<Longrightarrow> (\<And>r. hoare R (B r) n Q) \<Longrightarrow> hoare R P (seqK m n) Q"
  unfolding seqK_def by (rule hoare_bnd)

lemma hoare_if:
  "(b \<Longrightarrow> hoare R P m Q) \<Longrightarrow> (\<not> b \<Longrightarrow> hoare R P n Q) \<Longrightarrow> hoare R P (if b then m else n) Q"
  by simp

lemma hoare_when:
  "(b \<Longrightarrow> hoare R P m Q) \<Longrightarrow> (\<And>s. \<not> b \<Longrightarrow> P s \<Longrightarrow> Q () s) \<Longrightarrow> hoare R P (whenK b m) Q"
  by (cases b) (auto simp: hoare_def)

lemma hoare_for:
  assumes "\<And>x. x \<in> set xs \<Longrightarrow> hoare R I (f x) (\<lambda>_. I)"
  shows "hoare R I (forK xs f) (\<lambda>_. I)"
  using assms
proof (induction xs)
  case Nil
  show ?case by (rule hoareI) simp
next
  case (Cons x xs)
  then have "hoare R I (f x) (\<lambda>_. I)" and "hoare R I (forK xs f) (\<lambda>_. I)"
    by simp_all
  then show ?case by (simp add: hoare_seq)
qed

lemma hoare_yield:
  assumes "\<And>s s'. P s \<Longrightarrow> R s s' \<Longrightarrow> Q () s'" and "\<And>s. P s \<Longrightarrow> Q () s"
  shows "hoare R P yieldK Q"
proof (rule hoareI)
  fix s e
  assume "P s" "rely R e"
  then show "post R Q (yieldK s e)"
    using assms by (cases e) (auto simp: yieldK_def)
qed

text \<open>
  The rule for \<open>loopK\<close>: the body keeps the invariant when it goes round again, and going round
  again uses up part of the script.
\<close>

lemma hoare_loop:
  assumes body: "hoare R I body (\<lambda>r s. case r of None \<Rightarrow> I s | Some x \<Rightarrow> Q x s)"
    and prog: "\<And>s e s' e'. I s \<Longrightarrow> rely R e \<Longrightarrow> body s e = Ok None s' e' \<Longrightarrow> length e' < length e"
  shows "hoare R I (loopK body) Q"
proof (rule hoareI)
  fix s e
  assume "I s" "rely R e"
  then show "post R Q (loopK body s e)"
  proof (induction "length e" arbitrary: s e rule: less_induct)
    case less
    from hoareD [OF body less.prems] have p: "post R (\<lambda>r s. case r of None \<Rightarrow> I s | Some x \<Rightarrow> Q x s) (body s e)" .
    show ?case
    proof (cases "body s e")
      case (Ok r s' e')
      show ?thesis
      proof (cases r)
        case None
        with Ok p have "I s'" "rely R e'" by auto
        moreover have "length e' < length e"
          using prog [OF less.prems] Ok None by simp
        ultimately show ?thesis
          using less.hyps [of e' s'] Ok None by (simp add: loopK_again)
      next
        case (Some x)
        with Ok p show ?thesis by (simp add: loopK_done)
      qed
    qed (use p in \<open>auto simp: loopK.simps [of body s e]\<close>)
  qed
qed

section \<open>Generic lemmas\<close>

lemma sum_fun_upd:
  fixes f :: "'i \<Rightarrow> 'a \<Rightarrow> nat"
  assumes "finite A" and "i \<in> A"
  shows "(\<Sum>x\<in>A. f x ((g(i := v)) x)) + f i (g i) = (\<Sum>x\<in>A. f x (g x)) + f i v"
proof -
  have "(\<Sum>x\<in>A. f x ((g(i := v)) x)) = f i v + (\<Sum>x\<in>A - {i}. f x ((g(i := v)) x))"
    using assms by (simp add: sum.remove)
  also have "(\<Sum>x\<in>A - {i}. f x ((g(i := v)) x)) = (\<Sum>x\<in>A - {i}. f x (g x))"
    by (rule sum.cong) auto
  finally show ?thesis
    using assms by (simp add: sum.remove [of A i])
qed

lemma unat_inc: "x \<noteq> - 1 \<Longrightarrow> unat (x + 1 :: 'a::len word) = unat x + 1"
  by (metis Suc_eq_plus1 add.commute add_eq_0_iff unatSuc)

lemma unat_dec: "x \<noteq> 0 \<Longrightarrow> unat (x - 1 :: 'a::len word) = unat x - 1"
  by (rule unat_minus_one)


lemma find_Some_in: "find P xs = Some x \<Longrightarrow> x \<in> set xs \<and> P x"
  by (auto simp: find_Some_iff in_set_conv_nth)

end
