(* ===== verification/Memory.thy ===== *)
theory Memory
  imports Kernel_Prelude
begin

text \<open>
  The memory manager, \<^verbatim>\<open>src/mm/memory.c\<close>: the map of page frames above \<^verbatim>\<open>LOW_MEM\<close>, the single page
  directory at physical address 0 and the page tables it points to.

  Physical memory is split by page frames: \<open>phys s b i\<close> is the 32-bit word number \<open>i\<close> of the frame
  at physical address \<open>b\<close>. The code reaches memory only through a frame address and an index into
  the frame, so a pointer into a page table is such a pair. \<open>pg_dir\<close> is the frame 0.
\<close>

section \<open>Configuration\<close>

definition HIGH_MEMORY :: u32 where "HIGH_MEMORY = 0x800000"
definition BUFFER_END :: u32 where "BUFFER_END = 0x200000"
definition LOW_MEM :: u32 where
  "LOW_MEM = (if BUFFER_END < 0x100000 then 0x100000 else BUFFER_END)"
definition PAGING_MEMORY :: u32 where "PAGING_MEMORY = HIGH_MEMORY - LOW_MEM"
definition PAGING_PAGES :: nat where "PAGING_PAGES = unat PAGING_MEMORY div 4096"
definition MAP_NR :: "u32 \<Rightarrow> nat" where "MAP_NR addr = unat (drop_bit 12 (addr - LOW_MEM))"
definition SIGSEGV :: int where "SIGSEGV = 11"

lemma LOW_MEM_val [simp]: "LOW_MEM = 0x200000"
  by (simp add: LOW_MEM_def BUFFER_END_def)

lemma HIGH_MEMORY_val [simp]: "HIGH_MEMORY = 0x800000"
  by (simp add: HIGH_MEMORY_def)

lemma PAGING_PAGES_val [simp]: "PAGING_PAGES = 1536"
  by (simp add: PAGING_PAGES_def PAGING_MEMORY_def)

section \<open>State\<close>

record mm =
  mem_map :: "nat \<Rightarrow> u16"
  phys :: "u32 \<Rightarrow> nat \<Rightarrow> u32"

definition set_phys :: "u32 \<Rightarrow> nat \<Rightarrow> u32 \<Rightarrow> 'z mm_scheme \<Rightarrow> 'z mm_scheme" where
  "set_phys b i v s = s\<lparr>phys := (phys s)(b := (phys s b)(i := v))\<rparr>"

definition copy_page :: "u32 \<Rightarrow> u32 \<Rightarrow> 'z mm_scheme \<Rightarrow> 'z mm_scheme" where
  "copy_page from to s = s\<lparr>phys := (phys s)(to := phys s from)\<rparr>"

definition present :: "u32 \<Rightarrow> bool" where
  "present w \<longleftrightarrow> 1 AND w \<noteq> 0"

definition frame :: "u32 \<Rightarrow> u32" where
  "frame w = 0xfffff000 AND w"

text \<open>\<^verbatim>\<open>(addr>>20) & 0xffc\<close> is the byte offset of a directory entry, so its index is \<^verbatim>\<open>addr>>22\<close>;
  \<^verbatim>\<open>(addr>>10) & 0xffc\<close> is the byte offset of the entry \<^verbatim>\<open>(addr>>12) & 0x3ff\<close> of a table.\<close>

definition dir_index :: "u32 \<Rightarrow> nat" where
  "dir_index addr = unat (drop_bit 22 addr)"

definition table_index :: "u32 \<Rightarrow> nat" where
  "table_index addr = unat (drop_bit 12 addr AND 0x3ff)"

section \<open>Page frames\<close>

text \<open>\<^verbatim>\<open>std ; repne ; scasw\<close>: the scan goes down from the last entry of the map.\<close>

fun scan_free :: "(nat \<Rightarrow> u16) \<Rightarrow> nat \<Rightarrow> nat option" where
  "scan_free m 0 = None"
| "scan_free m (Suc i) = (if m i = 0 then Some i else scan_free m i)"

definition get_free_page :: "'z mm_scheme \<Rightarrow> u32 \<times> 'z mm_scheme" where
  "get_free_page s = (case scan_free (mem_map s) PAGING_PAGES of
     None \<Rightarrow> (0, s)
   | Some i \<Rightarrow>
       (let page = push_bit 12 (of_nat i) + LOW_MEM
        in (page, s\<lparr>mem_map := (mem_map s)(i := 1), phys := (phys s)(page := (\<lambda>_. 0))\<rparr>)))"

definition free_page :: "u32 \<Rightarrow> ('z mm_scheme, unit) km" where
  "free_page addr =
     (if addr < LOW_MEM then ret ()
      else if addr > HIGH_MEMORY then panic ''trying to free nonexistent page''
      else let i = MAP_NR addr in
        if PAGING_PAGES \<le> i then fault ''mem_map out of range''
        else bnd (gets (\<lambda>s. mem_map s i)) (\<lambda>old.
          seqK (modify (\<lambda>s. s\<lparr>mem_map := (mem_map s)(i := old - 1)\<rparr>))
            (if old \<noteq> 0 then ret ()
             else seqK (modify (\<lambda>s. s\<lparr>mem_map := (mem_map s)(i := 0)\<rparr>))
                    (panic ''trying to free free page''))))"

section \<open>Page tables\<close>

definition free_pte :: "u32 \<Rightarrow> nat \<Rightarrow> ('z mm_scheme, unit) km" where
  "free_pte pg_table nr =
     bnd (gets (\<lambda>s. phys s pg_table nr)) (\<lambda>pte.
       seqK (whenK (present pte) (free_page (frame pte)))
            (modify (set_phys pg_table nr 0)))"

definition free_dir :: "nat \<Rightarrow> ('z mm_scheme, unit) km" where
  "free_dir dir =
     (if 1024 \<le> dir then fault ''pg_dir out of range''
      else bnd (gets (\<lambda>s. phys s 0 dir)) (\<lambda>de.
        whenK (present de)
          (seqK (forK [0..<1024] (free_pte (frame de)))
             (bnd (gets (\<lambda>s. phys s 0 dir)) (\<lambda>de'.
                seqK (free_page (frame de')) (modify (set_phys 0 dir 0)))))))"

definition free_page_tables :: "u32 \<Rightarrow> u32 \<Rightarrow> ('z mm_scheme, int) km" where
  "free_page_tables from len =
     (if from AND 0x3fffff \<noteq> 0 then panic ''free_page_tables called with wrong alignment''
      else if from = 0 then panic ''Trying to free up swapper memory space''
      else let n = unat (drop_bit 22 (len + 0x3fffff)); d = dir_index from in
        seqK (forK [d..<d + n] free_dir) (ret 0))"

definition copy_pte :: "u32 \<Rightarrow> u32 \<Rightarrow> nat \<Rightarrow> ('z mm_scheme, unit) km" where
  "copy_pte from_page_table to_page_table nr =
     bnd (gets (\<lambda>s. phys s from_page_table nr)) (\<lambda>pte.
       whenK (present pte)
         (let this_page = pte AND NOT 2 in
          seqK (modify (set_phys to_page_table nr this_page))
            (whenK (this_page > LOW_MEM)
               (seqK (modify (set_phys from_page_table nr this_page))
                  (let i = MAP_NR this_page in
                   if PAGING_PAGES \<le> i then fault ''mem_map out of range''
                   else modify (\<lambda>s. s\<lparr>mem_map := (mem_map s)(i := mem_map s i + 1)\<rparr>))))))"

fun copy_dirs :: "bool \<Rightarrow> nat \<Rightarrow> nat \<Rightarrow> nat \<Rightarrow> ('z mm_scheme, int) km" where
  "copy_dirs from0 from_dir to_dir 0 = ret 0"
| "copy_dirs from0 from_dir to_dir (Suc n) =
     (if 1024 \<le> from_dir \<or> 1024 \<le> to_dir then fault ''pg_dir out of range''
      else bnd (gets (\<lambda>s. phys s 0 to_dir)) (\<lambda>tde.
        if present tde then panic ''copy_page_tables: already exist''
        else bnd (gets (\<lambda>s. phys s 0 from_dir)) (\<lambda>fde.
          if \<not> present fde then copy_dirs from0 (Suc from_dir) (Suc to_dir) n
          else bnd (runst get_free_page) (\<lambda>to_page_table.
            if to_page_table = 0 then ret (- 1)
            else seqK (modify (set_phys 0 to_dir (to_page_table OR 7)))
              (seqK (forK [0..<(if from0 then 0xA0 else 1024)]
                       (copy_pte (frame fde) to_page_table))
                 (copy_dirs from0 (Suc from_dir) (Suc to_dir) n))))))"

definition copy_page_tables :: "u32 \<Rightarrow> u32 \<Rightarrow> u32 \<Rightarrow> ('z mm_scheme, int) km" where
  "copy_page_tables from to len =
     (if from AND 0x3fffff \<noteq> 0 \<or> to AND 0x3fffff \<noteq> 0
      then panic ''copy_page_tables called with wrong alignment''
      else copy_dirs (from = 0) (dir_index from) (dir_index to)
             (unat (drop_bit 22 (len + 0x3fffff))))"

text \<open>The two diagnostics \<^verbatim>\<open>put_page\<close> may print have no effect on the state.\<close>

definition put_page :: "u32 \<Rightarrow> u32 \<Rightarrow> ('z mm_scheme, u32) km" where
  "put_page page address =
     bnd (gets (\<lambda>s. phys s 0 (dir_index address))) (\<lambda>de.
       if present de then
         seqK (modify (set_phys (frame de) (table_index address) (page OR 7))) (ret page)
       else bnd (runst get_free_page) (\<lambda>tmp.
         if tmp = 0 then ret 0
         else seqK (modify (set_phys 0 (dir_index address) (tmp OR 7)))
                (seqK (modify (set_phys tmp (table_index address) (page OR 7))) (ret page))))"

section \<open>Copy on write and page faults\<close>

text \<open>\<^verbatim>\<open>do_exit(SIGSEGV)\<close> never returns to the fault handler.\<close>

definition un_wp_page :: "u32 \<Rightarrow> nat \<Rightarrow> ('z mm_scheme, unit) km" where
  "un_wp_page tbl nr =
     bnd (gets (\<lambda>s. phys s tbl nr)) (\<lambda>te.
       let old_page = frame te in
       if old_page \<ge> LOW_MEM \<and> PAGING_PAGES \<le> MAP_NR old_page then fault ''mem_map out of range''
       else bnd (gets (\<lambda>s. old_page \<ge> LOW_MEM \<and> mem_map s (MAP_NR old_page) = 1)) (\<lambda>sole.
         if sole then modify (set_phys tbl nr (te OR 2))
         else bnd (runst get_free_page) (\<lambda>new_page.
           if new_page = 0 then exitK SIGSEGV
           else seqK (whenK (old_page \<ge> LOW_MEM)
                  (modify (\<lambda>s. s\<lparr>mem_map := (mem_map s)(MAP_NR old_page := mem_map s (MAP_NR old_page) - 1)\<rparr>)))
                (seqK (modify (set_phys tbl nr (new_page OR 7)))
                   (modify (copy_page old_page new_page))))))"

definition do_wp_page :: "u32 \<Rightarrow> u32 \<Rightarrow> ('z mm_scheme, unit) km" where
  "do_wp_page error_code address =
     bnd (gets (\<lambda>s. phys s 0 (dir_index address))) (\<lambda>de.
       un_wp_page (frame de) (table_index address))"

definition write_verify :: "u32 \<Rightarrow> ('z mm_scheme, unit) km" where
  "write_verify address =
     bnd (gets (\<lambda>s. phys s 0 (dir_index address))) (\<lambda>page.
       whenK (present page)
         (bnd (gets (\<lambda>s. phys s (frame page) (table_index address))) (\<lambda>te.
            whenK (3 AND te = 1) (un_wp_page (frame page) (table_index address)))))"

definition do_no_page :: "u32 \<Rightarrow> u32 \<Rightarrow> ('z mm_scheme, unit) km" where
  "do_no_page error_code address =
     bnd (runst get_free_page) (\<lambda>tmp.
       if tmp \<noteq> 0 then
         bnd (put_page tmp address) (\<lambda>r. if r \<noteq> 0 then ret () else exitK SIGSEGV)
       else exitK SIGSEGV)"

text \<open>\<^verbatim>\<open>calc_mem\<close> only prints: the number of free frames, and for each present directory entry
  from 2 on the number of present entries of its table.\<close>

definition calc_mem :: "'z mm_scheme \<Rightarrow> nat \<times> (nat \<times> nat) list" where
  "calc_mem s =
     (length (filter (\<lambda>i. mem_map s i = 0) [0..<PAGING_PAGES]),
      map (\<lambda>i. (i, length (filter (\<lambda>j. present (phys s (frame (phys s 0 i)) j)) [0..<1024])))
        (filter (\<lambda>i. present (phys s 0 i)) [2..<1024]))"

section \<open>Lemmas on frames and indices\<close>

definition page_addr :: "nat \<Rightarrow> u32" where
  "page_addr i = push_bit 12 (of_nat i) + LOW_MEM"

lemma unat_page_addr: "i < 1536 \<Longrightarrow> unat (page_addr i) = i * 4096 + 0x200000"
proof -
  assume i: "i < 1536"
  have "page_addr i = of_nat (i * 4096 + 0x200000)"
    by (simp add: page_addr_def push_bit_eq_mult)
  then show ?thesis
    using i by (simp add: unat_of_nat take_bit_eq_mod del: of_nat_add of_nat_mult)
qed

lemma page_addr_nz [simp]: "i < 1536 \<Longrightarrow> page_addr i \<noteq> 0"
  using unat_page_addr [of i] by auto

lemma page_addr_inj: "i < 1536 \<Longrightarrow> j < 1536 \<Longrightarrow> page_addr i = page_addr j \<longleftrightarrow> i = j"
  by (metis unat_page_addr add_right_cancel mult_right_cancel zero_neq_numeral)

lemma page_addr_ge [simp]: "i < 1536 \<Longrightarrow> 0x200000 \<le> page_addr i"
  by (simp add: word_le_nat_alt unat_page_addr)

lemma page_addr_less [simp]: "i < 1536 \<Longrightarrow> page_addr i < 0x800000"
  by (simp add: word_less_nat_alt unat_page_addr)

lemma page_addr_not_low [simp]: "i < 1536 \<Longrightarrow> \<not> page_addr i < 0x200000"
  by (simp add: not_less)

lemma page_addr_not_high [simp]: "i < 1536 \<Longrightarrow> \<not> 0x800000 < page_addr i"
  using page_addr_less [of i] by (simp add: not_less order.strict_implies_order)

lemma scan_free_Some:
  "scan_free m n = Some i \<longleftrightarrow> i < n \<and> m i = 0 \<and> (\<forall>j. i < j \<and> j < n \<longrightarrow> m j \<noteq> 0)"
  by (induction n) (auto simp: less_Suc_eq)

lemma scan_free_None: "scan_free m n = None \<longleftrightarrow> (\<forall>j<n. m j \<noteq> 0)"
  by (induction n) (auto simp: less_Suc_eq)

lemma get_free_page_cases:
  obtains (full) "\<forall>j<1536. mem_map s j \<noteq> 0" "get_free_page s = (0, s)"
  | (found) i where "i < 1536" "mem_map s i = 0" "\<forall>j. i < j \<and> j < 1536 \<longrightarrow> mem_map s j \<noteq> 0"
      "get_free_page s = (page_addr i,
         s\<lparr>mem_map := (mem_map s)(i := 1), phys := (phys s)(page_addr i := (\<lambda>_. 0))\<rparr>)"
proof (cases "scan_free (mem_map s) PAGING_PAGES")
  case None
  then have "get_free_page s = (0, s)"
    by (simp add: get_free_page_def)
  with None show ?thesis
    using full by (simp add: scan_free_None)
next
  case (Some i)
  then have "get_free_page s = (page_addr i,
      s\<lparr>mem_map := (mem_map s)(i := 1), phys := (phys s)(page_addr i := (\<lambda>_. 0))\<rparr>)"
    by (simp add: get_free_page_def page_addr_def Let_def)
  with Some show ?thesis
    using found [of i] by (simp add: scan_free_Some)
qed

lemma frame_mask: "frame w = NOT (mask 12) AND w"
proof -
  have "(0xfffff000 :: u32) = NOT (mask 12)"
    by (simp add: mask_eq_exp_minus_1)
  then show ?thesis by (simp only: frame_def)
qed

lemma frame_alt: "frame w = push_bit 12 (drop_bit 12 w)"
  by (auto simp: frame_mask bit_simps intro!: bit_word_eqI)

lemma present_bit: "present w \<longleftrightarrow> bit w 0"
  by (simp add: present_def one_and_eq bit_0 even_iff_mod_2_eq_zero)

lemma frame_or7 [simp]: "frame (w OR 7) = frame w"
  by (simp add: frame_def bit.conj_disj_distrib)

lemma frame_or2 [simp]: "frame (w OR 2) = frame w"
  by (simp add: frame_def bit.conj_disj_distrib)

text \<open>The simplifier turns \<^term>\<open>NOT 2 :: u32\<close> into \<^term>\<open>- 3 :: u32\<close>.\<close>

lemma not2: "NOT 2 = (- 3 :: u32)"
  by simp

lemma frame_and_not2 [simp]: "frame (w AND - 3) = frame w"
  unfolding not2 [symmetric]
  by (rule bit_word_eqI)
    (auto simp only: frame_mask bit_and_iff bit_not_iff bit_mask_iff bit_2_iff)

lemma present_or7 [simp]: "present (w OR 7)"
  by (simp add: present_bit bit_simps)

lemma present_and_not2 [simp]: "present (w AND - 3) = present w"
  unfolding present_bit not2 [symmetric] by (simp only: bit_and_iff bit_not_iff) simp

lemma present_or2 [simp]: "present (w OR 2) = present w"
  by (simp add: present_bit bit_simps)

lemma not_present_0 [simp]: "\<not> present 0"
  by (simp add: present_def)

lemma unat_frame: "unat (frame w) = unat w div 4096 * 4096"
proof -
  have "unat w div 4096 * 4096 \<le> unat w" by simp
  also have "unat w < 2 ^ 32" using unsigned_less [of w] by simp
  finally have "unat w div 4096 * 4096 < 2 ^ 32" .
  moreover have "unat (drop_bit 12 w) = unat w div 4096"
    by (simp add: drop_bit_eq_div unat_div)
  ultimately show ?thesis
    by (simp add: frame_alt push_bit_eq_mult unat_word_ariths take_bit_eq_mod mult.commute)
qed

lemma frame_page_addr [simp]: "i < 1536 \<Longrightarrow> frame (page_addr i) = page_addr i"
  by (rule word_unat_eq_iff [THEN iffD2]) (simp add: unat_frame unat_page_addr)

lemma MAP_NR_unat:
  "0x200000 \<le> w \<Longrightarrow> MAP_NR w = (unat w - 0x200000) div 4096"
  by (simp add: MAP_NR_def drop_bit_eq_div unat_div unat_sub)

text \<open>An entry above \<^verbatim>\<open>LOW_MEM\<close> names one frame of the map, whatever its flag bits are.\<close>

lemma frame_page_addr_ex:
  assumes "0x200000 \<le> frame w" and "frame w < 0x800000"
  shows "\<exists>i<1536. frame w = page_addr i \<and> MAP_NR w = i \<and> MAP_NR (frame w) = i"
proof -
  have lo: "0x200000 \<le> unat w div 4096 * 4096" and hi: "unat w div 4096 * 4096 < 0x800000"
    using assms by (simp_all add: word_le_nat_alt word_less_nat_alt unat_frame)
  define i where "i = unat w div 4096 - 512"
  have i: "i < 1536" "unat w div 4096 = i + 512"
    using lo hi by (auto simp: i_def)
  have w: "0x200000 \<le> w"
    using lo by (simp add: word_le_nat_alt)
  have fr: "frame w = page_addr i"
    using i by (intro word_unat_eq_iff [THEN iffD2]) (simp add: unat_frame unat_page_addr)
  have "MAP_NR w = (unat w - 512 * 4096) div 4096"
    using w by (simp add: MAP_NR_unat)
  also have "\<dots> = i" using i(2) by arith
  finally have "MAP_NR w = i" .
  moreover have "MAP_NR (frame w) = i"
    using i by (simp add: fr MAP_NR_unat unat_page_addr)
  ultimately show ?thesis using i fr by blast
qed

lemma above_LOW_MEM_iff: "present w \<Longrightarrow> w > 0x200000 \<longleftrightarrow> 0x200000 \<le> frame w"
proof -
  assume "present w"
  then have "bit (unat w) 0"
    by (simp add: present_bit bit_unsigned_iff del: bit_0)
  then have "odd (unat w)"
    by (simp add: bit_0)
  then have "unat w \<noteq> 0x200000" by auto
  then show ?thesis
    by (auto simp: word_less_nat_alt word_le_nat_alt unat_frame)
qed

lemma MAP_NR_page_addr [simp]: "i < 1536 \<Longrightarrow> MAP_NR (page_addr i) = i"
  by (simp add: MAP_NR_unat unat_page_addr)

end
