(* ===== verification/Segments.thy ===== *)
theory Segments
  imports Kernel_Prelude
begin

text \<open>
  Segment descriptors: the assembler macros of \<^verbatim>\<open>src/include/linux/sched.h\<close> and
  \<^verbatim>\<open>src/include/asm/system.h\<close> that take a descriptor apart and put it together. The eight bytes of a
  descriptor are the words \<^verbatim>\<open>a\<close> (bytes 0 to 3) and \<^verbatim>\<open>b\<close> (bytes 4 to 7), little endian.
\<close>

record desc_struct =
  desc_a :: u32
  desc_b :: u32

text \<open>\<^verbatim>\<open>_set_base\<close>: bytes 2 and 3, byte 4 and byte 7.\<close>

definition set_base :: "desc_struct \<Rightarrow> u32 \<Rightarrow> desc_struct" where
  "set_base d base = d\<lparr>
     desc_a := take_bit 16 (desc_a d) OR push_bit 16 (take_bit 16 base),
     desc_b := take_bit 8 (drop_bit 16 base) OR push_bit 8 (take_bit 16 (drop_bit 8 (desc_b d)))
       OR push_bit 24 (drop_bit 24 base)\<rparr>"

text \<open>\<^verbatim>\<open>_set_limit\<close>: bytes 0 and 1, and byte 6, whose high half is kept and ORed with bits 16 to 23 of the limit; \<^verbatim>\<open>set_limit\<close> passes the limit
  in pages, which has 20 bits.\<close>

definition set_limit_raw :: "desc_struct \<Rightarrow> u32 \<Rightarrow> desc_struct" where
  "set_limit_raw d limit = d\<lparr>
     desc_a := take_bit 16 limit OR push_bit 16 (drop_bit 16 (desc_a d)),
     desc_b := take_bit 16 (desc_b d) OR push_bit 16 (take_bit 8 (drop_bit 16 limit))
       OR push_bit 20 (drop_bit 20 (desc_b d))\<rparr>"

definition set_limit :: "desc_struct \<Rightarrow> u32 \<Rightarrow> desc_struct" where
  "set_limit d limit = set_limit_raw d (drop_bit 12 (limit - 1))"

definition get_base :: "desc_struct \<Rightarrow> u32" where
  "get_base d = drop_bit 16 (desc_a d) OR push_bit 16 (take_bit 8 (desc_b d)) OR push_bit 24 (drop_bit 24 (desc_b d))"

text \<open>
  \<^verbatim>\<open>get_limit\<close> uses the instruction \<^verbatim>\<open>lsl\<close>, which returns the limit in bytes: the 20-bit field, scaled to
  pages and filled with ones if the granularity bit is set.
\<close>

definition limit_field :: "desc_struct \<Rightarrow> u32" where
  "limit_field d = take_bit 16 (desc_a d) OR push_bit 16 (take_bit 4 (drop_bit 16 (desc_b d)))"

definition get_limit :: "desc_struct \<Rightarrow> u32" where
  "get_limit d =
     (if bit (desc_b d) 23 then push_bit 12 (limit_field d) OR mask 12 else limit_field d) + 1"

text \<open>\<^verbatim>\<open>_set_tssldt_desc\<close>: byte limit 104, the address as base, the access byte, and 0 in byte 6.\<close>

definition set_tssldt_desc :: "u32 \<Rightarrow> u32 \<Rightarrow> desc_struct" where
  "set_tssldt_desc addr type = \<lparr>
     desc_a = 104 OR push_bit 16 (take_bit 16 addr),
     desc_b = take_bit 8 (drop_bit 16 addr) OR push_bit 8 (take_bit 8 type) OR push_bit 24 (drop_bit 24 addr)\<rparr>"

definition set_tss_desc :: "u32 \<Rightarrow> desc_struct" where
  "set_tss_desc addr = set_tssldt_desc addr 0x89"

definition set_ldt_desc :: "u32 \<Rightarrow> desc_struct" where
  "set_ldt_desc addr = set_tssldt_desc addr 0x82"

section \<open>Round trips\<close>

lemma get_set_base: "get_base (set_base d base) = base"
  by (rule bit_word_eqI) (auto simp: get_base_def set_base_def bit_simps)

lemma limit_field_set_base: "limit_field (set_base d base) = limit_field d"
  by (rule bit_word_eqI) (auto simp: limit_field_def set_base_def bit_simps)

lemma limit_field_set_limit: "limit_field (set_limit_raw d n) = take_bit 20 n"
  by (rule bit_word_eqI) (auto simp: limit_field_def set_limit_raw_def bit_simps)

lemma get_base_set_limit: "get_base (set_limit_raw d n) = get_base d"
proof -
  have "drop_bit 16 (desc_a (set_limit_raw d n)) = drop_bit 16 (desc_a d)"
    by (rule bit_word_eqI) (auto simp: set_limit_raw_def bit_simps dest: bit_imp_le_length)
  moreover have "take_bit 8 (desc_b (set_limit_raw d n)) = take_bit 8 (desc_b d)"
    by (rule bit_word_eqI) (auto simp: set_limit_raw_def bit_simps)
  moreover have "drop_bit 24 (desc_b (set_limit_raw d n)) = drop_bit 24 (desc_b d)"
    by (rule bit_word_eqI) (auto simp: set_limit_raw_def bit_simps dest: bit_imp_le_length)
  ultimately show ?thesis by (simp only: get_base_def)
qed

lemma take_bit_pred_aligned: "take_bit 12 (w :: u32) = 0 \<Longrightarrow> take_bit 12 (w - 1) = mask 12"
proof (cases "w = 0")
  case False
  assume "take_bit 12 w = 0"
  then have "unat w mod 4096 = 0"
    by (simp add: take_bit_eq_mod word_unat_eq_iff unat_mod)
  then obtain q where q: "unat w = 4096 * q" by auto
  moreover have "0 < unat w" using False by (simp add: unat_gt_0)
  ultimately obtain r where "q = Suc r" by (cases q) auto
  then have "unat w - 1 = 4095 + 4096 * r" using q by simp
  then have "(unat w - 1) mod 4096 = 4095" by simp
  then have "unat (take_bit 12 (w - 1)) = unat (mask 12 :: u32)"
    using unat_minus_one [OF False] by (simp add: take_bit_eq_mod unat_mod mask_eq_exp_minus_1)
  then show ?thesis by (simp only: word_unat_eq_iff)
qed (simp add: mask_eq_exp_minus_1)

lemma granularity_set_base: "bit (desc_b (set_base d base)) 23 = bit (desc_b d) 23"
  by (simp add: set_base_def bit_simps)

lemma granularity_set_limit: "bit (desc_b (set_limit_raw d (drop_bit 12 n))) 23 = bit (desc_b d) 23"
  by (auto simp: set_limit_raw_def bit_simps dest: bit_imp_le_length)

lemma set_tssldt_base: "get_base (set_tssldt_desc addr type) = addr"
  by (rule bit_word_eqI) (auto simp: get_base_def set_tssldt_desc_def bit_simps)

text \<open>
  C33: the base written into a segment descriptor is the base read back, and writing it keeps the limit;
  the limit of a page-granular descriptor, a positive multiple of the page size, is read back too and writing it
  keeps the base. A new task or local-table descriptor has the address it was given as base.
\<close>

theorem descriptor_roundtrip:
  "get_base (set_base d base) = base \<and> get_limit (set_base d base) = get_limit d \<and>
   get_base (set_limit d limit) = get_base d \<and>
   get_base (set_tss_desc addr) = addr \<and> get_base (set_ldt_desc addr) = addr \<and>
   (bit (desc_b d) 23 \<longrightarrow> take_bit 12 limit = 0 \<longrightarrow> get_limit (set_limit d limit) = limit)"
proof -
  have "get_limit (set_limit d limit) = limit" if g: "bit (desc_b d) 23" and al: "take_bit 12 limit = 0"
  proof -
    let ?x = "limit - 1"
    have low: "take_bit 12 ?x = mask 12" using al by (rule take_bit_pred_aligned)
    have "push_bit 12 (take_bit 20 (drop_bit 12 ?x)) OR take_bit 12 ?x = ?x"
      by (rule bit_word_eqI) (auto simp: bit_simps)
    then show ?thesis
      using g low by (simp add: get_limit_def set_limit_def granularity_set_limit limit_field_set_limit)
  qed
  then show ?thesis
    by (simp add: get_set_base get_limit_def limit_field_set_base granularity_set_base set_limit_def
        get_base_set_limit set_tss_desc_def set_ldt_desc_def set_tssldt_base)
qed


theorem descriptor_roundtrip_witness:
  "get_limit (set_limit \<lparr>desc_a = 0x9f, desc_b = 0xc0fa00\<rparr> 0xa0000) = 0xa0000"
proof -
  have "bit (0xc0fa00 :: u32) 23" "take_bit 12 (0xa0000 :: u32) = 0" by simp_all
  then show ?thesis
    using descriptor_roundtrip [where d = "\<lparr>desc_a = 0x9f, desc_b = 0xc0fa00\<rparr>" and limit = "0xa0000"] by simp
qed

end
