(* ===== verification/Sched.thy ===== *)
theory Sched
  imports Memory Segments
begin

text \<open>
  The scheduler, \<^verbatim>\<open>src/kernel/sched.c\<close> and \<^verbatim>\<open>src/include/linux/sched.h\<close>: task structures, \<^verbatim>\<open>schedule\<close> with
  \<^verbatim>\<open>switch_to\<close>, sleeping and waking up, the timer tick and the simple system calls of the file.

  A task pointer is the address of the page that holds the task structure; \<^verbatim>\<open>init_task\<close> has the address
  \<open>INIT_TASK_PTR\<close> inside the kernel. \<open>tstruct s p\<close> is the structure a pointer refers to. User memory, which the kernel
  reaches through the segment register \<^verbatim>\<open>fs\<close>, is the byte array \<open>fs_mem\<close> of the current process.
\<close>

section \<open>Data\<close>

definition NR_TASKS :: nat where "NR_TASKS = 64"
definition HZ :: int where "HZ = 100"
definition TASK_RUNNING :: int where "TASK_RUNNING = 0"
definition TASK_INTERRUPTIBLE :: int where "TASK_INTERRUPTIBLE = 1"
definition TASK_UNINTERRUPTIBLE :: int where "TASK_UNINTERRUPTIBLE = 2"
definition TASK_ZOMBIE :: int where "TASK_ZOMBIE = 3"
definition TASK_STOPPED :: int where "TASK_STOPPED = 4"
definition SIGALRM :: nat where "SIGALRM = 14"
definition FIRST_TSS_ENTRY :: nat where "FIRST_TSS_ENTRY = 4"
definition FIRST_LDT_ENTRY :: nat where "FIRST_LDT_ENTRY = FIRST_TSS_ENTRY + 1"
definition INIT_TASK_PTR :: u32 where "INIT_TASK_PTR = 0x10000"

record i387_struct =
  i387_cwd :: int
  i387_swd :: int
  i387_twd :: int
  i387_fip :: int
  i387_fcs :: int
  i387_foo :: int
  i387_fos :: int
  i387_st_space :: "nat \<Rightarrow> int"

record tss_struct =
  tss_back_link :: int
  tss_esp0 :: int
  tss_ss0 :: int
  tss_esp1 :: int
  tss_ss1 :: int
  tss_esp2 :: int
  tss_ss2 :: int
  tss_cr3 :: int
  tss_eip :: int
  tss_eflags :: int
  tss_eax :: int
  tss_ecx :: int
  tss_edx :: int
  tss_ebx :: int
  tss_esp :: int
  tss_ebp :: int
  tss_esi :: int
  tss_edi :: int
  tss_es :: int
  tss_cs :: int
  tss_ss :: int
  tss_ds :: int
  tss_fs :: int
  tss_gs :: int
  tss_ldt :: int
  tss_trace_bitmap :: int
  tss_i387 :: i387_struct

record task_struct =
  t_state :: int
  t_counter :: int
  t_priority :: int
  t_signal :: u32
  t_sig_restorer :: int
  t_sig_fn :: "nat \<Rightarrow> int"
  t_exit_code :: int
  t_end_code :: u32
  t_end_data :: u32
  t_brk :: u32
  t_start_stack :: u32
  t_pid :: int
  t_father :: int
  t_pgrp :: int
  t_session :: int
  t_leader :: int
  t_uid :: u16
  t_euid :: u16
  t_suid :: u16
  t_gid :: u16
  t_egid :: u16
  t_sgid :: u16
  t_alarm :: int
  t_utime :: int
  t_stime :: int
  t_cutime :: int
  t_cstime :: int
  t_start_time :: int
  t_used_math :: u16
  t_tty :: int
  t_umask :: u16
  t_pwd :: nat
  t_root :: nat
  t_close_on_exec :: u32
  t_filp :: "nat \<Rightarrow> nat"
  t_ldt :: "nat \<Rightarrow> desc_struct"
  t_tss :: tss_struct

record sched = mm +
  task :: "nat \<Rightarrow> u32"
  tstruct :: "u32 \<Rightarrow> task_struct"
  current :: u32
  last_task_used_math :: u32
  jiffies :: int
  startup_time :: int
  gdt :: "nat \<Rightarrow> desc_struct"
  fpu :: i387_struct
  fs_mem :: "u32 \<Rightarrow> u8"

text \<open>The static initialiser of task 0; \<open>pg_dir\<close> is at address 0 and \<^verbatim>\<open>_LDT(0)\<close> is the selector of entry 5.\<close>

definition INIT_TASK :: task_struct where
  "INIT_TASK = \<lparr>t_state = 0, t_counter = 15, t_priority = 15, t_signal = 0, t_sig_restorer = 0, t_sig_fn = (\<lambda>_. 0),
     t_exit_code = 0, t_end_code = 0, t_end_data = 0, t_brk = 0, t_start_stack = 0,
     t_pid = 0, t_father = - 1, t_pgrp = 0, t_session = 0, t_leader = 0,
     t_uid = 0, t_euid = 0, t_suid = 0, t_gid = 0, t_egid = 0, t_sgid = 0,
     t_alarm = 0, t_utime = 0, t_stime = 0, t_cutime = 0, t_cstime = 0, t_start_time = 0,
     t_used_math = 0, t_tty = - 1, t_umask = 0x5b, t_pwd = 0, t_root = 0, t_close_on_exec = 0, t_filp = (\<lambda>_. 0),
     t_ldt = (\<lambda>_. \<lparr>desc_a = 0, desc_b = 0\<rparr>)(1 := \<lparr>desc_a = 0x9f, desc_b = 0xc0fa00\<rparr>, 2 := \<lparr>desc_a = 0x9f, desc_b = 0xc0f200\<rparr>),
     t_tss = \<lparr>tss_back_link = 0, tss_esp0 = 4096 + uint INIT_TASK_PTR, tss_ss0 = 0x10, tss_esp1 = 0, tss_ss1 = 0, tss_esp2 = 0,
       tss_ss2 = 0, tss_cr3 = 0, tss_eip = 0, tss_eflags = 0, tss_eax = 0, tss_ecx = 0, tss_edx = 0, tss_ebx = 0,
       tss_esp = 0, tss_ebp = 0, tss_esi = 0, tss_edi = 0, tss_es = 0x17, tss_cs = 0x17, tss_ss = 0x17, tss_ds = 0x17,
       tss_fs = 0x17, tss_gs = 0x17, tss_ldt = 0x28, tss_trace_bitmap = wrap32 0x80000000,
       tss_i387 = \<lparr>i387_cwd = 0, i387_swd = 0, i387_twd = 0, i387_fip = 0, i387_fcs = 0, i387_foo = 0, i387_fos = 0,
         i387_st_space = (\<lambda>_. 0)\<rparr>\<rparr>\<rparr>"

definition upd_task :: "u32 \<Rightarrow> (task_struct \<Rightarrow> task_struct) \<Rightarrow> 'z sched_scheme \<Rightarrow> 'z sched_scheme" where
  "upd_task p f s = s\<lparr>tstruct := (tstruct s)(p := f (tstruct s p))\<rparr>"

abbreviation cur :: "'z sched_scheme \<Rightarrow> task_struct" where
  "cur s \<equiv> tstruct s (current s)"

definition upd_cur :: "(task_struct \<Rightarrow> task_struct) \<Rightarrow> 'z sched_scheme \<Rightarrow> 'z sched_scheme" where
  "upd_cur f s = upd_task (current s) f s"

definition CURRENT_TIME :: "'z sched_scheme \<Rightarrow> int" where
  "CURRENT_TIME s = wrap32 (startup_time s + c_div (jiffies s) HZ)"

section \<open>User memory\<close>

definition get_fs_byte :: "u32 \<Rightarrow> 'z sched_scheme \<Rightarrow> u8" where
  "get_fs_byte addr s = fs_mem s addr"

definition get_fs_word :: "u32 \<Rightarrow> 'z sched_scheme \<Rightarrow> u16" where
  "get_fs_word addr s = ucast (fs_mem s addr) OR push_bit 8 (ucast (fs_mem s (addr + 1)))"

definition get_fs_long :: "u32 \<Rightarrow> 'z sched_scheme \<Rightarrow> u32" where
  "get_fs_long addr s = ucast (fs_mem s addr) OR push_bit 8 (ucast (fs_mem s (addr + 1)))
     OR push_bit 16 (ucast (fs_mem s (addr + 2))) OR push_bit 24 (ucast (fs_mem s (addr + 3)))"

definition put_fs_byte :: "u8 \<Rightarrow> u32 \<Rightarrow> 'z sched_scheme \<Rightarrow> 'z sched_scheme" where
  "put_fs_byte v addr s = s\<lparr>fs_mem := (fs_mem s)(addr := v)\<rparr>"

definition put_fs_word :: "u16 \<Rightarrow> u32 \<Rightarrow> 'z sched_scheme \<Rightarrow> 'z sched_scheme" where
  "put_fs_word v addr s = s\<lparr>fs_mem := (fs_mem s)(addr := ucast v, addr + 1 := ucast (drop_bit 8 v))\<rparr>"

definition put_fs_long :: "u32 \<Rightarrow> u32 \<Rightarrow> 'z sched_scheme \<Rightarrow> 'z sched_scheme" where
  "put_fs_long v addr s = s\<lparr>fs_mem := (fs_mem s)(addr := ucast v, addr + 1 := ucast (drop_bit 8 v),
     addr + 2 := ucast (drop_bit 16 v), addr + 3 := ucast (drop_bit 24 v))\<rparr>"

section \<open>The coprocessor\<close>

text \<open>The state of the coprocessor after \<^verbatim>\<open>fninit\<close>; \<^verbatim>\<open>fnsave\<close> stores the state and then initialises.\<close>

definition fninit :: "i387_struct \<Rightarrow> i387_struct" where
  "fninit f = f\<lparr>i387_cwd := 0x37f, i387_swd := 0, i387_twd := 0xffff, i387_fip := 0, i387_fcs := 0,
     i387_foo := 0, i387_fos := 0\<rparr>"

definition math_state_restore :: "'z sched_scheme \<Rightarrow> 'z sched_scheme" where
  "math_state_restore s =
     (let s1 = (if last_task_used_math s \<noteq> 0
                then (upd_task (last_task_used_math s) (\<lambda>t. t\<lparr>t_tss := (t_tss t)\<lparr>tss_i387 := fpu s\<rparr>\<rparr>) s)\<lparr>fpu := fninit (fpu s)\<rparr>
                else s);
          s2 = (if t_used_math (cur s1) \<noteq> 0
                then s1\<lparr>fpu := tss_i387 (t_tss (cur s1))\<rparr>
                else upd_cur (\<lambda>t. t\<lparr>t_used_math := 1\<rparr>) (s1\<lparr>fpu := fninit (fpu s1)\<rparr>))
      in s2\<lparr>last_task_used_math := current s2\<rparr>)"

section \<open>Scheduling\<close>

text \<open>The first loop of \<^verbatim>\<open>schedule\<close>: alarms, then signals for interruptible sleepers.\<close>

definition check_task :: "nat \<Rightarrow> 'z sched_scheme \<Rightarrow> 'z sched_scheme" where
  "check_task i s =
     (let p = task s i in
      if p = 0 then s
      else let s1 = (if t_alarm (tstruct s p) \<noteq> 0 \<and> t_alarm (tstruct s p) < jiffies s
                     then upd_task p (\<lambda>t. t\<lparr>t_signal := t_signal t OR push_bit (SIGALRM - 1) 1, t_alarm := 0\<rparr>) s
                     else s)
           in if t_signal (tstruct s1 p) \<noteq> 0 \<and> t_state (tstruct s1 p) = TASK_INTERRUPTIBLE
              then upd_task p (\<lambda>t. t\<lparr>t_state := TASK_RUNNING\<rparr>) s1 else s1)"

definition check_alarms :: "'z sched_scheme \<Rightarrow> 'z sched_scheme" where
  "check_alarms s = fold check_task (rev [1..<NR_TASKS]) s"

text \<open>The inner \<^verbatim>\<open>while (--i)\<close> loop: the pair is \<^verbatim>\<open>c\<close> and \<^verbatim>\<open>next\<close>.\<close>

definition pick_step :: "'z sched_scheme \<Rightarrow> nat \<Rightarrow> int \<times> nat \<Rightarrow> int \<times> nat" where
  "pick_step s i cn =
     (if task s i \<noteq> 0 \<and> t_state (tstruct s (task s i)) = TASK_RUNNING \<and> t_counter (tstruct s (task s i)) > fst cn
      then (t_counter (tstruct s (task s i)), i) else cn)"

definition pick_next :: "'z sched_scheme \<Rightarrow> int \<times> nat" where
  "pick_next s = fold (pick_step s) (rev [1..<NR_TASKS]) (- 1, 0)"

definition refill_task :: "nat \<Rightarrow> 'z sched_scheme \<Rightarrow> 'z sched_scheme" where
  "refill_task i s =
     (if task s i = 0 then s
      else upd_task (task s i) (\<lambda>t. t\<lparr>t_counter := wrap32 (t_counter t div 2 + t_priority t)\<rparr>) s)"

definition refill :: "'z sched_scheme \<Rightarrow> 'z sched_scheme" where
  "refill s = fold refill_task (rev [1..<NR_TASKS]) s"

text \<open>The outer \<^verbatim>\<open>while (1)\<close>: \<open>None\<close> if it never ends.\<close>

partial_function (option) schedule_loop :: "'z sched_scheme \<Rightarrow> (nat \<times> 'z sched_scheme) option" where
  "schedule_loop s = (if fst (pick_next s) \<noteq> 0 then Some (snd (pick_next s), s) else schedule_loop (refill s))"

text \<open>
  \<^verbatim>\<open>switch_to\<close>: nothing if the task is the current one. Otherwise the other task runs; the script says in what state the
  machine is when some task switches back to this one, which sets \<^verbatim>\<open>current\<close> again.
\<close>

definition switch_to :: "nat \<Rightarrow> ('z sched_scheme, unit) km" where
  "switch_to n = (\<lambda>s e.
     if task s n = current s then Ok () s e
     else case e of
       [] \<Rightarrow> Asleep (s\<lparr>current := task s n\<rparr>)
     | f # fs \<Rightarrow> Ok () ((f (s\<lparr>current := task s n\<rparr>))\<lparr>current := current s\<rparr>) fs)"

definition schedule :: "('z sched_scheme, unit) km" where
  "schedule = seqK (modify check_alarms)
     (\<lambda>s e. case schedule_loop s of None \<Rightarrow> Hang s | Some (nxt, s') \<Rightarrow> switch_to nxt s' e)"

definition sys_pause :: "('z sched_scheme, int) km" where
  "sys_pause = seqK (modify (upd_cur (\<lambda>t. t\<lparr>t_state := TASK_INTERRUPTIBLE\<rparr>))) (seqK schedule (ret 0))"

section \<open>Sleeping and waking\<close>

text \<open>
  A wait queue is a variable that holds a task pointer; its address is modelled by how to read and how to write it.
\<close>

record 's waitq =
  wq_get :: "'s \<Rightarrow> u32"
  wq_set :: "u32 \<Rightarrow> 's \<Rightarrow> 's"

definition wake_task :: "u32 \<Rightarrow> 'z sched_scheme \<Rightarrow> 'z sched_scheme" where
  "wake_task p s = upd_task p (\<lambda>t. t\<lparr>t_state := TASK_RUNNING\<rparr>) s"

definition sleep_on :: "'z sched_scheme waitq option \<Rightarrow> ('z sched_scheme, unit) km" where
  "sleep_on p = (case p of None \<Rightarrow> ret () | Some q \<Rightarrow>
     bnd (gets current) (\<lambda>me.
       if me = INIT_TASK_PTR then panic ''task[0] trying to sleep''
       else bnd (gets (wq_get q)) (\<lambda>tmp.
         seqK (modify (wq_set q me))
           (seqK (modify (upd_cur (\<lambda>t. t\<lparr>t_state := TASK_UNINTERRUPTIBLE\<rparr>)))
             (seqK schedule
               (whenK (tmp \<noteq> 0) (modify (wake_task tmp))))))))"

text \<open>
  The \<^verbatim>\<open>repeat\<close> loop of \<^verbatim>\<open>interruptible_sleep_on\<close>. A round may come back from \<^verbatim>\<open>schedule\<close> without having given up the
  processor (a signal is pending); before it goes round again the interrupts of the meantime act, which is
  the next entry of the script.
\<close>

definition isleep_round :: "'z sched_scheme waitq \<Rightarrow> ('z sched_scheme, bool) km" where
  "isleep_round q =
     seqK (modify (upd_cur (\<lambda>t. t\<lparr>t_state := TASK_INTERRUPTIBLE\<rparr>)))
       (seqK schedule
         (bnd (gets (\<lambda>s. wq_get q s \<noteq> 0 \<and> wq_get q s \<noteq> current s)) (\<lambda>other.
            if other then seqK (modify (\<lambda>s. wake_task (wq_get q s) s)) (ret True) else ret False)))"

function isleep_loop :: "'z sched_scheme waitq \<Rightarrow> ('z sched_scheme, unit) km" where
  "isleep_loop q s e = (case isleep_round q s e of
     Ok True s' e' \<Rightarrow>
       (if length e' < length e then isleep_loop q s' e'
        else case e of [] \<Rightarrow> Asleep s' | f # fs \<Rightarrow> isleep_loop q (f s') fs)
   | Ok False s' e' \<Rightarrow> Ok () s' e'
   | Panic msg s' \<Rightarrow> Panic msg s'
   | Fault msg s' \<Rightarrow> Fault msg s'
   | Asleep s' \<Rightarrow> Asleep s'
   | Hang s' \<Rightarrow> Hang s'
   | Exit c s' \<Rightarrow> Exit c s')"
  by pat_completeness auto
termination
  by (relation "measure (\<lambda>(q, s, e). length e)") auto

declare isleep_loop.simps [simp del]

definition interruptible_sleep_on :: "'z sched_scheme waitq option \<Rightarrow> ('z sched_scheme, unit) km" where
  "interruptible_sleep_on p = (case p of None \<Rightarrow> ret () | Some q \<Rightarrow>
     bnd (gets current) (\<lambda>me.
       if me = INIT_TASK_PTR then panic ''task[0] trying to sleep''
       else bnd (gets (wq_get q)) (\<lambda>tmp.
         seqK (modify (wq_set q me))
           (seqK (isleep_loop q)
             (seqK (modify (wq_set q 0))
               (whenK (tmp \<noteq> 0) (modify (wake_task tmp))))))))"

definition wake_up :: "'z sched_scheme waitq option \<Rightarrow> 'z sched_scheme \<Rightarrow> 'z sched_scheme" where
  "wake_up p s = (case p of None \<Rightarrow> s | Some q \<Rightarrow>
     if wq_get q s \<noteq> 0 then wq_set q 0 (wake_task (wq_get q s) s) else s)"

section \<open>The timer tick and the small system calls\<close>

definition do_timer :: "int \<Rightarrow> ('z sched_scheme, unit) km" where
  "do_timer cpl =
     seqK (modify (upd_cur (\<lambda>t. if cpl \<noteq> 0 then t\<lparr>t_utime := wrap32 (t_utime t + 1)\<rparr>
                                 else t\<lparr>t_stime := wrap32 (t_stime t + 1)\<rparr>)))
       (seqK (modify (upd_cur (\<lambda>t. t\<lparr>t_counter := wrap32 (t_counter t - 1)\<rparr>)))
         (bnd (gets (\<lambda>s. t_counter (cur s) > 0)) (\<lambda>more.
            if more then ret ()
            else seqK (modify (upd_cur (\<lambda>t. t\<lparr>t_counter := 0\<rparr>)))
                   (if cpl = 0 then ret () else schedule))))"

definition sys_alarm :: "int \<Rightarrow> 'z sched_scheme \<Rightarrow> int \<times> 'z sched_scheme" where
  "sys_alarm seconds s =
     (seconds, upd_cur (\<lambda>t. t\<lparr>t_alarm := if seconds > 0 then wrap32 (jiffies s + HZ * seconds) else 0\<rparr>) s)"

definition sys_getpid :: "'z sched_scheme \<Rightarrow> int" where "sys_getpid s = t_pid (cur s)"
definition sys_getppid :: "'z sched_scheme \<Rightarrow> int" where "sys_getppid s = t_father (cur s)"
definition sys_getuid :: "'z sched_scheme \<Rightarrow> int" where "sys_getuid s = uint (t_uid (cur s))"
definition sys_geteuid :: "'z sched_scheme \<Rightarrow> int" where "sys_geteuid s = uint (t_euid (cur s))"
definition sys_getgid :: "'z sched_scheme \<Rightarrow> int" where "sys_getgid s = uint (t_gid (cur s))"
definition sys_getegid :: "'z sched_scheme \<Rightarrow> int" where "sys_getegid s = uint (t_egid (cur s))"

definition sys_nice :: "int \<Rightarrow> 'z sched_scheme \<Rightarrow> int \<times> 'z sched_scheme" where
  "sys_nice increment s =
     (0, if wrap32 (t_priority (cur s) - increment) > 0
         then upd_cur (\<lambda>t. t\<lparr>t_priority := wrap32 (t_priority t - increment)\<rparr>) s else s)"

text \<open>The signals \<^verbatim>\<open>sys_signal\<close> lists: SIGHUP, SIGINT, SIGQUIT, SIGILL, SIGTRAP, SIGABRT, SIGFPE,
  SIGUSR1, SIGSEGV, SIGUSR2, SIGPIPE, SIGALRM and SIGCHLD.\<close>

definition catchable :: "int list" where
  "catchable = [1, 2, 3, 4, 5, 6, 8, 10, 11, 12, 13, 14, 17]"

definition sys_signal :: "int \<Rightarrow> int \<Rightarrow> int \<Rightarrow> 'z sched_scheme \<Rightarrow> int \<times> 'z sched_scheme" where
  "sys_signal sig addr restorer s =
     (if sig \<in> set catchable
      then (t_sig_fn (cur s) (nat (sig - 1)),
            upd_cur (\<lambda>t. t\<lparr>t_sig_fn := (t_sig_fn t)(nat (sig - 1) := addr), t_sig_restorer := restorer\<rparr>) s)
      else (- 1, s))"

text \<open>
  \<^verbatim>\<open>sched_init\<close>: the descriptors of task 0, then every other slot and its two descriptors cleared. Its
  programming of the timer and its interrupt gates are hardware set-up. The addresses of the task state
  segment and of the local table inside \<^verbatim>\<open>init_task\<close> are arguments.
\<close>

definition init_slot :: "nat \<Rightarrow> 'z sched_scheme \<Rightarrow> 'z sched_scheme" where
  "init_slot i s = s\<lparr>task := (task s)(i := 0),
     gdt := (gdt s)(FIRST_TSS_ENTRY + 2 * i := \<lparr>desc_a = 0, desc_b = 0\<rparr>,
                    FIRST_TSS_ENTRY + 2 * i + 1 := \<lparr>desc_a = 0, desc_b = 0\<rparr>)\<rparr>"

definition sched_init :: "u32 \<Rightarrow> u32 \<Rightarrow> 'z sched_scheme \<Rightarrow> 'z sched_scheme" where
  "sched_init tss_addr ldt_addr s =
     fold init_slot [1..<NR_TASKS]
       (s\<lparr>gdt := (gdt s)(FIRST_TSS_ENTRY := set_tss_desc tss_addr, FIRST_LDT_ENTRY := set_ldt_desc ldt_addr)\<rparr>)"

end
