(* ===== verification/Sched_Props.thy ===== *)
theory Sched_Props
  imports Sched
begin

text \<open>
  Correctness of the scheduler: the task that \<^verbatim>\<open>schedule\<close> chooses, that its loop ends, that the time slices stay
  within their bound, and that a sleeping process really gives up the processor and wakes the process that
  slept before it on the same queue.
\<close>

section \<open>Loops over the task slots\<close>

definition slots :: "nat list" where
  "slots = rev [1..<NR_TASKS]"

lemma set_slots [simp]: "set slots = {1..<64}"
  by (simp add: slots_def NR_TASKS_def del: upt_rec_numeral)

lemma distinct_slots [simp]: "distinct slots"
  by (simp add: slots_def)

text \<open>\<open>slots_inj s\<close>: no two slots above 0 hold the same task.\<close>

definition slots_inj :: "'z sched_scheme \<Rightarrow> bool" where
  "slots_inj s \<longleftrightarrow> (\<forall>i j. 1 \<le> i \<longrightarrow> i < 64 \<longrightarrow> 1 \<le> j \<longrightarrow> j < 64 \<longrightarrow> task s i \<noteq> 0 \<longrightarrow> task s i = task s j \<longrightarrow> i = j)"

lemma fold_heap:
  assumes "distinct xs" and "\<And>i j. i \<in> set xs \<Longrightarrow> j \<in> set xs \<Longrightarrow> p i \<noteq> 0 \<Longrightarrow> p i = p j \<Longrightarrow> i = j"
  shows "fold (\<lambda>i T. if p i = (0::u32) then T else T(p i := g (T (p i)))) xs T =
    (\<lambda>a. if a \<noteq> 0 \<and> a \<in> p ` set xs then g (T a) else T a)"
  using assms
proof (induction xs arbitrary: T)
  case (Cons i xs)
  have ninj: "p i \<notin> p ` set xs" if "p i \<noteq> 0"
  proof
    assume "p i \<in> p ` set xs"
    then obtain j where "j \<in> set xs" "p i = p j" by auto
    then show False using Cons.prems(1) Cons.prems(2) [of i j] that by auto
  qed
  have IH: "fold (\<lambda>i T. if p i = (0::u32) then T else T(p i := g (T (p i)))) xs U =
    (\<lambda>a. if a \<noteq> 0 \<and> a \<in> p ` set xs then g (U a) else U a)" for U
    using Cons.IH Cons.prems by simp
  show ?case
    using ninj by (auto simp: IH fun_eq_iff)
qed simp

lemma fold_slots:
  assumes step: "\<And>i s. step i s = (if task s i = 0 then s else s\<lparr>tstruct := (tstruct s)(task s i := g (jiffies s) (tstruct s (task s i)))\<rparr>)"
  shows "fold step xs s =
    s\<lparr>tstruct := fold (\<lambda>i T. if task s i = 0 then T else T(task s i := g (jiffies s) (T (task s i)))) xs (tstruct s)\<rparr>"
proof (induction xs arbitrary: s)
  case (Cons i xs)
  have 1: "task (step i s) = task s" "jiffies (step i s) = jiffies s" by (simp_all add: step)
  show ?case
    unfolding fold.simps comp_apply Cons.IH 1 by (simp add: step)
qed simp

definition checked :: "int \<Rightarrow> task_struct \<Rightarrow> task_struct" where
  "checked j t =
     (let t1 = (if t_alarm t \<noteq> 0 \<and> t_alarm t < j then t\<lparr>t_signal := t_signal t OR push_bit (SIGALRM - 1) 1, t_alarm := 0\<rparr> else t)
      in if t_signal t1 \<noteq> 0 \<and> t_state t1 = TASK_INTERRUPTIBLE then t1\<lparr>t_state := TASK_RUNNING\<rparr> else t1)"

definition in_slot :: "'z sched_scheme \<Rightarrow> u32 \<Rightarrow> bool" where
  "in_slot s p \<longleftrightarrow> p \<noteq> 0 \<and> (\<exists>i. 1 \<le> i \<and> i < 64 \<and> task s i = p)"

lemma in_slot_image: "in_slot s p \<longleftrightarrow> p \<noteq> 0 \<and> p \<in> task s ` {1..<64}"
  by (auto simp: in_slot_def)

lemma check_task_alt:
  "check_task i s = (if task s i = 0 then s else s\<lparr>tstruct := (tstruct s)(task s i := checked (jiffies s) (tstruct s (task s i)))\<rparr>)"
  by (simp add: check_task_def checked_def upd_task_def Let_def)

lemma check_alarms_state:
  assumes "slots_inj s"
  shows "check_alarms s = s\<lparr>tstruct := (\<lambda>p. if in_slot s p then checked (jiffies s) (tstruct s p) else tstruct s p)\<rparr>"
proof -
  have "check_alarms s = fold check_task slots s" by (simp add: check_alarms_def slots_def)
  also have "\<dots> = s\<lparr>tstruct := fold (\<lambda>i T. if task s i = 0 then T else T(task s i := checked (jiffies s) (T (task s i)))) slots (tstruct s)\<rparr>"
    by (rule fold_slots) (rule check_task_alt)
  also have "\<dots> = s\<lparr>tstruct := (\<lambda>p. if in_slot s p then checked (jiffies s) (tstruct s p) else tstruct s p)\<rparr>"
    using assms by (subst fold_heap) (auto simp: slots_inj_def in_slot_image fun_eq_iff)
  finally show ?thesis .
qed

definition refilled :: "task_struct \<Rightarrow> task_struct" where
  "refilled t = t\<lparr>t_counter := wrap32 (t_counter t div 2 + t_priority t)\<rparr>"

lemma refill_task_alt:
  "refill_task i s = (if task s i = 0 then s else s\<lparr>tstruct := (tstruct s)(task s i := (\<lambda>_. refilled) (jiffies s) (tstruct s (task s i)))\<rparr>)"
  by (simp add: refill_task_def refilled_def upd_task_def)

lemma refill_state:
  assumes "slots_inj s"
  shows "refill s = s\<lparr>tstruct := (\<lambda>p. if in_slot s p then refilled (tstruct s p) else tstruct s p)\<rparr>"
proof -
  have "refill s = fold refill_task slots s" by (simp add: refill_def slots_def)
  also have "\<dots> = s\<lparr>tstruct := fold (\<lambda>i T. if task s i = 0 then T else T(task s i := (\<lambda>_. refilled) (jiffies s) (T (task s i)))) slots (tstruct s)\<rparr>"
    by (rule fold_slots) (rule refill_task_alt)
  also have "\<dots> = s\<lparr>tstruct := (\<lambda>p. if in_slot s p then refilled (tstruct s p) else tstruct s p)\<rparr>"
    using assms by (subst fold_heap) (auto simp: slots_inj_def in_slot_image fun_eq_iff)
  finally show ?thesis .
qed

section \<open>The choice\<close>

definition runnable :: "'z sched_scheme \<Rightarrow> nat \<Rightarrow> bool" where
  "runnable s i \<longleftrightarrow> task s i \<noteq> 0 \<and> t_state (tstruct s (task s i)) = TASK_RUNNING"

definition slice :: "'z sched_scheme \<Rightarrow> nat \<Rightarrow> int" where
  "slice s i = t_counter (tstruct s (task s i))"

lemma pick_fold:
  fixes s :: "'z sched_scheme"
  defines "step \<equiv> pick_step s"
  shows "let (c, n) = fold step xs (c0, n0) in c0 \<le> c \<and> (\<forall>i\<in>set xs. runnable s i \<longrightarrow> slice s i \<le> c) \<and>
     ((c, n) = (c0, n0) \<or> n \<in> set xs \<and> runnable s n \<and> slice s n = c \<and> c0 < c)"
proof (induction xs arbitrary: c0 n0)
  case (Cons i xs)
  show ?case
  proof (cases "runnable s i \<and> slice s i > c0")
    case True
    then have "step i (c0, n0) = (slice s i, i)"
      by (simp add: step_def pick_step_def runnable_def slice_def)
    then show ?thesis
      using Cons.IH [of "slice s i" i] True by (auto split: prod.splits)
  next
    case False
    then have "step i (c0, n0) = (c0, n0)"
      by (auto simp: step_def pick_step_def runnable_def slice_def)
    then show ?thesis
      using Cons.IH [of c0 n0] False by (auto split: prod.splits)
  qed
qed simp

lemma pick_next_spec:
  obtains (idle) "pick_next s = (- 1, 0)" "\<And>i. 1 \<le> i \<Longrightarrow> i < 64 \<Longrightarrow> runnable s i \<Longrightarrow> slice s i \<le> - 1"
  | (found) n where "pick_next s = (slice s n, n)" "1 \<le> n" "n < 64" "runnable s n" "0 \<le> slice s n"
      "\<And>i. 1 \<le> i \<Longrightarrow> i < 64 \<Longrightarrow> runnable s i \<Longrightarrow> slice s i \<le> slice s n"
proof -
  have "pick_next s = fold (pick_step s) slots (- 1, 0)" by (simp add: pick_next_def slots_def)
  then show ?thesis
    using pick_fold [of s slots "- 1" 0] idle found by (cases "pick_next s") fastforce
qed

section \<open>Time slices\<close>

definition sched_ok :: "'z sched_scheme \<Rightarrow> bool" where
  "sched_ok s \<longleftrightarrow> slots_inj s \<and>
     (\<forall>p. in_slot s p \<longrightarrow> 0 < t_priority (tstruct s p) \<and> t_priority (tstruct s p) < 2 ^ 30 \<and>
        0 \<le> t_counter (tstruct s p) \<and> t_counter (tstruct s p) \<le> 2 * t_priority (tstruct s p))"

lemma refilled_bounds:
  assumes "0 < t_priority t" "t_priority t < 2 ^ 30" "0 \<le> t_counter t" "t_counter t \<le> 2 * t_priority t"
  shows "t_counter (refilled t) = t_counter t div 2 + t_priority t" "0 < t_counter (refilled t)"
    "t_counter (refilled t) \<le> 2 * t_priority t"
proof -
  have "in_range32 (t_counter t div 2 + t_priority t)"
    using assms by (auto simp: in_range32_def)
  then show eq: "t_counter (refilled t) = t_counter t div 2 + t_priority t"
    by (simp add: refilled_def)
  show "0 < t_counter (refilled t)" "t_counter (refilled t) \<le> 2 * t_priority t"
    unfolding eq using assms by auto
qed

lemma checked_simps [simp]: "t_priority (checked j t) = t_priority t" "t_counter (checked j t) = t_counter t"
  by (simp_all add: checked_def Let_def)

lemma refilled_simps [simp]: "t_priority (refilled t) = t_priority t" "t_state (refilled t) = t_state t"
  by (simp_all add: refilled_def)

lemma sched_ok_frame:
  assumes "sched_ok s" "task s' = task s"
    and "\<And>p. in_slot s p \<Longrightarrow> t_priority (tstruct s' p) = t_priority (tstruct s p) \<and>
       0 \<le> t_counter (tstruct s' p) \<and> t_counter (tstruct s' p) \<le> 2 * t_priority (tstruct s p)"
  shows "sched_ok s'"
proof -
  have "in_slot s' p = in_slot s p" for p using assms(2) by (simp add: in_slot_def)
  moreover have "slots_inj s' = slots_inj s" using assms(2) by (simp add: slots_inj_def)
  ultimately show ?thesis using assms(1,3) by (auto simp: sched_ok_def)
qed

lemma sched_ok_check: "sched_ok s \<Longrightarrow> sched_ok (check_alarms s)"
  by (rule sched_ok_frame [of s]) (auto simp: check_alarms_state sched_ok_def)

lemma sched_ok_refill:
  assumes ok: "sched_ok s" shows "sched_ok (refill s)"
proof (rule sched_ok_frame [OF ok])
  have inj: "slots_inj s" using ok by (simp add: sched_ok_def)
  show "task (refill s) = task s" by (simp add: refill_state [OF inj])
  fix p assume p: "in_slot s p"
  then have "tstruct (refill s) p = refilled (tstruct s p)" by (simp add: refill_state [OF inj])
  moreover have "0 < t_priority (tstruct s p)" "t_priority (tstruct s p) < 2 ^ 30"
    "0 \<le> t_counter (tstruct s p)" "t_counter (tstruct s p) \<le> 2 * t_priority (tstruct s p)"
    using ok p by (auto simp: sched_ok_def)
  note refilled_bounds [OF this]
  ultimately show "t_priority (tstruct (refill s) p) = t_priority (tstruct s p) \<and>
       0 \<le> t_counter (tstruct (refill s) p) \<and> t_counter (tstruct (refill s) p) \<le> 2 * t_priority (tstruct s p)"
    by simp
qed

lemma runnable_in_slot: "runnable s i \<Longrightarrow> 1 \<le> i \<Longrightarrow> i < 64 \<Longrightarrow> in_slot s (task s i)"
  by (auto simp: runnable_def in_slot_def)

text \<open>The slot chosen in state \<open>s\<close>: the idle task if nobody can run, else a runnable task with the longest slice.\<close>

definition best :: "'z sched_scheme \<Rightarrow> nat \<Rightarrow> bool" where
  "best s n \<longleftrightarrow> n = 0 \<and> (\<forall>i. 1 \<le> i \<longrightarrow> i < 64 \<longrightarrow> \<not> runnable s i) \<or>
     1 \<le> n \<and> n < 64 \<and> runnable s n \<and> 0 < slice s n \<and> (\<forall>i. 1 \<le> i \<longrightarrow> i < 64 \<longrightarrow> runnable s i \<longrightarrow> slice s i \<le> slice s n)"

lemma pick_done:
  assumes ok: "sched_ok s" and nz: "fst (pick_next s) \<noteq> 0"
  shows "best s (snd (pick_next s))"
proof (cases rule: pick_next_spec [of s])
  case idle
  have "0 \<le> slice s i" if "runnable s i" "1 \<le> i" "i < 64" for i
    using ok runnable_in_slot [OF that] by (auto simp: sched_ok_def slice_def)
  then show ?thesis using idle by (fastforce simp: best_def)
next
  case (found n)
  then show ?thesis using nz by (auto simp: best_def)
qed

lemma schedule_loop_ends:
  assumes ok: "sched_ok s"
  obtains n s' where "schedule_loop s = Some (n, s')" "s' = s \<or> s' = refill s" "sched_ok s'" "best s' n"
proof (cases "fst (pick_next s) = 0")
  case False
  then have "schedule_loop s = Some (snd (pick_next s), s)" by (subst schedule_loop.simps) simp
  then show ?thesis using that pick_done [OF ok False] ok by blast
next
  case True
  have ok': "sched_ok (refill s)" by (rule sched_ok_refill [OF ok])
  have inj: "slots_inj s" using ok by (simp add: sched_ok_def)
  obtain n where n: "1 \<le> n" "n < 64" "runnable s n"
    using True by (cases rule: pick_next_spec [of s]) auto
  have p: "in_slot s (task s n)" by (rule runnable_in_slot [OF n(3,1,2)])
  then have rt: "tstruct (refill s) (task s n) = refilled (tstruct s (task s n))"
    by (simp add: refill_state [OF inj])
  have "0 < t_priority (tstruct s (task s n))" "t_priority (tstruct s (task s n)) < 2 ^ 30"
    "0 \<le> t_counter (tstruct s (task s n))" "t_counter (tstruct s (task s n)) \<le> 2 * t_priority (tstruct s (task s n))"
    using ok p by (auto simp: sched_ok_def)
  from refilled_bounds(2) [OF this] have "0 < slice (refill s) n"
    using rt by (simp add: slice_def refill_state [OF inj])
  moreover have "runnable (refill s) n"
    using n(3) rt by (simp add: runnable_def refill_state [OF inj])
  ultimately have nz: "fst (pick_next (refill s)) \<noteq> 0"
    using n(1,2) by (cases rule: pick_next_spec [of "refill s"]) fastforce+
  have "schedule_loop s = schedule_loop (refill s)" using True by (subst schedule_loop.simps) simp
  also have "\<dots> = Some (snd (pick_next (refill s)), refill s)" using nz by (subst schedule_loop.simps) simp
  finally show ?thesis using that pick_done [OF ok' nz] ok' by blast
qed


lemma schedule_run:
  assumes "sched_ok s"
  obtains n s' where "\<And>e. schedule s e = switch_to n s' e" "s' = check_alarms s \<or> s' = refill (check_alarms s)"
    "sched_ok s'" "best s' n"
proof -
  obtain n s' where r: "schedule_loop (check_alarms s) = Some (n, s')" "s' = check_alarms s \<or> s' = refill (check_alarms s)"
    "sched_ok s'" "best s' n"
    by (rule schedule_loop_ends [OF sched_ok_check [OF assms]])
  then have "schedule s e = switch_to n s' e" for e by (simp add: schedule_def)
  with r(2-4) show ?thesis using that by blast
qed

section \<open>Sleeping\<close>

text \<open>
  The contract of a wait queue variable: reading gives back what was written, and writing it changes no
  task structure, no slot and not the current task. Every queue head of the kernel meets it.
\<close>

locale wait_queue =
  fixes q :: "'z sched_scheme waitq"
  assumes get_set: "wq_get q (wq_set q v s) = v"
    and set_tstruct: "tstruct (wq_set q v s) = tstruct s"
    and set_task: "task (wq_set q v s) = task s"
    and set_current: "current (wq_set q v s) = current s"
    and set_jiffies: "jiffies (wq_set q v s) = jiffies s"
    and get_tstruct: "wq_get q (s\<lparr>tstruct := T\<rparr>) = wq_get q s"
    and get_current: "wq_get q (s\<lparr>current := p\<rparr>) = wq_get q s"
begin

lemmas laws = get_set set_tstruct set_task set_current set_jiffies get_tstruct get_current

lemma wake_up_wakes:
  "wq_get q s \<noteq> 0 \<Longrightarrow> t_state (tstruct (wake_up (Some q) s) (wq_get q s)) = TASK_RUNNING"
  "wq_get q (wake_up (Some q) s) = 0"
  by (simp_all add: wake_up_def laws wake_task_def upd_task_def)

text \<open>What \<^verbatim>\<open>sleep_on\<close> does before it calls \<^verbatim>\<open>schedule\<close>.\<close>

definition asleep_in :: "'z sched_scheme \<Rightarrow> 'z sched_scheme" where
  "asleep_in s = upd_cur (\<lambda>t. t\<lparr>t_state := TASK_UNINTERRUPTIBLE\<rparr>) (wq_set q (current s) s)"

lemma asleep_in_simps:
  "task (asleep_in s) = task s" "current (asleep_in s) = current s" "wq_get q (asleep_in s) = current s"
  "t_state (tstruct (asleep_in s) (current s)) = TASK_UNINTERRUPTIBLE"
  by (simp_all add: asleep_in_def upd_cur_def upd_task_def laws)

lemma asleep_in_ok: "sched_ok s \<Longrightarrow> sched_ok (asleep_in s)"
  by (rule sched_ok_frame [of s]) (auto simp: sched_ok_def asleep_in_def upd_cur_def upd_task_def laws)

lemma sleeper_not_chosen:
  assumes ok: "sched_ok s" and me: "current s \<noteq> INIT_TASK_PTR" and t0: "task s 0 = INIT_TASK_PTR"
  obtains n s1 where "\<And>e. schedule (asleep_in s) e = switch_to n s1 e" "task s1 n \<noteq> current s" "current s1 = current s"
    "wq_get q s1 = current s" "t_state (tstruct s1 (current s)) = TASK_UNINTERRUPTIBLE" "sched_ok s1" "best s1 n"
    "task s1 = task s"
proof -
  let ?a = "asleep_in s" and ?me = "current s"
  obtain n s1 where r: "\<And>e. schedule ?a e = switch_to n s1 e" "s1 = check_alarms ?a \<or> s1 = refill (check_alarms ?a)"
    "sched_ok s1" "best s1 n" by (rule schedule_run [OF asleep_in_ok [OF ok]]) blast
  have inj: "slots_inj ?a" "slots_inj (check_alarms ?a)"
    using asleep_in_ok [OF ok] sched_ok_check [OF asleep_in_ok [OF ok]] by (simp_all add: sched_ok_def)
  have st: "t_state (checked j t) = TASK_UNINTERRUPTIBLE" if "t_state t = TASK_UNINTERRUPTIBLE" for j t
    using that by (simp add: checked_def Let_def TASK_UNINTERRUPTIBLE_def TASK_INTERRUPTIBLE_def)
  have c: "task (check_alarms ?a) = task s" "current (check_alarms ?a) = ?me" "wq_get q (check_alarms ?a) = ?me"
    "t_state (tstruct (check_alarms ?a) ?me) = TASK_UNINTERRUPTIBLE"
    by (simp_all add: check_alarms_state [OF inj(1)] asleep_in_simps laws st)
  have d: "task (refill (check_alarms ?a)) = task s" "current (refill (check_alarms ?a)) = ?me"
    "wq_get q (refill (check_alarms ?a)) = ?me"
    "t_state (tstruct (refill (check_alarms ?a)) ?me) = TASK_UNINTERRUPTIBLE"
    using c by (simp_all add: refill_state [OF inj(2)] laws)
  have s1: "task s1 = task s" "current s1 = ?me" "wq_get q s1 = ?me" "t_state (tstruct s1 ?me) = TASK_UNINTERRUPTIBLE"
    using r(2) c d by auto
  have "task s1 n \<noteq> ?me"
    using r(4) s1 me t0 by (auto simp: best_def runnable_def TASK_UNINTERRUPTIBLE_def TASK_RUNNING_def)
  then show ?thesis using that r(1,3,4) s1 by blast
qed

lemma sleep_on_run:
  assumes ok: "sched_ok s" and me: "current s \<noteq> INIT_TASK_PTR" and t0: "task s 0 = INIT_TASK_PTR"
  shows "\<exists>n s1. best s1 n \<and> sched_ok s1 \<and> task s1 n \<noteq> current s \<and> wq_get q s1 = current s \<and>
     t_state (tstruct s1 (current s)) = TASK_UNINTERRUPTIBLE \<and>
     sleep_on (Some q) s [] = Asleep (s1\<lparr>current := task s1 n\<rparr>) \<and>
     (\<forall>f fs. sleep_on (Some q) s (f # fs) =
        Ok () ((if wq_get q s = 0 then id else wake_task (wq_get q s))
                 ((f (s1\<lparr>current := task s1 n\<rparr>))\<lparr>current := current s\<rparr>)) fs)"
proof -
  obtain n s1 where r: "\<And>e. schedule (asleep_in s) e = switch_to n s1 e" "task s1 n \<noteq> current s" "current s1 = current s"
    "wq_get q s1 = current s" "t_state (tstruct s1 (current s)) = TASK_UNINTERRUPTIBLE" "sched_ok s1" "best s1 n"
    by (rule sleeper_not_chosen [OF assms]) blast
  have sl: "sleep_on (Some q) s e =
      seqK schedule (whenK (wq_get q s \<noteq> 0) (modify (wake_task (wq_get q s)))) (asleep_in s) e" for e
    using me by (simp add: sleep_on_def asleep_in_def)
  have "sleep_on (Some q) s [] = Asleep (s1\<lparr>current := task s1 n\<rparr>)"
    using r(2,3) by (simp add: sl seqK_run r(1) switch_to_def)
  moreover have "sleep_on (Some q) s (f # fs) =
        Ok () ((if wq_get q s = 0 then id else wake_task (wq_get q s))
                 ((f (s1\<lparr>current := task s1 n\<rparr>))\<lparr>current := current s\<rparr>)) fs" for f fs
    using r(2,3) by (simp add: sl seqK_run r(1) switch_to_def)
  ultimately show ?thesis using r(2-7) by blast
qed

end

text \<open>
  C6: \<^verbatim>\<open>schedule\<close> always comes to a decision, under positive priorities and slices of at most twice the priority,
  and keeps these bounds: it switches to a runnable task whose remaining slice is positive and longest, refilling all
  slices at most once, or to the idle task exactly when no task can run.
\<close>

theorem schedule_chooses_best:
  assumes "sched_ok s"
  shows "\<exists>n s'. (\<forall>e. schedule s e = switch_to n s' e) \<and> (s' = check_alarms s \<or> s' = refill (check_alarms s)) \<and>
    sched_ok s' \<and> best s' n"
  by (rule schedule_run [OF assms]) blast

text \<open>
  C31: a timer tick charges the current process: one more tick of user or of system time, by the privilege level of the interrupted code, and one tick less of its slice,
  which stops at 0; nothing else changes. If the slice is not used up, or the kernel itself was interrupted, that is all. Otherwise, and only then, the tick ends in the
  choice of \<^verbatim>\<open>schedule\<close>: a switch to a runnable process with the longest slice, with the slices refilled if need be. The bounds on the slices hold again in each case.
\<close>

theorem do_timer_slices:
  assumes ok: "sched_ok s" and me: "in_slot s (current s)"
    and s': "s' = s\<lparr>tstruct := (tstruct s)(current s := (cur s)\<lparr>t_utime := (if cpl = 0 then t_utime (cur s) else wrap32 (t_utime (cur s) + 1)),
        t_stime := (if cpl = 0 then wrap32 (t_stime (cur s) + 1) else t_stime (cur s)),
        t_counter := max 0 (t_counter (cur s) - 1)\<rparr>)\<rparr>"
  shows "sched_ok s' \<and>
     (if 1 < t_counter (cur s) \<or> cpl = 0 then \<forall>e. do_timer cpl s e = Ok () s' e
      else \<exists>n s2. (\<forall>e. do_timer cpl s e = switch_to n s2 e) \<and> sched_ok s2 \<and> best s2 n \<and> (s2 = check_alarms s' \<or> s2 = refill (check_alarms s')))"
proof -
  have b: "0 \<le> t_counter (cur s)" "t_counter (cur s) \<le> 2 * t_priority (cur s)" "t_priority (cur s) < 2 ^ 30"
    using ok me by (auto simp: sched_ok_def)
  have w: "wrap32 (t_counter (cur s) - 1) = t_counter (cur s) - 1"
    using b by (intro wrap32_id) (auto simp: in_range32_def)
  have ok': "sched_ok s'"
    by (rule sched_ok_frame [OF ok]) (use b ok in \<open>auto simp: s' sched_ok_def\<close>)
  have run: "do_timer cpl s e = (if 1 < t_counter (cur s) \<or> cpl = 0 then Ok () s' e else schedule s' e)" for e
    using b(1) by (simp add: do_timer_def s' upd_cur_def upd_task_def w)
  show ?thesis
  proof (cases "1 < t_counter (cur s) \<or> cpl = 0")
    case True
    then show ?thesis using ok' run by simp
  next
    case False
    obtain n s2 where "\<And>e. schedule s' e = switch_to n s2 e" "sched_ok s2" "best s2 n" "s2 = check_alarms s' \<or> s2 = refill (check_alarms s')"
      by (rule schedule_run [OF ok']) blast
    then show ?thesis using ok' run False by auto
  qed
qed


section \<open>A concrete scheduler state\<close>

text \<open>Task 0 and one more runnable task, which is the current one and has used up its slice.\<close>

definition ex_ptr :: u32 where
  "ex_ptr = 0x7ff000"

definition ex_sched :: sched where
  "ex_sched = \<lparr>mem_map = (\<lambda>_. 0), phys = (\<lambda>_ _. 0), task = (\<lambda>_. 0)(0 := INIT_TASK_PTR, 1 := ex_ptr),
     tstruct = (\<lambda>_. INIT_TASK)(ex_ptr := INIT_TASK\<lparr>t_counter := 0, t_pid := 1, t_father := 0\<rparr>), current = ex_ptr,
     last_task_used_math = 0, jiffies = 0, startup_time = 0, gdt = (\<lambda>_. \<lparr>desc_a = 0, desc_b = 0\<rparr>),
     fpu = tss_i387 (t_tss INIT_TASK), fs_mem = (\<lambda>_. 0)\<rparr>"

lemma ex_sched_slot: "in_slot ex_sched p \<longleftrightarrow> p = ex_ptr"
  by (auto simp: in_slot_def ex_sched_def ex_ptr_def intro: exI [of _ 1] split: if_splits)

lemma ex_sched_inj: "slots_inj ex_sched"
  by (auto simp: slots_inj_def ex_sched_def ex_ptr_def)

lemma ex_sched_ok: "sched_ok ex_sched"
  unfolding sched_ok_def ex_sched_slot
  using ex_sched_inj by (auto simp: ex_sched_def INIT_TASK_def)

theorem schedule_chooses_best_witness:
  "sched_ok ex_sched \<and> (\<exists>n s'. (\<forall>e. schedule ex_sched e = switch_to n s' e) \<and> best s' n \<and> sched_ok s')"
  using schedule_chooses_best [OF ex_sched_ok] ex_sched_ok by blast

text \<open>A tick in the kernel charges a tick of system time; a tick in user mode, at the end of the slice, chooses the next process.\<close>

theorem do_timer_slices_witness:
  "sched_ok ex_sched \<and> in_slot ex_sched (current ex_sched) \<and>
   do_timer 0 ex_sched [] = Ok () (ex_sched\<lparr>tstruct := (tstruct ex_sched)(ex_ptr := (tstruct ex_sched ex_ptr)\<lparr>t_stime := 1\<rparr>)\<rparr>) [] \<and>
   (\<exists>n s2. do_timer 3 ex_sched [] = switch_to n s2 [] \<and> sched_ok s2 \<and> best s2 n)"
proof -
  have me: "in_slot ex_sched (current ex_sched)"
    unfolding ex_sched_slot by (simp add: ex_sched_def)
  have c: "t_counter (tstruct ex_sched ex_ptr) = 0" "t_stime (tstruct ex_sched ex_ptr) = 0" "current ex_sched = ex_ptr" by (simp_all add: ex_sched_def INIT_TASK_def)
  have t: "(tstruct ex_sched ex_ptr)\<lparr>t_stime := 1, t_counter := 0\<rparr> = (tstruct ex_sched ex_ptr)\<lparr>t_stime := 1\<rparr>"
    by (simp add: ex_sched_def)
  have "do_timer 0 ex_sched [] = Ok () (ex_sched\<lparr>tstruct := (tstruct ex_sched)(ex_ptr := (tstruct ex_sched ex_ptr)\<lparr>t_stime := 1\<rparr>)\<rparr>) []"
    using do_timer_slices [OF ex_sched_ok me refl, of 0] t by (simp add: c in_range32_def)
  moreover have "\<exists>n s2. do_timer 3 ex_sched [] = switch_to n s2 [] \<and> sched_ok s2 \<and> best s2 n"
    using do_timer_slices [OF ex_sched_ok me refl, of 3] by (simp add: c) blast
  ultimately show ?thesis using ex_sched_ok me by blast
qed

end
