(* ===== verification/Hd.thy ===== *)
theory Hd
  imports Sched_Props
begin

text \<open>
  The hard disk driver, \<^verbatim>\<open>src/kernel/hd.c\<close>, with the buffer heads it fills (\<^verbatim>\<open>src/include/linux/fs.h\<close>) and
  \<^verbatim>\<open>ll_rw_block\<close> of \<^verbatim>\<open>src/fs/block_dev.c\<close>.

  Pointers to the elements of a kernel array are natural numbers: 0 is the null pointer and \<open>i + 1\<close> the
  address of element \<open>i\<close>. The controller is the part below the ports: \<open>hw_drive\<close> and \<open>hw_lba\<close> say which sector the next
  interrupt is about, \<open>hw_buf\<close> holds the sector sent to it for writing, \<open>disk\<close> the contents of the
  drives and \<open>disk_bad\<close> the sectors that cannot be read or written. It is always ready in
  time: how \<^verbatim>\<open>hd_out\<close> polls the status and panics when it is not, and how the write branch of \<^verbatim>\<open>do_request\<close> waits for the data request bit and resets the drive
  when it does not come, is the subject of \<open>hd_out_io\<close> and \<open>write_start_io\<close> in the theory \<open>Ports\<close>, at the level of the ports. The cylinder of a
  command is a number here, of which \<open>hd_out_io\<close> sends 16 bits; the drives of \<^verbatim>\<open>hd_info\<close> have 980 cylinders, and for those the two agree (theorem \<open>hd_out_registers\<close>).
  A process that waits for its own transfer is modelled together with the interrupts that complete it
  (\<open>hd_wait\<close>); the environment may act once before them.
\<close>

section \<open>Data\<close>

record buffer_head =
  b_data :: "nat \<Rightarrow> u8"
  b_dev :: u16
  b_blocknr :: u16
  b_uptodate :: u8
  b_dirt :: u8
  b_count :: u8
  b_lock :: u8
  b_wait :: u32
  b_prev :: nat
  b_next :: nat
  b_prev_free :: nat
  b_next_free :: nat

definition READ :: nat where "READ = 0"
definition WRITE :: nat where "WRITE = 1"
definition MAX_ERRORS :: int where "MAX_ERRORS = 5"
definition NR_REQUEST :: nat where "NR_REQUEST = 32"
definition NR_HD :: nat where "NR_HD = 2"
definition WIN_READ :: int where "WIN_READ = 0x20"
definition WIN_WRITE :: int where "WIN_WRITE = 0x30"

record hd_i_struct =
  hdi_head :: nat
  hdi_sect :: nat
  hdi_cyl :: nat
  hdi_wpcom :: nat
  hdi_lzone :: nat
  hdi_ctl :: nat

definition hd_info :: "nat \<Rightarrow> hd_i_struct" where
  "hd_info drive = \<lparr>hdi_head = 5, hdi_sect = 17, hdi_cyl = 980, hdi_wpcom = 300, hdi_lzone = 980, hdi_ctl = 0\<rparr>"

record hd_struct =
  start_sect :: u32
  nr_sects :: u32

record hd_request =
  r_hd :: int
  r_nsector :: int
  r_sector :: int
  r_head :: int
  r_cyl :: int
  r_cmd :: int
  r_errors :: int
  r_bh :: nat
  r_next :: nat

datatype hd_handler = No_handler | Do_request | Read_intr | Write_intr

record hdst = sched +
  bufs :: "nat \<Rightarrow> buffer_head"
  hd_parts :: "nat \<Rightarrow> hd_struct"
  request :: "nat \<Rightarrow> hd_request"
  this_request :: nat
  sorting :: bool
  do_hd :: hd_handler
  wait_for_request :: u32
  callable :: bool
  hw_drive :: nat
  hw_lba :: nat
  hw_buf :: "nat \<Rightarrow> u8"
  disk :: "nat \<Rightarrow> nat \<Rightarrow> nat \<Rightarrow> u8"
  disk_bad :: "nat \<Rightarrow> nat \<Rightarrow> bool"

definition upd_buf :: "nat \<Rightarrow> (buffer_head \<Rightarrow> buffer_head) \<Rightarrow> 'z hdst_scheme \<Rightarrow> 'z hdst_scheme" where
  "upd_buf b f s = s\<lparr>bufs := (bufs s)(b := f (bufs s b))\<rparr>"

definition upd_req :: "nat \<Rightarrow> (hd_request \<Rightarrow> hd_request) \<Rightarrow> 'z hdst_scheme \<Rightarrow> 'z hdst_scheme" where
  "upd_req r f s = s\<lparr>request := (request s)(r := f (request s r))\<rparr>"

definition b_waitq :: "nat \<Rightarrow> 'z hdst_scheme waitq" where
  "b_waitq b = \<lparr>wq_get = (\<lambda>s. b_wait (bufs s b)), wq_set = (\<lambda>p s. upd_buf b (\<lambda>h. h\<lparr>b_wait := p\<rparr>) s)\<rparr>"

definition request_waitq :: "'z hdst_scheme waitq" where
  "request_waitq = \<lparr>wq_get = wait_for_request, wq_set = (\<lambda>p s. s\<lparr>wait_for_request := p\<rparr>)\<rparr>"

interpretation b_wait_queue: wait_queue "b_waitq b" for b
  by unfold_locales (simp_all add: b_waitq_def upd_buf_def)

interpretation request_wait_queue: wait_queue request_waitq
  by unfold_locales (simp_all add: request_waitq_def)

section \<open>Buffer locks\<close>

definition lock_buffer :: "nat \<Rightarrow> 'z hdst_scheme \<Rightarrow> 'z hdst_scheme" where
  "lock_buffer b s = upd_buf b (\<lambda>h. h\<lparr>b_lock := 1\<rparr>) s"

definition unlock_buffer :: "nat \<Rightarrow> 'z hdst_scheme \<Rightarrow> 'z hdst_scheme" where
  "unlock_buffer b s = wake_up (Some (b_waitq b)) (upd_buf b (\<lambda>h. h\<lparr>b_lock := 0\<rparr>) s)"

definition wait_on_buffer :: "nat \<Rightarrow> ('z hdst_scheme, unit) km" where
  "wait_on_buffer b = loopK
     (bnd (gets (\<lambda>s. b_lock (bufs s b) \<noteq> 0)) (\<lambda>locked.
        if locked then seqK (sleep_on (Some (b_waitq b))) (ret None) else ret (Some ())))"

section \<open>Commands to the controller\<close>

definition chs_lba :: "nat \<Rightarrow> nat \<Rightarrow> nat \<Rightarrow> nat \<Rightarrow> nat" where
  "chs_lba drive cyl head sec = (cyl * hdi_head (hd_info drive) + head) * hdi_sect (hd_info drive) + (sec - 1)"

definition hd_out :: "int \<Rightarrow> int \<Rightarrow> int \<Rightarrow> int \<Rightarrow> hd_handler \<Rightarrow> ('z hdst_scheme, unit) km" where
  "hd_out drive sect head cyl intr_addr =
     (if drive > 1 \<or> head > 15 then panic ''Trying to write bad sector''
      else modify (\<lambda>s. s\<lparr>do_hd := intr_addr, hw_drive := nat drive, hw_lba := chs_lba (nat drive) (nat cyl) (nat head) (nat sect)\<rparr>))"

definition reset_hd :: "int \<Rightarrow> ('z hdst_scheme, unit) km" where
  "reset_hd nr = hd_out nr 17 (5 - 1) 977 Do_request"

text \<open>\<^verbatim>\<open>port_write\<close>: the half of the buffer from offset \<open>off\<close> goes to the controller.\<close>

definition port_write :: "nat \<Rightarrow> nat \<Rightarrow> 'z hdst_scheme \<Rightarrow> 'z hdst_scheme" where
  "port_write b off s = s\<lparr>hw_buf := (\<lambda>i. b_data (bufs s b) (off + i))\<rparr>"

definition port_read :: "nat \<Rightarrow> nat \<Rightarrow> 'z hdst_scheme \<Rightarrow> 'z hdst_scheme" where
  "port_read b off s = (upd_buf b (\<lambda>h. h\<lparr>b_data := (\<lambda>i. if off \<le> i \<and> i < off + 512
     then disk s (hw_drive s) (hw_lba s) (i - off) else b_data h i)\<rparr>) s)\<lparr>hw_lba := hw_lba s + 1\<rparr>"

text \<open>\<^verbatim>\<open>win_result()\<close> is 0 if the sector was transferred; a sector written is then on the disk.\<close>

definition win_ok :: "'z hdst_scheme \<Rightarrow> bool" where
  "win_ok s \<longleftrightarrow> \<not> disk_bad s (hw_drive s) (hw_lba s)"

definition commit_write :: "'z hdst_scheme \<Rightarrow> 'z hdst_scheme" where
  "commit_write s = s\<lparr>disk := (disk s)(hw_drive s := (disk s (hw_drive s))(hw_lba s := (\<lambda>i. if i < 512 then hw_buf s i else disk s (hw_drive s) (hw_lba s) i))),
     hw_lba := hw_lba s + 1\<rparr>"

definition half :: "int \<Rightarrow> nat" where
  "half nsector = (if odd nsector then 512 else 0)"

definition do_request :: "('z hdst_scheme, unit) km" where
  "do_request =
     bnd (gets sorting) (\<lambda>busy. if busy then ret () else
       bnd (gets this_request) (\<lambda>r.
         if r = 0 then modify (\<lambda>s. s\<lparr>do_hd := No_handler\<rparr>)
         else bnd (gets (\<lambda>s. request s r)) (\<lambda>q.
           if r_cmd q = WIN_WRITE then
             seqK (hd_out (r_hd q) (r_sector q) (r_head q) (r_cyl q) Write_intr)
               (modify (port_write (r_bh q) (half (r_nsector q))))
           else if r_cmd q = WIN_READ then
             hd_out (r_hd q) (r_sector q) (r_head q) (r_cyl q) Read_intr
           else panic ''unknown hd-command'')))"

section \<open>Interrupts\<close>

definition bad_rw_intr :: "('z hdst_scheme, unit) km" where
  "bad_rw_intr =
     bnd (gets this_request) (\<lambda>r. bnd (gets (\<lambda>s. request s r)) (\<lambda>q.
       seqK (modify (upd_req r (\<lambda>x. x\<lparr>r_errors := wrap32 (r_errors x + 1)\<rparr>)))
        (seqK (whenK (r_errors q \<ge> MAX_ERRORS)
           (modify (\<lambda>s. (upd_req r (\<lambda>x. x\<lparr>r_hd := - 1\<rparr>)
              (wake_up (Some request_waitq)
                (unlock_buffer (r_bh q) (upd_buf (r_bh q) (\<lambda>h. h\<lparr>b_uptodate := 0\<rparr>) s))))
              \<lparr>this_request := r_next q\<rparr>)))
          (reset_hd (r_hd q)))))"

definition end_request :: "('z hdst_scheme, unit) km" where
  "end_request =
     bnd (gets this_request) (\<lambda>r. bnd (gets (\<lambda>s. request s r)) (\<lambda>q.
       seqK (modify (\<lambda>s. (upd_req r (\<lambda>x. x\<lparr>r_hd := - 1\<rparr>)
              (unlock_buffer (r_bh q)
                (wake_up (Some request_waitq)
                  (upd_buf (r_bh q) (\<lambda>h. h\<lparr>b_uptodate := 1, b_dirt := 0\<rparr>) s))))\<lparr>this_request := r_next q\<rparr>))
         do_request))"

definition read_intr :: "('z hdst_scheme, unit) km" where
  "read_intr = bnd (gets win_ok) (\<lambda>ok.
     if \<not> ok then bad_rw_intr
     else bnd (gets this_request) (\<lambda>r. bnd (gets (\<lambda>s. request s r)) (\<lambda>q.
       seqK (modify (port_read (r_bh q) (half (r_nsector q))))
        (seqK (modify (upd_req r (\<lambda>x. x\<lparr>r_errors := 0, r_nsector := r_nsector x - 1\<rparr>)))
          (if r_nsector q - 1 \<noteq> 0 then ret () else end_request)))))"

definition write_intr :: "('z hdst_scheme, unit) km" where
  "write_intr = bnd (gets win_ok) (\<lambda>ok.
     if \<not> ok then bad_rw_intr
     else seqK (modify commit_write)
       (bnd (gets this_request) (\<lambda>r. bnd (gets (\<lambda>s. request s r)) (\<lambda>q.
         seqK (modify (upd_req r (\<lambda>x. x\<lparr>r_nsector := r_nsector x - 1\<rparr>)))
          (if r_nsector q - 1 \<noteq> 0 then modify (port_write (r_bh q) 512) else end_request)))))"

definition hd_interrupt :: "('z hdst_scheme, unit) km" where
  "hd_interrupt = bnd (gets do_hd) (\<lambda>h. case h of
     No_handler \<Rightarrow> panic ''Unexpected HD interrupt''
   | Do_request \<Rightarrow> do_request
   | Read_intr \<Rightarrow> read_intr
   | Write_intr \<Rightarrow> write_intr)"

text \<open>
  The wait of the process that asked for the transfer of buffer \<open>b\<close>: interrupts come as long as the
  controller has work. The result is \<open>None\<close> if they never unlock the buffer.
\<close>

partial_function (option) hd_wait :: "nat \<Rightarrow> 'z hdst_scheme \<Rightarrow> ('z hdst_scheme \<Rightarrow> 'z hdst_scheme) list \<Rightarrow> ('z hdst_scheme, unit) res option" where
  "hd_wait b s e =
     (if b_lock (bufs s b) = 0 then Some (Ok () s e)
      else if do_hd s = No_handler then Some (Asleep s)
      else case hd_interrupt s e of Ok _ s' e' \<Rightarrow> hd_wait b s' e' | r \<Rightarrow> Some r)"

section \<open>The request queue\<close>

definition IN_ORDER :: "hd_request \<Rightarrow> hd_request \<Rightarrow> bool" where
  "IN_ORDER a b \<longleftrightarrow> r_hd a < r_hd b \<or> r_hd a = r_hd b \<and>
     (r_cyl a < r_cyl b \<or> r_cyl a = r_cyl b \<and>
       (r_head a < r_head b \<or> r_head a = r_head b \<and> r_sector a < r_sector b))"

text \<open>The \<^verbatim>\<open>for\<close> loop of \<^verbatim>\<open>add_request\<close>: the request after which the new one goes.\<close>

partial_function (option) elevator_pos :: "(nat \<Rightarrow> hd_request) \<Rightarrow> nat \<Rightarrow> nat \<Rightarrow> nat option" where
  "elevator_pos rq req tmp =
     (if r_next (rq tmp) = 0 then Some tmp
      else if (IN_ORDER (rq tmp) (rq req) \<or> \<not> IN_ORDER (rq tmp) (rq (r_next (rq tmp)))) \<and>
              IN_ORDER (rq req) (rq (r_next (rq tmp))) then Some tmp
      else elevator_pos rq req (r_next (rq tmp)))"

definition link_request :: "nat \<Rightarrow> ('z hdst_scheme, unit) km" where
  "link_request req = (\<lambda>s e.
     let t = this_request s in
     if t = 0 then Ok () (s\<lparr>this_request := req\<rparr>) e
     else if r_next (request s t) = 0 then Ok () (upd_req t (\<lambda>x. x\<lparr>r_next := req\<rparr>) s) e
     else case elevator_pos (request s) req (r_next (request s t)) of
       None \<Rightarrow> Hang s
     | Some p \<Rightarrow> Ok () (upd_req p (\<lambda>x. x\<lparr>r_next := req\<rparr>) (upd_req req (\<lambda>x. x\<lparr>r_next := r_next (request s p)\<rparr>) s)) e)"

definition add_request :: "nat \<Rightarrow> ('z hdst_scheme, unit) km" where
  "add_request req =
     bnd (gets (\<lambda>s. r_nsector (request s req))) (\<lambda>n.
       if n \<noteq> 2 then panic ''nsector!=2 not implemented''
       else seqK (modify (\<lambda>s. s\<lparr>sorting := True\<rparr>))
         (seqK (link_request req)
           (seqK (modify (\<lambda>s. s\<lparr>sorting := False\<rparr>))
             (bnd (gets do_hd) (\<lambda>h. if h = No_handler then do_request else ret ())))))"

text \<open>The first request that is not in use, or \<^verbatim>\<open>NR_REQUEST+request\<close>.\<close>

definition free_request :: "'z hdst_scheme \<Rightarrow> nat" where
  "free_request s = (case find (\<lambda>i. r_hd (request s i) < 0) [1..<NR_REQUEST + 1] of None \<Rightarrow> NR_REQUEST + 1 | Some i \<Rightarrow> i)"

definition get_request :: "('z hdst_scheme, nat) km" where
  "get_request = loopK
     (bnd (gets free_request) (\<lambda>req.
        if req = NR_REQUEST + 1 then seqK (sleep_on (Some request_waitq)) (ret None) else ret (Some req)))"

definition rw_abs_hd :: "nat \<Rightarrow> nat \<Rightarrow> nat \<Rightarrow> nat \<Rightarrow> nat \<Rightarrow> nat \<Rightarrow> ('z hdst_scheme, unit) km" where
  "rw_abs_hd rw nr sec head cyl b =
     (if rw \<noteq> READ \<and> rw \<noteq> WRITE then panic ''Bad hd command, must be R/W''
      else seqK (modify (lock_buffer b))
        (bnd get_request (\<lambda>req.
          seqK (modify (upd_req req (\<lambda>_. \<lparr>r_hd = int nr, r_nsector = 2, r_sector = int sec, r_head = int head, r_cyl = int cyl,
                  r_cmd = (if rw = READ then WIN_READ else WIN_WRITE), r_errors = 0, r_bh = b, r_next = 0\<rparr>)))
           (seqK (add_request req)
             (seqK yieldK (\<lambda>s e. case hd_wait b s e of None \<Rightarrow> Hang s | Some r \<Rightarrow> r))))))"

definition MINOR :: "u16 \<Rightarrow> nat" where "MINOR a = unat (a AND 0xff)"
definition MAJOR :: "u16 \<Rightarrow> nat" where "MAJOR a = unat (drop_bit 8 a)"

definition rw_hd :: "nat \<Rightarrow> nat \<Rightarrow> ('z hdst_scheme, unit) km" where
  "rw_hd rw b =
     bnd (gets (\<lambda>s. bufs s b)) (\<lambda>bh. bnd (gets hd_parts) (\<lambda>part.
       let block = push_bit 1 (ucast (b_blocknr bh)) :: u32; dev = MINOR (b_dev bh) in
       if dev \<ge> 5 * NR_HD \<or> block + 2 > nr_sects (part dev) then ret ()
       else let block' = unat (block + start_sect (part dev)); d = dev div 5;
                sec = block' mod hdi_sect (hd_info d); trk = block' div hdi_sect (hd_info d);
                head = trk mod hdi_head (hd_info d); cyl = trk div hdi_head (hd_info d)
            in rw_abs_hd rw d (sec + 1) head cyl b))"

definition NR_BLK_DEV :: nat where "NR_BLK_DEV = 7"

text \<open>The table \<^verbatim>\<open>rd_blk\<close> has one entry that is not null, \<^verbatim>\<open>rw_hd\<close> for major number 3.\<close>

definition ll_rw_block :: "nat \<Rightarrow> nat \<Rightarrow> ('z hdst_scheme, unit) km" where
  "ll_rw_block rw b =
     bnd (gets (\<lambda>s. MAJOR (b_dev (bufs s b)))) (\<lambda>major.
       if major \<ge> NR_BLK_DEV \<or> major \<noteq> 3 then panic ''Trying to read nonexistent block-device''
       else rw_hd rw b)"

definition hd_init :: "'z hdst_scheme \<Rightarrow> 'z hdst_scheme" where
  "hd_init s = s\<lparr>
     request := (\<lambda>i. if 1 \<le> i \<and> i \<le> NR_REQUEST then (request s i)\<lparr>r_hd := - 1, r_next := 0\<rparr> else request s i),
     hd_parts := (\<lambda>i. if i mod 5 = 0 \<and> i div 5 < NR_HD
                then \<lparr>start_sect = 0, nr_sects = of_nat (hdi_head (hd_info (i div 5)) * hdi_sect (hd_info (i div 5)) * hdi_cyl (hd_info (i div 5)))\<rparr>
                else hd_parts s i)\<rparr>"

end
