(* ===== verification/Hd_Props.thy ===== *)
theory Hd_Props
  imports Hd
begin

text \<open>
  Correctness of the disk driver: a transfer on an idle controller moves exactly the two sectors of
  the block, the address computation is invertible, and the request queue is kept in the order of one sweep
  of the heads.
\<close>

section \<open>One transfer\<close>

definition hd_idle :: "'z hdst_scheme \<Rightarrow> bool" where
  "hd_idle s \<longleftrightarrow> this_request s = 0 \<and> do_hd s = No_handler \<and> \<not> sorting s \<and> wait_for_request s = 0 \<and>
     free_request s \<le> NR_REQUEST"

lemma get_request_idle: "hd_idle s \<Longrightarrow> get_request s e = Ok (free_request s) s e"
  unfolding get_request_def by (rule loopK_done) (auto simp: hd_idle_def)

definition rd_sectors :: "(nat \<Rightarrow> nat \<Rightarrow> nat \<Rightarrow> u8) \<Rightarrow> nat \<Rightarrow> nat \<Rightarrow> (nat \<Rightarrow> u8) \<Rightarrow> nat \<Rightarrow> u8" where
  "rd_sectors D d l old i = (if i < 512 then D d l i else if i < 1024 then D d (l + 1) (i - 512) else old i)"

definition queued :: "nat \<Rightarrow> hd_request \<Rightarrow> 'z hdst_scheme \<Rightarrow> 'z hdst_scheme" where
  "queued b q s = (lock_buffer b s)\<lparr>request := (request s)(free_request s := q), this_request := free_request s\<rparr>"

lemma free_request_lock [simp]: "free_request (lock_buffer b s) = free_request s"
  by (simp add: free_request_def lock_buffer_def upd_buf_def)

lemma hd_idle_lock [simp]: "hd_idle (lock_buffer b s) = hd_idle s"
  by (simp add: hd_idle_def, simp add: lock_buffer_def upd_buf_def)

lemma add_request_idle:
  assumes "this_request s = 0" "do_hd s = No_handler" "\<not> sorting s"
    and q: "request s req = q" "r_nsector q = 2" "r_hd q \<le> 1" "r_head q \<le> 15" and r: "req \<noteq> 0"
  shows "r_cmd q = WIN_READ \<Longrightarrow> add_request req s e =
      Ok () (s\<lparr>this_request := req, do_hd := Read_intr, hw_drive := nat (r_hd q),
        hw_lba := chs_lba (nat (r_hd q)) (nat (r_cyl q)) (nat (r_head q)) (nat (r_sector q))\<rparr>) e"
    and "r_cmd q = WIN_WRITE \<Longrightarrow> add_request req s e =
      Ok () (s\<lparr>this_request := req, do_hd := Write_intr, hw_drive := nat (r_hd q),
        hw_lba := chs_lba (nat (r_hd q)) (nat (r_cyl q)) (nat (r_head q)) (nat (r_sector q)),
        hw_buf := (\<lambda>i. b_data (bufs s (r_bh q)) i)\<rparr>) e"
  using assms
  by (simp_all add: add_request_def link_request_def do_request_def hd_out_def port_write_def half_def
      WIN_READ_def WIN_WRITE_def Let_def)

text \<open>The second half of the transfer: the interrupt after which the request is finished.\<close>

lemma end_request_last:
  assumes "this_request s = r" "request s r = q" "r_next q = 0" "\<not> sorting s" "wait_for_request s = 0"
    "b_wait (bufs s (r_bh q)) = 0"
  shows "end_request s e = Ok () (s\<lparr>bufs := (bufs s)(r_bh q := (bufs s (r_bh q))\<lparr>b_uptodate := 1, b_dirt := 0, b_lock := 0\<rparr>),
      request := (request s)(r := q\<lparr>r_hd := - 1\<rparr>), this_request := 0, do_hd := No_handler\<rparr>) e"
  using assms
  by (simp add: end_request_def do_request_def unlock_buffer_def wake_up_def request_waitq_def b_waitq_def upd_buf_def upd_req_def)

lemma read_intr_first:
  assumes "this_request s = r" "request s r = q" "r_nsector q = 2" "win_ok s"
  shows "read_intr s e = Ok () (upd_req r (\<lambda>x. x\<lparr>r_errors := 0, r_nsector := 1\<rparr>) (port_read (r_bh q) 0 s)) e"
  using assms
  by (simp add: read_intr_def half_def port_read_def upd_buf_def upd_req_def)

lemma read_intr_second:
  assumes "this_request s = r" "request s r = q" "r_nsector q = 1" "win_ok s"
  shows "read_intr s e = end_request (upd_req r (\<lambda>x. x\<lparr>r_errors := 0, r_nsector := 0\<rparr>) (port_read (r_bh q) 512 s)) e"
  using assms
  by (simp add: read_intr_def half_def port_read_def upd_buf_def upd_req_def)

lemma write_intr_first:
  assumes "this_request s = r" "request s r = q" "r_nsector q = 2" "win_ok s"
  shows "write_intr s e = Ok () (port_write (r_bh q) 512 (upd_req r (\<lambda>x. x\<lparr>r_nsector := 1\<rparr>) (commit_write s))) e"
  using assms
  by (simp add: write_intr_def commit_write_def upd_req_def port_write_def)

lemma write_intr_second:
  assumes "this_request s = r" "request s r = q" "r_nsector q = 1" "win_ok s"
  shows "write_intr s e = end_request (upd_req r (\<lambda>x. x\<lparr>r_nsector := 0\<rparr>) (commit_write s)) e"
  using assms
  by (simp add: write_intr_def commit_write_def upd_req_def port_write_def)

lemma hd_wait_irq:
  assumes "b_lock (bufs s b) \<noteq> 0" "do_hd s \<noteq> No_handler" "hd_interrupt s e = Ok () s' e'"
  shows "hd_wait b s e = hd_wait b s' e'"
  using assms by (subst hd_wait.simps) simp

lemma hd_wait_done: "b_lock (bufs s b) = 0 \<Longrightarrow> hd_wait b s e = Some (Ok () s e)"
  by (subst hd_wait.simps) simp

lemma hd_read_wait:
  assumes s: "do_hd s = Read_intr" "this_request s = r" "request s r = q" "\<not> sorting s" "wait_for_request s = 0"
    "hw_drive s = d" "hw_lba s = l"
    and q: "r_nsector q = 2" "r_next q = 0" "r_bh q = b" and b: "b_lock (bufs s b) \<noteq> 0" "b_wait (bufs s b) = 0"
    and good: "\<not> disk_bad s d l" "\<not> disk_bad s d (l + 1)"
  shows "hd_wait b s e = Some (Ok () (s\<lparr>
     bufs := (bufs s)(b := (bufs s b)\<lparr>b_data := rd_sectors (disk s) d l (b_data (bufs s b)), b_uptodate := 1, b_dirt := 0, b_lock := 0\<rparr>),
     request := (request s)(r := q\<lparr>r_hd := - 1, r_nsector := 0, r_errors := 0\<rparr>), this_request := 0, do_hd := No_handler, hw_lba := l + 2\<rparr>) e)"
proof -
  define s1 where "s1 = upd_req r (\<lambda>x. x\<lparr>r_errors := 0, r_nsector := 1\<rparr>) (port_read b 0 s)"
  have "hd_interrupt s e = Ok () s1 e"
    using read_intr_first [OF s(2,3) q(1), of e] s q(3) good by (simp add: hd_interrupt_def s1_def win_ok_def)
  then have 1: "hd_wait b s e = hd_wait b s1 e"
    using b(1) s(1) by (intro hd_wait_irq) simp_all
  define q1 where "q1 = q\<lparr>r_errors := 0, r_nsector := 1\<rparr>"
  have s1: "this_request s1 = r" "request s1 r = q1" "do_hd s1 = Read_intr" "b_lock (bufs s1 b) \<noteq> 0" "hw_drive s1 = d" "hw_lba s1 = l + 1"
    "disk_bad s1 = disk_bad s"
    using s q(3) b by (simp_all add: s1_def port_read_def upd_buf_def upd_req_def q1_def)
  define s2 where "s2 = upd_req r (\<lambda>x. x\<lparr>r_errors := 0, r_nsector := 0\<rparr>) (port_read b 512 s1)"
  have "hd_interrupt s1 e = end_request s2 e"
    using read_intr_second [OF s1(1,2), of e] s1 q(3) good by (simp add: hd_interrupt_def s2_def win_ok_def q1_def)
  also have "\<dots> = Ok () (s2\<lparr>bufs := (bufs s2)(b := (bufs s2 b)\<lparr>b_uptodate := 1, b_dirt := 0, b_lock := 0\<rparr>),
      request := (request s2)(r := q\<lparr>r_errors := 0, r_nsector := 0, r_hd := - 1\<rparr>), this_request := 0, do_hd := No_handler\<rparr>) e"
    using s q b by (subst end_request_last [of s2 r "q\<lparr>r_errors := 0, r_nsector := 0\<rparr>"])
      (simp_all add: s2_def s1_def port_read_def upd_buf_def upd_req_def)
  finally have "hd_wait b s1 e = hd_wait b (s2\<lparr>bufs := (bufs s2)(b := (bufs s2 b)\<lparr>b_uptodate := 1, b_dirt := 0, b_lock := 0\<rparr>),
      request := (request s2)(r := q\<lparr>r_errors := 0, r_nsector := 0, r_hd := - 1\<rparr>), this_request := 0, do_hd := No_handler\<rparr>) e"
    using s1 by (intro hd_wait_irq) simp_all
  also have "\<dots> = Some (Ok () (s2\<lparr>bufs := (bufs s2)(b := (bufs s2 b)\<lparr>b_uptodate := 1, b_dirt := 0, b_lock := 0\<rparr>),
      request := (request s2)(r := q\<lparr>r_errors := 0, r_nsector := 0, r_hd := - 1\<rparr>), this_request := 0, do_hd := No_handler\<rparr>) e)"
    by (rule hd_wait_done) simp
  finally show ?thesis
    unfolding 1 using s q(3)
    by (simp add: s2_def s1_def port_read_def upd_buf_def upd_req_def) (auto simp: rd_sectors_def fun_eq_iff)
qed


definition wr_sectors :: "(nat \<Rightarrow> nat \<Rightarrow> nat \<Rightarrow> u8) \<Rightarrow> nat \<Rightarrow> nat \<Rightarrow> (nat \<Rightarrow> u8) \<Rightarrow> nat \<Rightarrow> nat \<Rightarrow> nat \<Rightarrow> u8" where
  "wr_sectors D d l v = (\<lambda>d' l' i.
     if d' = d \<and> l' = l \<and> i < 512 then v i
     else if d' = d \<and> l' = l + 1 \<and> i < 512 then v (512 + i)
     else D d' l' i)"

lemma hd_write_wait:
  assumes s: "do_hd s = Write_intr" "this_request s = r" "request s r = q" "\<not> sorting s" "wait_for_request s = 0"
    "hw_drive s = d" "hw_lba s = l" "hw_buf s = (\<lambda>i. b_data (bufs s b) i)"
    and q: "r_nsector q = 2" "r_next q = 0" "r_bh q = b" and b: "b_lock (bufs s b) \<noteq> 0" "b_wait (bufs s b) = 0"
    and good: "\<not> disk_bad s d l" "\<not> disk_bad s d (l + 1)"
  shows "hd_wait b s e = Some (Ok () (s\<lparr>
     bufs := (bufs s)(b := (bufs s b)\<lparr>b_uptodate := 1, b_dirt := 0, b_lock := 0\<rparr>),
     request := (request s)(r := q\<lparr>r_hd := - 1, r_nsector := 0\<rparr>), this_request := 0, do_hd := No_handler, hw_lba := l + 2,
     hw_buf := (\<lambda>i. b_data (bufs s b) (512 + i)), disk := wr_sectors (disk s) d l (b_data (bufs s b))\<rparr>) e)"
proof -
  define s1 where "s1 = port_write b 512 (upd_req r (\<lambda>x. x\<lparr>r_nsector := 1\<rparr>) (commit_write s))"
  have "hd_interrupt s e = Ok () s1 e"
    using write_intr_first [OF s(2,3) q(1), of e] s q(3) good by (simp add: hd_interrupt_def s1_def win_ok_def)
  then have 1: "hd_wait b s e = hd_wait b s1 e"
    using b(1) s(1) by (intro hd_wait_irq) simp_all
  define q1 where "q1 = q\<lparr>r_nsector := 1\<rparr>"
  have s1: "this_request s1 = r" "request s1 r = q1" "do_hd s1 = Write_intr" "b_lock (bufs s1 b) \<noteq> 0" "hw_drive s1 = d" "hw_lba s1 = l + 1"
    "disk_bad s1 = disk_bad s"
    using s q(3) b by (simp_all add: s1_def port_write_def commit_write_def upd_req_def q1_def)
  define s2 where "s2 = upd_req r (\<lambda>x. x\<lparr>r_nsector := 0\<rparr>) (commit_write s1)"
  have "hd_interrupt s1 e = end_request s2 e"
    using write_intr_second [OF s1(1,2), of e] s1 q(3) good by (simp add: hd_interrupt_def s2_def win_ok_def q1_def)
  also have "\<dots> = Ok () (s2\<lparr>bufs := (bufs s2)(b := (bufs s2 b)\<lparr>b_uptodate := 1, b_dirt := 0, b_lock := 0\<rparr>),
      request := (request s2)(r := q\<lparr>r_nsector := 0, r_hd := - 1\<rparr>), this_request := 0, do_hd := No_handler\<rparr>) e"
    using s q b by (subst end_request_last [of s2 r "q\<lparr>r_nsector := 0\<rparr>"])
      (simp_all add: s2_def s1_def port_write_def commit_write_def upd_req_def)
  finally have "hd_wait b s1 e = hd_wait b (s2\<lparr>bufs := (bufs s2)(b := (bufs s2 b)\<lparr>b_uptodate := 1, b_dirt := 0, b_lock := 0\<rparr>),
      request := (request s2)(r := q\<lparr>r_nsector := 0, r_hd := - 1\<rparr>), this_request := 0, do_hd := No_handler\<rparr>) e"
    using s1 by (intro hd_wait_irq) simp_all
  also have "\<dots> = Some (Ok () (s2\<lparr>bufs := (bufs s2)(b := (bufs s2 b)\<lparr>b_uptodate := 1, b_dirt := 0, b_lock := 0\<rparr>),
      request := (request s2)(r := q\<lparr>r_nsector := 0, r_hd := - 1\<rparr>), this_request := 0, do_hd := No_handler\<rparr>) e)"
    by (rule hd_wait_done) simp
  finally show ?thesis
    unfolding 1 using s q(3)
    by (simp add: s2_def s1_def port_write_def commit_write_def upd_req_def) (auto simp: wr_sectors_def fun_eq_iff)
qed

text \<open>
  What a finished transfer leaves of the driver's own variables: \<open>hd_frame s s'\<close> says that \<open>s'\<close> differs from \<open>s\<close> only in buffers, disk
  contents, the request table and the registers of the controller.
\<close>

definition hd_frame :: "'z hdst_scheme \<Rightarrow> 'z hdst_scheme \<Rightarrow> bool" where
  "hd_frame s s' \<longleftrightarrow> s' = s\<lparr>bufs := bufs s', disk := disk s', request := request s', hw_drive := hw_drive s', hw_lba := hw_lba s', hw_buf := hw_buf s'\<rparr>"

lemma hd_frame_refl [simp]: "hd_frame s s"
  by (simp add: hd_frame_def)

lemma hd_frame_trans: "hd_frame s1 s2 \<Longrightarrow> hd_frame s2 s3 \<Longrightarrow> hd_frame s1 s3"
  unfolding hd_frame_def by (cases s1; cases s2; cases s3) simp

lemma free_request_le: "r_hd (request s r) < 0 \<Longrightarrow> 1 \<le> r \<Longrightarrow> r \<le> NR_REQUEST \<Longrightarrow> free_request s \<le> NR_REQUEST"
proof -
  assume r: "r_hd (request s r) < 0" "1 \<le> r" "r \<le> NR_REQUEST"
  then have "find (\<lambda>i. r_hd (request s i) < 0) [1..<NR_REQUEST + 1] \<noteq> None"
    by (auto simp: find_None_iff)
  then obtain i where i: "find (\<lambda>i. r_hd (request s i) < 0) [1..<NR_REQUEST + 1] = Some i" by auto
  from find_Some_in [OF this] have "1 \<le> i" "i \<le> NR_REQUEST" by auto
  then show ?thesis using i by (simp add: free_request_def)
qed

lemma free_request_ge: "1 \<le> free_request s"
proof (cases "find (\<lambda>i. r_hd (request s i) < 0) [1..<NR_REQUEST + 1]")
  case (Some i)
  from find_Some_in [OF this] have "1 \<le> i" by auto
  then show ?thesis using Some by (simp add: free_request_def)
qed (simp add: free_request_def)

lemma rw_abs_hd_start:
  assumes idle: "hd_idle s" and rw: "rw = READ \<or> rw = WRITE" and nr: "nr \<le> 1" "head \<le> 15"
    and q: "q = \<lparr>r_hd = int nr, r_nsector = 2, r_sector = int sec, r_head = int head, r_cyl = int cyl,
                  r_cmd = (if rw = READ then WIN_READ else WIN_WRITE), r_errors = 0, r_bh = b, r_next = 0\<rparr>"
    and w: "hd_wait b (if rw = READ
        then (queued b q s)\<lparr>do_hd := Read_intr, hw_drive := nr, hw_lba := chs_lba nr cyl head sec\<rparr>
        else (queued b q s)\<lparr>do_hd := Write_intr, hw_drive := nr, hw_lba := chs_lba nr cyl head sec,
               hw_buf := (\<lambda>i. b_data (bufs s b) i)\<rparr>) [] = Some r"
  shows "rw_abs_hd rw nr sec head cyl b s [] = r"
proof -
  let ?f = "free_request s"
  have f0: "?f \<noteq> 0" using free_request_ge [of s] by simp
  have i: "this_request s = 0" "do_hd s = No_handler" "\<not> sorting s" using idle by (auto simp: hd_idle_def)
  let ?s1 = "upd_req ?f (\<lambda>_. q) (lock_buffer b s)"
  have a: "add_request ?f ?s1 [] = Ok () (if rw = READ
        then (queued b q s)\<lparr>do_hd := Read_intr, hw_drive := nr, hw_lba := chs_lba nr cyl head sec\<rparr>
        else (queued b q s)\<lparr>do_hd := Write_intr, hw_drive := nr, hw_lba := chs_lba nr cyl head sec,
               hw_buf := (\<lambda>i. b_data (bufs s b) i)\<rparr>) []"
  proof (cases "rw = READ")
    case True
    then show ?thesis using i f0 nr q
      by (subst add_request_idle(1) [of ?s1 ?f q]) (simp_all add: upd_req_def lock_buffer_def upd_buf_def queued_def)
  next
    case False
    then show ?thesis using i f0 nr q
      by (subst add_request_idle(2) [of ?s1 ?f q]) (simp_all add: upd_req_def lock_buffer_def upd_buf_def queued_def)
  qed
  have "rw_abs_hd rw nr sec head cyl b s [] =
     seqK (add_request ?f) (seqK yieldK (\<lambda>s e. case hd_wait b s e of None \<Rightarrow> Hang s | Some r \<Rightarrow> r)) ?s1 []"
    using rw get_request_idle [of "lock_buffer b s" "[]"] idle
    by (auto simp: rw_abs_hd_def q [symmetric])
  then show ?thesis using w by (simp add: a yieldK_def)
qed

lemma rw_abs_hd_read:
  assumes idle: "hd_idle s" and nr: "nr \<le> 1" "head \<le> 15" and bw: "b_wait (bufs s b) = 0"
    and l: "l = chs_lba nr cyl head sec" and good: "\<not> disk_bad s nr l" "\<not> disk_bad s nr (l + 1)"
  shows "\<exists>s'. rw_abs_hd READ nr sec head cyl b s [] = Ok () s' [] \<and> hd_idle s' \<and> hd_frame s s' \<and> disk s' = disk s \<and>
    bufs s' = (bufs s)(b := (bufs s b)\<lparr>b_data := rd_sectors (disk s) nr l (b_data (bufs s b)), b_uptodate := 1, b_dirt := 0, b_lock := 0\<rparr>)"
proof -
  define q where "q = \<lparr>r_hd = int nr, r_nsector = 2, r_sector = int sec, r_head = int head, r_cyl = int cyl,
                  r_cmd = (if READ = READ then WIN_READ else WIN_WRITE), r_errors = 0, r_bh = b, r_next = 0\<rparr>"
  let ?s = "(queued b q s)\<lparr>do_hd := Read_intr, hw_drive := nr, hw_lba := chs_lba nr cyl head sec\<rparr>"
  let ?f = "free_request s"
  have i: "this_request s = 0" "do_hd s = No_handler" "\<not> sorting s" "wait_for_request s = 0" "?f \<le> NR_REQUEST"
    using idle by (auto simp: hd_idle_def)
  let ?s' = "s\<lparr>bufs := (bufs s)(b := (bufs s b)\<lparr>b_data := rd_sectors (disk s) nr l (b_data (bufs s b)), b_uptodate := 1, b_dirt := 0, b_lock := 0\<rparr>),
     request := (request s)(?f := q\<lparr>r_hd := - 1, r_nsector := 0, r_errors := 0\<rparr>), hw_drive := nr, hw_lba := l + 2\<rparr>"
  have "hd_wait b ?s [] = Some (Ok () ?s' [])"
    using i bw l good
    by (subst hd_read_wait [where q = q and r = ?f and d = nr and l = l])
      (simp_all add: queued_def lock_buffer_def upd_buf_def q_def)
  then have "rw_abs_hd READ nr sec head cyl b s [] = Ok () ?s' []"
    by (intro rw_abs_hd_start [OF idle _ nr q_def]) simp_all
  moreover have "hd_idle ?s'"
    using i free_request_le [of ?s' ?f] free_request_ge [of s] by (simp add: hd_idle_def)
  ultimately show ?thesis by (intro exI [of _ ?s']) (simp add: hd_frame_def)
qed

lemma rw_abs_hd_write:
  assumes idle: "hd_idle s" and nr: "nr \<le> 1" "head \<le> 15" and bw: "b_wait (bufs s b) = 0"
    and l: "l = chs_lba nr cyl head sec" and good: "\<not> disk_bad s nr l" "\<not> disk_bad s nr (l + 1)"
  shows "\<exists>s'. rw_abs_hd WRITE nr sec head cyl b s [] = Ok () s' [] \<and> hd_idle s' \<and> hd_frame s s' \<and>
    disk s' = wr_sectors (disk s) nr l (b_data (bufs s b)) \<and>
    bufs s' = (bufs s)(b := (bufs s b)\<lparr>b_uptodate := 1, b_dirt := 0, b_lock := 0\<rparr>)"
proof -
  define q where "q = \<lparr>r_hd = int nr, r_nsector = 2, r_sector = int sec, r_head = int head, r_cyl = int cyl,
                  r_cmd = (if WRITE = READ then WIN_READ else WIN_WRITE), r_errors = 0, r_bh = b, r_next = 0\<rparr>"
  let ?s = "(queued b q s)\<lparr>do_hd := Write_intr, hw_drive := nr, hw_lba := chs_lba nr cyl head sec,
               hw_buf := (\<lambda>i. b_data (bufs s b) i)\<rparr>"
  let ?f = "free_request s"
  have i: "this_request s = 0" "do_hd s = No_handler" "\<not> sorting s" "wait_for_request s = 0" "?f \<le> NR_REQUEST"
    using idle by (auto simp: hd_idle_def)
  let ?s' = "s\<lparr>bufs := (bufs s)(b := (bufs s b)\<lparr>b_uptodate := 1, b_dirt := 0, b_lock := 0\<rparr>),
     request := (request s)(?f := q\<lparr>r_hd := - 1, r_nsector := 0\<rparr>), hw_drive := nr, hw_lba := l + 2,
     hw_buf := (\<lambda>i. b_data (bufs s b) (512 + i)), disk := wr_sectors (disk s) nr l (b_data (bufs s b))\<rparr>"
  have "hd_wait b ?s [] = Some (Ok () ?s' [])"
    using i bw l good
    by (subst hd_write_wait [where q = q and r = ?f and d = nr and l = l])
      (simp_all add: queued_def lock_buffer_def upd_buf_def q_def)
  then have "rw_abs_hd WRITE nr sec head cyl b s [] = Ok () ?s' []"
    by (intro rw_abs_hd_start [OF idle _ nr q_def]) (simp_all add: READ_def WRITE_def)
  moreover have "hd_idle ?s'"
    using i free_request_le [of ?s' ?f] free_request_ge [of s] by (simp add: hd_idle_def)
  ultimately show ?thesis by (intro exI [of _ ?s']) (simp add: hd_frame_def)
qed


section \<open>Blocks of a partition\<close>

text \<open>The drive of a device number and the first of the two sectors of a block.\<close>

definition dev_drive :: "u16 \<Rightarrow> nat" where
  "dev_drive dev = MINOR dev div 5"

definition dev_lba :: "'z hdst_scheme \<Rightarrow> u16 \<Rightarrow> u16 \<Rightarrow> nat" where
  "dev_lba s dev blk = 2 * unat blk + unat (start_sect (hd_parts s (MINOR dev)))"

text \<open>\<open>hd_block s dev blk\<close>: the block exists on a hard disk partition, and its sectors are not damaged.\<close>

definition hd_block :: "'z hdst_scheme \<Rightarrow> u16 \<Rightarrow> u16 \<Rightarrow> bool" where
  "hd_block s dev blk \<longleftrightarrow> MAJOR dev = 3 \<and> MINOR dev < 10 \<and>
     2 * unat blk + 2 \<le> unat (nr_sects (hd_parts s (MINOR dev))) \<and> dev_lba s dev blk < 2 ^ 32 \<and>
     \<not> disk_bad s (dev_drive dev) (dev_lba s dev blk) \<and> \<not> disk_bad s (dev_drive dev) (dev_lba s dev blk + 1)"

lemma chs_lba_inverse:
  "chs_lba d (n div 17 div 5) (n div 17 mod 5) (n mod 17 + 1) = n"
  by (simp add: chs_lba_def hd_info_def)

lemma unat_block_sectors: "unat (push_bit 1 (ucast (blk :: u16)) :: u32) = 2 * unat blk"
proof -
  have "unat blk < 2 ^ 16" using unsigned_less [of blk] by simp
  then show ?thesis by (simp add: push_bit_eq_mult unat_word_ariths unsigned_ucast_eq take_bit_eq_mod)
qed

lemma rw_hd_abs:
  assumes "hd_block s dev blk" and b: "b_dev (bufs s b) = dev" "b_blocknr (bufs s b) = blk"
  defines "n \<equiv> dev_lba s dev blk"
  shows "rw_hd rw b s e = rw_abs_hd rw (dev_drive dev) (n mod 17 + 1) (n div 17 mod 5) (n div 17 div 5) b s e"
proof -
  have blk: "unat blk < 65536" using unsigned_less [of blk] by simp
  let ?blk = "push_bit 1 (ucast blk) :: u32"
  have u: "unat ?blk = 2 * unat blk" by (rule unat_block_sectors)
  have "unat (?blk + 2) = 2 * unat blk + 2"
    using u blk by (simp add: unat_word_ariths)
  then have c: "\<not> ?blk + 2 > nr_sects (hd_parts s (MINOR dev))"
    using assms(1) by (simp add: hd_block_def word_less_nat_alt)
  have "unat (?blk + start_sect (hd_parts s (MINOR dev))) = n"
    using assms(1) u by (simp add: unat_word_ariths hd_block_def n_def dev_lba_def)
  then show ?thesis
    using assms(1) b c by (simp add: rw_hd_def Let_def hd_block_def NR_HD_def dev_drive_def hd_info_def)
qed

lemma dev_drive_le: "hd_block s dev blk \<Longrightarrow> dev_drive dev \<le> 1"
  by (auto simp: hd_block_def dev_drive_def)

lemma ll_rw_block_hd:
  "hd_block s dev blk \<Longrightarrow> b_dev (bufs s b) = dev \<Longrightarrow> ll_rw_block rw b s e = rw_hd rw b s e"
  by (simp add: ll_rw_block_def NR_BLK_DEV_def hd_block_def)

lemma ll_rw_block_run:
  assumes "hd_idle s" "hd_block s dev blk" "b_dev (bufs s b) = dev" "b_blocknr (bufs s b) = blk" "b_wait (bufs s b) = 0"
  shows "\<exists>s'. ll_rw_block READ b s [] = Ok () s' [] \<and> hd_idle s' \<and> hd_frame s s' \<and> disk s' = disk s \<and>
      bufs s' = (bufs s)(b := (bufs s b)\<lparr>b_data := rd_sectors (disk s) (dev_drive dev) (dev_lba s dev blk) (b_data (bufs s b)),
        b_uptodate := 1, b_dirt := 0, b_lock := 0\<rparr>)"
    and "\<exists>s'. ll_rw_block WRITE b s [] = Ok () s' [] \<and> hd_idle s' \<and> hd_frame s s' \<and>
      disk s' = wr_sectors (disk s) (dev_drive dev) (dev_lba s dev blk) (b_data (bufs s b)) \<and>
      bufs s' = (bufs s)(b := (bufs s b)\<lparr>b_uptodate := 1, b_dirt := 0, b_lock := 0\<rparr>)"
proof -
  let ?n = "dev_lba s dev blk"
  have run: "ll_rw_block rw b s [] = rw_abs_hd rw (dev_drive dev) (?n mod 17 + 1) (?n div 17 mod 5) (?n div 17 div 5) b s []" for rw
    using ll_rw_block_hd [OF assms(2,3)] rw_hd_abs [OF assms(2-4)] by simp
  have h: "?n div 17 mod 5 \<le> 15" by (rule order_trans [of _ 4]) auto
  have good: "\<not> disk_bad s (dev_drive dev) ?n" "\<not> disk_bad s (dev_drive dev) (?n + 1)"
    using assms(2) by (auto simp: hd_block_def)
  show "\<exists>s'. ll_rw_block READ b s [] = Ok () s' [] \<and> hd_idle s' \<and> hd_frame s s' \<and> disk s' = disk s \<and>
      bufs s' = (bufs s)(b := (bufs s b)\<lparr>b_data := rd_sectors (disk s) (dev_drive dev) ?n (b_data (bufs s b)),
        b_uptodate := 1, b_dirt := 0, b_lock := 0\<rparr>)"
    unfolding run
    by (rule rw_abs_hd_read [OF assms(1) dev_drive_le [OF assms(2)] h assms(5) chs_lba_inverse [symmetric] good])
  show "\<exists>s'. ll_rw_block WRITE b s [] = Ok () s' [] \<and> hd_idle s' \<and> hd_frame s s' \<and>
      disk s' = wr_sectors (disk s) (dev_drive dev) ?n (b_data (bufs s b)) \<and>
      bufs s' = (bufs s)(b := (bufs s b)\<lparr>b_uptodate := 1, b_dirt := 0, b_lock := 0\<rparr>)"
    unfolding run
    by (rule rw_abs_hd_write [OF assms(1) dev_drive_le [OF assms(2)] h assms(5) chs_lba_inverse [symmetric] good])
qed

text \<open>
  C17: \<^verbatim>\<open>ll_rw_block\<close> on a block of a hard disk partition, with the controller idle, nobody else waiting
  and no damaged sector. A read fills the buffer with the
  two sectors of the block, a write stores the buffer in exactly these sectors; the buffer ends up to date, clean and unlocked,
  no other buffer changes, and the controller is idle again. The cylinder, head and sector computed by \<^verbatim>\<open>rw_hd\<close> name
  just that sector.
\<close>

theorem ll_rw_block_transfers:
  assumes "hd_idle s" "hd_block s dev blk" "b_dev (bufs s b) = dev" "b_blocknr (bufs s b) = blk" "b_wait (bufs s b) = 0"
  shows "(\<exists>s'. ll_rw_block READ b s [] = Ok () s' [] \<and> hd_idle s' \<and> hd_frame s s' \<and> disk s' = disk s \<and>
      bufs s' = (bufs s)(b := (bufs s b)\<lparr>b_data := rd_sectors (disk s) (dev_drive dev) (dev_lba s dev blk) (b_data (bufs s b)),
        b_uptodate := 1, b_dirt := 0, b_lock := 0\<rparr>)) \<and>
    (\<exists>s'. ll_rw_block WRITE b s [] = Ok () s' [] \<and> hd_idle s' \<and> hd_frame s s' \<and>
      disk s' = wr_sectors (disk s) (dev_drive dev) (dev_lba s dev blk) (b_data (bufs s b)) \<and>
      bufs s' = (bufs s)(b := (bufs s b)\<lparr>b_uptodate := 1, b_dirt := 0, b_lock := 0\<rparr>))"
  using ll_rw_block_run [OF assms] by blast

section \<open>Retries\<close>

lemma hd_read_retry:
  assumes s: "do_hd s = Read_intr" "this_request s = r" "request s r = q" "\<not> sorting s" "wait_for_request s = 0"
    "hw_drive s = d" "hw_lba s = l" "r \<noteq> 0"
    and q: "r_nsector q = 2" "r_next q = 0" "r_bh q = b" "r_errors q = 0" "r_cmd q = WIN_READ"
      "r_hd q = int d" "d \<le> 1" "r_head q \<le> 15" "l = chs_lba d (nat (r_cyl q)) (nat (r_head q)) (nat (r_sector q))"
    and b: "b_lock (bufs s b) \<noteq> 0" "b_wait (bufs s b) = 0"
    and bad: "\<not> disk_bad s d l" "disk_bad s d (l + 1)"
  shows "\<exists>s'. hd_wait b s e = Some (Ok () s' e) \<and> b_uptodate (bufs s' b) = 1 \<and> b_lock (bufs s' b) = 0 \<and>
     (\<forall>i. b_data (bufs s' b) i = (if i < 512 then disk s d l i else if i < 1024 then disk s d l (i - 512) else b_data (bufs s b) i))"
proof -
  define s1 where "s1 = upd_req r (\<lambda>x. x\<lparr>r_errors := 0, r_nsector := 1\<rparr>) (port_read b 0 s)"
  have "hd_interrupt s e = Ok () s1 e"
    using read_intr_first [OF s(2,3) q(1), of e] s q(3) bad by (simp add: hd_interrupt_def s1_def win_ok_def)
  then have 1: "hd_wait b s e = hd_wait b s1 e"
    using b(1) s(1) by (intro hd_wait_irq) simp_all
  have s1: "this_request s1 = r" "request s1 r = q\<lparr>r_errors := 0, r_nsector := 1\<rparr>" "do_hd s1 = Read_intr" "b_lock (bufs s1 b) \<noteq> 0"
    "hw_drive s1 = d" "hw_lba s1 = l + 1" "disk_bad s1 = disk_bad s" "\<not> sorting s1"
    using s q(3) b by (simp_all add: s1_def port_read_def upd_buf_def upd_req_def)
  define s2 where "s2 = (upd_req r (\<lambda>x. x\<lparr>r_errors := 1\<rparr>) s1)\<lparr>do_hd := Do_request, hw_drive := d, hw_lba := chs_lba d 977 4 17\<rparr>"
  have "hd_interrupt s1 e = Ok () s2 e"
    using s1 q bad by (simp add: hd_interrupt_def read_intr_def win_ok_def bad_rw_intr_def MAX_ERRORS_def reset_hd_def hd_out_def
        s2_def upd_req_def in_range32_def)
  then have 2: "hd_wait b s1 e = hd_wait b s2 e"
    using s1 by (intro hd_wait_irq) simp_all
  define q2 where "q2 = q\<lparr>r_nsector := 1, r_errors := 1\<rparr>"
  have s2: "this_request s2 = r" "request s2 r = q2" "do_hd s2 = Do_request" "b_lock (bufs s2 b) \<noteq> 0" "\<not> sorting s2"
    using s1 by (simp_all add: s2_def upd_req_def q2_def)
  define s3 where "s3 = s2\<lparr>do_hd := Read_intr, hw_drive := d, hw_lba := l\<rparr>"
  have "hd_interrupt s2 e = Ok () s3 e"
    using s2 s(8) q by (simp add: hd_interrupt_def do_request_def hd_out_def s3_def q2_def WIN_READ_def WIN_WRITE_def)
  then have 3: "hd_wait b s2 e = hd_wait b s3 e"
    using s2 by (intro hd_wait_irq) simp_all
  define s4 where "s4 = upd_req r (\<lambda>x. x\<lparr>r_errors := 0, r_nsector := 0\<rparr>) (port_read b 512 s3)"
  have s3: "this_request s3 = r" "request s3 r = q2" "r_nsector q2 = 1" "win_ok s3" "r_bh q2 = b" "do_hd s3 = Read_intr" "b_lock (bufs s3 b) \<noteq> 0"
    using s2 s1 s q bad by (simp_all add: s3_def q2_def win_ok_def s2_def upd_req_def s1_def port_read_def upd_buf_def)
  have i3: "hd_interrupt s3 e = end_request s4 e"
    using read_intr_second [OF s3(1-4), of e] s3(5,6) by (simp add: hd_interrupt_def s4_def)
  obtain s5 where s5: "end_request s4 e = Ok () s5 e"
    "bufs s5 = (bufs s4)(b := (bufs s4 b)\<lparr>b_uptodate := 1, b_dirt := 0, b_lock := 0\<rparr>)"
  proof
    have "request s4 r = q\<lparr>r_errors := 0, r_nsector := 0\<rparr>" "this_request s4 = r" "\<not> sorting s4" "wait_for_request s4 = 0"
      "b_wait (bufs s4 b) = 0"
      using s b by (simp_all add: s4_def s3_def s2_def s1_def port_read_def upd_buf_def upd_req_def)
    then show "end_request s4 e = Ok () (s4\<lparr>bufs := (bufs s4)(b := (bufs s4 b)\<lparr>b_uptodate := 1, b_dirt := 0, b_lock := 0\<rparr>),
      request := (request s4)(r := q\<lparr>r_errors := 0, r_nsector := 0, r_hd := - 1\<rparr>), this_request := 0, do_hd := No_handler\<rparr>) e"
      using q by (subst end_request_last [of s4 r "q\<lparr>r_errors := 0, r_nsector := 0\<rparr>"]) simp_all
  qed simp
  then have 4: "hd_wait b s3 e = Some (Ok () s5 e)"
    using i3 s3 s5 hd_wait_irq [of s3 b e s5 e] hd_wait_done [of s5 b e] by simp
  have "b_data (bufs s5 b) i = (if i < 512 then disk s d l i else if i < 1024 then disk s d l (i - 512) else b_data (bufs s b) i)" for i
    using s(6,7) by (simp add: s5(2) s4_def s3_def s2_def s1_def port_read_def upd_buf_def upd_req_def)
  then show ?thesis using 1 2 3 4 s5(2) by (intro exI [of _ s5]) simp
qed

text \<open>
  C39: when the second sector of a block is damaged, the driver does not report an error. After the failed interrupt it
  issues the request again for one sector, from the first sector of the block, and stores
  it as the second half: the read returns with the buffer marked up to date and both halves equal to the first sector.
\<close>

theorem read_retry_duplicates_first_sector:
  assumes idle: "hd_idle s" and nr: "nr \<le> 1" "head \<le> 15" and bw: "b_wait (bufs s b) = 0"
    and l: "l = chs_lba nr cyl head sec" and bad: "\<not> disk_bad s nr l" "disk_bad s nr (l + 1)"
  shows "\<exists>s'. rw_abs_hd READ nr sec head cyl b s [] = Ok () s' [] \<and> b_uptodate (bufs s' b) = 1 \<and>
    (\<forall>i<512. b_data (bufs s' b) i = disk s nr l i \<and> b_data (bufs s' b) (512 + i) = disk s nr l i)"
proof -
  define q where "q = \<lparr>r_hd = int nr, r_nsector = 2, r_sector = int sec, r_head = int head, r_cyl = int cyl,
                  r_cmd = (if READ = READ then WIN_READ else WIN_WRITE), r_errors = 0, r_bh = b, r_next = 0\<rparr>"
  let ?s = "(queued b q s)\<lparr>do_hd := Read_intr, hw_drive := nr, hw_lba := chs_lba nr cyl head sec\<rparr>"
  let ?f = "free_request s"
  have i: "this_request s = 0" "do_hd s = No_handler" "\<not> sorting s" "wait_for_request s = 0" "?f \<noteq> 0"
    using idle free_request_ge [of s] by (auto simp: hd_idle_def)
  obtain s' where s': "hd_wait b ?s [] = Some (Ok () s' [])" "b_uptodate (bufs s' b) = 1"
     "\<forall>i. b_data (bufs s' b) i = (if i < 512 then disk ?s nr l i else if i < 1024 then disk ?s nr l (i - 512) else b_data (bufs ?s b) i)"
  proof -
    have "\<exists>s'. hd_wait b ?s [] = Some (Ok () s' []) \<and> b_uptodate (bufs s' b) = 1 \<and> b_lock (bufs s' b) = 0 \<and>
     (\<forall>i. b_data (bufs s' b) i = (if i < 512 then disk ?s nr l i else if i < 1024 then disk ?s nr l (i - 512) else b_data (bufs ?s b) i))"
      using i bw l bad nr
      by (intro hd_read_retry [where r = ?f and q = q]) (simp_all add: queued_def lock_buffer_def upd_buf_def q_def)
    then show ?thesis using that by blast
  qed
  then have "rw_abs_hd READ nr sec head cyl b s [] = Ok () s' []"
    by (intro rw_abs_hd_start [OF idle _ nr q_def]) simp_all
  then show ?thesis using s'(2,3) by (intro exI [of _ s']) (simp add: queued_def lock_buffer_def upd_buf_def)
qed

section \<open>A concrete driver state\<close>

definition ex_buf :: buffer_head where
  "ex_buf = \<lparr>b_data = (\<lambda>_. 0), b_dev = 0, b_blocknr = 0, b_uptodate = 0, b_dirt = 0, b_count = 0, b_lock = 0, b_wait = 0,
     b_prev = 0, b_next = 0, b_prev_free = 0, b_next_free = 0\<rparr>"

definition ex_req :: hd_request where
  "ex_req = \<lparr>r_hd = - 1, r_nsector = 0, r_sector = 0, r_head = 0, r_cyl = 0, r_cmd = 0, r_errors = 0, r_bh = 0, r_next = 0\<rparr>"

text \<open>Two drives with one partition of 1000 sectors each (minor numbers 1 and 6); the byte \<open>i\<close> of sector \<open>l\<close> is \<open>l + i\<close>.
  Sector 15 of drive 0 is damaged.\<close>

definition ex_hd :: hdst where
  "ex_hd = sched.extend ex_sched (hdst.fields (\<lambda>_. ex_buf)
     (\<lambda>i. if i = 1 \<or> i = 6 then \<lparr>start_sect = 1, nr_sects = 1000\<rparr> else \<lparr>start_sect = 0, nr_sects = 0\<rparr>)
     (\<lambda>_. ex_req) 0 False No_handler 0 True 0 0 (\<lambda>_. 0) (\<lambda>d l i. of_nat (l + i)) (\<lambda>d l. d = 0 \<and> l = 15))"

definition ex_hd_buf :: hdst where
  "ex_hd_buf = upd_buf 1 (\<lambda>h. h\<lparr>b_dev := 0x301, b_blocknr := 3\<rparr>) ex_hd"

lemmas ex_hd_defs = ex_hd_def hdst.defs sched.defs ex_sched_def

lemma ex_hd_idle: "hd_idle ex_hd_buf"
  by (simp add: hd_idle_def ex_hd_buf_def ex_hd_defs upd_buf_def free_request_def ex_req_def NR_REQUEST_def del: upt_rec_numeral)
    (simp add: upt_conv_Cons del: upt_rec_numeral)

lemma ex_hd_block: "hd_block ex_hd_buf 0x301 3"
  by (simp add: hd_block_def ex_hd_buf_def ex_hd_defs upd_buf_def MAJOR_def MINOR_def dev_lba_def dev_drive_def)

theorem ll_rw_block_transfers_witness:
  "hd_idle ex_hd_buf \<and> hd_block ex_hd_buf 0x301 3 \<and>
   (\<exists>s'. ll_rw_block READ 1 ex_hd_buf [] = Ok () s' [] \<and> b_data (bufs s' 1) 5 = 12 \<and> b_data (bufs s' 1) 517 = 13)"
proof -
  have b: "b_dev (bufs ex_hd_buf 1) = 0x301" "b_blocknr (bufs ex_hd_buf 1) = 3" "b_wait (bufs ex_hd_buf 1) = 0"
    by (simp_all add: ex_hd_buf_def upd_buf_def ex_hd_defs ex_buf_def)
  have l: "dev_lba ex_hd_buf 0x301 3 = 7" "dev_drive 0x301 = 0"
    by (simp_all add: dev_lba_def dev_drive_def ex_hd_buf_def upd_buf_def ex_hd_defs MINOR_def)
  have d: "disk ex_hd_buf = (\<lambda>d l i. of_nat (l + i))"
    by (simp add: ex_hd_buf_def upd_buf_def ex_hd_defs)
  show ?thesis
    using ll_rw_block_transfers [OF ex_hd_idle ex_hd_block b] ex_hd_idle ex_hd_block
    by (auto simp: l d rd_sectors_def)
qed


theorem read_retry_duplicates_first_sector_witness:
  "\<exists>s'. rw_abs_hd READ 0 15 0 0 1 ex_hd_buf [] = Ok () s' [] \<and> b_uptodate (bufs s' 1) = 1 \<and>
    b_data (bufs s' 1) 512 = disk ex_hd_buf 0 14 0"
proof -
  have "\<not> disk_bad ex_hd_buf 0 14" "disk_bad ex_hd_buf 0 (14 + 1)" "b_wait (bufs ex_hd_buf 1) = 0"
    by (simp_all add: ex_hd_buf_def upd_buf_def ex_hd_defs ex_buf_def)
  moreover have "14 = chs_lba 0 0 0 15" by (simp add: chs_lba_def hd_info_def)
  ultimately have "\<exists>s'. rw_abs_hd READ 0 15 0 0 1 ex_hd_buf [] = Ok () s' [] \<and> b_uptodate (bufs s' 1) = 1 \<and>
    (\<forall>i<512. b_data (bufs s' 1) i = disk ex_hd_buf 0 14 i \<and> b_data (bufs s' 1) (512 + i) = disk ex_hd_buf 0 14 i)"
    by (intro read_retry_duplicates_first_sector [OF ex_hd_idle]) simp_all
  then show ?thesis by force
qed

end
