(* ===== verification/Hd_Elevator.thy ===== *)
theory Hd_Elevator
  imports Hd_Props "HOL-Library.Product_Lexorder"
begin

text \<open>
  The elevator of \<^verbatim>\<open>add_request\<close>. The request queue is a linked list through \<^verbatim>\<open>next\<close>; behind the
  request in service, its positions form one sweep of the heads in increasing order followed by the beginning
  of the next sweep. \<open>add_request\<close> keeps this shape.
\<close>

section \<open>Insertion on lists of positions\<close>

fun sweep_insert :: "'a::linorder \<Rightarrow> 'a list \<Rightarrow> 'a list" where
  "sweep_insert k [] = [k]"
| "sweep_insert k [x] = [x, k]"
| "sweep_insert k (x # y # ys) =
     (if (x < k \<or> \<not> x < y) \<and> k < y then x # k # y # ys else x # sweep_insert k (y # ys))"

definition one_sweep :: "'a::linorder list \<Rightarrow> bool" where
  "one_sweep ks \<longleftrightarrow> (\<exists>as bs. ks = as @ bs \<and> sorted as \<and> sorted bs)"

lemma sorted_le_last: "sorted xs \<Longrightarrow> u \<in> set xs \<Longrightarrow> u \<le> last xs"
  by (induction xs) (auto split: if_splits)

lemma sweep_insert_hd: "sweep_insert k (x # xs) = x # tl (sweep_insert k (x # xs))"
  by (cases xs) auto

lemma sweep_insert_sorted:
  "sorted (x # xs) \<Longrightarrow> distinct (x # xs) \<Longrightarrow> k \<notin> set (x # xs) \<Longrightarrow> x < k \<Longrightarrow> sorted (sweep_insert k (x # xs))"
proof (induction xs arbitrary: x)
  case (Cons y ys)
  show ?case
  proof (cases "k < y")
    case False
    then have "y < k" using Cons.prems by auto
    then have s: "sorted (sweep_insert k (y # ys))" using Cons by auto
    obtain zs where zs: "sweep_insert k (y # ys) = y # zs" using sweep_insert_hd by blast
    then show ?thesis using Cons.prems False s by auto
  qed (use Cons.prems in auto)
qed simp

lemma sweep_insert_below:
  "sorted (x # xs) \<Longrightarrow> distinct (x # xs) \<Longrightarrow> k < x \<Longrightarrow> sweep_insert k (x # xs) = x # xs @ [k]"
  by (induction xs arbitrary: x) auto

lemma sweep_insert_two:
  assumes "sorted (x # as)" "sorted (y # bs)" "distinct (x # as @ y # bs)" "k \<notin> set (x # as @ y # bs)" "y < last (x # as)"
  shows "\<exists>as' bs'. sweep_insert k (x # as @ y # bs) = x # as' @ bs' \<and> sorted (x # as') \<and> sorted bs'"
  using assms
proof (induction as arbitrary: x)
  case Nil
  show ?case
  proof (cases "k < y")
    case True
    then have "sweep_insert k (x # [] @ y # bs) = x # [] @ k # y # bs" using Nil by auto
    moreover have "sorted (k # y # bs)" using True Nil by auto
    moreover have "sorted [x]" by simp
    ultimately show ?thesis by (intro exI [of _ "[]"] exI [of _ "k # y # bs"]) blast
  next
    case False
    then have "y < k" using Nil by auto
    then have "sorted (sweep_insert k (y # bs))" using Nil by (intro sweep_insert_sorted) auto
    then show ?thesis using False
      by (intro exI [of _ "[]"] exI [of _ "sweep_insert k (y # bs)"]) simp
  qed
next
  case (Cons z zs)
  show ?case
  proof (cases "x < k \<and> k < z")
    case True
    then show ?thesis using Cons.prems
      by (intro exI [of _ "k # z # zs"] exI [of _ "y # bs"]) auto
  next
    case False
    have xz: "x < z" using Cons.prems by auto
    obtain as' bs' where IH: "sweep_insert k (z # zs @ y # bs) = z # as' @ bs'" "sorted (z # as')" "sorted bs'"
      using Cons.IH [of z] Cons.prems by auto
    then show ?thesis using False xz
      by (intro exI [of _ "z # as'"] exI [of _ bs']) (auto simp: sorted_simps)
  qed
qed

lemma one_sweep_sorted: "sorted xs \<Longrightarrow> one_sweep xs"
  unfolding one_sweep_def by (intro exI [of _ xs] exI [of _ "[]"]) simp

lemma sweep_insert_one_sweep:
  assumes "one_sweep ks" "distinct ks" "k \<notin> set ks"
  shows "one_sweep (sweep_insert k ks)"
proof -
  obtain as bs where ks: "ks = as @ bs" "sorted as" "sorted bs" using assms(1) by (auto simp: one_sweep_def)
  show ?thesis
  proof (cases "sorted ks")
    case True
    show ?thesis
    proof (cases ks)
      case (Cons x xs)
      show ?thesis
      proof (cases "x < k")
        case True
        then show ?thesis using sweep_insert_sorted [of x xs k] \<open>sorted ks\<close> assms Cons by (auto intro: one_sweep_sorted)
      next
        case False
        then have "k < x" using assms(3) Cons by auto
        then show ?thesis
          using sweep_insert_below [of x xs k] \<open>sorted ks\<close> assms Cons
          unfolding one_sweep_def by (intro exI [of _ ks] exI [of _ "[k]"]) simp
      qed
    qed (simp add: one_sweep_sorted)
  next
    case False
    obtain x as' where a: "as = x # as'" using False ks by (cases as) auto
    obtain y bs' where b: "bs = y # bs'" using False ks by (cases bs) auto
    have "y < last as"
    proof (rule ccontr)
      assume "\<not> y < last as"
      then have "u \<le> v" if "u \<in> set as" "v \<in> set bs" for u v
        using sorted_le_last [OF ks(2) that(1)] that(2) ks(3) b by fastforce
      then show False using False ks by (simp add: sorted_append)
    qed
    then obtain as2 bs2 where "sweep_insert k (x # as' @ y # bs') = x # as2 @ bs2" "sorted (x # as2)" "sorted bs2"
      using sweep_insert_two [of x as' y bs' k] ks assms a b by auto
    then show ?thesis
      unfolding one_sweep_def using a b ks by (intro exI [of _ "x # as2"] exI [of _ bs2]) simp
  qed
qed

section \<open>The linked queue\<close>

fun rlist :: "(nat \<Rightarrow> hd_request) \<Rightarrow> nat \<Rightarrow> nat list \<Rightarrow> bool" where
  "rlist rq p [] \<longleftrightarrow> p = 0"
| "rlist rq p (x # xs) \<longleftrightarrow> p = x \<and> x \<noteq> 0 \<and> rlist rq (r_next (rq x)) xs"

definition pos :: "hd_request \<Rightarrow> int \<times> int \<times> int \<times> int" where
  "pos r = (r_hd r, r_cyl r, r_head r, r_sector r)"

lemma IN_ORDER_pos: "IN_ORDER a b \<longleftrightarrow> pos a < pos b"
  by (auto simp: IN_ORDER_def pos_def)

lemma rlist_frame:
  "(\<And>x. x \<in> set xs \<Longrightarrow> r_next (rq' x) = r_next (rq x)) \<Longrightarrow> rlist rq' p xs = rlist rq p xs"
  by (induction xs arbitrary: p) auto

definition link_after :: "nat \<Rightarrow> nat \<Rightarrow> (nat \<Rightarrow> hd_request) \<Rightarrow> nat \<Rightarrow> hd_request" where
  "link_after p req rq = (let rq1 = rq(req := (rq req)\<lparr>r_next := r_next (rq p)\<rparr>) in rq1(p := (rq1 p)\<lparr>r_next := req\<rparr>))"

lemma elevator_pos_spec:
  assumes "rlist rq x (x # xs)" "distinct (x # xs)" "req \<notin> set (x # xs)" "req \<noteq> 0"
  shows "\<exists>p as bs. elevator_pos rq req x = Some p \<and> p \<in> set (x # xs) \<and> rlist (link_after p req rq) x (as @ req # bs) \<and>
     x # xs = as @ bs \<and> as \<noteq> [] \<and>
     map (\<lambda>i. pos (rq i)) (as @ req # bs) = sweep_insert (pos (rq req)) (map (\<lambda>i. pos (rq i)) (x # xs))"
  using assms
proof (induction xs arbitrary: x)
  case Nil
  then have "elevator_pos rq req x = Some x" by (subst elevator_pos.simps) simp
  then show ?case using Nil
    by (intro exI [of _ x] exI [of _ "[x]"] exI [of _ "[]"]) (auto simp: link_after_def)
next
  case (Cons y ys)
  have n: "r_next (rq x) = y" "y \<noteq> 0" using Cons.prems by auto
  let ?c = "(pos (rq x) < pos (rq req) \<or> \<not> pos (rq x) < pos (rq y)) \<and> pos (rq req) < pos (rq y)"
  show ?case
  proof (cases ?c)
    case True
    then have "elevator_pos rq req x = Some x" using n by (subst elevator_pos.simps) (simp add: IN_ORDER_pos)
    moreover have "rlist (link_after x req rq) x (x # req # y # ys)"
    proof -
      have "rlist (link_after x req rq) (r_next (rq y)) ys = rlist rq (r_next (rq y)) ys"
        using Cons.prems by (intro rlist_frame) (auto simp: link_after_def)
      then show ?thesis using Cons.prems n by (auto simp: link_after_def)
    qed
    ultimately show ?thesis using True Cons.prems
      by (intro exI [of _ x] exI [of _ "[x]"] exI [of _ "y # ys"]) auto
  next
    case False
    then have e: "elevator_pos rq req x = elevator_pos rq req y"
      using n by (subst elevator_pos.simps) (auto simp: IN_ORDER_pos)
    have prem: "rlist rq y (y # ys)" "distinct (y # ys)" "req \<notin> set (y # ys)" using Cons.prems n by auto
    obtain p as bs where IH: "elevator_pos rq req y = Some p" "p \<in> set (y # ys)" "rlist (link_after p req rq) y (as @ req # bs)"
      "y # ys = as @ bs" "as \<noteq> []"
      "map (\<lambda>i. pos (rq i)) (as @ req # bs) = sweep_insert (pos (rq req)) (map (\<lambda>i. pos (rq i)) (y # ys))"
      using Cons.IH [OF prem Cons.prems(4)] by blast
    have "rlist (link_after p req rq) x (x # as @ req # bs)"
      using IH(2,3) Cons.prems n by (auto simp: link_after_def)
    then have "rlist (link_after p req rq) x ((x # as) @ req # bs)" "x # y # ys = (x # as) @ bs" "p \<in> set (x # y # ys)" using IH(2,4) by auto
    moreover have "map (\<lambda>i. pos (rq i)) ((x # as) @ req # bs) = sweep_insert (pos (rq req)) (map (\<lambda>i. pos (rq i)) (x # y # ys))"
      using False IH(6) by auto
    ultimately show ?thesis using e IH(1) by (metis list.distinct(1))
  qed
qed


text \<open>The queue behind the request in service.\<close>

definition waiting :: "'z hdst_scheme \<Rightarrow> nat list \<Rightarrow> bool" where
  "waiting s xs \<longleftrightarrow> this_request s \<noteq> 0 \<and> rlist (request s) (r_next (request s (this_request s))) xs \<and>
     distinct (this_request s # xs) \<and> distinct (map (\<lambda>i. pos (request s i)) xs) \<and>
     one_sweep (map (\<lambda>i. pos (request s i)) xs)"

lemma link_after_pos [simp]: "pos (link_after p req rq i) = pos (rq i)"
  by (simp add: link_after_def pos_def Let_def)

lemma link_request_elevator:
  assumes w: "waiting s xs" and req: "req \<noteq> 0" "req \<notin> set (this_request s # xs)" "pos (request s req) \<notin> (\<lambda>i. pos (request s i)) ` set xs"
    and nxt: "r_next (request s req) = 0"
  shows "\<exists>s' as bs. link_request req s e = Ok () s' e \<and> this_request s' = this_request s \<and> xs = as @ bs \<and> waiting s' (as @ req # bs) \<and>
     s' = s\<lparr>request := request s'\<rparr> \<and> (\<forall>i. request s' i = (request s i)\<lparr>r_next := r_next (request s' i)\<rparr>) \<and>
     (xs \<noteq> [] \<longrightarrow> as \<noteq> [] \<and> request s' (this_request s) = request s (this_request s))"
proof -
  let ?t = "this_request s" and ?r = "request s"
  have t: "?t \<noteq> 0" "rlist ?r (r_next (?r ?t)) xs" "distinct (?t # xs)" "distinct (map (\<lambda>i. pos (?r i)) xs)"
    "one_sweep (map (\<lambda>i. pos (?r i)) xs)"
    using w by (auto simp: waiting_def)
  show ?thesis
  proof (cases xs)
    case Nil
    then have n: "r_next (?r ?t) = 0" using t by simp
    let ?s = "upd_req ?t (\<lambda>x. x\<lparr>r_next := req\<rparr>) s"
    have "waiting ?s [req]"
      using t req nxt by (auto simp: waiting_def upd_req_def one_sweep_sorted)
    moreover have "link_request req s e = Ok () ?s e" using t n by (simp add: link_request_def)
    ultimately show ?thesis using Nil
      by (intro exI [of _ ?s] exI [of _ "[]"]) (simp add: upd_req_def)
  next
    case (Cons x ys)
    then have n: "r_next (?r ?t) = x" "x \<noteq> 0" "rlist ?r x (x # ys)" using t by auto
    have prem: "distinct (x # ys)" "req \<notin> set (x # ys)" using t(3) req(2) Cons by auto
    obtain p as bs where e: "elevator_pos ?r req x = Some p" "p \<in> set (x # ys)" "rlist (link_after p req ?r) x (as @ req # bs)"
      "x # ys = as @ bs" "as \<noteq> []"
      "map (\<lambda>i. pos (?r i)) (as @ req # bs) = sweep_insert (pos (?r req)) (map (\<lambda>i. pos (?r i)) (x # ys))"
      using elevator_pos_spec [OF n(3) prem req(1)] by blast
    have xs: "xs = as @ bs" using e(4) Cons by simp
    let ?s = "s\<lparr>request := link_after p req ?r\<rparr>"
    have pt: "?t \<noteq> p" "?t \<noteq> req" "p \<noteq> req" using e(2) t(3) req(2) Cons by auto
    have "link_request req s e' = Ok () ?s e'" for e'
      using t(1) n e(1) pt by (simp add: link_request_def upd_req_def link_after_def Let_def)
    moreover have "waiting ?s (as @ req # bs)"
    proof -
      have "r_next (link_after p req ?r ?t) = x" using pt n(1) by (simp add: link_after_def)
      moreover have "one_sweep (map (\<lambda>i. pos (?r i)) (as @ req # bs))"
        unfolding e(6) using t(4,5) req(3) Cons by (intro sweep_insert_one_sweep) auto
      moreover have "distinct (map (\<lambda>i. pos (?r i)) (as @ req # bs))" "distinct (?t # as @ req # bs)"
        using t(3,4) req(2,3) xs by auto
      ultimately show ?thesis
        using t(1) e(3) by (simp add: waiting_def)
    qed
    moreover have "link_after p req ?r i = (?r i)\<lparr>r_next := r_next (link_after p req ?r i)\<rparr>" for i
      by (simp add: link_after_def Let_def)
    moreover have "link_after p req ?r ?t = ?r ?t" using pt by (simp add: link_after_def)
    ultimately show ?thesis using xs e(5) by (intro exI [of _ ?s] exI [of _ as] exI [of _ bs]) simp
  qed
qed

text \<open>
  C18: \<^verbatim>\<open>add_request\<close> while a request is in service. It always returns, and has put the new request into the queue behind the request in service, at a place where the
  positions on the disk still form at most two increasing runs, this sweep of the heads and the next; the other requests keep their order, and nothing of any request
  changes but the links. As the source promises, the two first entries are not touched: unless nothing else was waiting, the request in service is as it was, its link
  included, and the one behind it is still the same.
\<close>

theorem add_request_elevator:
  assumes "waiting s xs" "do_hd s \<noteq> No_handler" "\<not> sorting s" "r_nsector (request s req) = 2" "r_next (request s req) = 0"
    and "req \<noteq> 0" "req \<notin> set (this_request s # xs)" "pos (request s req) \<notin> (\<lambda>i. pos (request s i)) ` set xs"
  shows "\<exists>s' as bs. add_request req s e = Ok () s' e \<and> this_request s' = this_request s \<and> xs = as @ bs \<and> waiting s' (as @ req # bs) \<and>
     s' = s\<lparr>request := request s'\<rparr> \<and> (\<forall>i. request s' i = (request s i)\<lparr>r_next := r_next (request s' i)\<rparr>) \<and>
     (xs \<noteq> [] \<longrightarrow> as \<noteq> [] \<and> request s' (this_request s) = request s (this_request s))"
proof -
  let ?s = "s\<lparr>sorting := True\<rparr>"
  have w: "waiting ?s xs" using assms(1) by (simp add: waiting_def)
  obtain s' as bs where l: "link_request req ?s e = Ok () s' e" "this_request s' = this_request ?s" "xs = as @ bs" "waiting s' (as @ req # bs)"
     "s' = ?s\<lparr>request := request s'\<rparr>" "\<forall>i. request s' i = (request ?s i)\<lparr>r_next := r_next (request s' i)\<rparr>"
     "xs \<noteq> [] \<longrightarrow> as \<noteq> [] \<and> request s' (this_request ?s) = request ?s (this_request ?s)"
    using link_request_elevator [OF w assms(6), of e] assms(5,7,8) by auto
  let ?s' = "s'\<lparr>sorting := False\<rparr>"
  have d: "do_hd s' = do_hd s" by (subst l(5)) simp
  have f: "?s' = s\<lparr>request := request s'\<rparr>" using assms(3) by (subst l(5)) simp
  have "add_request req s e = Ok () ?s' e"
    using assms(2,4) l(1) d by (simp add: add_request_def)
  moreover have "waiting ?s' (as @ req # bs)" using l(4) by (simp add: waiting_def)
  moreover have "this_request ?s' = this_request s" "\<forall>i. request ?s' i = (request s i)\<lparr>r_next := r_next (request ?s' i)\<rparr>"
    "xs \<noteq> [] \<longrightarrow> as \<noteq> [] \<and> request ?s' (this_request s) = request s (this_request s)" "?s' = s\<lparr>request := request ?s'\<rparr>"
    using l(2,6,7) f by auto
  ultimately show ?thesis using l(3) by blast
qed

text \<open>The sweep goes on from cylinder 5 to 9, and then begins again at 2: a request for cylinder 7 has missed this sweep, as the request for 9 may not be touched.\<close>

definition ex_queue :: hdst where
  "ex_queue = ex_hd\<lparr>this_request := 1, do_hd := Read_intr,
     request := (\<lambda>_. ex_req)(1 := ex_req\<lparr>r_hd := 0, r_cyl := 5, r_next := 2\<rparr>, 2 := ex_req\<lparr>r_hd := 0, r_cyl := 9, r_next := 3\<rparr>,
       3 := ex_req\<lparr>r_hd := 0, r_cyl := 2\<rparr>, 4 := ex_req\<lparr>r_hd := 0, r_cyl := 7, r_nsector := 2\<rparr>)\<rparr>"

theorem add_request_elevator_witness:
  "waiting ex_queue [2, 3] \<and> (\<exists>s'. add_request 4 ex_queue [] = Ok () s' [] \<and> waiting s' [2, 3, 4] \<and> request s' 1 = request ex_queue 1)"
proof -
  have "one_sweep [(0::int, 9::int, 0::int, 0::int), (0, 2, 0, 0)]"
    unfolding one_sweep_def by (intro exI [of _ "[(0, 9, 0, 0)]"] exI [of _ "[(0, 2, 0, 0)]"]) simp
  then have w: "waiting ex_queue [2, 3]"
    by (simp add: waiting_def ex_queue_def pos_def ex_req_def)
  have s: "\<not> sorting ex_queue" by (simp add: ex_queue_def ex_hd_defs)
  show ?thesis
  proof -
    have q: "do_hd ex_queue \<noteq> No_handler" "r_nsector (request ex_queue 4) = 2" "r_next (request ex_queue 4) = 0" "(4 :: nat) \<noteq> 0"
      "4 \<notin> set (this_request ex_queue # [2, 3])" "pos (request ex_queue 4) \<notin> (\<lambda>i. pos (request ex_queue i)) ` set [2, 3]" "this_request ex_queue = 1"
      by (simp_all add: ex_queue_def pos_def ex_req_def)
    obtain s' as bs where r: "add_request 4 ex_queue [] = Ok () s' []" "[2, 3] = as @ bs" "waiting s' (as @ 4 # bs)"
      "\<forall>i. request s' i = (request ex_queue i)\<lparr>r_next := r_next (request s' i)\<rparr>" "as \<noteq> []" "request s' 1 = request ex_queue 1"
      using add_request_elevator [OF w q(1) s q(2-6), of "[]"] q(7) by auto
    have p: "pos (request s' i) = pos (request ex_queue i)" for i by (subst r(4) [rule_format]) (simp add: pos_def)
    have "as \<noteq> [2]"
    proof
      assume "as = [2]"
      then have "as = [2]" "bs = [3]" using r(2) by simp_all
      then have "one_sweep [(0::int, 9::int, 0::int, 0::int), (0, 7, 0, 0), (0, 2, 0, 0)]"
        using r(3) by (simp add: waiting_def p) (simp add: ex_queue_def pos_def ex_req_def)
      then show False by (auto simp: one_sweep_def Cons_eq_append_conv)
    qed
    then have "as = [2, 3]" "bs = []" using r(2,5) by (auto simp: Cons_eq_append_conv)
    then show ?thesis using w r by auto
  qed
qed

end
