(* ===== verification/Console.thy ===== *)
theory Console
  imports Kernel_Prelude
begin

text \<open>
  The console, \<^verbatim>\<open>src/kernel/console.c\<close>: a VT102-like terminal on the memory of the CGA screen. The static variables of the file are the fields of
  \<open>con\<close>; \<^verbatim>\<open>lines\<close> and \<^verbatim>\<open>columns\<close> are never assigned and are constants. Screen memory is an array of 16-bit cells
  addressed by byte address. The text registers of the video chip, set by \<^verbatim>\<open>set_origin\<close> and \<^verbatim>\<open>set_cursor\<close>, are output only
  and are not part of the state.

  The reply to the query \<^verbatim>\<open>ESC Z\<close> goes through the input queue of the terminal, which is the next theory; here \<open>con_char\<close> says whether
  the reply is due.
\<close>

definition SCREEN_START :: u32 where "SCREEN_START = 0xb8000"
definition SCREEN_END :: u32 where "SCREEN_END = 0xc0000"
definition LINES :: u32 where "LINES = 25"
definition COLUMNS :: u32 where "COLUMNS = 80"
definition NPAR :: nat where "NPAR = 16"

record con =
  v_origin :: u32
  v_scr_end :: u32
  v_pos :: u32
  v_x :: u32
  v_y :: u32
  v_top :: u32
  v_bottom :: u32
  v_state :: nat
  v_npar :: nat
  v_par :: "nat \<Rightarrow> u32"
  v_ques :: bool
  v_attr :: u8
  v_saved_x :: u32
  v_saved_y :: u32
  v_mem :: "u32 \<Rightarrow> u16"

section \<open>String instructions on screen memory\<close>

text \<open>\<^verbatim>\<open>rep stosw\<close> of a blank upwards and downwards, \<^verbatim>\<open>rep movs\<close> upwards and downwards, by cells.\<close>

fun fill_up :: "u32 \<Rightarrow> nat \<Rightarrow> (u32 \<Rightarrow> u16) \<Rightarrow> u32 \<Rightarrow> u16" where
  "fill_up a 0 M = M"
| "fill_up a (Suc n) M = fill_up (a + 2) n (M(a := 0x0720))"

fun fill_down :: "u32 \<Rightarrow> nat \<Rightarrow> (u32 \<Rightarrow> u16) \<Rightarrow> u32 \<Rightarrow> u16" where
  "fill_down a 0 M = M"
| "fill_down a (Suc n) M = fill_down (a - 2) n (M(a := 0x0720))"

fun move_up :: "u32 \<Rightarrow> u32 \<Rightarrow> nat \<Rightarrow> (u32 \<Rightarrow> u16) \<Rightarrow> u32 \<Rightarrow> u16" where
  "move_up d s 0 M = M"
| "move_up d s (Suc n) M = move_up (d + 2) (s + 2) n (M(d := M s))"

fun move_down :: "u32 \<Rightarrow> u32 \<Rightarrow> nat \<Rightarrow> (u32 \<Rightarrow> u16) \<Rightarrow> u32 \<Rightarrow> u16" where
  "move_down d s 0 M = M"
| "move_down d s (Suc n) M = move_down (d - 2) (s - 2) n (M(d := M s))"

section \<open>Cursor and scrolling\<close>

definition gotoxy :: "u32 \<Rightarrow> u32 \<Rightarrow> con \<Rightarrow> con" where
  "gotoxy new_x new_y v =
     (if new_x \<ge> COLUMNS \<or> new_y \<ge> LINES then v
      else v\<lparr>v_x := new_x, v_y := new_y, v_pos := v_origin v + push_bit 1 (new_y * COLUMNS + new_x)\<rparr>)"

definition ROW :: u32 where "ROW = push_bit 1 COLUMNS"

text \<open>The number of cells a \<^verbatim>\<open>rep movsl\<close> with the count of the source moves: two per double word.\<close>

definition scroll_cells :: "u32 \<Rightarrow> nat" where
  "scroll_cells rows = 2 * unat (drop_bit 1 (rows * COLUMNS))"

definition scrup :: "con \<Rightarrow> con" where
  "scrup v =
     (if v_top v = 0 \<and> v_bottom v = LINES then
        (let v1 = v\<lparr>v_origin := v_origin v + ROW, v_pos := v_pos v + ROW, v_scr_end := v_scr_end v + ROW\<rparr> in
         if v_scr_end v1 > SCREEN_END then
           let n = scroll_cells (LINES - 1);
               M = fill_up (SCREEN_START + 2 * of_nat n) (unat COLUMNS) (move_up SCREEN_START (v_origin v1) n (v_mem v1))
           in v1\<lparr>v_mem := M, v_scr_end := v_scr_end v1 - (v_origin v1 - SCREEN_START),
                  v_pos := v_pos v1 - (v_origin v1 - SCREEN_START), v_origin := SCREEN_START\<rparr>
         else v1\<lparr>v_mem := fill_up (v_scr_end v1 - ROW) (2 * unat (drop_bit 1 COLUMNS)) (v_mem v1)\<rparr>)
      else
        let n = scroll_cells (v_bottom v - v_top v - 1); d = v_origin v + ROW * v_top v
        in v\<lparr>v_mem := fill_up (d + 2 * of_nat n) (unat COLUMNS) (move_up d (v_origin v + ROW * (v_top v + 1)) n (v_mem v))\<rparr>)"

text \<open>
  Backwards: the first double word moved is the last of the bottom row. \<^verbatim>\<open>addl $2,%edi\<close> makes the last cell of the top
  row the first that is blanked.
\<close>

definition scrdown :: "con \<Rightarrow> con" where
  "scrdown v =
     (let n = scroll_cells (v_bottom v - v_top v - 1);
          d = v_origin v + ROW * v_bottom v - 4; s = v_origin v + ROW * (v_bottom v - 1) - 4
      in v\<lparr>v_mem := fill_down (d - 2 * of_nat n + 2) (unat COLUMNS) (move_down (d + 2) (s + 2) n (v_mem v))\<rparr>)"

definition lf :: "con \<Rightarrow> con" where
  "lf v = (if v_y v + 1 < v_bottom v then v\<lparr>v_y := v_y v + 1, v_pos := v_pos v + ROW\<rparr> else scrup v)"

definition ri :: "con \<Rightarrow> con" where
  "ri v = (if v_y v > v_top v then v\<lparr>v_y := v_y v - 1, v_pos := v_pos v - ROW\<rparr> else scrdown v)"

definition cr :: "con \<Rightarrow> con" where
  "cr v = v\<lparr>v_pos := v_pos v - push_bit 1 (v_x v), v_x := 0\<rparr>"

definition del :: "con \<Rightarrow> con" where
  "del v = (if v_x v \<noteq> 0 then v\<lparr>v_pos := v_pos v - 2, v_x := v_x v - 1, v_mem := (v_mem v)(v_pos v - 2 := 0x0720)\<rparr> else v)"

section \<open>Erasing, inserting and deleting\<close>

definition csi_J :: "u32 \<Rightarrow> con \<Rightarrow> con" where
  "csi_J par v =
     (if par = 0 then v\<lparr>v_mem := fill_up (v_pos v) (unat (drop_bit 1 (v_scr_end v - v_pos v))) (v_mem v)\<rparr>
      else if par = 1 then v\<lparr>v_mem := fill_up (v_origin v) (unat (drop_bit 1 (v_pos v - v_origin v))) (v_mem v)\<rparr>
      else if par = 2 then v\<lparr>v_mem := fill_up (v_origin v) (unat (COLUMNS * LINES)) (v_mem v)\<rparr>
      else v)"

definition csi_K :: "u32 \<Rightarrow> con \<Rightarrow> con" where
  "csi_K par v =
     (if par = 0 then (if v_x v \<ge> COLUMNS then v else v\<lparr>v_mem := fill_up (v_pos v) (unat (COLUMNS - v_x v)) (v_mem v)\<rparr>)
      else if par = 1 then
        v\<lparr>v_mem := fill_up (v_pos v - push_bit 1 (v_x v)) (unat (if v_x v < COLUMNS then v_x v else COLUMNS)) (v_mem v)\<rparr>
      else if par = 2 then v\<lparr>v_mem := fill_up (v_pos v - push_bit 1 (v_x v)) (unat COLUMNS) (v_mem v)\<rparr>
      else v)"

definition sgr :: "u32 \<Rightarrow> u8 \<Rightarrow> u8" where
  "sgr par a = (if par = 0 then 0x07 else if par = 1 then 0x0f else if par = 4 then 0x0f else if par = 7 then 0x70
     else if par = 27 then 0x07 else a)"

definition csi_m :: "con \<Rightarrow> con" where
  "csi_m v = v\<lparr>v_attr := fold (\<lambda>i. sgr (v_par v i)) [0..<v_npar v + 1] (v_attr v)\<rparr>"

fun shift_in :: "nat \<Rightarrow> u32 \<Rightarrow> u16 \<Rightarrow> (u32 \<Rightarrow> u16) \<Rightarrow> u32 \<Rightarrow> u16" where
  "shift_in 0 p old M = M"
| "shift_in (Suc n) p old M = shift_in n (p + 2) (M p) (M(p := old))"

definition insert_char :: "con \<Rightarrow> con" where
  "insert_char v = (if v_x v < COLUMNS then v\<lparr>v_mem := shift_in (unat (COLUMNS - v_x v)) (v_pos v) 0x0720 (v_mem v)\<rparr> else v)"

definition insert_line :: "con \<Rightarrow> con" where
  "insert_line v = (scrdown (v\<lparr>v_top := v_y v, v_bottom := LINES\<rparr>))\<lparr>v_top := v_top v, v_bottom := v_bottom v\<rparr>"

definition delete_char :: "con \<Rightarrow> con" where
  "delete_char v =
     (if v_x v \<ge> COLUMNS then v
      else let n = unat (COLUMNS - v_x v - 1)
           in v\<lparr>v_mem := (move_up (v_pos v) (v_pos v + 2) n (v_mem v))(v_pos v + 2 * of_nat n := 0x0720)\<rparr>)"

definition delete_line :: "con \<Rightarrow> con" where
  "delete_line v = (scrup (v\<lparr>v_top := v_y v, v_bottom := LINES\<rparr>))\<lparr>v_top := v_top v, v_bottom := v_bottom v\<rparr>"

text \<open>The number of rounds of \<^verbatim>\<open>while (nr--)\<close> after the clamping of \<^verbatim>\<open>csi_at\<close>, \<^verbatim>\<open>csi_L\<close>, \<^verbatim>\<open>csi_P\<close> and \<^verbatim>\<open>csi_M\<close>.\<close>

definition csi_count :: "u32 \<Rightarrow> u32 \<Rightarrow> nat" where
  "csi_count bound nr = unat (if nr > bound then bound else if nr = 0 then 1 else nr)"

definition csi_at :: "u32 \<Rightarrow> con \<Rightarrow> con" where "csi_at nr v = (insert_char ^^ csi_count COLUMNS nr) v"
definition csi_L :: "u32 \<Rightarrow> con \<Rightarrow> con" where "csi_L nr v = (insert_line ^^ csi_count LINES nr) v"
definition csi_P :: "u32 \<Rightarrow> con \<Rightarrow> con" where "csi_P nr v = (delete_char ^^ csi_count COLUMNS nr) v"
definition csi_M :: "u32 \<Rightarrow> con \<Rightarrow> con" where "csi_M nr v = (delete_line ^^ csi_count LINES nr) v"

definition save_cur :: "con \<Rightarrow> con" where
  "save_cur v = v\<lparr>v_saved_x := v_x v, v_saved_y := v_y v\<rparr>"

definition restore_cur :: "con \<Rightarrow> con" where
  "restore_cur v = v\<lparr>v_x := v_saved_x v, v_y := v_saved_y v,
     v_pos := v_origin v + push_bit 1 (v_saved_y v * COLUMNS + v_saved_x v)\<rparr>"

section \<open>One character\<close>

text \<open>\<^verbatim>\<open>if (x>=columns) { x -= columns; pos -= columns<<1; lf(); }\<close>\<close>

definition wrap_line :: "con \<Rightarrow> con" where
  "wrap_line v = lf (v\<lparr>v_x := v_x v - COLUMNS, v_pos := v_pos v - ROW\<rparr>)"

definition put_char :: "u8 \<Rightarrow> con \<Rightarrow> con" where
  "put_char c v =
     (let v1 = (if v_x v \<ge> COLUMNS then wrap_line v else v)
      in v1\<lparr>v_mem := (v_mem v1)(v_pos v1 := push_bit 8 (ucast (v_attr v1)) OR ucast c), v_pos := v_pos v1 + 2, v_x := v_x v1 + 1\<rparr>)"

definition tab :: "con \<Rightarrow> con" where
  "tab v =
     (let c = 8 - (v_x v AND 7); v1 = v\<lparr>v_x := v_x v + c, v_pos := v_pos v + push_bit 1 c\<rparr>
      in if v_x v1 > COLUMNS then wrap_line v1 else v1)"

text \<open>State 0. \<open>erase\<close> is the erase character of the terminal; \<^verbatim>\<open>c\<close> is a signed char, so only codes below 128 can be equal to it.\<close>

definition con_plain :: "u8 \<Rightarrow> u8 \<Rightarrow> con \<Rightarrow> con" where
  "con_plain erase c v =
     (if c > 31 \<and> c < 127 then put_char c v
      else if c = 27 then v\<lparr>v_state := 1\<rparr>
      else if c = 10 \<or> c = 11 \<or> c = 12 then lf v
      else if c = 13 then cr v
      else if sint c = uint erase then del v
      else if c = 8 then (if v_x v \<noteq> 0 then v\<lparr>v_x := v_x v - 1, v_pos := v_pos v - 2\<rparr> else v)
      else if c = 9 then tab v
      else v)"

text \<open>State 1, after an escape. The last two branches test the column and not the character.\<close>

definition con_escape :: "u8 \<Rightarrow> con \<Rightarrow> con \<times> bool" where
  "con_escape c v0 =
     (let v = v0\<lparr>v_state := 0\<rparr> in
      if c = 0x5B then (v\<lparr>v_state := 2\<rparr>, False)
      else if c = 0x45 then (gotoxy 0 (v_y v + 1) v, False)
      else if c = 0x4D then (ri v, False)
      else if c = 0x44 then (lf v, False)
      else if c = 0x5A then (v, True)
      else if v_x v = 0x37 then (save_cur v, False)
      else if v_x v = 0x38 then (restore_cur v, False)
      else (v, False))"

text \<open>\<^verbatim>\<open>if (par[i]) par[i]--\<close> and \<^verbatim>\<open>if (!par[i]) par[i]++\<close>.\<close>

definition par_dec :: "nat \<Rightarrow> con \<Rightarrow> con" where
  "par_dec i v = (if v_par v i \<noteq> 0 then v\<lparr>v_par := (v_par v)(i := v_par v i - 1)\<rparr> else v)"

definition par_one :: "con \<Rightarrow> con" where
  "par_one v = (if v_par v 0 = 0 then v\<lparr>v_par := (v_par v)(0 := v_par v 0 + 1)\<rparr> else v)"

definition set_region :: "con \<Rightarrow> con" where
  "set_region v0 =
     (let v1 = par_dec 0 v0; v = (if v_par v1 1 = 0 then v1\<lparr>v_par := (v_par v1)(1 := LINES)\<rparr> else v1)
      in if v_par v 0 < v_par v 1 \<and> v_par v 1 \<le> LINES then v\<lparr>v_top := v_par v 0, v_bottom := v_par v 1\<rparr> else v)"

text \<open>State 4: the final character of a control sequence.\<close>

definition con_final :: "u8 \<Rightarrow> con \<Rightarrow> con" where
  "con_final c v0 =
     (let v = v0\<lparr>v_state := 0\<rparr>; d = par_dec 0 v; u = par_one v in
      if c = 0x47 \<or> c = 0x60 then gotoxy (v_par d 0) (v_y d) d
      else if c = 0x41 then gotoxy (v_x u) (v_y u - v_par u 0) u
      else if c = 0x42 \<or> c = 0x65 then gotoxy (v_x u) (v_y u + v_par u 0) u
      else if c = 0x43 \<or> c = 0x61 then gotoxy (v_x u + v_par u 0) (v_y u) u
      else if c = 0x44 then gotoxy (v_x u - v_par u 0) (v_y u) u
      else if c = 0x45 then gotoxy 0 (v_y u + v_par u 0) u
      else if c = 0x46 then gotoxy 0 (v_y u - v_par u 0) u
      else if c = 0x64 then gotoxy (v_x d) (v_par d 0) d
      else if c = 0x48 \<or> c = 0x66 then (let d2 = par_dec 1 d in gotoxy (v_par d2 1) (v_par d2 0) d2)
      else if c = 0x4A then csi_J (v_par v 0) v
      else if c = 0x4B then csi_K (v_par v 0) v
      else if c = 0x4C then csi_L (v_par v 0) v
      else if c = 0x4D then csi_M (v_par v 0) v
      else if c = 0x50 then csi_P (v_par v 0) v
      else if c = 0x40 then csi_at (v_par v 0) v
      else if c = 0x6D then csi_m v
      else if c = 0x72 then set_region v
      else if c = 0x73 then save_cur v
      else if c = 0x75 then restore_cur v
      else v)"

text \<open>State 3: parameters; anything else is the final character.\<close>

definition con_params :: "u8 \<Rightarrow> con \<Rightarrow> con" where
  "con_params c v =
     (if c = 0x3B \<and> v_npar v < NPAR - 1 then v\<lparr>v_npar := v_npar v + 1\<rparr>
      else if 0x30 \<le> c \<and> c \<le> 0x39 then
        v\<lparr>v_par := (v_par v)(v_npar v := 10 * v_par v (v_npar v) + ucast c - 0x30)\<rparr>
      else con_final c v)"

definition con_start :: "u8 \<Rightarrow> con \<Rightarrow> con" where
  "con_start c v0 =
     (let v = v0\<lparr>v_par := (\<lambda>i. if i < NPAR then 0 else v_par v0 i), v_npar := 0, v_state := 3, v_ques := c = 0x3F\<rparr>
      in if c = 0x3F then v else con_params c v)"

text \<open>The body of the loop of \<^verbatim>\<open>con_write\<close>: the new state, and whether \<^verbatim>\<open>respond\<close> is called.\<close>

definition con_char :: "u8 \<Rightarrow> u8 \<Rightarrow> con \<Rightarrow> con \<times> bool" where
  "con_char erase c v =
     (if v_state v = 0 then (con_plain erase c v, False)
      else if v_state v = 1 then con_escape c v
      else if v_state v = 2 then (con_start c v, False)
      else if v_state v = 3 then (con_params c v, False)
      else if v_state v = 4 then (con_final c v, False)
      else (v, False))"

text \<open>The variables as the file initialises them, and \<^verbatim>\<open>con_init\<close> with the cursor position the boot code has stored.\<close>

definition con_static :: "(u32 \<Rightarrow> u16) \<Rightarrow> con" where
  "con_static M = \<lparr>v_origin = SCREEN_START, v_scr_end = SCREEN_START + LINES * COLUMNS * 2, v_pos = 0, v_x = 0, v_y = 0, v_top = 0,
     v_bottom = LINES, v_state = 0, v_npar = 0, v_par = (\<lambda>_. 0), v_ques = False, v_attr = 0x07, v_saved_x = 0, v_saved_y = 0, v_mem = M\<rparr>"

definition con_init :: "u8 \<Rightarrow> u8 \<Rightarrow> con \<Rightarrow> con" where
  "con_init col row v = gotoxy (ucast col) (ucast row) v"

end
