(* ===== verification/Console_Props.thy ===== *)
theory Console_Props
  imports Console
begin

text \<open>
  The invariant of the console: the cursor is on the screen, the screen lies inside video memory, and nothing outside video memory is ever
  written.
\<close>

section \<open>Writes inside video memory\<close>

definition scr_frame :: "(u32 \<Rightarrow> u16) \<Rightarrow> (u32 \<Rightarrow> u16) \<Rightarrow> bool" where
  "scr_frame M M' \<longleftrightarrow> (\<forall>p. p < SCREEN_START \<or> SCREEN_END \<le> p \<longrightarrow> M' p = M p)"

lemma scr_frame_refl [simp]: "scr_frame M M"
  by (simp add: scr_frame_def)

lemma scr_frame_trans: "scr_frame M M' \<Longrightarrow> scr_frame M' M'' \<Longrightarrow> scr_frame M M''"
  by (simp add: scr_frame_def)

lemma unat_small [simp]: "n < 2 ^ 32 \<Longrightarrow> unat (of_nat n :: u32) = n"
  by (simp add: unsigned_of_nat take_bit_nat_eq_self)

lemma unat_scr: "j < 0x8000 \<Longrightarrow> unat (SCREEN_START + of_nat j) = 0xb8000 + j"
  by (simp add: SCREEN_START_def unat_word_ariths)

lemma scr_in: "j < 0x8000 \<Longrightarrow> SCREEN_START \<le> SCREEN_START + of_nat j \<and> SCREEN_START + of_nat j < SCREEN_END"
  by (simp add: word_le_nat_alt word_less_nat_alt unat_scr) (simp add: SCREEN_START_def SCREEN_END_def)

lemma scr_frame_upd [simp]: "j < 0x8000 \<Longrightarrow> a = SCREEN_START + of_nat j \<Longrightarrow> scr_frame M (M(a := w))"
  using scr_in [of j] by (auto simp: scr_frame_def)

lemma fill_up_frame: "j + 2 * n \<le> 0x8000 \<Longrightarrow> a = SCREEN_START + of_nat j \<Longrightarrow> scr_frame M (fill_up a n M)"
proof (induction n arbitrary: j a M)
  case (Suc n)
  have "scr_frame (M(a := 0x0720)) (fill_up (a + 2) n (M(a := 0x0720)))"
    using Suc.prems by (intro Suc.IH [of "j + 2"]) simp_all
  moreover have "scr_frame M (M(a := 0x0720))" using Suc.prems by (intro scr_frame_upd [of j]) simp_all
  ultimately show ?case using scr_frame_trans by fastforce
qed simp

lemma move_up_frame: "j + 2 * n \<le> 0x8000 \<Longrightarrow> d = SCREEN_START + of_nat j \<Longrightarrow> scr_frame M (move_up d s n M)"
proof (induction n arbitrary: j d s M)
  case (Suc n)
  have "scr_frame (M(d := M s)) (move_up (d + 2) (s + 2) n (M(d := M s)))"
    using Suc.prems by (intro Suc.IH [of "j + 2"]) simp_all
  moreover have "scr_frame M (M(d := M s))" using Suc.prems by (intro scr_frame_upd [of j]) simp_all
  ultimately show ?case using scr_frame_trans by fastforce
qed simp

lemma shift_in_frame: "j + 2 * n \<le> 0x8000 \<Longrightarrow> p = SCREEN_START + of_nat j \<Longrightarrow> scr_frame M (shift_in n p old M)"
proof (induction n arbitrary: j p old M)
  case (Suc n)
  have "scr_frame (M(p := old)) (shift_in n (p + 2) (M p) (M(p := old)))"
    using Suc.prems by (intro Suc.IH [of "j + 2"]) simp_all
  moreover have "scr_frame M (M(p := old))" using Suc.prems by (intro scr_frame_upd [of j]) simp_all
  ultimately show ?case using scr_frame_trans by fastforce
qed simp

lemma fill_down_frame: "2 * n \<le> j + 2 \<Longrightarrow> j < 0x8000 \<Longrightarrow> a = SCREEN_START + of_nat j \<Longrightarrow> scr_frame M (fill_down a n M)"
proof (induction n arbitrary: j a M)
  case (Suc n)
  have "scr_frame M (M(a := 0x0720))" using Suc.prems by (intro scr_frame_upd [of j]) simp_all
  moreover have "scr_frame (M(a := 0x0720)) (fill_down (a - 2) n (M(a := 0x0720)))"
  proof (cases "n = 0")
    case False
    then have "2 \<le> j" using Suc.prems by simp
    then show ?thesis using Suc.prems by (intro Suc.IH [of "j - 2"]) (simp_all add: of_nat_diff)
  qed simp
  ultimately show ?case using scr_frame_trans by fastforce
qed simp

lemma move_down_frame: "2 * n \<le> j + 2 \<Longrightarrow> j < 0x8000 \<Longrightarrow> d = SCREEN_START + of_nat j \<Longrightarrow> scr_frame M (move_down d s n M)"
proof (induction n arbitrary: j d s M)
  case (Suc n)
  have "scr_frame M (M(d := M s))" using Suc.prems by (intro scr_frame_upd [of j]) simp_all
  moreover have "scr_frame (M(d := M s)) (move_down (d - 2) (s - 2) n (M(d := M s)))"
  proof (cases "n = 0")
    case False
    then have "2 \<le> j" using Suc.prems by simp
    then show ?thesis using Suc.prems by (intro Suc.IH [of "j - 2"]) (simp_all add: of_nat_diff)
  qed simp
  ultimately show ?case using scr_frame_trans by fastforce
qed simp

section \<open>The invariant\<close>

text \<open>The screen starts \<open>k\<close> rows into video memory and the cursor is in column \<open>X\<close> of row \<open>Y\<close>.\<close>

definition con_at :: "nat \<Rightarrow> nat \<Rightarrow> nat \<Rightarrow> con \<Rightarrow> bool" where
  "con_at k X Y v \<longleftrightarrow> 160 * k + 4000 \<le> 0x8000 \<and> X \<le> 160 \<and> Y < 25 \<and>
     v_origin v = SCREEN_START + of_nat (160 * k) \<and> v_scr_end v = v_origin v + 4000 \<and>
     v_x v = of_nat X \<and> v_y v = of_nat Y \<and> v_pos v = v_origin v + of_nat (160 * Y + 2 * X) \<and>
     v_top v < v_bottom v \<and> v_bottom v \<le> 25 \<and> v_saved_x v \<le> 80 \<and> v_saved_y v < 25 \<and> v_npar v < 16"

definition con_ok :: "con \<Rightarrow> bool" where
  "con_ok v \<longleftrightarrow> (\<exists>k X Y. con_at k X Y v \<and> X \<le> 80)"

text \<open>From \<open>v\<close> to \<open>v'\<close> only video memory was written, and the invariant holds afterwards.\<close>

definition con_step :: "con \<Rightarrow> con \<Rightarrow> bool" where
  "con_step v v' \<longleftrightarrow> con_ok v' \<and> scr_frame (v_mem v) (v_mem v')"

lemma con_okI: "con_at k X Y v \<Longrightarrow> X \<le> 80 \<Longrightarrow> con_ok v"
  by (auto simp: con_ok_def)

lemma con_stepI: "con_at k X Y v' \<Longrightarrow> X \<le> 80 \<Longrightarrow> scr_frame (v_mem v) (v_mem v') \<Longrightarrow> con_step v v'"
  by (auto simp: con_step_def con_ok_def)

lemma con_step_trans: "con_step v v' \<Longrightarrow> con_step v' v'' \<Longrightarrow> con_step v v''"
  by (auto simp: con_step_def intro: scr_frame_trans)

lemmas con_consts = COLUMNS_def LINES_def NPAR_def ROW_def

lemma row_words: "n \<le> 25 \<Longrightarrow> scroll_cells (of_nat n) = 80 * n"
proof -
  assume n: "n \<le> 25"
  have "unat (of_nat (80 * n) :: u32) = 80 * n" using n by (intro unat_small) simp
  moreover have "(of_nat n * COLUMNS :: u32) = of_nat (80 * n)" by (simp add: con_consts)
  ultimately have "unat (drop_bit 1 (of_nat n * COLUMNS :: u32)) = drop_bit 1 (80 * n)" by (simp only: unat_drop_bit_eq)
  then show ?thesis by (simp add: scroll_cells_def drop_bit_eq_div)
qed

lemma region:
  assumes "con_at k X Y v"
  obtains t b where "v_top v = of_nat t" "v_bottom v = of_nat b" "t < b" "b \<le> 25"
    "scroll_cells (v_bottom v - v_top v - 1) = 80 * (b - t - 1)"
proof -
  let ?t = "unat (v_top v)" and ?b = "unat (v_bottom v)"
  have tb: "?t < ?b" "?b \<le> 25" using assms by (auto simp: con_at_def word_less_nat_alt word_le_nat_alt)
  have "v_bottom v - v_top v - 1 = of_nat (?b - ?t - 1)" using tb by (simp add: of_nat_diff)
  then have "scroll_cells (v_bottom v - v_top v - 1) = 80 * (?b - ?t - 1)" using tb row_words [of "?b - ?t - 1"] by (metis diff_le_self le_trans)
  then show ?thesis using that [of ?t ?b] tb by simp
qed

text \<open>Updates that move neither the screen nor the cursor.\<close>

lemma con_at_upd [simp]:
  "con_at k X Y (v\<lparr>v_mem := M\<rparr>) = con_at k X Y v" "con_at k X Y (v\<lparr>v_state := n\<rparr>) = con_at k X Y v"
  "con_at k X Y (v\<lparr>v_par := p\<rparr>) = con_at k X Y v" "con_at k X Y (v\<lparr>v_attr := a\<rparr>) = con_at k X Y v"
  "con_at k X Y (v\<lparr>v_ques := q\<rparr>) = con_at k X Y v"
  by (simp_all add: con_at_def)

lemma con_ok_upd [simp]:
  "con_ok (v\<lparr>v_mem := M\<rparr>) = con_ok v" "con_ok (v\<lparr>v_state := n\<rparr>) = con_ok v" "con_ok (v\<lparr>v_par := p\<rparr>) = con_ok v"
  "con_ok (v\<lparr>v_attr := a\<rparr>) = con_ok v" "con_ok (v\<lparr>v_ques := q\<rparr>) = con_ok v"
  by (simp_all add: con_ok_def)

lemma scrup_ok:
  assumes c: "con_at k X Y v"
  shows "\<exists>k'. con_at k' X Y (scrup v) \<and> scr_frame (v_mem v) (v_mem (scrup v))"
proof (cases "v_top v = 0 \<and> v_bottom v = LINES")
  case full: True
  have k: "160 * k + 4000 \<le> 0x8000" and o: "v_origin v = SCREEN_START + of_nat (160 * k)" "v_scr_end v = v_origin v + 4000"
    using c by (simp_all add: con_at_def)
  have se: "v_scr_end v + ROW = SCREEN_START + of_nat (160 * (k + 1) + 4000)" by (simp add: o con_consts)
  have gt: "v_scr_end v + ROW > SCREEN_END \<longleftrightarrow> 160 * (k + 1) + 4000 > 0x8000"
    using k unfolding se by (simp add: word_less_nat_alt unat_word_ariths SCREEN_START_def SCREEN_END_def)
  show ?thesis
  proof (cases "160 * (k + 1) + 4000 > 0x8000")
    case True
    have n: "scroll_cells (LINES - 1) = 1920" using row_words [of 24] by (simp add: con_consts)
    have "scr_frame M (fill_up (SCREEN_START + 2 * of_nat 1920) (unat COLUMNS) (move_up SCREEN_START s 1920 M))" for M s
      by (rule scr_frame_trans [OF move_up_frame [of 0 1920] fill_up_frame [of 3840]]) (simp_all add: con_consts)
    then have "con_at 0 X Y (scrup v) \<and> scr_frame (v_mem v) (v_mem (scrup v))"
      using c full True gt n by (simp add: scrup_def Let_def con_at_def con_consts)
    then show ?thesis by blast
  next
    case False
    have a: "v_scr_end v = SCREEN_START + of_nat (160 * k + 4000)" by (simp add: o)
    have "scr_frame (v_mem v) (fill_up (v_scr_end v) (2 * unat (drop_bit 1 COLUMNS)) (v_mem v))"
      by (rule fill_up_frame [OF _ a]) (use False in \<open>simp add: con_consts\<close>)
    then have "con_at (k + 1) X Y (scrup v) \<and> scr_frame (v_mem v) (v_mem (scrup v))"
      using c full False gt by (simp add: scrup_def Let_def con_at_def con_consts algebra_simps)
    then show ?thesis by blast
  qed
next
  case False
  obtain t b where r: "v_top v = of_nat t" "v_bottom v = of_nat b" "t < b" "b \<le> 25" "scroll_cells (v_bottom v - v_top v - 1) = 80 * (b - t - 1)"
    by (rule region [OF c])
  have k: "160 * k + 4000 \<le> 0x8000" using c by (simp add: con_at_def)
  have d: "v_origin v + ROW * v_top v = SCREEN_START + of_nat (160 * k + 160 * t)" using c by (simp add: con_at_def r con_consts)
  have d2: "v_origin v + ROW * v_top v + 2 * of_nat (80 * (b - t - 1)) = SCREEN_START + of_nat (160 * k + 160 * (b - 1))"
    using r unfolding d by (simp add: of_nat_diff algebra_simps)
  have "scr_frame M (fill_up (v_origin v + ROW * v_top v + 2 * of_nat (80 * (b - t - 1))) (unat COLUMNS) (move_up (v_origin v + ROW * v_top v) s (80 * (b - t - 1)) M))" for M s
    by (rule scr_frame_trans [OF move_up_frame [OF _ d] fill_up_frame [OF _ d2]]) (use k r in \<open>simp_all add: con_consts\<close>)
  then have "scr_frame (v_mem v) (v_mem (scrup v))" using False r(5) by (auto simp: scrup_def Let_def)
  moreover have "con_at k X Y (scrup v)" using c False by (auto simp: scrup_def Let_def con_at_def)
  ultimately show ?thesis by blast
qed


lemma scrdown_ok:
  assumes c: "con_at k X Y v"
  shows "con_at k X Y (scrdown v) \<and> scr_frame (v_mem v) (v_mem (scrdown v))"
proof -
  obtain t b where r: "v_top v = of_nat t" "v_bottom v = of_nat b" "t < b" "b \<le> 25" "scroll_cells (v_bottom v - v_top v - 1) = 80 * (b - t - 1)"
    by (rule region [OF c])
  have k: "160 * k + 4000 \<le> 0x8000" using c by (simp add: con_at_def)
  have d: "v_origin v + ROW * v_bottom v - 4 + 2 = SCREEN_START + of_nat (160 * k + 160 * b - 2)"
    using c r by (simp add: con_at_def con_consts of_nat_diff)
  have d2: "v_origin v + ROW * v_bottom v - 4 - 2 * of_nat (80 * (b - t - 1)) + 2 = SCREEN_START + of_nat (160 * k + 160 * t + 158)"
    using c r by (simp add: con_at_def con_consts of_nat_diff algebra_simps)
  have "scr_frame M (fill_down (v_origin v + ROW * v_bottom v - 4 - 2 * of_nat (80 * (b - t - 1)) + 2) (unat COLUMNS)
      (move_down (v_origin v + ROW * v_bottom v - 4 + 2) s (80 * (b - t - 1)) M))" for M s
    by (rule scr_frame_trans [OF move_down_frame [OF _ _ d] fill_down_frame [OF _ _ d2]]) (use k r in \<open>simp_all add: con_consts\<close>)
  then have "scr_frame (v_mem v) (v_mem (scrdown v))" using r(5) by (simp add: scrdown_def Let_def)
  moreover have "con_at k X Y (scrdown v)" using c by (simp add: scrdown_def Let_def)
  ultimately show ?thesis by blast
qed

lemma lf_ok:
  assumes c: "con_at k X Y v"
  shows "\<exists>k' Y'. con_at k' X Y' (lf v) \<and> scr_frame (v_mem v) (v_mem (lf v))"
proof (cases "v_y v + 1 < v_bottom v")
  case True
  have "v_y v + 1 = of_nat (Y + 1)" using c by (simp add: con_at_def)
  moreover have "unat (v_bottom v) \<le> 25" using c by (simp add: con_at_def word_le_nat_alt)
  ultimately have "Y + 1 < 25" using True c by (simp add: word_less_nat_alt con_at_def del: of_nat_add of_nat_Suc)
  then have "con_at k X (Y + 1) (lf v)" using c True by (simp add: lf_def con_at_def con_consts algebra_simps)
  then show ?thesis using True by (auto simp: lf_def)
next
  case False
  then show ?thesis using scrup_ok [OF c] by (auto simp: lf_def)
qed

lemma ri_ok:
  assumes c: "con_at k X Y v"
  shows "\<exists>Y'. con_at k X Y' (ri v) \<and> scr_frame (v_mem v) (v_mem (ri v))"
proof (cases "v_y v > v_top v")
  case True
  then have "Y \<noteq> 0" using c by (cases "Y = 0") (simp_all add: con_at_def)
  then have "con_at k X (Y - 1) (ri v)" using c True by (auto simp: ri_def con_at_def con_consts of_nat_diff algebra_simps)
  then show ?thesis using True by (auto simp: ri_def)
next
  case False
  then show ?thesis using scrdown_ok [OF c] by (auto simp: ri_def)
qed

lemma gotoxy_ok:
  assumes "con_ok v"
  shows "con_step v (gotoxy a b v)"
proof (cases "a \<ge> COLUMNS \<or> b \<ge> LINES")
  case True
  then show ?thesis using assms by (simp add: gotoxy_def con_step_def)
next
  case False
  obtain k X Y where c: "con_at k X Y v" using assms by (auto simp: con_ok_def)
  have ab: "unat a < 80" "unat b < 25" using False by (auto simp: con_consts word_le_nat_alt word_less_nat_alt)
  have "push_bit 1 (b * COLUMNS + a) = of_nat (160 * unat b + 2 * unat a)" by (simp add: con_consts push_bit_eq_mult algebra_simps)
  then have "con_at k (unat a) (unat b) (gotoxy a b v)" using c ab False by (simp add: gotoxy_def con_at_def)
  then show ?thesis by (rule con_stepI) (use ab False in \<open>simp_all add: gotoxy_def\<close>)
qed

lemma restore_cur_ok: "con_ok v \<Longrightarrow> con_step v (restore_cur v)"
proof -
  assume "con_ok v"
  then obtain k X Y where c: "con_at k X Y v" by (auto simp: con_ok_def)
  have ab: "unat (v_saved_x v) \<le> 80" "unat (v_saved_y v) < 25" using c by (auto simp: con_at_def word_le_nat_alt word_less_nat_alt)
  have "push_bit 1 (v_saved_y v * COLUMNS + v_saved_x v) = of_nat (160 * unat (v_saved_y v) + 2 * unat (v_saved_x v))"
    by (simp add: con_consts push_bit_eq_mult algebra_simps)
  then have "con_at k (unat (v_saved_x v)) (unat (v_saved_y v)) (restore_cur v)" using c ab by (simp add: restore_cur_def con_at_def)
  then show ?thesis by (rule con_stepI) (use ab in \<open>simp_all add: restore_cur_def\<close>)
qed

lemma save_cur_ok: "con_ok v \<Longrightarrow> con_step v (save_cur v)"
proof -
  assume "con_ok v"
  then obtain k X Y where c: "con_at k X Y v" "X \<le> 80" by (auto simp: con_ok_def)
  then have "con_at k X Y (save_cur v)" by (simp add: save_cur_def con_at_def word_le_nat_alt word_less_nat_alt)
  then show ?thesis by (rule con_stepI) (use c in \<open>simp_all add: save_cur_def\<close>)
qed


lemma cr_ok: "con_ok v \<Longrightarrow> con_step v (cr v)"
proof -
  assume "con_ok v"
  then obtain k X Y where c: "con_at k X Y v" by (auto simp: con_ok_def)
  then have "con_at k 0 Y (cr v)" by (simp add: cr_def con_at_def push_bit_eq_mult)
  then show ?thesis by (rule con_stepI) (simp_all add: cr_def)
qed

lemma step_lf: "con_ok v \<Longrightarrow> con_step v (lf v)" and step_ri: "con_ok v \<Longrightarrow> con_step v (ri v)"
  using lf_ok ri_ok by (fastforce simp: con_step_def con_ok_def)+

lemma pos_scr:
  assumes "con_at k X Y v"
  shows "v_pos v = SCREEN_START + of_nat (160 * k + 160 * Y + 2 * X)"
  using assms by (simp add: con_at_def)

lemma del_ok: "con_ok v \<Longrightarrow> con_step v (del v)"
proof -
  assume ok: "con_ok v"
  then obtain k X Y where c: "con_at k X Y v" "X \<le> 80" by (auto simp: con_ok_def)
  show ?thesis
  proof (cases "X = 0")
    case True
    then show ?thesis using ok c by (simp add: del_def con_at_def con_step_def)
  next
    case False
    then have x: "v_x v \<noteq> 0" using c by (auto simp: con_at_def word_unat_eq_iff)
    have p: "v_pos v - 2 = SCREEN_START + of_nat (160 * k + 160 * Y + 2 * (X - 1))"
      using False by (simp add: pos_scr [OF c(1)] of_nat_diff algebra_simps)
    have "con_at k (X - 1) Y (del v)" using c False x by (simp add: del_def con_at_def of_nat_diff algebra_simps)
    moreover have "scr_frame (v_mem v) ((v_mem v)(v_pos v - 2 := 0x0720))"
      using c by (intro scr_frame_upd [OF _ p]) (auto simp: con_at_def)
    then have "scr_frame (v_mem v) (v_mem (del v))" using x by (simp add: del_def)
    ultimately show ?thesis using c by (intro con_stepI [of k "X - 1" Y]) auto
  qed
qed

lemma wrap_line_ok:
  assumes "con_at k X Y v" "80 \<le> X"
  shows "con_step v (wrap_line v) \<and> (\<exists>k' Y'. con_at k' (X - 80) Y' (wrap_line v))"
proof -
  have "con_at k (X - 80) Y (v\<lparr>v_x := v_x v - COLUMNS, v_pos := v_pos v - ROW\<rparr>)"
    using assms by (auto simp: con_at_def con_consts of_nat_diff algebra_simps)
  from lf_ok [OF this] show ?thesis using assms by (force simp: wrap_line_def con_step_def con_ok_def con_at_def)
qed

lemma put_char_ok: "con_ok v \<Longrightarrow> con_step v (put_char ch v)"
proof -
  assume ok: "con_ok v"
  then obtain k X Y where c: "con_at k X Y v" "X \<le> 80" by (auto simp: con_ok_def)
  have ge: "v_x v \<ge> COLUMNS \<longleftrightarrow> X = 80" using c by (auto simp: con_at_def con_consts word_le_nat_alt)
  define v1 where "v1 = (if v_x v \<ge> COLUMNS then wrap_line v else v)"
  have "\<exists>k X Y. con_at k X Y v1 \<and> X < 80" and f: "scr_frame (v_mem v) (v_mem v1)"
    using wrap_line_ok [OF c(1)] c ge by (fastforce simp: v1_def con_step_def)+
  then obtain k X Y where c1: "con_at k X Y v1" "X < 80" by blast
  have "scr_frame (v_mem v1) ((v_mem v1)(v_pos v1 := w))" for w
    using c1 by (intro scr_frame_upd [OF _ pos_scr [OF c1(1)]]) (simp add: con_at_def)
  then have "scr_frame (v_mem v) (v_mem (put_char ch v))"
    using f scr_frame_trans by (simp add: put_char_def v1_def [symmetric])
  moreover have "con_at k (X + 1) Y (put_char ch v)" using c1 by (simp add: put_char_def v1_def [symmetric] con_at_def algebra_simps)
  ultimately show ?thesis using c1 by (intro con_stepI) auto
qed

lemma tab_ok: "con_ok v \<Longrightarrow> con_step v (tab v)"
proof -
  assume ok: "con_ok v"
  then obtain k X Y where c: "con_at k X Y v" "X \<le> 80" by (auto simp: con_ok_def)
  have "v_x v AND 7 = take_bit 3 (v_x v)" by (simp add: take_bit_eq_mask mask_eq_exp_minus_1)
  then have "unat (v_x v AND 7) = unat (v_x v) mod 8" by (simp add: unsigned_take_bit_eq take_bit_eq_mod unat_mod_distrib)
  then have "unat (v_x v AND 7) = X mod 8" using c by (simp add: con_at_def)
  then have "v_x v AND 7 = of_nat (X mod 8)" using unat_small [of "X mod 8"] c(2) by (simp add: word_unat_eq_iff)
  then have d: "8 - (v_x v AND 7) = of_nat (8 - X mod 8)" by (simp add: of_nat_diff)
  define v1 where "v1 = v\<lparr>v_x := v_x v + of_nat (8 - X mod 8), v_pos := v_pos v + push_bit 1 (of_nat (8 - X mod 8))\<rparr>"
  have c1: "con_at k (X + (8 - X mod 8)) Y v1" using c by (simp add: v1_def con_at_def push_bit_eq_mult algebra_simps)
  have gt: "v_x v1 > COLUMNS \<longleftrightarrow> 80 < X + (8 - X mod 8)"
  proof -
    have "v_x v1 = of_nat (X + (8 - X mod 8))" using c1 by (simp only: con_at_def)
    then have "unat (v_x v1) = X + (8 - X mod 8)" using c(2) unat_small [of "X + (8 - X mod 8)"] by simp
    then show ?thesis by (simp add: con_consts word_less_nat_alt)
  qed
  have t: "tab v = (if v_x v1 > COLUMNS then wrap_line v1 else v1)" by (simp add: tab_def d v1_def Let_def)
  show ?thesis
  proof (cases "80 < X + (8 - X mod 8)")
    case True
    then show ?thesis using wrap_line_ok [OF c1] gt by (simp add: t con_step_def) (simp add: v1_def)
  next
    case False
    then show ?thesis using gt c1 by (simp add: t) (rule con_stepI, auto simp: v1_def)
  qed
qed


lemma back_ok: "con_ok v \<Longrightarrow> v_x v \<noteq> 0 \<Longrightarrow> con_step v (v\<lparr>v_x := v_x v - 1, v_pos := v_pos v - 2\<rparr>)"
proof -
  assume "con_ok v" and x: "v_x v \<noteq> 0"
  then obtain k X Y where c: "con_at k X Y v" "X \<le> 80" by (auto simp: con_ok_def)
  then have "X \<noteq> 0" using x by (cases "X = 0") (simp_all add: con_at_def)
  then have "con_at k (X - 1) Y (v\<lparr>v_x := v_x v - 1, v_pos := v_pos v - 2\<rparr>)"
    using c by (auto simp: con_at_def of_nat_diff algebra_simps)
  then show ?thesis by (rule con_stepI) (use c in auto)
qed

section \<open>Erasing, inserting and deleting\<close>

lemma step_mem: "con_ok v \<Longrightarrow> scr_frame (v_mem v) M \<Longrightarrow> con_step v (v\<lparr>v_mem := M\<rparr>)"
  by (simp add: con_step_def)

lemma line_start:
  assumes "con_at k X Y v"
  shows "v_pos v - push_bit 1 (v_x v) = SCREEN_START + of_nat (160 * k + 160 * Y)"
  using assms by (simp add: con_at_def push_bit_eq_mult)

lemma half_unat: "n < 2 ^ 32 \<Longrightarrow> unat (drop_bit 1 (of_nat n :: u32)) = n div 2"
  by (simp only: unat_drop_bit_eq unat_small) (simp add: drop_bit_eq_div)

lemma csi_J_ok:
  assumes ok: "con_ok v"
  shows "con_step v (csi_J p v)"
proof -
  obtain k X Y where c: "con_at k X Y v" "X \<le> 80" using ok by (auto simp: con_ok_def)
  have b: "160 * k + 4000 \<le> 0x8000" "Y < 25" using c by (simp_all add: con_at_def)
  have o: "v_origin v = SCREEN_START + of_nat (160 * k)" using c by (simp add: con_at_def)
  have "v_scr_end v - v_pos v = of_nat (4000 - (160 * Y + 2 * X))" using c b by (simp add: con_at_def of_nat_diff)
  then have e: "unat (drop_bit 1 (v_scr_end v - v_pos v)) = (4000 - (160 * Y + 2 * X)) div 2"
    using half_unat [of "4000 - (160 * Y + 2 * X)"] by simp
  have "v_pos v - v_origin v = of_nat (160 * Y + 2 * X)" using c by (simp add: con_at_def)
  then have s: "unat (drop_bit 1 (v_pos v - v_origin v)) = 80 * Y + X" using half_unat [of "160 * Y + 2 * X"] b c(2) by simp
  have "scr_frame M (fill_up (v_pos v) ((4000 - (160 * Y + 2 * X)) div 2) M)" for M
    using b by (intro fill_up_frame [OF _ pos_scr [OF c(1)]]) (use c(2) in auto)
  moreover have "scr_frame M (fill_up (v_origin v) (80 * Y + X) M)" "scr_frame M (fill_up (v_origin v) (unat (COLUMNS * LINES)) M)" for M
    using b c(2) by (intro fill_up_frame [OF _ o], simp add: con_consts)+
  ultimately show ?thesis using ok by (simp add: csi_J_def e [simplified] s [simplified] step_mem) (simp add: con_step_def)
qed

lemma csi_K_ok:
  assumes ok: "con_ok v"
  shows "con_step v (csi_K p v)"
proof -
  obtain k X Y where c: "con_at k X Y v" "X \<le> 80" using ok by (auto simp: con_ok_def)
  have b: "160 * k + 4000 \<le> 0x8000" "Y < 25" and x: "v_x v = of_nat X" using c by (simp_all add: con_at_def)
  have m: "unat (if v_x v < COLUMNS then v_x v else COLUMNS) \<le> 80" by (simp add: con_consts word_less_nat_alt)
  have r: "unat (COLUMNS - v_x v) = 80 - X" if "\<not> v_x v \<ge> COLUMNS"
    using that x c(2) by (subst unat_sub) (simp_all add: con_consts)
  have "scr_frame M (fill_up (v_pos v - push_bit 1 (v_x v)) n M)" if "n \<le> 80" for M n
    using b that by (intro fill_up_frame [OF _ line_start [OF c(1)]]) simp
  moreover have "scr_frame M (fill_up (v_pos v) (80 - X) M)" for M
    using b c(2) by (intro fill_up_frame [OF _ pos_scr [OF c(1)]]) simp
  ultimately show ?thesis using ok m r by (simp add: csi_K_def step_mem con_consts) (simp add: con_step_def)
qed

lemma insert_char_ok: "con_ok v \<Longrightarrow> con_step v (insert_char v)" and delete_char_ok: "con_ok v \<Longrightarrow> con_step v (delete_char v)"
proof -
  assume ok: "con_ok v"
  obtain k X Y where c: "con_at k X Y v" "X \<le> 80" using ok by (auto simp: con_ok_def)
  have b: "160 * k + 4000 \<le> 0x8000" "Y < 25" and x: "v_x v = of_nat X" using c by (simp_all add: con_at_def)
  have lt: "v_x v < COLUMNS \<longleftrightarrow> X < 80" using c by (simp add: x con_consts word_less_nat_alt)
  have "COLUMNS - v_x v = of_nat (80 - X)" using c(2) by (simp add: x con_consts of_nat_diff)
  then have r: "unat (COLUMNS - v_x v) = 80 - X" using unat_small [of "80 - X"] by simp
  have "scr_frame M (shift_in (80 - X) (v_pos v) old M)" for M old
    using b c(2) by (intro shift_in_frame [OF _ pos_scr [OF c(1)]]) simp
  then show "con_step v (insert_char v)" using ok lt r by (simp add: insert_char_def step_mem) (simp add: con_step_def)
  show "con_step v (delete_char v)"
  proof (cases "X < 80")
    case True
    have n: "unat (COLUMNS - v_x v - 1) = 79 - X"
    proof -
      have "COLUMNS - v_x v - 1 = of_nat (79 - X)" using True by (simp add: x con_consts of_nat_diff)
      then show ?thesis using unat_small [of "79 - X"] by simp
    qed
    have "v_pos v + 2 * of_nat (79 - X) = SCREEN_START + of_nat (160 * k + 160 * Y + 158)"
      using True by (simp add: pos_scr [OF c(1)] of_nat_diff)
    then have "scr_frame M (M(v_pos v + 2 * of_nat (79 - X) := 0x0720))" for M using b by (intro scr_frame_upd [of "160 * k + 160 * Y + 158"]) simp_all
    moreover have "scr_frame M (move_up (v_pos v) s (79 - X) M)" for M s
      using b True by (intro move_up_frame [OF _ pos_scr [OF c(1)]]) simp
    ultimately have "scr_frame M ((move_up (v_pos v) s (79 - X) M)(v_pos v + 2 * of_nat (79 - X) := 0x0720))" for M s
      using scr_frame_trans by blast
    then show ?thesis using ok lt True n by (simp add: delete_char_def Let_def step_mem not_le [symmetric])
  next
    case False
    then show ?thesis using ok lt by (auto simp: delete_char_def con_step_def)
  qed
qed


lemma con_at_region:
  assumes "con_at k X Y v"
  shows "con_at k X Y (v\<lparr>v_top := v_y v, v_bottom := LINES\<rparr>)"
    and "con_at k X Y w \<Longrightarrow> con_at k X Y (w\<lparr>v_top := v_top v, v_bottom := v_bottom v\<rparr>)"
  using assms by (simp_all add: con_at_def con_consts word_less_nat_alt)

lemma con_at_region_back: "con_at k X Y v \<Longrightarrow> con_at k' X' Y' w \<Longrightarrow> con_at k' X' Y' (w\<lparr>v_top := v_top v, v_bottom := v_bottom v\<rparr>)"
  by (simp add: con_at_def)

lemma insert_line_ok: "con_ok v \<Longrightarrow> con_step v (insert_line v)" and delete_line_ok: "con_ok v \<Longrightarrow> con_step v (delete_line v)"
proof -
  assume "con_ok v"
  then obtain k X Y where c: "con_at k X Y v" "X \<le> 80" by (auto simp: con_ok_def)
  note r = con_at_region(1) [OF c(1)]
  show "con_step v (insert_line v)"
    using scrdown_ok [OF r] con_at_region_back [OF c(1)] c(2) by (intro con_stepI [of k X Y]) (simp_all add: insert_line_def)
  show "con_step v (delete_line v)"
    using scrup_ok [OF r] con_at_region_back [OF c(1)] c(2) by (force simp: delete_line_def intro: con_stepI)
qed

lemma step_pow:
  assumes "\<And>v. con_ok v \<Longrightarrow> con_step v (f v)"
  shows "con_ok v \<Longrightarrow> con_step v ((f ^^ n) v)"
proof (induction n)
  case 0
  then show ?case by (simp add: con_step_def)
next
  case (Suc n)
  then show ?case using assms [of "(f ^^ n) v"] con_step_trans [of v "(f ^^ n) v"] by (simp add: con_step_def)
qed

lemma set_region_ok: "con_ok v \<Longrightarrow> con_step v (set_region v)"
proof -
  assume ok: "con_ok v"
  define w where "w = (let v1 = par_dec 0 v in if v_par v1 1 = 0 then v1\<lparr>v_par := (v_par v1)(1 := LINES)\<rparr> else v1)"
  have "con_ok w" "v_mem w = v_mem v" using ok by (auto simp: w_def par_dec_def Let_def)
  then obtain k X Y where c: "con_at k X Y w" "X \<le> 80" by (auto simp: con_ok_def)
  have s: "set_region v = (if v_par w 0 < v_par w 1 \<and> v_par w 1 \<le> LINES then w\<lparr>v_top := v_par w 0, v_bottom := v_par w 1\<rparr> else w)"
    by (simp add: set_region_def w_def Let_def)
  have "con_at k X Y (set_region v)" using c(1) by (simp add: s con_at_def con_consts)
  then show ?thesis by (rule con_stepI) (use c \<open>v_mem w = v_mem v\<close> in \<open>simp_all add: s\<close>)
qed

section \<open>One character\<close>

lemma par_ok [simp]: "con_ok (par_dec i v) = con_ok v" "v_mem (par_dec i v) = v_mem v" "con_ok (par_one v) = con_ok v" "v_mem (par_one v) = v_mem v"
  by (simp_all add: par_dec_def par_one_def)

lemma con_step_from: "con_step w v' \<Longrightarrow> v_mem w = v_mem v \<Longrightarrow> con_step v v'"
  by (simp add: con_step_def)

lemma step_same: "con_ok v \<Longrightarrow> con_step v v"
  by (simp add: con_step_def)

lemma con_final_ok:
  assumes "con_ok v"
  shows "con_step v (con_final c v)"
proof -
  let ?v = "v\<lparr>v_state := 0\<rparr>"
  have ok: "con_ok ?v" using assms by simp
  have g: "con_step v (gotoxy a b w)" if "con_ok w" "v_mem w = v_mem v" for a b w
    using gotoxy_ok [OF that(1)] that(2) by (rule con_step_from)
  have d: "con_ok (par_dec 0 ?v)" "con_ok (par_dec 1 (par_dec 0 ?v))" "con_ok (par_one ?v)" using ok by simp_all
  have op: "con_step v (f ?v)" if "\<And>v. con_ok v \<Longrightarrow> con_step v (f v)" for f :: "con \<Rightarrow> con"
    using that [OF ok] by (rule con_step_from) simp
  note ops = op [of csi_m] op [of set_region, OF set_region_ok] op [of save_cur, OF save_cur_ok] op [of restore_cur, OF restore_cur_ok]
    op [of "csi_J p" for p, OF csi_J_ok] op [of "csi_K p" for p, OF csi_K_ok] op [of "\<lambda>v. v", OF step_same]
  have pw: "con_step v ((f ^^ n) ?v)" if "\<And>v. con_ok v \<Longrightarrow> con_step v (f v)" for f :: "con \<Rightarrow> con" and n
    using step_pow [OF that ok] by (rule con_step_from) simp_all
  have m: "con_step v (csi_m ?v)" using assms by (simp add: csi_m_def con_step_def)
  show ?thesis
    unfolding con_final_def Let_def csi_at_def csi_L_def csi_P_def csi_M_def
    using d m ops(2-) pw [OF insert_char_ok] pw [OF insert_line_ok] pw [OF delete_char_ok] pw [OF delete_line_ok]
    by (simp add: g)
qed

lemma con_params_ok: "con_ok v \<Longrightarrow> con_step v (con_params c v)"
proof -
  assume ok: "con_ok v"
  have "con_ok (v\<lparr>v_npar := v_npar v + 1\<rparr>)" if "v_npar v < NPAR - 1"
    using ok that by (auto simp: con_ok_def con_at_def NPAR_def)
  then show ?thesis using ok con_final_ok [OF ok] by (simp add: con_params_def) (simp add: con_step_def)
qed

text \<open>
  C27: the console never leaves the screen. Whatever character arrives in whatever state of the escape sequence, the cursor stays on the screen, the
  cursor address agrees with its row and column, the screen stays inside video memory, and no memory outside video memory is
  written.
\<close>

theorem con_char_stays_on_screen:
  assumes "con_ok v" and "con_char erase c v = (v', r)"
  shows "con_ok v' \<and> (\<forall>p. p < SCREEN_START \<or> SCREEN_END \<le> p \<longrightarrow> v_mem v' p = v_mem v p)"
proof -
  have plain: "con_step v (con_plain erase c v)"
    using assms(1) put_char_ok step_lf cr_ok del_ok back_ok tab_ok by (simp add: con_plain_def) (simp add: con_step_def)
  have ok0: "con_ok (v\<lparr>v_state := 0\<rparr>)" using assms(1) by simp
  have esc: "con_step v (fst (con_escape c v))"
    using gotoxy_ok [OF ok0] step_ri [OF ok0] step_lf [OF ok0] save_cur_ok [OF ok0] restore_cur_ok [OF ok0] assms(1)
    by (simp add: con_escape_def Let_def con_step_def)
  have "con_ok (v\<lparr>v_par := f, v_npar := 0, v_state := 3, v_ques := q\<rparr>)" for f q
    using assms(1) by (auto simp: con_ok_def con_at_def)
  then have "con_step v (con_params c (v\<lparr>v_par := f, v_npar := 0, v_state := 3, v_ques := q\<rparr>))" for f q
    by (rule con_step_from [OF con_params_ok]) simp
  then have start: "con_step v (con_start c v)"
    using \<open>\<And>q f. con_ok (v\<lparr>v_par := f, v_npar := 0, v_state := 3, v_ques := q\<rparr>)\<close> by (simp add: con_start_def Let_def) (simp add: con_step_def)
  have "con_step v v'"
    using assms plain esc start con_params_ok con_final_ok step_same by (auto simp: con_char_def split: if_splits)
  then show ?thesis by (simp add: con_step_def scr_frame_def)
qed

lemma con_init_ok:
  assumes "col < 80" "row < 25"
  shows "con_ok (con_init col row (con_static M))"
proof -
  define a b :: u32 where "a = ucast col" and "b = ucast row"
  have "unat col < 80" "unat row < 25" using assms by (simp_all add: word_less_nat_alt)
  then have ab: "unat a < 80" "unat b < 25" by (simp_all add: a_def b_def unsigned_ucast_eq take_bit_nat_eq_self)
  then have "\<not> a \<ge> COLUMNS" "\<not> b \<ge> LINES" by (simp_all add: word_le_nat_alt con_consts)
  moreover have "push_bit 1 (b * COLUMNS + a) = of_nat (160 * unat b + 2 * unat a)" by (simp add: con_consts push_bit_eq_mult algebra_simps)
  ultimately have "con_at 0 (unat a) (unat b) (gotoxy a b (con_static M))"
    using ab by (simp add: gotoxy_def con_static_def con_at_def con_consts)
  then have "con_ok (gotoxy a b (con_static M))" by (rule con_okI) (use ab in simp)
  then show ?thesis by (simp add: con_init_def a_def b_def)
qed

theorem con_char_stays_on_screen_witness:
  "con_ok (con_init 5 24 (con_static (\<lambda>_. 0))) \<and>
   con_ok (fst (con_char 127 10 (con_init 5 24 (con_static (\<lambda>_. 0)))))"
proof -
  have ok: "con_ok (con_init 5 24 (con_static (\<lambda>_. 0)))" by (rule con_init_ok) simp_all
  obtain v' r where "con_char 127 10 (con_init 5 24 (con_static (\<lambda>_. 0))) = (v', r)" by fastforce
  then show ?thesis using con_char_stays_on_screen [OF ok] ok by auto
qed

end
