(* ===== verification/Buffer.thy ===== *)
theory Buffer
  imports Hd_Props
begin

text \<open>
  The buffer cache, \<^verbatim>\<open>src/fs/buffer.c\<close>: buffer heads in hash chains by device and block number, and all of them in one circular
  free list in least-recently-used order. Device and block numbers are passed as C ints and stored
  as unsigned shorts, so they are 32-bit words here and truncated where the source stores them.

  \<^verbatim>\<open>insert_into_queues\<close> writes through \<^verbatim>\<open>b_next\<close> even if that is null; the write then hits address 16, the entry 4 of
  the page directory (\<^verbatim>\<open>boot/head.s\<close> puts it at 0), with the address of the buffer head, a number that the model does not have, as pointers to heads are
  indices here. In the model the write goes to the cell 0 of \<open>bufs\<close>, which stands for no buffer; the damage to the directory, linear addresses from 16 megabytes on that
  only task 0 could use, is left out.
\<close>

record cache = hdst +
  hash_table :: "nat \<Rightarrow> nat"
  free_list :: nat
  buffer_wait :: u32
  nr_buffers :: nat

definition NR_HASH :: nat where "NR_HASH = 307"
definition BLOCK_SIZE :: nat where "BLOCK_SIZE = 1024"

definition buffer_waitq :: "'z cache_scheme waitq" where
  "buffer_waitq = \<lparr>wq_get = buffer_wait, wq_set = (\<lambda>p s. s\<lparr>buffer_wait := p\<rparr>)\<rparr>"

interpretation buffer_wait_queue: wait_queue buffer_waitq
  by unfold_locales (simp_all add: buffer_waitq_def)

section \<open>Queues\<close>

definition hashfn :: "u32 \<Rightarrow> u32 \<Rightarrow> nat" where
  "hashfn dev block = unat (dev XOR block) mod NR_HASH"

definition hash_of :: "buffer_head \<Rightarrow> nat" where
  "hash_of h = hashfn (ucast (b_dev h)) (ucast (b_blocknr h))"

definition unhash :: "nat \<Rightarrow> 'z cache_scheme \<Rightarrow> 'z cache_scheme" where
  "unhash b s =
     (let s1 = (if b_next (bufs s b) \<noteq> 0 then upd_buf (b_next (bufs s b)) (\<lambda>h. h\<lparr>b_prev := b_prev (bufs s b)\<rparr>) s else s);
          s2 = (if b_prev (bufs s1 b) \<noteq> 0 then upd_buf (b_prev (bufs s1 b)) (\<lambda>h. h\<lparr>b_next := b_next (bufs s1 b)\<rparr>) s1 else s1);
          k = hash_of (bufs s2 b)
      in if hash_table s2 k = b then s2\<lparr>hash_table := (hash_table s2)(k := b_next (bufs s2 b))\<rparr> else s2)"

definition unlink_free :: "nat \<Rightarrow> 'z cache_scheme \<Rightarrow> 'z cache_scheme" where
  "unlink_free b s =
     (let s1 = upd_buf (b_prev_free (bufs s b)) (\<lambda>h. h\<lparr>b_next_free := b_next_free (bufs s b)\<rparr>) s;
          s2 = upd_buf (b_next_free (bufs s1 b)) (\<lambda>h. h\<lparr>b_prev_free := b_prev_free (bufs s1 b)\<rparr>) s1
      in if free_list s2 = b then s2\<lparr>free_list := b_next_free (bufs s2 b)\<rparr> else s2)"

definition remove_from_queues :: "nat \<Rightarrow> ('z cache_scheme, unit) km" where
  "remove_from_queues b =
     seqK (modify (unhash b))
       (bnd (gets (\<lambda>s. b_prev_free (bufs s b) = 0 \<or> b_next_free (bufs s b) = 0)) (\<lambda>corrupt.
          if corrupt then panic ''Free block list corrupted'' else modify (unlink_free b)))"

definition link_free_tail :: "nat \<Rightarrow> 'z cache_scheme \<Rightarrow> 'z cache_scheme" where
  "link_free_tail b s =
     (let f = free_list s;
          s1 = upd_buf b (\<lambda>h. h\<lparr>b_next_free := f\<rparr>) s;
          s2 = upd_buf b (\<lambda>h. h\<lparr>b_prev_free := b_prev_free (bufs s1 f)\<rparr>) s1;
          s3 = upd_buf (b_prev_free (bufs s2 f)) (\<lambda>h. h\<lparr>b_next_free := b\<rparr>) s2
      in upd_buf f (\<lambda>h. h\<lparr>b_prev_free := b\<rparr>) s3)"

definition link_hash :: "nat \<Rightarrow> 'z cache_scheme \<Rightarrow> 'z cache_scheme" where
  "link_hash b s =
     (let s1 = upd_buf b (\<lambda>h. h\<lparr>b_prev := 0, b_next := 0\<rparr>) s
      in if b_dev (bufs s1 b) = 0 then s1
         else let k = hash_of (bufs s1 b);
                  s2 = upd_buf b (\<lambda>h. h\<lparr>b_next := hash_table s1 k\<rparr>) s1;
                  s3 = s2\<lparr>hash_table := (hash_table s2)(k := b)\<rparr>
              in upd_buf (b_next (bufs s3 b)) (\<lambda>h. h\<lparr>b_prev := b\<rparr>) s3)"

definition insert_into_queues :: "nat \<Rightarrow> 'z cache_scheme \<Rightarrow> 'z cache_scheme" where
  "insert_into_queues b s = link_hash b (link_free_tail b s)"

text \<open>The loop of \<^verbatim>\<open>find_buffer\<close>; \<open>None\<close> if a chain has no end.\<close>

partial_function (option) find_chain :: "(nat \<Rightarrow> buffer_head) \<Rightarrow> u32 \<Rightarrow> u32 \<Rightarrow> nat \<Rightarrow> nat option" where
  "find_chain B dev block tmp =
     (if tmp = 0 then Some 0
      else if ucast (b_dev (B tmp)) = dev \<and> ucast (b_blocknr (B tmp)) = block then Some tmp
      else find_chain B dev block (b_next (B tmp)))"

definition find_buffer :: "u32 \<Rightarrow> u32 \<Rightarrow> ('z cache_scheme, nat) km" where
  "find_buffer dev block = (\<lambda>s e.
     case find_chain (bufs s) dev block (hash_table s (hashfn dev block)) of
       None \<Rightarrow> Hang s | Some b \<Rightarrow> Ok b s e)"

section \<open>Getting and releasing buffers\<close>

definition brelse :: "nat \<Rightarrow> ('z cache_scheme, unit) km" where
  "brelse buf =
     (if buf = 0 then ret ()
      else seqK (wait_on_buffer buf)
        (bnd (gets (\<lambda>s. b_count (bufs s buf))) (\<lambda>old.
          seqK (modify (upd_buf buf (\<lambda>h. h\<lparr>b_count := b_count h - 1\<rparr>)))
            (if old = 0 then panic ''Trying to free free buffer''
             else modify (wake_up (Some buffer_waitq))))))"

definition get_hash_table :: "u32 \<Rightarrow> u32 \<Rightarrow> ('z cache_scheme, nat) km" where
  "get_hash_table dev block = loopK
     (bnd (find_buffer dev block) (\<lambda>b.
        if b = 0 then ret (Some 0)
        else seqK (modify (upd_buf b (\<lambda>h. h\<lparr>b_count := b_count h + 1\<rparr>)))
          (seqK (wait_on_buffer b)
            (bnd (gets (\<lambda>s. ucast (b_dev (bufs s b)) \<noteq> dev \<or> ucast (b_blocknr (bufs s b)) \<noteq> block)) (\<lambda>changed.
               if changed then seqK (brelse b) (ret None) else ret (Some b))))))"

definition sync_dev :: "u16 \<Rightarrow> ('z cache_scheme, unit) km" where
  "sync_dev dev = bnd (gets nr_buffers) (\<lambda>n.
     forK [1..<n + 1] (\<lambda>b.
       bnd (gets (\<lambda>s. b_dev (bufs s b))) (\<lambda>d. whenK (d = dev)
         (seqK (wait_on_buffer b)
           (bnd (gets (\<lambda>s. b_dirt (bufs s b) \<noteq> 0)) (\<lambda>dirt. whenK dirt (ll_rw_block WRITE b)))))))"

text \<open>
  The \<^verbatim>\<open>do ... while\<close> walk of \<^verbatim>\<open>getblk\<close> around the free list. It looks at no more than \<^verbatim>\<open>NR_BUFFERS\<close> buffers between two sleeps
  unless the list is broken, so \<open>n\<close>, the number of steps allowed, only runs out where the source loops forever.
\<close>

fun scan_buffers :: "nat \<Rightarrow> nat \<Rightarrow> ('z cache_scheme, nat) km" where
  "scan_buffers 0 tmp = (\<lambda>s e. Hang s)"
| "scan_buffers (Suc n) tmp =
     (let next = bnd (gets (\<lambda>s. (b_next_free (bufs s tmp), free_list s))) (\<lambda>(t, f).
                   if t \<noteq> f then scan_buffers n t else ret 0)
      in bnd (gets (\<lambda>s. b_count (bufs s tmp) = 0)) (\<lambda>unused.
           if unused then
             seqK (wait_on_buffer tmp)
               (bnd (gets (\<lambda>s. b_count (bufs s tmp) = 0)) (\<lambda>still. if still then ret tmp else next))
           else next))"

definition find_free :: "('z cache_scheme, nat) km" where
  "find_free = (\<lambda>s e. scan_buffers ((nr_buffers s + 1) * (length e + 1)) (free_list s) s e)"

definition getblk :: "u32 \<Rightarrow> u32 \<Rightarrow> ('z cache_scheme, nat) km" where
  "getblk dev block = loopK
     (bnd (get_hash_table dev block) (\<lambda>tmp.
        if tmp \<noteq> 0 then ret (Some tmp)
        else bnd find_free (\<lambda>tmp.
          if tmp = 0 then seqK (sleep_on (Some buffer_waitq)) (ret None)
          else seqK (modify (upd_buf tmp (\<lambda>h. h\<lparr>b_count := b_count h + 1\<rparr>)))
            (seqK (remove_from_queues tmp)
              (seqK (bnd (gets (\<lambda>s. bufs s tmp)) (\<lambda>h. whenK (b_dirt h \<noteq> 0) (sync_dev (b_dev h))))
                (seqK (modify (upd_buf tmp (\<lambda>h. h\<lparr>b_dev := ucast dev, b_blocknr := ucast block, b_dirt := 0, b_uptodate := 0\<rparr>)))
                  (bnd (find_buffer dev block) (\<lambda>other.
                    if other \<noteq> 0 then
                      seqK (modify (upd_buf tmp (\<lambda>h. h\<lparr>b_dev := 0, b_blocknr := 0, b_count := 0\<rparr>)))
                        (seqK (modify (insert_into_queues tmp)) (ret None))
                    else seqK (modify (insert_into_queues tmp)) (ret (Some tmp))))))))))"

definition bread :: "u32 \<Rightarrow> u32 \<Rightarrow> ('z cache_scheme, nat) km" where
  "bread dev block =
     bnd (getblk dev block) (\<lambda>b.
       if b = 0 then panic ''bread: getblk returned NULL''
       else bnd (gets (\<lambda>s. b_uptodate (bufs s b) \<noteq> 0)) (\<lambda>ok.
         if ok then ret b
         else seqK (ll_rw_block READ b)
           (bnd (gets (\<lambda>s. b_uptodate (bufs s b) \<noteq> 0)) (\<lambda>ok.
              if ok then ret b else seqK (brelse b) (ret 0)))))"

text \<open>The second part of \<^verbatim>\<open>sys_sync\<close>, after the inodes have been written to their buffers.\<close>

definition sync_buffers :: "('z cache_scheme, unit) km" where
  "sync_buffers = bnd (gets nr_buffers) (\<lambda>n.
     forK [1..<n + 1] (\<lambda>b.
       seqK (wait_on_buffer b)
         (bnd (gets (\<lambda>s. b_dirt (bufs s b) \<noteq> 0)) (\<lambda>dirt. whenK dirt (ll_rw_block WRITE b)))))"

section \<open>Initialisation\<close>

text \<open>
  \<^verbatim>\<open>buffer_init\<close> lays out buffer heads of 32 bytes (the size of \<^verbatim>\<open>struct buffer_head\<close>) upwards from the end of the kernel and data blocks downwards from
  \<^verbatim>\<open>BUFFER_END\<close>, jumping over the hole between 640 kB and 1 MB. \<open>b\<close> and \<open>h\<close> are the two addresses, \<open>n\<close> the number of heads
  made so far.
\<close>

function init_buffers :: "nat \<Rightarrow> nat \<Rightarrow> nat \<Rightarrow> (nat \<Rightarrow> buffer_head) \<Rightarrow> nat \<times> (nat \<Rightarrow> buffer_head)" where
  "init_buffers b h n B =
     (if 1024 \<le> b \<and> h + 32 \<le> b - 1024 then
        let B' = B(n + 1 := (B (n + 1))\<lparr>b_dev := 0, b_dirt := 0, b_count := 0, b_lock := 0, b_uptodate := 0, b_wait := 0,
                   b_next := 0, b_prev := 0, b_prev_free := n, b_next_free := n + 2\<rparr>)
        in init_buffers (if b - 1024 = 0x100000 then 0xA0000 else b - 1024) (h + 32) (n + 1) B'
      else (n, B))"
  by pat_completeness auto
termination
  by (relation "measure (\<lambda>(b, h, n, B). b)") (auto split: if_splits)

declare init_buffers.simps [simp del]

definition buffer_init :: "nat \<Rightarrow> 'z cache_scheme \<Rightarrow> 'z cache_scheme" where
  "buffer_init end_addr s =
     (let (n, B) = init_buffers (unat BUFFER_END) end_addr 0 (bufs s)
      in s\<lparr>nr_buffers := nr_buffers s + n, free_list := 1,
           bufs := (let B1 = B(1 := (B 1)\<lparr>b_prev_free := n\<rparr>) in B1(n := (B1 n)\<lparr>b_next_free := 1\<rparr>)),
           hash_table := (\<lambda>i. if i < NR_HASH then 0 else hash_table s i)\<rparr>)"

end
