(* ===== verification/Buffer_Queues.thy ===== *)
theory Buffer_Queues
  imports Buffer
begin

text \<open>
  The queues of the buffer cache as lists. \<open>ring B xs\<close> says that the free-list pointers of the buffer heads \<open>B\<close> form the
  circle \<open>xs\<close>, \<open>chain B p xs\<close> that the hash pointers form the null-terminated list \<open>xs\<close> from \<open>p\<close>. The pointer
  surgery of \<^verbatim>\<open>remove_from_queues\<close> and \<^verbatim>\<open>insert_into_queues\<close> is shown to be removal from and
  insertion into these lists.
\<close>

section \<open>Neighbours in a list\<close>

definition path_adj :: "'a list \<Rightarrow> ('a \<times> 'a) set" where
  "path_adj xs = set (zip xs (tl xs))"

definition ring_adj :: "'a list \<Rightarrow> ('a \<times> 'a) set" where
  "ring_adj xs = insert (last xs, hd xs) (path_adj xs)"

lemma path_adj_Nil [simp]: "path_adj [] = {}" and path_adj_single [simp]: "path_adj [x] = {}"
  by (simp_all add: path_adj_def)

lemma path_adj_Cons [simp]: "path_adj (x # y # ys) = insert (x, y) (path_adj (y # ys))"
  by (simp add: path_adj_def)

lemma path_adj_append:
  "xs \<noteq> [] \<Longrightarrow> ys \<noteq> [] \<Longrightarrow> path_adj (xs @ ys) = insert (last xs, hd ys) (path_adj xs \<union> path_adj ys)"
proof (induction xs)
  case (Cons x xs)
  then show ?case by (cases xs; cases ys) auto
qed simp

lemma path_adj_snoc: "xs \<noteq> [] \<Longrightarrow> path_adj (xs @ [b]) = insert (last xs, b) (path_adj xs)"
  using path_adj_append [of xs "[b]"] by simp

lemma path_adj_in: "(x, y) \<in> path_adj xs \<Longrightarrow> x \<in> set xs \<and> y \<in> set xs"
  by (cases xs) (auto simp: path_adj_def dest: set_zip_leftD set_zip_rightD)

lemma path_adj_not_last: "distinct xs \<Longrightarrow> (x, y) \<in> path_adj xs \<Longrightarrow> x \<noteq> last xs \<and> y \<noteq> hd xs"
proof (induction xs)
  case (Cons a xs)
  then show ?case by (cases xs) (auto dest: path_adj_in)
qed simp

lemma path_adj_fun: "distinct xs \<Longrightarrow> (x, y) \<in> path_adj xs \<Longrightarrow> (x, z) \<in> path_adj xs \<Longrightarrow> y = z"
proof (induction xs)
  case (Cons a xs)
  then show ?case by (cases xs) (auto dest: path_adj_in)
qed simp

lemma ring_adj_rotate: "ring_adj (xs @ ys) = ring_adj (ys @ xs)"
proof (cases "xs = [] \<or> ys = []")
  case False
  then show ?thesis by (auto simp: ring_adj_def path_adj_append)
qed auto

lemma ring_adj_Cons: "zs \<noteq> [] \<Longrightarrow> ring_adj (b # zs) = insert (last zs, b) (insert (b, hd zs) (path_adj zs))"
  by (cases zs) (auto simp: ring_adj_def)

section \<open>The free list\<close>

definition ring :: "(nat \<Rightarrow> buffer_head) \<Rightarrow> nat list \<Rightarrow> bool" where
  "ring B xs \<longleftrightarrow> xs \<noteq> [] \<and> distinct xs \<and> 0 \<notin> set xs \<and>
     (\<forall>(x, y) \<in> ring_adj xs. b_next_free (B x) = y \<and> b_prev_free (B y) = x)"

lemma ringI:
  assumes "xs \<noteq> []" "distinct xs" "0 \<notin> set xs" "b_next_free (B (last xs)) = hd xs" "b_prev_free (B (hd xs)) = last xs"
    and "\<And>x y. (x, y) \<in> path_adj xs \<Longrightarrow> b_next_free (B x) = y \<and> b_prev_free (B y) = x"
  shows "ring B xs"
  using assms by (auto simp: ring_def ring_adj_def)

lemma ring_rotate: "ring B (xs @ ys) \<longleftrightarrow> ring B (ys @ xs)"
  unfolding ring_def by (auto simp: ring_adj_rotate [of xs ys])

lemma ring_last: "ring B xs \<Longrightarrow> b_next_free (B (last xs)) = hd xs \<and> b_prev_free (B (hd xs)) = last xs"
  by (auto simp: ring_def ring_adj_def)

lemma ring_cong:
  "(\<And>x. x \<in> set xs \<Longrightarrow> b_next_free (B' x) = b_next_free (B x) \<and> b_prev_free (B' x) = b_prev_free (B x)) \<Longrightarrow> ring B' xs = ring B xs"
proof -
  assume a: "\<And>x. x \<in> set xs \<Longrightarrow> b_next_free (B' x) = b_next_free (B x) \<and> b_prev_free (B' x) = b_prev_free (B x)"
  have "x \<in> set xs \<and> y \<in> set xs" if "(x, y) \<in> ring_adj xs" "xs \<noteq> []" for x y
    using that path_adj_in [of x y xs] by (auto simp: ring_adj_def)
  then show ?thesis using a by (fastforce simp: ring_def)
qed

text \<open>The two pointer updates that take the head of a circle out of it.\<close>

lemma ring_drop_head:
  assumes r: "ring B (b # zs)" and zs: "zs \<noteq> []"
    and n: "\<And>x. b_next_free (B' x) = (if x = last zs then hd zs else b_next_free (B x))"
    and p: "\<And>x. b_prev_free (B' x) = (if x = hd zs then last zs else b_prev_free (B x))"
  shows "ring B' zs"
proof -
  have d: "distinct zs" "0 \<notin> set zs" using r by (auto simp: ring_def)
  have step: "b_next_free (B' x) = y \<and> b_prev_free (B' y) = x" if "(x, y) \<in> path_adj zs" for x y
  proof -
    have "(x, y) \<in> ring_adj (b # zs)" using that zs by (simp add: ring_adj_Cons)
    then have "b_next_free (B x) = y \<and> b_prev_free (B y) = x" using r by (auto simp: ring_def)
    then show ?thesis using path_adj_not_last [OF d(1) that] n p by simp
  qed
  show ?thesis by (rule ringI [OF zs d _ _ step]) (simp_all add: n p)
qed

definition links_free :: "buffer_head \<Rightarrow> nat \<times> nat" where
  "links_free h = (b_prev_free h, b_next_free h)"

definition links_hash :: "buffer_head \<Rightarrow> nat \<times> nat" where
  "links_hash h = (b_prev h, b_next h)"

text \<open>All fields of a buffer head that are not queue pointers.\<close>

definition body :: "buffer_head \<Rightarrow> buffer_head" where
  "body h = h\<lparr>b_prev := 0, b_next := 0, b_prev_free := 0, b_next_free := 0\<rparr>"

lemma body_upd [simp]: "body (h\<lparr>b_prev := v\<rparr>) = body h" "body (h\<lparr>b_next := v\<rparr>) = body h"
  "body (h\<lparr>b_prev_free := v\<rparr>) = body h" "body (h\<lparr>b_next_free := v\<rparr>) = body h"
  by (simp_all add: body_def)

lemma body_fields:
  "body h = body h' \<Longrightarrow> b_data h = b_data h' \<and> b_dev h = b_dev h' \<and> b_blocknr h = b_blocknr h' \<and> b_uptodate h = b_uptodate h' \<and>
     b_dirt h = b_dirt h' \<and> b_count h = b_count h' \<and> b_lock h = b_lock h' \<and> b_wait h = b_wait h'"
  by (cases h; cases h') (simp add: body_def)

lemma hash_of_body: "body h = body h' \<Longrightarrow> hash_of h = hash_of h'"
  using body_fields [of h h'] by (simp add: hash_of_def)

text \<open>\<open>queue_frame s s'\<close>: only queue pointers, the hash table and the head of the free list may differ.\<close>

definition queue_frame :: "'z cache_scheme \<Rightarrow> 'z cache_scheme \<Rightarrow> bool" where
  "queue_frame s s' \<longleftrightarrow> s' = s\<lparr>bufs := bufs s', hash_table := hash_table s', free_list := free_list s'\<rparr> \<and>
     (\<forall>x. body (bufs s' x) = body (bufs s x))"

lemma queue_frame_trans: "queue_frame s1 s2 \<Longrightarrow> queue_frame s2 s3 \<Longrightarrow> queue_frame s1 s3"
  unfolding queue_frame_def by (cases s1; cases s2; cases s3) simp

lemma unlink_free_ring:
  assumes r: "ring (bufs s) (as @ b # cs)" and f: "free_list s = hd (as @ b # cs)" and two: "as @ cs \<noteq> []"
  shows "ring (bufs (unlink_free b s)) (as @ cs)" "free_list (unlink_free b s) = hd (as @ cs)"
    "queue_frame s (unlink_free b s)" "hash_table (unlink_free b s) = hash_table s"
    "links_hash (bufs (unlink_free b s) x) = links_hash (bufs s x)"
proof -
  let ?zs = "cs @ as" and ?B = "bufs s" and ?s' = "unlink_free b s"
  have z: "?zs \<noteq> []" using two by auto
  have rz: "ring ?B (b # ?zs)" using r ring_rotate [of ?B as "b # cs"] by simp
  have bn: "b \<notin> set ?zs" using rz by (simp add: ring_def)
  have nb: "b_next_free (?B b) = hd ?zs" "b_prev_free (?B b) = last ?zs"
    using rz z by (auto simp: ring_def ring_adj_Cons)
  have nz: "hd ?zs \<noteq> b" "last ?zs \<noteq> b" using bn z by (metis hd_in_set, metis last_in_set)
  have n: "b_next_free (bufs ?s' x) = (if x = last ?zs then hd ?zs else b_next_free (?B x))"
    and p: "b_prev_free (bufs ?s' x) = (if x = hd ?zs then last ?zs else b_prev_free (?B x))" for x
    using nb nz by (simp_all add: unlink_free_def upd_buf_def Let_def)
  have "ring (bufs ?s') ?zs" by (rule ring_drop_head [OF rz z n p])
  then show "ring (bufs ?s') (as @ cs)" using ring_rotate by blast
  have fl: "free_list ?s' = (if free_list s = b then b_next_free (bufs ?s' b) else free_list s)"
    by (simp add: unlink_free_def upd_buf_def Let_def)
  show "free_list ?s' = hd (as @ cs)"
  proof (cases as)
    case Nil
    then show ?thesis using fl f n [of b] nz nb two by (simp add: hd_append)
  next
    case (Cons a as')
    then have "a \<noteq> b" using bn by auto
    then show ?thesis using fl f Cons by simp
  qed
  show "queue_frame s ?s'" "hash_table ?s' = hash_table s" "links_hash (bufs ?s' x) = links_hash (bufs s x)"
    by (simp_all add: queue_frame_def unlink_free_def upd_buf_def Let_def links_hash_def)
qed

lemma link_free_tail_ring:
  assumes r: "ring (bufs s) xs" and f: "free_list s = hd xs" and b: "b \<notin> set xs" "b \<noteq> 0"
  shows "ring (bufs (link_free_tail b s)) (xs @ [b])" "free_list (link_free_tail b s) = hd (xs @ [b])"
    "queue_frame s (link_free_tail b s)" "hash_table (link_free_tail b s) = hash_table s"
    "links_hash (bufs (link_free_tail b s) x) = links_hash (bufs s x)"
proof -
  let ?B = "bufs s" and ?s' = "link_free_tail b s"
  have ne: "xs \<noteq> []" "distinct xs" "0 \<notin> set xs" using r by (auto simp: ring_def)
  have h: "hd xs \<noteq> b" "last xs \<noteq> b" using b ne(1) by (metis hd_in_set, metis last_in_set)
  have l: "b_prev_free (?B (hd xs)) = last xs" using ring_last [OF r] by simp
  have n: "b_next_free (bufs ?s' x) = (if x = last xs then b else if x = b then hd xs else b_next_free (?B x))"
    and p: "b_prev_free (bufs ?s' x) = (if x = hd xs then b else if x = b then last xs else b_prev_free (?B x))" for x
    using h l f by (auto simp: link_free_tail_def upd_buf_def Let_def)
  have step: "b_next_free (bufs ?s' x) = y \<and> b_prev_free (bufs ?s' y) = x" if a: "(x, y) \<in> path_adj xs" for x y
  proof -
    have "b_next_free (?B x) = y \<and> b_prev_free (?B y) = x" using r a by (auto simp: ring_def ring_adj_def)
    then show ?thesis using path_adj_not_last [OF ne(2) a] path_adj_in [OF a] b n p by auto
  qed
  show "ring (bufs ?s') (xs @ [b])"
  proof (rule ringI)
    fix x y assume "(x, y) \<in> path_adj (xs @ [b])"
    then consider "(x, y) \<in> path_adj xs" | "x = last xs" "y = b" using ne(1) by (auto simp: path_adj_snoc)
    then show "b_next_free (bufs ?s' x) = y \<and> b_prev_free (bufs ?s' y) = x"
      using step h n p by cases auto
  qed (use ne b n p h in auto)
  show "free_list ?s' = hd (xs @ [b])" using f ne by (simp add: link_free_tail_def upd_buf_def Let_def)
  show "queue_frame s ?s'" "hash_table ?s' = hash_table s" "links_hash (bufs ?s' x) = links_hash (bufs s x)"
    by (simp_all add: queue_frame_def link_free_tail_def upd_buf_def Let_def links_hash_def)
qed


section \<open>Hash chains\<close>

definition first :: "nat list \<Rightarrow> nat" where
  "first xs = (case xs of [] \<Rightarrow> 0 | x # _ \<Rightarrow> x)"

lemma first_simps [simp]: "first [] = 0" "first (x # xs) = x" "xs \<noteq> [] \<Longrightarrow> first (xs @ ys) = first xs" "xs \<noteq> [] \<Longrightarrow> first xs = hd xs"
  by (auto simp: first_def split: list.splits)

definition chain :: "(nat \<Rightarrow> buffer_head) \<Rightarrow> nat \<Rightarrow> nat list \<Rightarrow> bool" where
  "chain B p xs \<longleftrightarrow> distinct xs \<and> 0 \<notin> set xs \<and> p = first xs \<and>
     (xs \<noteq> [] \<longrightarrow> b_prev (B (hd xs)) = 0 \<and> b_next (B (last xs)) = 0) \<and>
     (\<forall>(x, y) \<in> path_adj xs. b_next (B x) = y \<and> b_prev (B y) = x)"

lemma chain_cong:
  "(\<And>x. x \<in> set xs \<Longrightarrow> links_hash (B' x) = links_hash (B x)) \<Longrightarrow> chain B' p xs = chain B p xs"
proof -
  assume a: "\<And>x. x \<in> set xs \<Longrightarrow> links_hash (B' x) = links_hash (B x)"
  then have b: "\<And>x. x \<in> set xs \<Longrightarrow> b_next (B' x) = b_next (B x) \<and> b_prev (B' x) = b_prev (B x)"
    by (simp add: links_hash_def)
  have "b_next (B' x) = b_next (B x)" "b_prev (B' y) = b_prev (B y)" if "(x, y) \<in> path_adj xs" for x y
    using path_adj_in [OF that] b by auto
  moreover have "xs \<noteq> [] \<longrightarrow> b_prev (B' (hd xs)) = b_prev (B (hd xs)) \<and> b_next (B' (last xs)) = b_next (B (last xs))"
    using b by (metis hd_in_set last_in_set)
  ultimately show ?thesis unfolding chain_def by (fastforce simp: split_def)
qed

lemma chain_member_next:
  assumes "chain B p (as @ b # cs)"
  shows "b_next (B b) = first cs" "b_prev (B b) = (if as = [] then 0 else last as)"
proof -
  show "b_next (B b) = first cs"
  proof (cases cs)
    case (Cons c cs')
    have "(b, c) \<in> path_adj (as @ b # cs)" using Cons by (cases "as = []") (simp_all add: path_adj_append)
    then show ?thesis using assms Cons by (auto simp: chain_def)
  qed (use assms in \<open>auto simp: chain_def\<close>)
  show "b_prev (B b) = (if as = [] then 0 else last as)"
  proof (cases "as = []")
    case False
    have "(last as, b) \<in> path_adj (as @ b # cs)" using False by (simp add: path_adj_append)
    then show ?thesis using assms False by (auto simp: chain_def)
  qed (use assms in \<open>auto simp: chain_def\<close>)
qed

lemma chain_remove:
  assumes c: "chain B p (as @ b # cs)"
    and n: "\<And>x. x \<in> set (as @ cs) \<Longrightarrow> b_next (B' x) = (if as \<noteq> [] \<and> x = last as then first cs else b_next (B x))"
    and pr: "\<And>x. x \<in> set (as @ cs) \<Longrightarrow> b_prev (B' x) = (if cs \<noteq> [] \<and> x = hd cs then (if as = [] then 0 else last as) else b_prev (B x))"
  shows "chain B' (first (as @ cs)) (as @ cs)"
proof -
  have d: "distinct (as @ b # cs)" "0 \<notin> set (as @ b # cs)" using c by (auto simp: chain_def)
  have ends: "as \<noteq> [] \<Longrightarrow> b_prev (B (hd as)) = 0" "cs \<noteq> [] \<Longrightarrow> b_next (B (last cs)) = 0"
    using c by (auto simp: chain_def)
  have adj: "(x, y) \<in> path_adj as \<or> (x, y) \<in> path_adj cs \<Longrightarrow> b_next (B x) = y \<and> b_prev (B y) = x" for x y
  proof -
    assume "(x, y) \<in> path_adj as \<or> (x, y) \<in> path_adj cs"
    then have "(x, y) \<in> path_adj (as @ b # cs)"
      by (cases "as = []"; cases "cs = []") (auto simp: path_adj_append path_adj_append [of "[b]", simplified])
    then show ?thesis using c by (auto simp: chain_def)
  qed
  have hd_l: "as \<noteq> [] \<Longrightarrow> hd as \<notin> set cs" "cs \<noteq> [] \<Longrightarrow> last cs \<notin> set as" "as \<noteq> [] \<Longrightarrow> last as \<notin> set cs" "cs \<noteq> [] \<Longrightarrow> hd cs \<notin> set as"
    using d(1) by (auto dest: hd_in_set last_in_set)
  have inner: "b_next (B' x) = y \<and> b_prev (B' y) = x" if a: "(x, y) \<in> path_adj as \<or> (x, y) \<in> path_adj cs" for x y
  proof -
    have "x \<in> set (as @ cs) \<and> y \<in> set (as @ cs)" using a path_adj_in [of x y] by auto
    moreover have "\<not> (as \<noteq> [] \<and> x = last as)" "\<not> (cs \<noteq> [] \<and> y = hd cs)"
      using a path_adj_not_last [of as x y] path_adj_not_last [of cs x y] path_adj_in [of x y] hd_l d(1) by auto
    ultimately show ?thesis using adj [OF a] n [of x] pr [of y] by auto
  qed
  show ?thesis
    unfolding chain_def
  proof (intro conjI impI ballI, goal_cases)
    case 4
    then show ?case
      using ends pr [of "hd (as @ cs)"] hd_l by (cases "as = []") auto
  next
    case 5
    then show ?case
      using ends n [of "last (as @ cs)"] hd_l by (cases "cs = []") (auto simp: last_append)
  next
    case (6 xy)
    obtain x y where xy: "xy = (x, y)" by (cases xy)
    show ?case
    proof (cases "(x, y) \<in> path_adj as \<or> (x, y) \<in> path_adj cs")
      case True
      then show ?thesis using inner xy by auto
    next
      case False
      then have "as \<noteq> []" "cs \<noteq> []" "x = last as" "y = hd cs"
        using 6 xy by (cases "as = []"; cases "cs = []"; auto simp: path_adj_append)+
      then show ?thesis using n [of x] pr [of y] xy by auto
    qed
  qed (use d in auto)
qed

lemma chain_push:
  assumes c: "chain B p xs" and b: "b \<notin> set xs" "b \<noteq> 0"
    and B': "links_hash (B' b) = (0, p)" "\<And>x. x \<in> set xs \<Longrightarrow> b_next (B' x) = b_next (B x)"
      "\<And>x. x \<in> set xs \<Longrightarrow> b_prev (B' x) = (if x = p then b else b_prev (B x))"
  shows "chain B' b (b # xs)"
proof (cases xs)
  case Nil
  then show ?thesis using b c B'(1) by (simp add: chain_def links_hash_def)
next
  case (Cons y ys)
  have p: "p = y" "distinct xs" using c Cons by (auto simp: chain_def)
  have "b_next (B' u) = v \<and> b_prev (B' v) = u" if a: "(u, v) \<in> path_adj xs" for u v
  proof -
    have "b_next (B u) = v \<and> b_prev (B v) = u" using c a by (auto simp: chain_def)
    moreover have "v \<noteq> p" using path_adj_not_last [OF p(2) a] p Cons by simp
    ultimately show ?thesis using B' path_adj_in [OF a] by auto
  qed
  moreover have "b_next (B' (last xs)) = 0" using c B'(2) [of "last xs"] Cons by (auto simp: chain_def)
  ultimately show ?thesis
    using c b B'(1) B'(3) [of y] p Cons by (auto simp: chain_def links_hash_def)
qed


section \<open>The invariant of the queues\<close>

lemma hash_of_less [simp]: "hash_of h < NR_HASH"
  by (simp add: hash_of_def hashfn_def NR_HASH_def)

definition queues :: "'z cache_scheme \<Rightarrow> nat list \<Rightarrow> (nat \<Rightarrow> nat list) \<Rightarrow> bool" where
  "queues s F C \<longleftrightarrow> ring (bufs s) F \<and> free_list s = hd F \<and>
     (\<forall>k<NR_HASH. chain (bufs s) (hash_table s k) (C k) \<and>
        (\<forall>x\<in>set (C k). x \<in> set F \<and> b_dev (bufs s x) \<noteq> 0 \<and> hash_of (bufs s x) = k)) \<and>
     (\<forall>x\<in>set F. if b_dev (bufs s x) = 0 then links_hash (bufs s x) = (0, 0) else x \<in> set (C (hash_of (bufs s x)))) \<and>
     (\<forall>x\<in>set F. \<forall>y\<in>set F. b_dev (bufs s x) \<noteq> 0 \<longrightarrow> b_dev (bufs s x) = b_dev (bufs s y) \<longrightarrow>
        b_blocknr (bufs s x) = b_blocknr (bufs s y) \<longrightarrow> x = y)"

lemma queues_ring: "queues s F C \<Longrightarrow> ring (bufs s) F" and queues_head: "queues s F C \<Longrightarrow> free_list s = hd F"
  by (auto simp: queues_def)

lemma queues_chain: "queues s F C \<Longrightarrow> k < NR_HASH \<Longrightarrow> chain (bufs s) (hash_table s k) (C k)"
  by (simp add: queues_def)

lemma queues_member: "queues s F C \<Longrightarrow> k < NR_HASH \<Longrightarrow> x \<in> set (C k) \<Longrightarrow> x \<in> set F \<and> b_dev (bufs s x) \<noteq> 0 \<and> hash_of (bufs s x) = k"
  by (simp add: queues_def)

lemma queues_hashed: "queues s F C \<Longrightarrow> x \<in> set F \<Longrightarrow> b_dev (bufs s x) \<noteq> 0 \<Longrightarrow> x \<in> set (C (hash_of (bufs s x)))"
  by (auto simp: queues_def)

lemma queues_unhashed: "queues s F C \<Longrightarrow> x \<in> set F \<Longrightarrow> b_dev (bufs s x) = 0 \<Longrightarrow> links_hash (bufs s x) = (0, 0)"
  unfolding queues_def by metis

lemma queues_unique: "queues s F C \<Longrightarrow> x \<in> set F \<Longrightarrow> y \<in> set F \<Longrightarrow> b_dev (bufs s x) \<noteq> 0 \<Longrightarrow>
    b_dev (bufs s x) = b_dev (bufs s y) \<Longrightarrow> b_blocknr (bufs s x) = b_blocknr (bufs s y) \<Longrightarrow> x = y"
  unfolding queues_def by blast

lemma queuesI:
  assumes "ring (bufs s) F" "free_list s = hd F"
    and "\<And>k. k < NR_HASH \<Longrightarrow> chain (bufs s) (hash_table s k) (C k)"
    and "\<And>k x. k < NR_HASH \<Longrightarrow> x \<in> set (C k) \<Longrightarrow> x \<in> set F \<and> b_dev (bufs s x) \<noteq> 0 \<and> hash_of (bufs s x) = k"
    and "\<And>x. x \<in> set F \<Longrightarrow> if b_dev (bufs s x) = 0 then links_hash (bufs s x) = (0, 0) else x \<in> set (C (hash_of (bufs s x)))"
    and "\<And>x y. x \<in> set F \<Longrightarrow> y \<in> set F \<Longrightarrow> b_dev (bufs s x) \<noteq> 0 \<Longrightarrow> b_dev (bufs s x) = b_dev (bufs s y) \<Longrightarrow>
        b_blocknr (bufs s x) = b_blocknr (bufs s y) \<Longrightarrow> x = y"
  shows "queues s F C"
  using assms unfolding queues_def by blast

lemmas queuesD = queues_ring queues_head queues_chain queues_member queues_hashed queues_unhashed queues_unique

text \<open>The invariant depends on the pointers, the hash table and the identities only.\<close>

lemma queues_cong:
  assumes "free_list s' = free_list s" "hash_table s' = hash_table s"
    and e: "\<And>x. x \<in> set F \<Longrightarrow> links_hash (bufs s' x) = links_hash (bufs s x) \<and> links_free (bufs s' x) = links_free (bufs s x) \<and>
       b_dev (bufs s' x) = b_dev (bufs s x) \<and> b_blocknr (bufs s' x) = b_blocknr (bufs s x)"
    and q: "queues s F C"
  shows "queues s' F C"
proof -
  have h: "hash_of (bufs s' x) = hash_of (bufs s x)" if "x \<in> set F" for x using e [OF that] by (simp add: hash_of_def)
  have "ring (bufs s') F = ring (bufs s) F" using e by (intro ring_cong) (auto simp: links_free_def)
  moreover have "chain (bufs s') p (C k) = chain (bufs s) p (C k)" if "k < NR_HASH" for k p
    using e queues_member [OF q that] by (intro chain_cong) auto
  ultimately show ?thesis
    using q assms(1,2) e h queues_member [OF q] unfolding queues_def by simp
qed

lemma not_mem_ends: "x \<notin> set (as @ b # cs) \<Longrightarrow> (x \<noteq> last as \<or> as = []) \<and> (x \<noteq> hd cs \<or> cs = [])"
  by (cases "as = []"; cases "cs = []") (auto dest: last_in_set hd_in_set)

lemma unhash_hashed:
  assumes q: "queues s F C" and b: "b \<in> set F" and d: "b_dev (bufs s b) \<noteq> 0"
    and k: "k = hash_of (bufs s b)" and split: "C k = as @ b # cs"
  shows "b_next (bufs (unhash b s) x) = (if as \<noteq> [] \<and> x = last as then first cs else b_next (bufs s x))"
    "b_prev (bufs (unhash b s) x) = (if cs \<noteq> [] \<and> x = hd cs then (if as = [] then 0 else last as) else b_prev (bufs s x))"
    "hash_table (unhash b s) = (hash_table s)(k := first (as @ cs))"
proof -
  have c: "chain (bufs s) (hash_table s k) (as @ b # cs)" using queues_chain [OF q, of k] k split by simp
  then have d: "distinct (as @ b # cs)" "0 \<notin> set (as @ b # cs)" by (auto simp: chain_def)
  note nb = chain_member_next [OF c]
  have ht: "hash_table s k = first (as @ b # cs)" using c by (simp add: chain_def)
  have ne: "as \<noteq> [] \<Longrightarrow> last as \<noteq> b \<and> last as \<noteq> 0 \<and> hd as \<noteq> b" "cs \<noteq> [] \<Longrightarrow> hd cs \<noteq> b \<and> hd cs \<noteq> 0"
    using d last_in_set [of as] hd_in_set [of as] hd_in_set [of cs]
    by (metis Un_iff distinct.simps(2) distinct_append set_append set_ConsD list.set_intros(1) disjoint_iff insert_iff list.set(2))+
  define s1 where "s1 = (if b_next (bufs s b) \<noteq> 0 then upd_buf (b_next (bufs s b)) (\<lambda>h. h\<lparr>b_prev := b_prev (bufs s b)\<rparr>) s else s)"
  define s2 where "s2 = (if b_prev (bufs s1 b) \<noteq> 0 then upd_buf (b_prev (bufs s1 b)) (\<lambda>h. h\<lparr>b_next := b_next (bufs s1 b)\<rparr>) s1 else s1)"
  have u: "unhash b s = (if hash_table s2 (hash_of (bufs s2 b)) = b
       then s2\<lparr>hash_table := (hash_table s2)(hash_of (bufs s2 b) := b_next (bufs s2 b))\<rparr> else s2)"
    by (simp add: unhash_def s1_def s2_def Let_def)
  have b1: "bufs s1 b = bufs s b" using nb(1) ne(2) by (cases cs) (auto simp: s1_def upd_buf_def)
  have b2: "bufs s2 b = bufs s b" using b1 nb(2) ne(1) by (auto simp: s2_def upd_buf_def)
  have h2: "hash_table s2 = hash_table s" by (simp add: s1_def s2_def upd_buf_def)
  have bu: "bufs (unhash b s) = bufs s2" by (simp add: u)
  show "b_next (bufs (unhash b s) x) = (if as \<noteq> [] \<and> x = last as then first cs else b_next (bufs s x))"
    using nb ne b1 unfolding bu by (auto simp: s2_def s1_def upd_buf_def)
  show "b_prev (bufs (unhash b s) x) = (if cs \<noteq> [] \<and> x = hd cs then (if as = [] then 0 else last as) else b_prev (bufs s x))"
    using nb ne b1 unfolding bu by (cases cs) (auto simp: s2_def s1_def upd_buf_def)
  show "hash_table (unhash b s) = (hash_table s)(k := first (as @ cs))"
    using h2 b2 k ht nb(1) ne by (cases as) (auto simp: u fun_eq_iff)
qed

lemma unhash_frame:
  "queue_frame s (unhash b s)" "free_list (unhash b s) = free_list s" "links_free (bufs (unhash b s) x) = links_free (bufs s x)"
  by (simp_all add: unhash_def queue_frame_def upd_buf_def links_free_def Let_def)

lemma unhash_noop:
  assumes q: "queues s F C" and b: "b \<in> set F" and d: "b_dev (bufs s b) = 0"
  shows "unhash b s = s"
proof -
  have z: "b_next (bufs s b) = 0" "b_prev (bufs s b) = 0"
    using queues_unhashed [OF q b d] by (auto simp: links_hash_def)
  have "hash_table s k \<noteq> b" if "k < NR_HASH" for k
  proof
    assume "hash_table s k = b"
    moreover have "b \<noteq> 0" using queues_ring [OF q] b by (metis ring_def)
    ultimately have "b \<in> set (C k)" using queues_chain [OF q that] by (cases "C k") (auto simp: chain_def)
    then show False using queues_member [OF q that] d by blast
  qed
  then show ?thesis using z by (simp add: unhash_def)
qed


text \<open>Taking a buffer out of all queues.\<close>

lemma queues_remove:
  assumes q: "queues s F C" and b: "b \<in> set F" and two: "F \<noteq> [b]"
  obtains s' C' where "\<And>e. remove_from_queues b s e = Ok () s' e" "queues s' (remove1 b F) C'" "queue_frame s s'"
proof -
  define s1 where "s1 = unhash b s"
  define k where "k = hash_of (bufs s b)"
  define C' where "C' = (if b_dev (bufs s b) = 0 then C else C(k := remove1 b (C k)))"
  have F: "distinct F" "0 \<notin> set F" using queues_ring [OF q] by (auto simp: ring_def)
  obtain fs gs where fg: "F = fs @ b # gs" using b by (meson split_list)
  have nb: "b \<notin> set fs" "b \<notin> set gs" using F fg by auto
  have rF: "remove1 b F = fs @ gs" using fg nb by (simp add: remove1_append)
  have ne: "fs @ gs \<noteq> []" using two fg by auto
  have fr: "queue_frame s s1" "free_list s1 = hd F" "\<And>x. links_free (bufs s1 x) = links_free (bufs s x)"
    by (simp_all add: s1_def unhash_frame queues_head [OF q])
  have bd: "body (bufs s1 x) = body (bufs s x)" for x using fr(1) by (simp add: queue_frame_def)
  have ring1: "ring (bufs s1) (fs @ b # gs)"
    using queues_ring [OF q] fg fr(3) ring_cong [of "fs @ b # gs" "bufs s1" "bufs s"] by (auto simp: links_free_def)
  have hf: "free_list s1 = hd (fs @ b # gs)" using fr(2) fg by simp
  define s' where "s' = unlink_free b s1"
  note ul = unlink_free_ring [OF ring1 hf ne, folded s'_def]
  have fr': "queue_frame s s'" using queue_frame_trans [OF fr(1) ul(3)] .
  have bd': "body (bufs s' x) = body (bufs s x)" for x using fr' by (simp add: queue_frame_def)
  have id': "b_dev (bufs s' x) = b_dev (bufs s x)" "b_blocknr (bufs s' x) = b_blocknr (bufs s x)" "hash_of (bufs s' x) = hash_of (bufs s x)" for x
    using body_fields [OF bd' [of x]] hash_of_body [OF bd' [of x]] by auto
  have links: "b_prev_free (bufs s1 b) \<noteq> 0" "b_next_free (bufs s1 b) \<noteq> 0"
  proof -
    have "ring (bufs s1) (b # gs @ fs)" using ring1 ring_rotate [of "bufs s1" fs "b # gs"] by simp
    moreover have z: "gs @ fs \<noteq> []" using ne by auto
    ultimately have "b_prev_free (bufs s1 b) = last (gs @ fs)" "b_next_free (bufs s1 b) = hd (gs @ fs)"
      using ring_adj_Cons [OF z, of b] by (auto simp: ring_def)
    moreover have "last (gs @ fs) \<in> set F" "hd (gs @ fs) \<in> set F" using last_in_set [OF z] hd_in_set [OF z] fg by auto
    ultimately show "b_prev_free (bufs s1 b) \<noteq> 0" "b_next_free (bufs s1 b) \<noteq> 0" using F(2) by metis+
  qed
  then have run: "remove_from_queues b s e = Ok () s' e" for e
    by (simp add: remove_from_queues_def bnd_run s1_def [symmetric] s'_def)
  have "queues s' (fs @ gs) C'"
  proof (cases "b_dev (bufs s b) = 0")
    case True
    then have s1: "s1 = s" "C' = C" using unhash_noop [OF q b] by (simp_all add: s1_def C'_def)
    have notin: "b \<notin> set (C k)" if "k < NR_HASH" for k using queues_member [OF q that, of b] True by auto
    have "chain (bufs s') (hash_table s' k) (C k)" if "k < NR_HASH" for k
      using queues_chain [OF q that] chain_cong [of "C k" "bufs s'" "bufs s"] ul(4,5) s1 by simp
    moreover have "links_hash (bufs s' x) = links_hash (bufs s x)" for x using ul(5) s1 by simp
    moreover have "x \<in> set (fs @ gs) \<and> b_dev (bufs s' x) \<noteq> 0 \<and> hash_of (bufs s' x) = i" if "i < NR_HASH" "x \<in> set (C i)" for i x
      using queues_member [OF q that] notin [OF that(1)] that(2) id' fg by auto
    moreover have "x = y" if "x \<in> set (fs @ gs)" "y \<in> set (fs @ gs)" "b_dev (bufs s' x) \<noteq> 0" "b_dev (bufs s' x) = b_dev (bufs s' y)"
       "b_blocknr (bufs s' x) = b_blocknr (bufs s' y)" for x y
      using that queues_unique [OF q, of x y] id' fg by auto
    moreover have "if b_dev (bufs s x) = 0 then links_hash (bufs s x) = (0, 0) else x \<in> set (C (hash_of (bufs s x)))"
      if "x \<in> set (fs @ gs)" for x
      using queues_unhashed [OF q, of x] queues_hashed [OF q, of x] that fg by simp
    ultimately show ?thesis
      using ul(1,2) id' s1 by (intro queuesI) (simp_all only: simp_thms)
  next
    case False
    have kl: "k < NR_HASH" by (simp add: k_def)
    have "b \<in> set (C k)" using queues_hashed [OF q b False] by (simp add: k_def)
    then obtain as cs where split: "C k = as @ b # cs" by (meson split_list)
    have dk: "distinct (as @ b # cs)" using queues_chain [OF q kl] split by (simp add: chain_def)
    have Ck: "C' k = as @ cs" using False split dk by (simp add: C'_def remove1_append)
    note uh = unhash_hashed [OF q b False k_def split, folded s1_def]
    have lh: "links_hash (bufs s' x) = links_hash (bufs s1 x)" for x by (rule ul(5))
    have ch: "chain (bufs s') (hash_table s' i) (C' i)" if i: "i < NR_HASH" for i
    proof (cases "i = k")
      case True
      have "chain (bufs s) (hash_table s k) (as @ b # cs)" using queues_chain [OF q kl] split by simp
      then have "chain (bufs s1) (first (as @ cs)) (as @ cs)" by (rule chain_remove) (simp_all add: uh(1,2))
      then show ?thesis using True Ck ul(4) uh(3) chain_cong [of "as @ cs" "bufs s'" "bufs s1"] lh by simp
    next
      case other: False
      have "links_hash (bufs s' x) = links_hash (bufs s x)" if x: "x \<in> set (C i)" for x
      proof -
        have "x \<notin> set (C k)" using queues_member [OF q kl, of x] queues_member [OF q i x] other by auto
        then have "x \<noteq> last as \<or> as = []" "x \<noteq> hd cs \<or> cs = []" using not_mem_ends [of x as b cs] split by auto
        then show ?thesis using lh uh(1,2) [of x] by (auto simp: links_hash_def)
      qed
      then show ?thesis
        using queues_chain [OF q i] other uh(3) ul(4) False chain_cong [of "C i" "bufs s'" "bufs s"] by (simp add: C'_def)
    qed
    have mem: "x \<in> set (fs @ gs) \<and> b_dev (bufs s' x) \<noteq> 0 \<and> hash_of (bufs s' x) = i"
      if i: "i < NR_HASH" and x: "x \<in> set (C' i)" for i x
    proof -
      have "x \<in> set (C i)" using x False set_remove1_subset [of b "C k"] by (auto simp: C'_def split: if_splits)
      moreover have "x \<noteq> b"
      proof
        assume "x = b"
        then have "i = k" using queues_member [OF q i \<open>x \<in> set (C i)\<close>] by (simp add: k_def)
        then show False using x \<open>x = b\<close> Ck dk by auto
      qed
      ultimately show ?thesis using queues_member [OF q i] id' fg by auto
    qed
    have hashed: "if b_dev (bufs s' x) = 0 then links_hash (bufs s' x) = (0, 0) else x \<in> set (C' (hash_of (bufs s' x)))"
      if x: "x \<in> set (fs @ gs)" for x
    proof -
      have xF: "x \<in> set F" "x \<noteq> b" using x fg nb by auto
      have "links_hash (bufs s' x) = (0, 0)" if d0: "b_dev (bufs s x) = 0"
      proof -
        have "x \<notin> set (C k)" using queues_member [OF q kl, of x] d0 by auto
        then have "x \<noteq> last as \<or> as = []" "x \<noteq> hd cs \<or> cs = []" using not_mem_ends [of x as b cs] split by auto
        then show ?thesis using queues_unhashed [OF q xF(1) d0] lh uh(1,2) [of x] by (auto simp: links_hash_def)
      qed
      moreover have "x \<in> set (C' (hash_of (bufs s x)))" if "b_dev (bufs s x) \<noteq> 0"
        using queues_hashed [OF q xF(1) that] xF(2) by (auto simp: C'_def in_set_remove1)
      ultimately show ?thesis using id' by simp
    qed
    have "x = y" if "x \<in> set (fs @ gs)" "y \<in> set (fs @ gs)" "b_dev (bufs s' x) \<noteq> 0" "b_dev (bufs s' x) = b_dev (bufs s' y)"
       "b_blocknr (bufs s' x) = b_blocknr (bufs s' y)" for x y
      using that queues_unique [OF q, of x y] id' fg by auto
    then show ?thesis using ul(1,2) ch mem hashed by (intro queuesI) blast+
  qed
  then show ?thesis using that run rF fr' by metis
qed


text \<open>Putting a buffer that is in no queue at the end of the free list and, if it has a device, in front of its chain.\<close>

lemma link_hash_frame:
  "queue_frame s (link_hash b s)" "free_list (link_hash b s) = free_list s" "links_free (bufs (link_hash b s) x) = links_free (bufs s x)"
  by (simp_all add: link_hash_def queue_frame_def upd_buf_def links_free_def Let_def)

lemma link_hash_links:
  assumes b: "b \<noteq> 0" and d: "b_dev (bufs s b) \<noteq> 0" and k: "k = hash_of (bufs s b)" and p: "hash_table s k \<noteq> b"
  shows "links_hash (bufs (link_hash b s) b) = (0, hash_table s k)" "hash_table (link_hash b s) = (hash_table s)(k := b)"
    "x \<noteq> b \<Longrightarrow> b_next (bufs (link_hash b s) x) = b_next (bufs s x)"
    "x \<noteq> b \<Longrightarrow> b_prev (bufs (link_hash b s) x) = (if x = hash_table s k then b else b_prev (bufs s x))"
proof -
  have h: "hash_of ((bufs s b)\<lparr>b_prev := 0, b_next := 0\<rparr>) = k" using k by (simp add: hash_of_def)
  show "links_hash (bufs (link_hash b s) b) = (0, hash_table s k)" "hash_table (link_hash b s) = (hash_table s)(k := b)"
    "x \<noteq> b \<Longrightarrow> b_next (bufs (link_hash b s) x) = b_next (bufs s x)"
    "x \<noteq> b \<Longrightarrow> b_prev (bufs (link_hash b s) x) = (if x = hash_table s k then b else b_prev (bufs s x))"
    using d h p by (simp_all add: link_hash_def upd_buf_def links_hash_def Let_def)
qed

lemma link_hash_none:
  assumes "b_dev (bufs s b) = 0"
  shows "link_hash b s = upd_buf b (\<lambda>h. h\<lparr>b_prev := 0, b_next := 0\<rparr>) s"
  using assms by (simp add: link_hash_def upd_buf_def Let_def)

lemma queues_insert:
  assumes q: "queues s F C" and b: "b \<notin> set F" "b \<noteq> 0"
    and new: "\<And>x. x \<in> set F \<Longrightarrow> b_dev (bufs s b) \<noteq> 0 \<Longrightarrow> b_dev (bufs s x) = b_dev (bufs s b) \<Longrightarrow> b_blocknr (bufs s x) \<noteq> b_blocknr (bufs s b)"
  obtains C' where "queues (insert_into_queues b s) (F @ [b]) C'" "queue_frame s (insert_into_queues b s)"
proof -
  define s1 where "s1 = link_free_tail b s"
  note lf = link_free_tail_ring [OF queues_ring [OF q] queues_head [OF q] b, folded s1_def]
  define s' where "s' = link_hash b s1"
  have fr: "queue_frame s s'" using queue_frame_trans [OF lf(3) link_hash_frame(1)] by (simp add: s'_def)
  then have bd: "body (bufs s' x) = body (bufs s x)" for x by (simp add: queue_frame_def)
  have id': "b_dev (bufs s' x) = b_dev (bufs s x)" "b_blocknr (bufs s' x) = b_blocknr (bufs s x)" "hash_of (bufs s' x) = hash_of (bufs s x)" for x
    using body_fields [OF bd [of x]] hash_of_body [OF bd [of x]] by auto
  have bd1: "body (bufs s1 x) = body (bufs s x)" for x using lf(3) by (simp add: queue_frame_def)
  have d1: "b_dev (bufs s1 b) = b_dev (bufs s b)" "hash_of (bufs s1 b) = hash_of (bufs s b)"
    using body_fields [OF bd1 [of b]] hash_of_body [OF bd1 [of b]] by auto
  define k where "k = hash_of (bufs s b)"
  have kl: "k < NR_HASH" by (simp add: k_def)
  have r: "ring (bufs s') (F @ [b])" "free_list s' = hd (F @ [b])"
  proof -
    have "links_free (bufs s' x) = links_free (bufs s1 x)" for x by (simp add: s'_def link_hash_frame)
    then have "ring (bufs s') (F @ [b]) = ring (bufs s1) (F @ [b])" by (intro ring_cong) (simp add: links_free_def)
    then show "ring (bufs s') (F @ [b])" using lf(1) by simp
    show "free_list s' = hd (F @ [b])" using lf(2) by (simp add: s'_def link_hash_frame)
  qed
  have notin: "b \<notin> set (C i)" if "i < NR_HASH" for i using queues_member [OF q that, of b] b by auto
  define C' where "C' = (if b_dev (bufs s b) = 0 then C else C(k := b # C k))"
  have lh: "links_hash (bufs s' x) = links_hash (bufs s x)" if "x \<noteq> b" "b_dev (bufs s b) = 0 \<or> x \<noteq> hash_table s k" for x
  proof (cases "b_dev (bufs s b) = 0")
    case True
    then show ?thesis using link_hash_none [of s1 b] d1 that lf(5) [of x] by (simp add: s'_def upd_buf_def)
  next
    case False
    have "hash_table s k \<noteq> b" using queues_chain [OF q kl] notin [OF kl] b by (cases "C k") (auto simp: chain_def)
    then show ?thesis
      using link_hash_links(3,4) [of b s1 k x] False d1 k_def that lf(4,5) b by (simp add: s'_def links_hash_def)
  qed
  have htb: "hash_table s k \<noteq> b" using queues_chain [OF q kl] notin [OF kl] b by (cases "C k") (auto simp: chain_def)
  have ch: "chain (bufs s') (hash_table s' i) (C' i)" if i: "i < NR_HASH" for i
  proof (cases "b_dev (bufs s b) \<noteq> 0 \<and> i = k")
    case True
    note l = link_hash_links [of b s1 k, folded s'_def]
    have n: "b_next (bufs s' x) = b_next (bufs s x)" "b_prev (bufs s' x) = (if x = hash_table s k then b else b_prev (bufs s x))"
      if "x \<noteq> b" for x
      using l(3,4) [of x] True d1 k_def that lf(4) lf(5) [of x] b htb by (simp_all add: links_hash_def)
    have "links_hash (bufs s' b) = (0, hash_table s k)" "hash_table s' k = b"
      using l(1,2) True d1 k_def lf(4) b htb by simp_all
    moreover have "x \<noteq> b" if "x \<in> set (C k)" for x using notin [OF kl] that by auto
    ultimately show ?thesis
      using True chain_push [OF queues_chain [OF q kl] notin [OF kl] b(2), of "bufs s'"] n by (simp add: C'_def)
  next
    case False
    have ht: "hash_table s' i = hash_table s i"
      using False link_hash_none [of s1 b] link_hash_links(2) [of b s1 k] d1 k_def lf(4) b htb
      by (cases "b_dev (bufs s b) = 0") (simp_all add: s'_def upd_buf_def)
    have "links_hash (bufs s' x) = links_hash (bufs s x)" if x: "x \<in> set (C i)" for x
    proof (rule lh)
      show "x \<noteq> b" using notin [OF i] x by auto
      show "b_dev (bufs s b) = 0 \<or> x \<noteq> hash_table s k"
      proof (cases "b_dev (bufs s b) = 0")
        case d: False
        have "hash_table s k = 0 \<or> hash_table s k \<in> set (C k)"
          using queues_chain [OF q kl] by (cases "C k") (auto simp: chain_def)
        moreover have "x \<notin> set (C k)" using queues_member [OF q kl, of x] queues_member [OF q i x] False d by auto
        moreover have "x \<noteq> 0" using queues_chain [OF q i] x by (metis chain_def)
        ultimately show ?thesis by auto
      qed simp
    qed
    then show ?thesis
      using queues_chain [OF q i] ht False chain_cong [of "C i" "bufs s'" "bufs s"] by (auto simp: C'_def)
  qed
  have hashed: "if b_dev (bufs s' x) = 0 then links_hash (bufs s' x) = (0, 0) else x \<in> set (C' (hash_of (bufs s' x)))"
    if x: "x \<in> set (F @ [b])" for x
  proof (cases "x = b")
    case True
    then show ?thesis using id' link_hash_none [of s1 b] d1
      by (simp add: C'_def k_def s'_def links_hash_def upd_buf_def)
  next
    case False
    have xF: "x \<in> set F" using x False by simp
    have "links_hash (bufs s' x) = (0, 0)" if d0: "b_dev (bufs s x) = 0"
    proof -
      have "x \<noteq> 0" using queues_ring [OF q] xF by (metis ring_def)
      moreover have "hash_table s k = 0 \<or> hash_table s k \<in> set (C k)"
        using queues_chain [OF q kl] by (cases "C k") (auto simp: chain_def)
      ultimately have "x \<noteq> hash_table s k" using queues_member [OF q kl, of x] d0 by auto
      then show ?thesis using lh [OF False] queues_unhashed [OF q xF d0] by simp
    qed
    moreover have "x \<in> set (C' (hash_of (bufs s x)))" if "b_dev (bufs s x) \<noteq> 0"
      using queues_hashed [OF q xF that] by (auto simp: C'_def)
    ultimately show ?thesis using id' by simp
  qed
  have mem: "x \<in> set (F @ [b]) \<and> b_dev (bufs s' x) \<noteq> 0 \<and> hash_of (bufs s' x) = i"
    if i: "i < NR_HASH" and x: "x \<in> set (C' i)" for i x
  proof (cases "x = b")
    case True
    then have "b_dev (bufs s b) \<noteq> 0" "i = k" using x notin [OF i] by (auto simp: C'_def split: if_splits)
    then show ?thesis using True id' by (simp add: k_def)
  next
    case False
    then have "x \<in> set (C i)" using x by (auto simp: C'_def split: if_splits)
    then show ?thesis using queues_member [OF q i] id' by auto
  qed
  have uniq: "x = y" if "x \<in> set (F @ [b])" "y \<in> set (F @ [b])" "b_dev (bufs s' x) \<noteq> 0" "b_dev (bufs s' x) = b_dev (bufs s' y)"
     "b_blocknr (bufs s' x) = b_blocknr (bufs s' y)" for x y
  proof -
    note h = that [unfolded id']
    consider "x = b" "y = b" | "x \<in> set F" "y \<in> set F" | "x = b" "y \<in> set F" | "x \<in> set F" "y = b"
      using h(1,2) by auto
    then show ?thesis
    proof cases
      case 2
      then show ?thesis using queues_unique [OF q] h(3-5) by blast
    next
      case 3
      then show ?thesis using new [of y] h(3-5) by metis
    next
      case 4
      then show ?thesis using new [of x] h(3-5) by metis
    qed simp
  qed
  have "queues s' (F @ [b]) C'"
    by (rule queuesI [OF r ch mem hashed uniq])
  then show ?thesis using that fr by (simp add: insert_into_queues_def s'_def s1_def)
qed


section \<open>Looking up a block\<close>

definition is_block :: "buffer_head \<Rightarrow> u16 \<Rightarrow> u16 \<Rightarrow> bool" where
  "is_block h dev blk \<longleftrightarrow> b_dev h = dev \<and> b_blocknr h = blk"

lemma ucast_up_inj: "(ucast (a :: u16) = (ucast b :: u32)) = (a = b)"
  by (auto simp: word_unat_eq_iff unsigned_ucast_eq take_bit_nat_eq_self unsigned_less [THEN order_less_le_trans])

lemma ucast_id16 [simp]: "ucast (ucast (a :: u16) :: u32) = a"
  by (rule bit_word_eqI) (auto simp: bit_simps)

lemma find_chain_suffix:
  assumes "chain B p (as @ zs)"
  shows "find_chain B (ucast dev) (ucast blk) (first zs) =
    Some (case find (\<lambda>x. is_block (B x) dev blk) zs of None \<Rightarrow> 0 | Some x \<Rightarrow> x)"
  using assms
proof (induction zs arbitrary: as)
  case Nil
  show ?case by (subst find_chain.simps) simp
next
  case (Cons z zs)
  have nz: "z \<noteq> 0" using Cons.prems by (auto simp: chain_def)
  have nx: "b_next (B z) = first zs" by (rule chain_member_next(1) [OF Cons.prems])
  have IH: "find_chain B (ucast dev) (ucast blk) (first zs) =
    Some (case find (\<lambda>x. is_block (B x) dev blk) zs of None \<Rightarrow> 0 | Some x \<Rightarrow> x)"
    using Cons.IH [of "as @ [z]"] Cons.prems by simp
  show ?case
    using nz nx IH by (subst find_chain.simps) (auto simp: ucast_up_inj is_block_def)
qed

lemma find_buffer_cases:
  assumes q: "queues s F C" and d: "dev \<noteq> 0"
  obtains (found) b where "\<And>e. find_buffer (ucast dev) (ucast blk) s e = Ok b s e" "b \<noteq> 0" "b \<in> set F" "is_block (bufs s b) dev blk"
      "\<And>x. x \<in> set F \<Longrightarrow> is_block (bufs s x) dev blk \<Longrightarrow> x = b"
  | (missing) "\<And>e. find_buffer (ucast dev) (ucast blk) s e = Ok 0 s e" "\<And>x. x \<in> set F \<Longrightarrow> \<not> is_block (bufs s x) dev blk"
proof -
  define k where "k = hashfn (ucast dev) (ucast blk)"
  have kl: "k < NR_HASH" by (simp add: k_def hashfn_def NR_HASH_def)
  have hk: "is_block h dev blk \<Longrightarrow> hash_of h = k" for h by (simp add: is_block_def hash_of_def k_def)
  have ch: "chain (bufs s) (hash_table s k) (C k)" by (rule queues_chain [OF q kl])
  have "hash_table s k = first (C k)" using ch by (simp add: chain_def)
  then have run: "find_buffer (ucast dev) (ucast blk) s e =
      Ok (case find (\<lambda>x. is_block (bufs s x) dev blk) (C k) of None \<Rightarrow> 0 | Some x \<Rightarrow> x) s e" for e
    using find_chain_suffix [of "bufs s" "hash_table s k" "[]" "C k" dev blk] ch
    by (simp add: find_buffer_def k_def [symmetric])
  show ?thesis
  proof (cases "find (\<lambda>x. is_block (bufs s x) dev blk) (C k)")
    case None
    have "\<not> is_block (bufs s x) dev blk" if x: "x \<in> set F" for x
    proof
      assume i: "is_block (bufs s x) dev blk"
      then have "x \<in> set (C k)" using queues_hashed [OF q x] d hk [OF i] by (simp add: is_block_def)
      then show False using None i by (auto simp: find_None_iff)
    qed
    then show ?thesis using missing run None by simp
  next
    case (Some b)
    from find_Some_in [OF this] have b: "b \<in> set (C k)" "is_block (bufs s b) dev blk" by auto
    have bF: "b \<in> set F" using queues_member [OF q kl b(1)] by simp
    have uniq: "x = b" if "x \<in> set F" "is_block (bufs s x) dev blk" for x
    proof -
      have "b_dev (bufs s x) = dev" "b_blocknr (bufs s x) = blk" "b_dev (bufs s b) = dev" "b_blocknr (bufs s b) = blk"
        using that(2) b(2) by (simp_all add: is_block_def)
      then show ?thesis using queues_unique [OF q that(1) bF] d by metis
    qed
    have "find_buffer (ucast dev) (ucast blk) s e = Ok b s e" for e using run Some by simp
    moreover have "b \<noteq> 0" using ch b(1) by (metis chain_def)
    ultimately show ?thesis by (rule found [OF _ _ bF b(2) uniq])
  qed
qed

end
