(* ===== verification/Buffer_Store.thy ===== *)
theory Buffer_Store
  imports Buffer_Queues
begin

text \<open>
  The buffer cache as a store of blocks. \<open>blockview s dev blk\<close> is what the block holds: the data of its buffer if
  one is up to date, else what is on the disk. Reading a block through the cache, evicting and writing back dirty
  buffers leave it unchanged; marking a changed buffer dirty changes just that block; \<^verbatim>\<open>sync\<close> makes the disk agree with it.
  These theorems are about a process that runs alone: no buffer is locked and the controller is idle, so that
  no wait sleeps, and the script is empty.
\<close>

section \<open>States in which nothing is pending\<close>

definition quiet :: "'z cache_scheme \<Rightarrow> bool" where
  "quiet s \<longleftrightarrow> hd_idle s \<and> buffer_wait s = 0 \<and> (\<forall>b. b_lock (bufs s b) = 0 \<and> b_wait (bufs s b) = 0)"

lemma wait_on_buffer_unlocked: "b_lock (bufs s b) = 0 \<Longrightarrow> wait_on_buffer b s e = Ok () s e"
  unfolding wait_on_buffer_def by (rule loopK_done) simp

section \<open>Blocks on the disk\<close>

definition disk_block :: "'z hdst_scheme \<Rightarrow> u16 \<Rightarrow> u16 \<Rightarrow> nat \<Rightarrow> u8" where
  "disk_block s dev blk = rd_sectors (disk s) (dev_drive dev) (dev_lba s dev blk) (\<lambda>_. 0)"

text \<open>The devices \<open>D\<close> in use lie on disjoint parts of the drives.\<close>

definition parts_ok :: "u16 set \<Rightarrow> 'z hdst_scheme \<Rightarrow> bool" where
  "parts_ok D s \<longleftrightarrow> 0 \<notin> D \<and> (\<forall>d\<in>D. \<forall>d'\<in>D. d \<noteq> d' \<longrightarrow> dev_drive d = dev_drive d' \<longrightarrow>
     unat (start_sect (hd_parts s (MINOR d))) + unat (nr_sects (hd_parts s (MINOR d))) \<le> unat (start_sect (hd_parts s (MINOR d'))) \<or>
     unat (start_sect (hd_parts s (MINOR d'))) + unat (nr_sects (hd_parts s (MINOR d'))) \<le> unat (start_sect (hd_parts s (MINOR d))))"

lemma blocks_disjoint:
  assumes "parts_ok D s" "d \<in> D" "d' \<in> D" "hd_block s d k" "hd_block s d' k'" "(d, k) \<noteq> (d', k')" "dev_drive d = dev_drive d'"
  shows "dev_lba s d k + 1 < dev_lba s d' k' \<or> dev_lba s d' k' + 1 < dev_lba s d k"
proof (cases "d = d'")
  case True
  then have "unat k \<noteq> unat k'" using assms(6) by (auto simp: word_unat_eq_iff)
  then show ?thesis using True by (auto simp: dev_lba_def)
next
  case False
  then show ?thesis using assms by (fastforce simp: parts_ok_def hd_block_def dev_lba_def)
qed

lemma disk_block_write:
  assumes "disk s' = wr_sectors (disk s) (dev_drive d) (dev_lba s d k) v" "hd_parts s' = hd_parts s"
    and "parts_ok D s" "d \<in> D" "d' \<in> D" "hd_block s d k" "hd_block s d' k'"
  shows "disk_block s' d' k' i = (if (d', k') = (d, k) then (if i < 1024 then v i else 0) else disk_block s d' k' i)"
proof (cases "(d', k') = (d, k)")
  case True
  then show ?thesis using assms(1,2) by (auto simp: disk_block_def rd_sectors_def wr_sectors_def dev_lba_def)
next
  case False
  have l: "dev_lba s' d' k' = dev_lba s d' k'" using assms(2) by (simp add: dev_lba_def)
  let ?l = "dev_lba s d k" and ?l' = "dev_lba s d' k'"
  have ne: "?l' \<noteq> ?l \<and> ?l' \<noteq> ?l + 1 \<and> ?l' + 1 \<noteq> ?l" if "dev_drive d' = dev_drive d"
    using blocks_disjoint [OF assms(3-7)] False that by fastforce
  have "disk s' (dev_drive d') ?l' j = disk s (dev_drive d') ?l' j" "disk s' (dev_drive d') (?l' + 1) j = disk s (dev_drive d') (?l' + 1) j" for j
    unfolding assms(1) wr_sectors_def using ne by auto
  then show ?thesis
    using False unfolding disk_block_def rd_sectors_def l by auto
qed

section \<open>The store\<close>

abbreviation heads :: "'z cache_scheme \<Rightarrow> nat set" where
  "heads s \<equiv> {1..nr_buffers s}"

text \<open>A buffer head that holds a block of a device in use; if it is up to date and clean it agrees with the disk.\<close>

definition buf_ok :: "u16 set \<Rightarrow> 'z hdst_scheme \<Rightarrow> buffer_head \<Rightarrow> bool" where
  "buf_ok D s h \<longleftrightarrow> (if b_dev h = 0 then b_dirt h = 0
     else b_dev h \<in> D \<and> hd_block s (b_dev h) (b_blocknr h) \<and> (b_uptodate h = 0 \<longrightarrow> b_dirt h = 0) \<and>
       (b_uptodate h \<noteq> 0 \<longrightarrow> b_dirt h = 0 \<longrightarrow> (\<forall>i<1024. b_data h i = disk_block s (b_dev h) (b_blocknr h) i)))"

definition store :: "u16 set \<Rightarrow> 'z cache_scheme \<Rightarrow> bool" where
  "store D s \<longleftrightarrow> quiet s \<and> parts_ok D s \<and> (\<forall>x\<in>heads s. buf_ok D s (bufs s x)) \<and>
     (\<forall>x\<in>heads s. \<forall>y\<in>heads s. b_dev (bufs s x) \<noteq> 0 \<longrightarrow> is_block (bufs s y) (b_dev (bufs s x)) (b_blocknr (bufs s x)) \<longrightarrow> x = y)"

definition holds :: "'z cache_scheme \<Rightarrow> u16 \<Rightarrow> u16 \<Rightarrow> nat \<Rightarrow> bool" where
  "holds s dev blk x \<longleftrightarrow> x \<in> heads s \<and> is_block (bufs s x) dev blk \<and> b_uptodate (bufs s x) \<noteq> 0"

definition blockview :: "'z cache_scheme \<Rightarrow> u16 \<Rightarrow> u16 \<Rightarrow> nat \<Rightarrow> u8" where
  "blockview s dev blk = (\<lambda>i. if i < 1024 then
     (case find (\<lambda>x. is_block (bufs s x) dev blk \<and> b_uptodate (bufs s x) \<noteq> 0) [1..<nr_buffers s + 1] of
        Some x \<Rightarrow> b_data (bufs s x) i | None \<Rightarrow> disk_block s dev blk i) else 0)"

lemma store_unique:
  "store D s \<Longrightarrow> x \<in> heads s \<Longrightarrow> y \<in> heads s \<Longrightarrow> is_block (bufs s x) dev blk \<Longrightarrow> is_block (bufs s y) dev blk \<Longrightarrow> dev \<noteq> 0 \<Longrightarrow> x = y"
  unfolding store_def is_block_def by metis

lemma blockview_held:
  assumes "store D s" "holds s dev blk x" "dev \<noteq> 0" "i < 1024"
  shows "blockview s dev blk i = b_data (bufs s x) i"
proof -
  let ?P = "\<lambda>x. is_block (bufs s x) dev blk \<and> b_uptodate (bufs s x) \<noteq> 0"
  have "find ?P [1..<nr_buffers s + 1] \<noteq> None"
    using assms(2) by (auto simp: find_None_iff holds_def)
  then obtain y where y: "find ?P [1..<nr_buffers s + 1] = Some y" by auto
  from find_Some_in [OF this] have "y \<in> heads s" "?P y" by auto
  then have "y = x" using store_unique [OF assms(1), of y x dev blk] assms(2,3) by (auto simp: holds_def)
  then show ?thesis using y assms(4) by (simp add: blockview_def)
qed

lemma blockview_unheld:
  assumes "\<And>x. \<not> holds s dev blk x" "i < 1024"
  shows "blockview s dev blk i = disk_block s dev blk i"
proof -
  have "find (\<lambda>x. is_block (bufs s x) dev blk \<and> b_uptodate (bufs s x) \<noteq> 0) [1..<nr_buffers s + 1] = None"
    using assms(1) by (auto simp: find_None_iff holds_def)
  then show ?thesis using assms(2) by (simp add: blockview_def)
qed

lemma blockview_beyond: "\<not> i < 1024 \<Longrightarrow> blockview s dev blk i = 0"
  by (simp add: blockview_def)

lemma buf_ok_cong:
  "hd_parts s' = hd_parts s \<Longrightarrow> disk_bad s' = disk_bad s \<Longrightarrow> disk s' = disk s \<Longrightarrow> buf_ok D s' h = buf_ok D s h"
  by (simp add: buf_ok_def hd_block_def disk_block_def dev_lba_def)

lemma hd_block_cong: "hd_parts s' = hd_parts s \<Longrightarrow> disk_bad s' = disk_bad s \<Longrightarrow> hd_block s' d k = hd_block s d k"
  by (simp add: hd_block_def dev_lba_def)

lemma parts_ok_cong: "hd_parts s' = hd_parts s \<Longrightarrow> parts_ok D s' = parts_ok D s"
  by (simp add: parts_ok_def)

lemma hd_frame_simps:
  assumes "hd_frame s s'"
  shows "hd_parts s' = hd_parts s" "disk_bad s' = disk_bad s"
proof -
  have e: "s' = s\<lparr>bufs := bufs s', disk := disk s', request := request s', hw_drive := hw_drive s', hw_lba := hw_lba s', hw_buf := hw_buf s'\<rparr>"
    using assms by (simp add: hd_frame_def)
  show "hd_parts s' = hd_parts s" "disk_bad s' = disk_bad s"
    by (subst e, simp)+
qed

lemma hd_frame_cache:
  fixes s :: "'z cache_scheme"
  assumes "hd_frame s s'"
  shows "nr_buffers s' = nr_buffers s" "buffer_wait s' = buffer_wait s" "hash_table s' = hash_table s" "free_list s' = free_list s"
proof -
  have e: "s' = s\<lparr>bufs := bufs s', disk := disk s', request := request s', hw_drive := hw_drive s', hw_lba := hw_lba s', hw_buf := hw_buf s'\<rparr>"
    using assms by (simp add: hd_frame_def)
  show "nr_buffers s' = nr_buffers s" "buffer_wait s' = buffer_wait s" "hash_table s' = hash_table s" "free_list s' = free_list s"
    by (subst e, simp)+
qed

section \<open>Writing back\<close>

lemma storeD:
  assumes "store D s"
  shows "quiet s" "parts_ok D s" "x \<in> heads s \<Longrightarrow> buf_ok D s (bufs s x)"
  using assms by (auto simp: store_def)

lemma D_nz: "parts_ok D s \<Longrightarrow> d \<in> D \<Longrightarrow> d \<noteq> 0"
  by (auto simp: parts_ok_def)

text \<open>The head of a buffer after it has been written back.\<close>

abbreviation written :: "buffer_head \<Rightarrow> buffer_head" where
  "written h \<equiv> h\<lparr>b_uptodate := 1, b_dirt := 0, b_lock := 0\<rparr>"

lemma write_back:
  assumes st: "store D s" and b: "b \<in> heads s" and dirt: "b_dirt (bufs s b) \<noteq> 0"
  obtains s' where "ll_rw_block WRITE b s [] = Ok () s' []" "hd_frame s s'" "bufs s' = (bufs s)(b := written (bufs s b))"
    "store D s'" "\<And>d k. d \<in> D \<Longrightarrow> hd_block s d k \<Longrightarrow> blockview s' d k = blockview s d k"
proof -
  let ?h = "bufs s b" let ?d = "b_dev ?h" and ?k = "b_blocknr ?h"
  have q: "quiet s" and p: "parts_ok D s" and ok: "buf_ok D s ?h" using storeD [OF st] b by auto
  have h: "?d \<noteq> 0" "?d \<in> D" "hd_block s ?d ?k" "b_uptodate ?h \<noteq> 0"
    using ok dirt by (auto simp: buf_ok_def split: if_splits)
  have idle: "hd_idle s" "b_wait ?h = 0" using q by (auto simp: quiet_def)
  obtain s' where s': "ll_rw_block WRITE b s [] = Ok () s' []" "hd_idle s'" "hd_frame s s'"
    "disk s' = wr_sectors (disk s) (dev_drive ?d) (dev_lba s ?d ?k) (b_data ?h)" "bufs s' = (bufs s)(b := written ?h)"
    using ll_rw_block_run(2) [OF idle(1) h(3) refl refl idle(2)] by blast
  note fr = hd_frame_simps [OF s'(3)]
  have nr: "nr_buffers s' = nr_buffers s" and bw: "buffer_wait s' = buffer_wait s" using hd_frame_cache [OF s'(3)] by auto
  have db: "disk_block s' d k i = (if (d, k) = (?d, ?k) then (if i < 1024 then b_data ?h i else 0) else disk_block s d k i)"
    if "d \<in> D" "hd_block s d k" for d k i
    by (rule disk_block_write [OF s'(4) fr(1) p h(2) that(1) h(3) that(2)])
  have "store D s'"
    unfolding store_def
  proof (intro conjI ballI impI)
    show "quiet s'" using q s'(2) bw by (auto simp: quiet_def s'(5))
    show "parts_ok D s'" using p parts_ok_cong [OF fr(1)] by blast
  next
    fix x assume x: "x \<in> heads s'"
    then have xs: "x \<in> heads s" using nr by simp
    have okx: "buf_ok D s (bufs s x)" using storeD(3) [OF st xs] .
    show "buf_ok D s' (bufs s' x)"
    proof (cases "x = b")
      case True
      then show ?thesis using h db [OF h(2,3)] hd_block_cong [OF fr(1,2)] by (simp add: buf_ok_def s'(5))
    next
      case False
      have "disk_block s' (b_dev (bufs s x)) (b_blocknr (bufs s x)) i = disk_block s (b_dev (bufs s x)) (b_blocknr (bufs s x)) i"
        if "b_dev (bufs s x) \<noteq> 0" for i
      proof -
        have "\<not> is_block (bufs s b) (b_dev (bufs s x)) (b_blocknr (bufs s x))"
          using store_unique [OF st xs b, of "b_dev (bufs s x)" "b_blocknr (bufs s x)"] that False by (auto simp: is_block_def)
        then have "(b_dev (bufs s x), b_blocknr (bufs s x)) \<noteq> (?d, ?k)" by (auto simp: is_block_def)
        moreover have "b_dev (bufs s x) \<in> D" "hd_block s (b_dev (bufs s x)) (b_blocknr (bufs s x))"
          using okx that by (simp_all add: buf_ok_def)
        ultimately show ?thesis unfolding db [OF \<open>b_dev (bufs s x) \<in> D\<close> \<open>hd_block s (b_dev (bufs s x)) (b_blocknr (bufs s x))\<close>]
          by (simp only: if_False)
      qed
      then show ?thesis using okx False hd_block_cong [OF fr(1,2)] by (simp add: buf_ok_def s'(5) split: if_splits)
    qed
  next
    fix x y assume xy: "x \<in> heads s'" "y \<in> heads s'" "b_dev (bufs s' x) \<noteq> 0" "is_block (bufs s' y) (b_dev (bufs s' x)) (b_blocknr (bufs s' x))"
    have z: "b_dev (bufs s' z) = b_dev (bufs s z)" "b_blocknr (bufs s' z) = b_blocknr (bufs s z)" for z by (simp_all add: s'(5))
    show "x = y"
    proof (rule store_unique [OF st])
      show "x \<in> heads s" "y \<in> heads s" using xy(1,2) nr by simp_all
      show "is_block (bufs s x) (b_dev (bufs s x)) (b_blocknr (bufs s x))" by (simp add: is_block_def)
      show "is_block (bufs s y) (b_dev (bufs s x)) (b_blocknr (bufs s x))" "b_dev (bufs s x) \<noteq> 0"
        using xy(3,4) unfolding is_block_def z by auto
    qed
  qed
  moreover have "blockview s' d k = blockview s d k" if dk: "d \<in> D" "hd_block s d k" for d k
  proof
    fix i
    have dnz: "d \<noteq> 0" using D_nz [OF p dk(1)] .
    have hold: "holds s' d k x \<longleftrightarrow> holds s d k x" for x
      using nr h(4) by (auto simp: holds_def is_block_def s'(5))
    show "blockview s' d k i = blockview s d k i"
    proof (cases "i < 1024")
      case True
      show ?thesis
      proof (cases "\<exists>x. holds s d k x")
        case True
        then obtain x where x: "holds s d k x" by blast
        then show ?thesis
          using blockview_held [OF st x dnz \<open>i < 1024\<close>] blockview_held [OF \<open>store D s'\<close> _ dnz \<open>i < 1024\<close>, of k x] hold
          by (simp add: s'(5))
      next
        case False
        then have "(d, k) \<noteq> (?d, ?k)" using b h(4) by (auto simp: holds_def is_block_def)
        then show ?thesis
          using False hold blockview_unheld [of s d k i] blockview_unheld [of s' d k i] db [OF dk] \<open>i < 1024\<close> by auto
      qed
    qed (simp add: blockview_beyond)
  qed
  ultimately show ?thesis using that s' by blast
qed


text \<open>\<open>cleaned D s s'\<close>: from \<open>s\<close> to \<open>s'\<close> some buffers have been written back, and nothing else happened to the store.\<close>

definition cleaned :: "u16 set \<Rightarrow> 'z cache_scheme \<Rightarrow> 'z cache_scheme \<Rightarrow> bool" where
  "cleaned D s s' \<longleftrightarrow> hd_frame s s' \<and> (\<forall>x. bufs s' x = bufs s x \<or> bufs s' x = written (bufs s x) \<and> b_uptodate (bufs s x) \<noteq> 0) \<and>
     (\<forall>d k. d \<in> D \<longrightarrow> hd_block s d k \<longrightarrow> blockview s' d k = blockview s d k)"

lemma cleaned_refl: "cleaned D s s"
  by (simp add: cleaned_def)

lemma cleaned_trans: "cleaned D s1 s2 \<Longrightarrow> cleaned D s2 s3 \<Longrightarrow> cleaned D s1 s3"
proof -
  assume a: "cleaned D s1 s2" "cleaned D s2 s3"
  have "hd_block s2 d k = hd_block s1 d k" for d k
    using a(1) hd_frame_simps [of s1 s2] by (intro hd_block_cong) (simp_all add: cleaned_def)
  moreover have "bufs s3 x = bufs s1 x \<or> bufs s3 x = written (bufs s1 x) \<and> b_uptodate (bufs s1 x) \<noteq> 0" for x
  proof -
    have "bufs s2 x = bufs s1 x \<or> bufs s2 x = written (bufs s1 x) \<and> b_uptodate (bufs s1 x) \<noteq> 0"
      "bufs s3 x = bufs s2 x \<or> bufs s3 x = written (bufs s2 x) \<and> b_uptodate (bufs s2 x) \<noteq> 0"
      using a by (auto simp: cleaned_def)
    then show ?thesis by auto
  qed
  ultimately show ?thesis using a hd_frame_trans [of s1 s2 s3] by (simp add: cleaned_def)
qed

lemma cleaned_keep:
  assumes "cleaned D s s'"
  shows "b_dev (bufs s' x) = b_dev (bufs s x)" "b_blocknr (bufs s' x) = b_blocknr (bufs s x)" "b_data (bufs s' x) = b_data (bufs s x)"
    "b_count (bufs s' x) = b_count (bufs s x)" "links_hash (bufs s' x) = links_hash (bufs s x)" "links_free (bufs s' x) = links_free (bufs s x)"
    "b_dirt (bufs s x) = 0 \<Longrightarrow> b_dirt (bufs s' x) = 0" "nr_buffers s' = nr_buffers s" "free_list s' = free_list s" "hash_table s' = hash_table s"
    "b_uptodate (bufs s' x) = 0 \<longleftrightarrow> b_uptodate (bufs s x) = 0"
  using assms hd_frame_cache [of s s']
  by (auto simp: cleaned_def links_hash_def links_free_def dest!: spec [of _ x])

lemma flush_loop:
  assumes fl: "\<And>b s. quiet s \<Longrightarrow> flush b s [] = (if P (b_dev (bufs s b)) \<and> b_dirt (bufs s b) \<noteq> 0 then ll_rw_block WRITE b s [] else Ok () s [])"
    and st: "store D s" and xs: "set xs \<subseteq> heads s"
  shows "\<exists>s'. forK xs flush s [] = Ok () s' [] \<and> store D s' \<and> cleaned D s s' \<and> (\<forall>x\<in>set xs. P (b_dev (bufs s x)) \<longrightarrow> b_dirt (bufs s' x) = 0)"
  using st xs
proof (induction xs arbitrary: s)
  case Nil
  then show ?case by (auto simp: cleaned_refl)
next
  case (Cons b xs)
  have q: "quiet s" using storeD(1) [OF Cons.prems(1)] .
  obtain s1 where s1: "flush b s [] = Ok () s1 []" "store D s1" "cleaned D s s1" "P (b_dev (bufs s b)) \<longrightarrow> b_dirt (bufs s1 b) = 0"
  proof (cases "P (b_dev (bufs s b)) \<and> b_dirt (bufs s b) \<noteq> 0")
    case True
    have b: "b \<in> heads s" using Cons.prems(2) by simp
    obtain s' where "ll_rw_block WRITE b s [] = Ok () s' []" "hd_frame s s'" "bufs s' = (bufs s)(b := written (bufs s b))"
      "store D s'" "\<And>d k. d \<in> D \<Longrightarrow> hd_block s d k \<Longrightarrow> blockview s' d k = blockview s d k"
      using write_back [OF Cons.prems(1) b conjunct2 [OF True]] by blast
    moreover have "b_uptodate (bufs s b) \<noteq> 0"
      using storeD(3) [OF Cons.prems(1) b] True by (auto simp: buf_ok_def split: if_splits)
    ultimately show ?thesis using that fl [OF q, of b] True by (auto simp: cleaned_def)
  next
    case False
    then show ?thesis using that fl [OF q, of b] Cons.prems(1) by (auto simp: cleaned_refl)
  qed
  have "set xs \<subseteq> heads s1" using Cons.prems(2) cleaned_keep(8) [OF s1(3)] by simp
  from Cons.IH [OF s1(2) this] obtain s' where s': "forK xs flush s1 [] = Ok () s' []" "store D s'" "cleaned D s1 s'"
    "\<forall>x\<in>set xs. P (b_dev (bufs s1 x)) \<longrightarrow> b_dirt (bufs s' x) = 0" by blast
  have "P (b_dev (bufs s b)) \<longrightarrow> b_dirt (bufs s' b) = 0" using s1(4) cleaned_keep(7) [OF s'(3)] by blast
  then show ?case
    using s1 s' cleaned_trans [OF s1(3) s'(3)] cleaned_keep(1) [OF s1(3)] by (intro exI [of _ s']) simp
qed

lemma sync_dev_run:
  assumes st: "store D s"
  obtains s' where "sync_dev dev s [] = Ok () s' []" "store D s'" "cleaned D s s'"
    "\<And>x. x \<in> heads s \<Longrightarrow> b_dev (bufs s x) = dev \<Longrightarrow> b_dirt (bufs s' x) = 0"
proof -
  let ?body = "\<lambda>b. bnd (gets (\<lambda>s. b_dev (bufs s b))) (\<lambda>d. whenK (d = dev)
         (seqK (wait_on_buffer b) (bnd (gets (\<lambda>s. b_dirt (bufs s b) \<noteq> 0)) (\<lambda>dirt. whenK dirt (ll_rw_block WRITE b)))))"
  have "?body b t [] = (if b_dev (bufs t b) = dev \<and> b_dirt (bufs t b) \<noteq> 0 then ll_rw_block WRITE b t [] else Ok () t [])" if "quiet t" for b t
    using that by (simp add: quiet_def wait_on_buffer_unlocked)
  moreover have hs: "set [1..<nr_buffers s + 1] = heads s" by (simp only: set_upt) auto
  ultimately obtain s' where s': "forK [1..<nr_buffers s + 1] ?body s [] = Ok () s' []" "store D s'" "cleaned D s s'"
    "\<forall>x\<in>set [1..<nr_buffers s + 1]. b_dev (bufs s x) = dev \<longrightarrow> b_dirt (bufs s' x) = 0"
    using flush_loop [of ?body "\<lambda>d. d = dev", OF _ st, of "[1..<nr_buffers s + 1]"] by blast
  have "sync_dev dev s [] = Ok () s' []" using s'(1) unfolding sync_dev_def by (simp only: bnd_basic)
  then show ?thesis using that s'(2-4) unfolding hs by blast
qed

lemma sync_buffers_run:
  assumes st: "store D s"
  obtains s' where "sync_buffers s [] = Ok () s' []" "store D s'" "cleaned D s s'" "\<And>x. x \<in> heads s \<Longrightarrow> b_dirt (bufs s' x) = 0"
proof -
  let ?body = "\<lambda>b. seqK (wait_on_buffer b) (bnd (gets (\<lambda>s. b_dirt (bufs s b) \<noteq> 0)) (\<lambda>dirt. whenK dirt (ll_rw_block WRITE b)))"
  have "?body b t [] = (if True \<and> b_dirt (bufs t b) \<noteq> 0 then ll_rw_block WRITE b t [] else Ok () t [])" if "quiet t" for b t
    using that by (simp add: quiet_def wait_on_buffer_unlocked)
  moreover have hs: "set [1..<nr_buffers s + 1] = heads s" by (simp only: set_upt) auto
  ultimately obtain s' where s': "forK [1..<nr_buffers s + 1] ?body s [] = Ok () s' []" "store D s'" "cleaned D s s'"
    "\<forall>x\<in>set [1..<nr_buffers s + 1]. True \<longrightarrow> b_dirt (bufs s' x) = 0"
    using flush_loop [of ?body "\<lambda>_. True", OF _ st, of "[1..<nr_buffers s + 1]"] by blast
  have "sync_buffers s [] = Ok () s' []" using s'(1) unfolding sync_buffers_def by (simp only: bnd_basic)
  then show ?thesis using that s'(2-4) unfolding hs by blast
qed


section \<open>Getting a buffer\<close>

definition cache_frame :: "'z cache_scheme \<Rightarrow> 'z cache_scheme \<Rightarrow> bool" where
  "cache_frame s s' \<longleftrightarrow> s' = s\<lparr>bufs := bufs s', disk := disk s', request := request s', hw_drive := hw_drive s', hw_lba := hw_lba s',
     hw_buf := hw_buf s', hash_table := hash_table s', free_list := free_list s'\<rparr>"

lemma cache_frame_refl [simp]: "cache_frame s s"
  by (simp add: cache_frame_def)

lemma cache_frame_trans: "cache_frame s1 s2 \<Longrightarrow> cache_frame s2 s3 \<Longrightarrow> cache_frame s1 s3"
  unfolding cache_frame_def by (cases s1; cases s2; cases s3) simp

lemma cache_frame_hd: "hd_frame s s' \<Longrightarrow> hash_table s' = hash_table s \<Longrightarrow> free_list s' = free_list s \<Longrightarrow> cache_frame s s'"
  unfolding cache_frame_def hd_frame_def by (cases s; cases s') simp

lemma cache_frame_queue: "queue_frame s s' \<Longrightarrow> cache_frame s s'"
  unfolding cache_frame_def queue_frame_def by (cases s; cases s') simp

lemma cache_frame_buf [simp]: "cache_frame s (upd_buf b f s)"
  by (simp add: cache_frame_def upd_buf_def)

lemma cache_frame_cleaned: "cleaned D s s' \<Longrightarrow> cache_frame s s'"
  using hd_frame_cache [of s s'] by (intro cache_frame_hd) (auto simp: cleaned_def)

lemma cache_frame_simps:
  assumes "cache_frame s s'"
  shows "hd_parts s' = hd_parts s" "disk_bad s' = disk_bad s" "nr_buffers s' = nr_buffers s" "buffer_wait s' = buffer_wait s"
    "this_request s' = this_request s" "do_hd s' = do_hd s" "sorting s' = sorting s" "wait_for_request s' = wait_for_request s"
proof -
  have e: "s' = s\<lparr>bufs := bufs s', disk := disk s', request := request s', hw_drive := hw_drive s', hw_lba := hw_lba s',
     hw_buf := hw_buf s', hash_table := hash_table s', free_list := free_list s'\<rparr>"
    using assms by (simp add: cache_frame_def)
  show "hd_parts s' = hd_parts s" "disk_bad s' = disk_bad s" "nr_buffers s' = nr_buffers s" "buffer_wait s' = buffer_wait s"
    "this_request s' = this_request s" "do_hd s' = do_hd s" "sorting s' = sorting s" "wait_for_request s' = wait_for_request s"
    by (subst e, simp)+
qed

definition cache :: "u16 set \<Rightarrow> 'z cache_scheme \<Rightarrow> bool" where
  "cache D s \<longleftrightarrow> store D s \<and> 2 \<le> nr_buffers s \<and> (\<exists>F C. queues s F C \<and> set F = heads s)"

lemma scan_buffers_finds:
  assumes r: "ring (bufs s) (pre @ as @ x # cs)" and f: "free_list s = hd (pre @ as @ x # cs)" and q: "quiet s"
    and busy: "\<forall>y\<in>set as. b_count (bufs s y) \<noteq> 0" and x: "b_count (bufs s x) = 0" and n: "length as < n"
  shows "scan_buffers n (hd (as @ [x])) s e = Ok x s e"
  using assms
proof (induction as arbitrary: pre n)
  case Nil
  then obtain m where "n = Suc m" by (cases n) auto
  then show ?case using Nil.prems by (simp add: quiet_def wait_on_buffer_unlocked Let_def)
next
  case (Cons y as)
  then obtain m where m: "n = Suc m" "length as < m" by (cases n) auto
  define z where "z = hd (as @ [x])"
  have "(y, z) \<in> path_adj ((pre @ [y]) @ as @ x # cs)"
    using path_adj_append [of "pre @ [y]" "as @ x # cs"] by (simp add: z_def hd_append)
  then have "b_next_free (bufs s y) = z" using Cons.prems(1) by (auto simp: ring_def ring_adj_def)
  moreover have "z \<noteq> free_list s"
  proof -
    have "distinct ((pre @ [y]) @ as @ x # cs)" using Cons.prems(1) by (simp add: ring_def)
    moreover have "z \<in> set (as @ x # cs)" by (cases as) (auto simp: z_def)
    moreover have "free_list s \<in> set (pre @ [y])" using Cons.prems(2) by (cases pre) auto
    ultimately show ?thesis by (metis distinct_append disjoint_iff)
  qed
  moreover have "scan_buffers m z s e = Ok x s e"
    unfolding z_def using Cons.prems m by (intro Cons.IH [of "pre @ [y]"]) auto
  ultimately show ?case using Cons.prems(4) m by (simp add: Let_def)
qed

lemma find_free_run:
  assumes q: "queues s F C" "quiet s" and F: "set F = heads s" and ex: "\<exists>x\<in>heads s. b_count (bufs s x) = 0"
  obtains x where "\<And>e. find_free s e = Ok x s e" "x \<in> set F" "b_count (bufs s x) = 0"
proof -
  obtain as x cs where split: "F = as @ x # cs" "b_count (bufs s x) = 0" "\<forall>y\<in>set as. b_count (bufs s y) \<noteq> 0"
    using ex F split_list_first_prop [of F "\<lambda>x. b_count (bufs s x) = 0"] by blast
  have "distinct F" using queues_ring [OF q(1)] by (simp add: ring_def)
  then have "length F = nr_buffers s" using F by (metis card_atLeastAtMost diff_Suc_1 distinct_card)
  then have "length as < nr_buffers s + 1" using split(1) by simp
  then have n: "length as < (nr_buffers s + 1) * (length e + 1)" for e :: "('a cache_scheme \<Rightarrow> 'a cache_scheme) list"
    by (simp add: order_less_le_trans)
  have "free_list s = hd (as @ [x])" using queues_head [OF q(1)] split(1) by (cases as) auto
  then have "find_free s e = Ok x s e" for e
    unfolding find_free_def
    using scan_buffers_finds [of s "[]" as x cs "(nr_buffers s + 1) * (length e + 1)" e] queues_ring [OF q(1)] queues_head [OF q(1)] split q(2) n [of e]
    by (simp only: append_Nil)
  then show ?thesis using that split by auto
qed


text \<open>The fields of a buffer head on which the store depends: all but the use count and the queue pointers.\<close>

definition core :: "buffer_head \<Rightarrow> buffer_head" where
  "core h = (body h)\<lparr>b_count := 0\<rparr>"

lemma core_fields:
  "core h = core h' \<Longrightarrow> b_data h = b_data h' \<and> b_dev h = b_dev h' \<and> b_blocknr h = b_blocknr h' \<and> b_uptodate h = b_uptodate h' \<and>
     b_dirt h = b_dirt h' \<and> b_lock h = b_lock h' \<and> b_wait h = b_wait h'"
  by (cases h; cases h') (simp add: core_def body_def)

lemma core_count [simp]: "core (h\<lparr>b_count := c\<rparr>) = core h"
  by (simp add: core_def body_def)

lemma core_body: "body h = body h' \<Longrightarrow> core h = core h'"
  by (simp add: core_def)

lemma store_cong:
  assumes f: "cache_frame s s'" and "request s' = request s" "disk s' = disk s" and c: "\<And>x. core (bufs s' x) = core (bufs s x)"
  shows "store D s' = store D s" "blockview s' = blockview s"
proof -
  note fr = cache_frame_simps [OF f]
  have e: "b_data (bufs s' x) = b_data (bufs s x)" "b_dev (bufs s' x) = b_dev (bufs s x)" "b_blocknr (bufs s' x) = b_blocknr (bufs s x)"
    "b_uptodate (bufs s' x) = b_uptodate (bufs s x)" "b_dirt (bufs s' x) = b_dirt (bufs s x)" "b_lock (bufs s' x) = b_lock (bufs s x)"
    "b_wait (bufs s' x) = b_wait (bufs s x)" for x
    using core_fields [OF c [of x]] by auto
  have i: "is_block (bufs s' x) = is_block (bufs s x)" for x by (simp add: is_block_def fun_eq_iff e)
  have db: "disk_block s' = disk_block s" by (simp add: disk_block_def dev_lba_def fr assms fun_eq_iff)
  have hb: "hd_block s' = hd_block s" by (intro ext hd_block_cong fr)
  have "hd_idle s' = hd_idle s" by (simp add: hd_idle_def free_request_def fr assms)
  then have "quiet s' = quiet s" by (simp add: quiet_def fr e)
  moreover have "buf_ok D s' (bufs s' x) = buf_ok D s (bufs s x)" for x by (simp add: buf_ok_def e db hb)
  ultimately show "store D s' = store D s"
    unfolding store_def using parts_ok_cong [OF fr(1)] by (simp add: fr i e)
  show "blockview s' = blockview s"
    by (intro ext) (simp add: blockview_def fr i e db cong: option.case_cong)
qed

lemma store_count:
  "store D (upd_buf b (\<lambda>h. h\<lparr>b_count := f h\<rparr>) s) = store D s" "blockview (upd_buf b (\<lambda>h. h\<lparr>b_count := f h\<rparr>) s) = blockview s"
proof -
  let ?s' = "upd_buf b (\<lambda>h. h\<lparr>b_count := f h\<rparr>) s"
  have "request ?s' = request s" "disk ?s' = disk s" "core (bufs ?s' x) = core (bufs s x)" for x by (simp_all add: upd_buf_def)
  then show "store D ?s' = store D s" "blockview ?s' = blockview s" using store_cong [OF cache_frame_buf] by blast+
qed

lemma upd_buf_nr [simp]: "nr_buffers (upd_buf b f s) = nr_buffers s"
  by (simp add: upd_buf_def)

lemma store_queue_frame:
  assumes "queue_frame s s'" shows "store D s' = store D s" "blockview s' = blockview s"
proof -
  have e: "s' = s\<lparr>bufs := bufs s', hash_table := hash_table s', free_list := free_list s'\<rparr>" and b: "\<And>x. body (bufs s' x) = body (bufs s x)"
    using assms by (auto simp: queue_frame_def)
  have "request s' = request s" "disk s' = disk s" by (subst e, simp)+
  then show "store D s' = store D s" "blockview s' = blockview s"
    using store_cong [OF cache_frame_queue [OF assms]] core_body [OF b] by blast+
qed

lemma queues_count: "queues s F C \<Longrightarrow> queues (upd_buf b (\<lambda>h. h\<lparr>b_count := f h\<rparr>) s) F C"
  by (rule queues_cong [of _ s]) (auto simp: upd_buf_def links_hash_def links_free_def)

lemma cache_count: "cache D s \<Longrightarrow> cache D (upd_buf b (\<lambda>h. h\<lparr>b_count := f h\<rparr>) s)"
  unfolding cache_def using queues_count [of s] by (simp add: store_count) blast

text \<open>A buffer in no queue, clean, is given a new identity.\<close>

lemma store_rename:
  assumes st: "store D s" and x: "x \<in> heads s" "b_dirt (bufs s x) = 0" and d: "d \<in> D" "hd_block s d k"
    and new: "\<And>y. y \<in> heads s \<Longrightarrow> \<not> is_block (bufs s y) d k"
    and s': "s' = upd_buf x (\<lambda>h. h\<lparr>b_dev := d, b_blocknr := k, b_dirt := 0, b_uptodate := 0\<rparr>) s"
  shows "store D s'" "\<And>d' k'. d' \<in> D \<Longrightarrow> blockview s' d' k' = blockview s d' k'"
proof -
  note sd = storeD [OF st]
  have f: "cache_frame s s'" by (simp add: s')
  note fr = cache_frame_simps [OF f]
  have o: "y \<noteq> x \<Longrightarrow> bufs s' y = bufs s y" for y by (simp add: s' upd_buf_def)
  have bx: "b_dev (bufs s' x) = d" "b_blocknr (bufs s' x) = k" "b_dirt (bufs s' x) = 0" "b_uptodate (bufs s' x) = 0"
    "b_lock (bufs s' x) = b_lock (bufs s x)" "b_wait (bufs s' x) = b_wait (bufs s x)" by (simp_all add: s' upd_buf_def)
  have eq: "disk s' = disk s" "request s' = request s" by (simp_all add: s' upd_buf_def)
  have db: "disk_block s' = disk_block s" by (simp add: disk_block_def dev_lba_def fr eq fun_eq_iff)
  have dnz: "d \<noteq> 0" using D_nz [OF sd(2) d(1)] .
  show st': "store D s'"
    unfolding store_def
  proof (intro conjI ballI impI)
    have "b_lock (bufs s' y) = 0 \<and> b_wait (bufs s' y) = 0" for y
      using sd(1) bx(5,6) o [of y] by (cases "y = x") (simp_all add: quiet_def)
    moreover have "hd_idle s' = hd_idle s" by (simp add: hd_idle_def free_request_def fr eq)
    ultimately show "quiet s'" using sd(1) fr by (simp add: quiet_def)
    show "parts_ok D s'" using sd(2) parts_ok_cong [OF fr(1)] by blast
  next
    fix y assume "y \<in> heads s'"
    then have y: "y \<in> heads s" using fr by simp
    show "buf_ok D s' (bufs s' y)"
    proof (cases "y = x")
      case True
      then show ?thesis using bx d dnz hd_block_cong [OF fr(1,2)] by (simp add: buf_ok_def)
    next
      case False
      then show ?thesis using sd(3) [OF y] o buf_ok_cong [OF fr(1,2) eq(1)] by simp
    qed
  next
    fix y z assume a: "y \<in> heads s'" "z \<in> heads s'" "b_dev (bufs s' y) \<noteq> 0" "is_block (bufs s' z) (b_dev (bufs s' y)) (b_blocknr (bufs s' y))"
    have h: "y \<in> heads s" "z \<in> heads s" using a fr by auto
    show "y = z"
    proof (cases "y = x")
      case True
      then show ?thesis using a(4) bx o [of z] new [OF h(2)] by (cases "z = x") auto
    next
      case yx: False
      show ?thesis
      proof (cases "z = x")
        case True
        then have "is_block (bufs s y) d k" using a(4) bx o [OF yx] by (simp add: is_block_def)
        then show ?thesis using new [OF h(1)] by blast
      next
        case False
        then show ?thesis
          using a(3,4) store_unique [OF st h, of "b_dev (bufs s y)" "b_blocknr (bufs s y)"] unfolding o [OF yx] o [OF False] is_block_def by blast
      qed
    qed
  qed
  fix d' k' assume d': "d' \<in> D"
  have d'nz: "d' \<noteq> 0" using D_nz [OF sd(2) d'] .
  have hold: "holds s' d' k' y \<longleftrightarrow> holds s d' k' y \<and> y \<noteq> x" for y
    using bx(4) o [of y] fr by (cases "y = x") (simp_all add: holds_def)
  show "blockview s' d' k' = blockview s d' k'"
  proof
    fix i
    show "blockview s' d' k' i = blockview s d' k' i"
    proof (cases "i < 1024")
      case i: True
      show ?thesis
      proof (cases "\<exists>y. holds s d' k' y")
        case True
        then obtain y where y: "holds s d' k' y" by blast
        note vy = blockview_held [OF st y d'nz i]
        show ?thesis
        proof (cases "y = x")
          case True
          have "\<not> holds s' d' k' z" for z
            using hold y True store_unique [OF st, of z x d' k'] d'nz by (auto simp: holds_def)
          then have "blockview s' d' k' i = disk_block s d' k' i" using blockview_unheld i db by metis
          moreover have "b_data (bufs s x) i = disk_block s d' k' i"
            using sd(3) [OF x(1)] x(2) y True d'nz i by (auto simp: buf_ok_def holds_def is_block_def)
          ultimately show ?thesis using vy True by simp
        next
          case False
          then show ?thesis using vy blockview_held [OF st' _ d'nz i, of k' y] hold y o by simp
        qed
      next
        case False
        then show ?thesis using blockview_unheld [of s d' k' i] blockview_unheld [of s' d' k' i] hold i db by auto
      qed
    qed (simp add: blockview_beyond)
  qed
qed


text \<open>What a successful \<^verbatim>\<open>getblk\<close> or \<^verbatim>\<open>bread\<close> does: \<open>b\<close> holds the block and has one more user; nothing else
  that can be seen through the cache has changed.\<close>

definition got :: "u16 set \<Rightarrow> u16 \<Rightarrow> u16 \<Rightarrow> nat \<Rightarrow> 'z cache_scheme \<Rightarrow> 'z cache_scheme \<Rightarrow> bool" where
  "got D d k b s s' \<longleftrightarrow> b \<in> heads s \<and> is_block (bufs s' b) d k \<and> cache D s' \<and> cache_frame s s' \<and>
     (\<forall>x. b_count (bufs s' x) = (if x = b then b_count (bufs s x) + 1 else b_count (bufs s x))) \<and>
     (\<forall>x. b_count (bufs s x) \<noteq> 0 \<longrightarrow> b_dev (bufs s' x) = b_dev (bufs s x) \<and> b_blocknr (bufs s' x) = b_blocknr (bufs s x) \<and>
        b_data (bufs s' x) = b_data (bufs s x) \<and> (b_uptodate (bufs s' x) = 0 \<longleftrightarrow> b_uptodate (bufs s x) = 0)) \<and>
     (\<forall>d' k'. d' \<in> D \<longrightarrow> hd_block s d' k' \<longrightarrow> blockview s' d' k' = blockview s d' k')"

lemma getblk_hit:
  assumes c: "cache D s" and d: "d \<in> D" and b: "b \<in> heads s" "is_block (bufs s b) d k"
  shows "\<exists>s'. getblk (ucast d) (ucast k) s [] = Ok b s' [] \<and> got D d k b s s' \<and> b_uptodate (bufs s' b) = b_uptodate (bufs s b)"
proof -
  have st: "store D s" and n: "2 \<le> nr_buffers s" using c by (auto simp: cache_def)
  obtain F C where q: "queues s F C" "set F = heads s" using c by (auto simp: cache_def)
  have dnz: "d \<noteq> 0" using D_nz storeD(2) [OF st] d by blast
  have b0: "b \<noteq> 0" using b by auto
  let ?s = "upd_buf b (\<lambda>h. h\<lparr>b_count := b_count h + 1\<rparr>) s"
  have f: "find_buffer (ucast d) (ucast k) s [] = Ok b s []"
    by (rule find_buffer_cases [OF q(1) dnz, of k]) (use b q(2) in auto)
  have lk: "b_lock (bufs ?s b) = 0" using storeD(1) [OF st] by (simp add: quiet_def upd_buf_def)
  have "get_hash_table (ucast d) (ucast k) s [] = Ok b ?s []"
    unfolding get_hash_table_def
    using f b0 b(2) lk by (intro loopK_done) (simp add: wait_on_buffer_unlocked, simp add: upd_buf_def is_block_def)
  then have "getblk (ucast d) (ucast k) s [] = Ok b ?s []"
    unfolding getblk_def using b0 by (intro loopK_done) simp
  moreover have "got D d k b s ?s"
  proof -
    have "cache D ?s" using cache_count [OF c] .
    moreover have "b_dev (bufs ?s x) = b_dev (bufs s x) \<and> b_blocknr (bufs ?s x) = b_blocknr (bufs s x) \<and>
        b_data (bufs ?s x) = b_data (bufs s x) \<and> b_uptodate (bufs ?s x) = b_uptodate (bufs s x)" for x
      by (simp add: upd_buf_def)
    moreover have "b_count (bufs ?s x) = (if x = b then b_count (bufs s x) + 1 else b_count (bufs s x))" for x
      by (simp add: upd_buf_def)
    ultimately show ?thesis using b by (simp add: got_def store_count is_block_def)
  qed
  ultimately show ?thesis by (intro exI [of _ ?s]) (simp add: upd_buf_def)
qed


lemma getblk_miss:
  assumes c: "cache D s" and d: "d \<in> D" "hd_block s d k" and miss: "\<And>x. x \<in> heads s \<Longrightarrow> \<not> is_block (bufs s x) d k"
    and ex: "\<exists>x\<in>heads s. b_count (bufs s x) = 0"
  shows "\<exists>b s'. getblk (ucast d) (ucast k) s [] = Ok b s' [] \<and> got D d k b s s' \<and> b_uptodate (bufs s' b) = 0"
proof -
  have st: "store D s" and nr: "2 \<le> nr_buffers s" using c by (auto simp: cache_def)
  obtain F C where q: "queues s F C" "set F = heads s" using c by (auto simp: cache_def)
  have dnz: "d \<noteq> 0" using D_nz storeD(2) [OF st] d(1) by blast
  have "find_buffer (ucast d) (ucast k) s [] = Ok 0 s []"
    by (rule find_buffer_cases [OF q(1) dnz, of k]) (use miss q(2) in auto)
  then have ht: "get_hash_table (ucast d) (ucast k) s [] = Ok 0 s []"
    unfolding get_hash_table_def by (intro loopK_done) simp
  obtain x where x: "\<And>e. find_free s e = Ok x s e" "x \<in> set F" "b_count (bufs s x) = 0"
    using find_free_run [OF q(1) storeD(1) [OF st] q(2) ex] by blast
  have xh: "x \<in> heads s" and x0: "x \<noteq> 0" using x(2) q(2) by auto
  define s1 where "s1 = upd_buf x (\<lambda>h. h\<lparr>b_count := b_count h + 1\<rparr>) s"
  have q1: "queues s1 F C" unfolding s1_def by (rule queues_count [OF q(1)])
  have "distinct F" using queues_ring [OF q(1)] by (simp add: ring_def)
  have F1: "F \<noteq> [x]"
  proof
    assume "F = [x]"
    then have "card (heads s) = 1" using q(2) by (metis list.simps(15) set_empty card_1_singleton_iff One_nat_def empty_set)
    then show False using nr by simp
  qed
  obtain s2 C2 where s2: "\<And>e. remove_from_queues x s1 e = Ok () s2 e" "queues s2 (remove1 x F) C2" "queue_frame s1 s2"
    using queues_remove [OF q1 x(2) F1] by blast
  have st2: "store D s2" and v2: "blockview s2 = blockview s"
    using store_queue_frame [OF s2(3)] st by (simp_all add: s1_def store_count)
  have n2: "nr_buffers s2 = nr_buffers s" using cache_frame_simps(3) [OF cache_frame_queue [OF s2(3)]] by (simp add: s1_def)
  define dirty where "dirty = whenK (b_dirt (bufs s2 x) \<noteq> 0) (sync_dev (b_dev (bufs s2 x))) s2 []"
  obtain s3 where s3: "dirty = Ok () s3 []" "store D s3" "cleaned D s2 s3" "b_dirt (bufs s3 x) = 0"
  proof (cases "b_dirt (bufs s2 x) = 0")
    case True
    then show ?thesis using that [of s2] st2 by (simp add: dirty_def cleaned_refl)
  next
    case False
    obtain s' where "sync_dev (b_dev (bufs s2 x)) s2 [] = Ok () s' []" "store D s'" "cleaned D s2 s'"
       "\<And>y. y \<in> heads s2 \<Longrightarrow> b_dev (bufs s2 y) = b_dev (bufs s2 x) \<Longrightarrow> b_dirt (bufs s' y) = 0"
      using sync_dev_run [OF st2] by blast
    then show ?thesis using that False xh n2 by (simp add: dirty_def)
  qed
  note k3 = cleaned_keep [OF s3(3)]
  have q3: "queues s3 (remove1 x F) C2" by (rule queues_cong [OF k3(9,10) _ s2(2)]) (simp add: k3)
  have b2: "body (bufs s2 y) = body (bufs s1 y)" for y using s2(3) by (simp add: queue_frame_def)
  have id3: "b_dev (bufs s3 y) = b_dev (bufs s y)" "b_blocknr (bufs s3 y) = b_blocknr (bufs s y)" "b_data (bufs s3 y) = b_data (bufs s y)"
    "b_count (bufs s3 y) = (if y = x then b_count (bufs s y) + 1 else b_count (bufs s y))" "b_uptodate (bufs s3 y) = 0 \<longleftrightarrow> b_uptodate (bufs s y) = 0" for y
    using body_fields [OF b2 [of y]] k3(1-4,11) [of y] by (simp_all add: s1_def upd_buf_def)
  have fr3: "cache_frame s s3"
    using cache_frame_trans [OF cache_frame_trans [OF cache_frame_buf cache_frame_queue [OF s2(3) [unfolded s1_def]]] cache_frame_cleaned [OF s3(3)]] .
  note f3 = cache_frame_simps [OF fr3]
  have new3: "\<not> is_block (bufs s3 y) d k" if "y \<in> heads s3" for y
    using miss [of y] that f3(3) by (simp add: is_block_def id3)
  have d3: "hd_block s3 d k" using d(2) hd_block_cong [OF f3(1,2)] by blast
  define s4 where "s4 = upd_buf x (\<lambda>h. h\<lparr>b_dev := d, b_blocknr := k, b_dirt := 0, b_uptodate := 0\<rparr>) s3"
  have x3: "x \<in> heads s3" using xh f3 by simp
  have s4: "store D s4" "\<And>d' k'. d' \<in> D \<Longrightarrow> blockview s4 d' k' = blockview s3 d' k'"
    using store_rename [OF s3(2) x3 s3(4) d(1) d3 _ s4_def] new3 by blast+
  have xF: "x \<notin> set (remove1 x F)" using \<open>distinct F\<close> by simp
  have q4: "queues s4 (remove1 x F) C2"
  proof (rule queues_cong [OF _ _ _ q3])
    fix y assume "y \<in> set (remove1 x F)"
    then have "y \<noteq> x" using xF by auto
    then show "links_hash (bufs s4 y) = links_hash (bufs s3 y) \<and> links_free (bufs s4 y) = links_free (bufs s3 y) \<and>
       b_dev (bufs s4 y) = b_dev (bufs s3 y) \<and> b_blocknr (bufs s4 y) = b_blocknr (bufs s3 y)"
      by (simp add: s4_def upd_buf_def)
  qed (simp_all add: s4_def upd_buf_def)
  have sub: "y \<in> heads s3 \<and> y \<noteq> x" if "y \<in> set (remove1 x F)" for y
    using that xF set_remove1_subset [of x F] q(2) f3(3) by auto
  have new4: "\<not> is_block (bufs s4 y) d k" if "y \<in> set (remove1 x F)" for y
    using new3 [of y] sub [OF that] by (simp add: s4_def upd_buf_def)
  have f4: "find_buffer (ucast d) (ucast k) s4 [] = Ok 0 s4 []"
    using new4 by (cases rule: find_buffer_cases [OF q4 dnz, of k]) blast+
  have id4: "b_dev (bufs s4 x) = d" "b_blocknr (bufs s4 x) = k" by (simp_all add: s4_def upd_buf_def)
  define s5 where "s5 = insert_into_queues x s4"
  obtain C5 where q5: "queues s5 (remove1 x F @ [x]) C5" "queue_frame s4 s5"
  proof (rule queues_insert [OF q4 xF x0])
    fix y assume "y \<in> set (remove1 x F)" "b_dev (bufs s4 y) = b_dev (bufs s4 x)"
    then show "b_blocknr (bufs s4 y) \<noteq> b_blocknr (bufs s4 x)" using new4 [of y] id4 by (auto simp: is_block_def)
  qed (auto simp: s5_def)
  have run: "getblk (ucast d) (ucast k) s [] = Ok x s5 []"
    unfolding getblk_def
    using ht x(1) x0 s2(1) s3(1) [unfolded dirty_def whenK_run] f4
    by (intro loopK_done) (simp add: s1_def [symmetric] s4_def [symmetric] s5_def [symmetric])
  have b5: "body (bufs s5 y) = body (bufs s4 y)" for y using q5(2) by (simp add: queue_frame_def)
  have fr5: "cache_frame s s5"
    using cache_frame_trans [OF cache_frame_trans [OF fr3 cache_frame_buf] cache_frame_queue [OF q5(2) [unfolded s4_def]]] .
  have "cache D s5"
    unfolding cache_def
  proof (intro conjI exI)
    show "store D s5" using store_queue_frame(1) [OF q5(2)] s4(1) by blast
    show "queues s5 (remove1 x F @ [x]) C5" by (rule q5(1))
    show "2 \<le> nr_buffers s5" using nr cache_frame_simps(3) [OF fr5] by simp
    show "set (remove1 x F @ [x]) = heads s5"
    proof -
      have "set (remove1 x F @ [x]) = set F" using x(2) \<open>distinct F\<close> by (simp add: set_remove1_eq insert_absorb)
      then show ?thesis using q(2) cache_frame_simps(3) [OF fr5] by simp
    qed
  qed
  moreover have "blockview s5 d' k' = blockview s d' k'" if "d' \<in> D" "hd_block s d' k'" for d' k'
  proof -
    have hb: "hd_block s2 d' k'"
      using that(2) hd_block_cong [of s2 s] cache_frame_simps(1,2) [OF cache_frame_trans [OF cache_frame_buf cache_frame_queue [OF s2(3) [unfolded s1_def]]]] by simp
    have "blockview s5 d' k' = blockview s4 d' k'" using store_queue_frame(2) [OF q5(2)] by simp
    also have "\<dots> = blockview s3 d' k'" by (rule s4(2) [OF that(1)])
    also have "\<dots> = blockview s2 d' k'" using s3(3) that(1) hb by (simp add: cleaned_def)
    finally show ?thesis using v2 by simp
  qed
  moreover have "b_count (bufs s5 y) = (if y = x then b_count (bufs s y) + 1 else b_count (bufs s y))" for y
    using body_fields [OF b5 [of y]] id3(4) [of y] by (cases "y = x") (simp_all add: s4_def upd_buf_def)
  moreover have "b_dev (bufs s5 y) = b_dev (bufs s y) \<and> b_blocknr (bufs s5 y) = b_blocknr (bufs s y) \<and>
        b_data (bufs s5 y) = b_data (bufs s y) \<and> (b_uptodate (bufs s5 y) = 0 \<longleftrightarrow> b_uptodate (bufs s y) = 0)" if "b_count (bufs s y) \<noteq> 0" for y
  proof -
    have "y \<noteq> x" using that x(3) by auto
    then show ?thesis using body_fields [OF b5 [of y]] id3 [of y] by (simp add: s4_def upd_buf_def)
  qed
  moreover have "is_block (bufs s5 x) d k" "b_uptodate (bufs s5 x) = 0"
    using body_fields [OF b5 [of x]] id4 by (simp_all add: is_block_def s4_def upd_buf_def)
  ultimately show ?thesis
    using run xh fr5 by (intro exI [of _ x] exI [of _ s5]) (simp add: got_def)
qed


section \<open>Reading, changing and releasing a block\<close>

lemma getblk_run:
  assumes c: "cache D s" and d: "d \<in> D" "hd_block s d k" and ex: "\<exists>x\<in>heads s. b_count (bufs s x) = 0"
  obtains b s' where "getblk (ucast d) (ucast k) s [] = Ok b s' []" "got D d k b s s'"
proof (cases "\<exists>b\<in>heads s. is_block (bufs s b) d k")
  case True
  then show ?thesis using getblk_hit [OF c d(1)] that by blast
next
  case False
  then show ?thesis using getblk_miss [OF c d _ ex] that by blast
qed

lemma gotD:
  assumes "got D d k b s s'"
  shows "b \<in> heads s'" "b \<noteq> 0" "cache D s'" "is_block (bufs s' b) d k" "cache_frame s s'"
  using assms cache_frame_simps(3) [of s s'] by (auto simp: got_def)

text \<open>The transfer of a block into a buffer that is not up to date.\<close>

lemma read_block:
  assumes c: "cache D s" and d: "d \<in> D" "hd_block s d k" and b: "b \<in> heads s" "is_block (bufs s b) d k" "b_uptodate (bufs s b) = 0"
  obtains s' where "ll_rw_block READ b s [] = Ok () s' []" "cache D s'" "cache_frame s s'"
    "bufs s' = (bufs s)(b := (bufs s b)\<lparr>b_data := rd_sectors (disk s) (dev_drive d) (dev_lba s d k) (b_data (bufs s b)), b_uptodate := 1, b_dirt := 0, b_lock := 0\<rparr>)"
    "\<And>d' k'. d' \<in> D \<Longrightarrow> blockview s' d' k' = blockview s d' k'"
proof -
  have st: "store D s" using c by (simp add: cache_def)
  note sd = storeD [OF st]
  have id: "b_dev (bufs s b) = d" "b_blocknr (bufs s b) = k" using b(2) by (auto simp: is_block_def)
  have idle: "hd_idle s" "b_wait (bufs s b) = 0" using sd(1) by (auto simp: quiet_def)
  obtain s' where s': "ll_rw_block READ b s [] = Ok () s' []" "hd_idle s'" "hd_frame s s'" "disk s' = disk s"
    "bufs s' = (bufs s)(b := (bufs s b)\<lparr>b_data := rd_sectors (disk s) (dev_drive d) (dev_lba s d k) (b_data (bufs s b)), b_uptodate := 1, b_dirt := 0, b_lock := 0\<rparr>)"
    using ll_rw_block_run(1) [OF idle(1) d(2) id idle(2)] by blast
  note fr = hd_frame_simps [OF s'(3)] and fc = hd_frame_cache [OF s'(3)]
  have o: "y \<noteq> b \<Longrightarrow> bufs s' y = bufs s y" for y by (simp add: s'(5))
  have dnz: "d \<noteq> 0" using D_nz [OF sd(2) d(1)] .
  have db: "disk_block s' = disk_block s" by (simp add: disk_block_def dev_lba_def fr s'(4) fun_eq_iff)
  have data: "b_data (bufs s' b) i = disk_block s d k i" if "i < 1024" for i
    using that by (simp add: s'(5) disk_block_def rd_sectors_def)
  have ids: "b_dev (bufs s' y) = b_dev (bufs s y)" "b_blocknr (bufs s' y) = b_blocknr (bufs s y)" for y by (simp_all add: s'(5))
  have st': "store D s'"
    unfolding store_def
  proof (intro conjI ballI impI)
    show "quiet s'" using sd(1) s'(2) fc(2) by (auto simp: quiet_def s'(5))
    show "parts_ok D s'" using sd(2) parts_ok_cong [OF fr(1)] by blast
  next
    fix y assume "y \<in> heads s'"
    then have y: "y \<in> heads s" using fc by simp
    show "buf_ok D s' (bufs s' y)"
    proof (cases "y = b")
      case True
      then show ?thesis using ids [of b] id d dnz hd_block_cong [OF fr] data db by (simp add: buf_ok_def s'(5))
    next
      case False
      then show ?thesis using sd(3) [OF y] o buf_ok_cong [OF fr s'(4)] by simp
    qed
  next
    fix y z assume a: "y \<in> heads s'" "z \<in> heads s'" "b_dev (bufs s' y) \<noteq> 0" "is_block (bufs s' z) (b_dev (bufs s' y)) (b_blocknr (bufs s' y))"
    have h: "y \<in> heads s" "z \<in> heads s" using a fc by auto
    show "y = z"
      using store_unique [OF st h, of "b_dev (bufs s y)" "b_blocknr (bufs s y)"] a(3,4) unfolding is_block_def ids by blast
  qed
  moreover obtain F C where "queues s F C" "set F = heads s" "2 \<le> nr_buffers s" using c by (auto simp: cache_def)
  moreover have "queues s' F C"
    by (rule queues_cong [OF fc(4,3) _ \<open>queues s F C\<close>]) (simp add: s'(5) links_hash_def links_free_def)
  ultimately have "cache D s'" using fc(1) by (auto simp: cache_def)
  moreover have "blockview s' d' k' = blockview s d' k'" if d': "d' \<in> D" for d' k'
  proof
    fix i
    have d'nz: "d' \<noteq> 0" using D_nz [OF sd(2) d'] .
    have same: "is_block (bufs s' y) = is_block (bufs s y)" for y by (simp add: is_block_def ids fun_eq_iff)
    show "blockview s' d' k' i = blockview s d' k' i"
    proof (cases "i < 1024")
      case i: True
      show ?thesis
      proof (cases "(d', k') = (d, k)")
        case True
        have "b_uptodate (bufs s' b) \<noteq> 0" by (simp add: s'(5))
        then have "holds s' d k b" using b(1,2) fc(1) same by (simp add: holds_def)
        then have "blockview s' d k i = disk_block s d k i" using blockview_held [OF st' _ dnz i] data [OF i] by simp
        moreover have "\<not> holds s d k y" for y using store_unique [OF st _ b(1) _ b(2) dnz] b(3) by (auto simp: holds_def)
        then have "blockview s d k i = disk_block s d k i" using blockview_unheld i by blast
        ultimately show ?thesis using True by simp
      next
        case False
        then have nb: "\<not> is_block (bufs s b) d' k'" using id by (auto simp: is_block_def)
        have hold: "holds s' d' k' y \<longleftrightarrow> holds s d' k' y" for y
          using nb same fc(1) o [of y] by (cases "y = b") (simp_all add: holds_def)
        show ?thesis
        proof (cases "\<exists>y. holds s d' k' y")
          case True
          then obtain y where y: "holds s d' k' y" by blast
          then have "y \<noteq> b" using nb by (auto simp: holds_def)
          then show ?thesis using blockview_held [OF st y d'nz i] blockview_held [OF st' _ d'nz i] y hold o by simp
        next
          case False
          then show ?thesis using blockview_unheld [of s d' k' i] blockview_unheld [of s' d' k' i] hold i db by auto
        qed
      qed
    qed (simp add: blockview_beyond)
  qed
  ultimately show ?thesis using that [OF s'(1) _ cache_frame_hd [OF s'(3) fc(3,4)] s'(5)] by blast
qed

lemma got_same_count:
  assumes g: "got D d k b s s1" and "cache D s2" "cache_frame s1 s2"
    and b2: "bufs s2 = (bufs s1)(b := h)" "core h = core h'" "b_count h = b_count (bufs s1 b)" "b_dev h = d" "b_blocknr h = k"
    and dat: "b_count (bufs s b) \<noteq> 0 \<Longrightarrow> b_data h = b_data (bufs s1 b) \<and> (b_uptodate h = 0 \<longleftrightarrow> b_uptodate (bufs s1 b) = 0)"
    and v: "\<And>d' k'. d' \<in> D \<Longrightarrow> hd_block s d' k' \<Longrightarrow> blockview s2 d' k' = blockview s1 d' k'"
  shows "got D d k b s s2"
proof -
  have i: "b_dev (bufs s1 b) = d" "b_blocknr (bufs s1 b) = k" using g by (auto simp: got_def is_block_def)
  show ?thesis
    unfolding got_def
  proof (intro conjI allI impI)
    show "b \<in> heads s" using g by (simp add: got_def)
    show "is_block (bufs s2 b) d k" using b2 by (simp add: is_block_def)
    show "cache D s2" by fact
    show "cache_frame s s2" using cache_frame_trans [OF _ assms(3)] g by (simp add: got_def)
  next
    fix x
    show "b_count (bufs s2 x) = (if x = b then b_count (bufs s x) + 1 else b_count (bufs s x))"
      using g b2 by (simp add: got_def)
    assume c: "b_count (bufs s x) \<noteq> 0"
    have gx: "b_dev (bufs s1 x) = b_dev (bufs s x)" "b_blocknr (bufs s1 x) = b_blocknr (bufs s x)"
        "b_data (bufs s1 x) = b_data (bufs s x)" "b_uptodate (bufs s1 x) = 0 \<longleftrightarrow> b_uptodate (bufs s x) = 0"
      using g c by (simp_all add: got_def)
    show "b_dev (bufs s2 x) = b_dev (bufs s x)" "b_blocknr (bufs s2 x) = b_blocknr (bufs s x)"
        "b_data (bufs s2 x) = b_data (bufs s x)" "b_uptodate (bufs s2 x) = 0 \<longleftrightarrow> b_uptodate (bufs s x) = 0"
      using gx c b2 dat i by (cases "x = b"; simp)+
  next
    fix d' k' assume "d' \<in> D" "hd_block s d' k'"
    then show "blockview s2 d' k' = blockview s d' k'" using v g by (simp add: got_def)
  qed
qed


lemma bread_run:
  assumes c: "cache D s" and d: "d \<in> D" "hd_block s d k" and ex: "\<exists>x\<in>heads s. b_count (bufs s x) = 0"
    and unread: "\<And>x. x \<in> heads s \<Longrightarrow> b_count (bufs s x) \<noteq> 0 \<Longrightarrow> b_uptodate (bufs s x) \<noteq> 0"
  obtains b s' where "bread (ucast d) (ucast k) s [] = Ok b s' []" "got D d k b s s'" "b_uptodate (bufs s' b) \<noteq> 0"
    "\<And>i. i < 1024 \<Longrightarrow> b_data (bufs s' b) i = blockview s d k i"
proof -
  obtain b s1 where g: "getblk (ucast d) (ucast k) s [] = Ok b s1 []" "got D d k b s s1" by (rule getblk_run [OF c d ex])
  note gd = gotD [OF g(2)]
  have dnz: "d \<noteq> 0" using c D_nz d(1) by (auto simp: cache_def dest: storeD(2))
  have held: "b_data (bufs s' b) i = blockview s d k i" if "got D d k b s s'" "b_uptodate (bufs s' b) \<noteq> 0" "i < 1024" for s' i
  proof -
    have "store D s'" "holds s' d k b" using gotD [OF that(1)] that(2) by (auto simp: cache_def holds_def)
    then have "blockview s' d k i = b_data (bufs s' b) i" using blockview_held dnz that(3) by blast
    then show ?thesis using that(1) d by (simp add: got_def)
  qed
  show ?thesis
  proof (cases "b_uptodate (bufs s1 b) = 0")
    case False
    then have "bread (ucast d) (ucast k) s [] = Ok b s1 []" using g(1) gd(2) by (simp add: bread_def)
    then show ?thesis using that g(2) False held by blast
  next
    case True
    have fr: "hd_parts s1 = hd_parts s" "disk_bad s1 = disk_bad s" using cache_frame_simps [OF gd(5)] by auto
    have d1: "hd_block s1 d k" using d(2) hd_block_cong [OF fr] by blast
    obtain s2 where s2: "ll_rw_block READ b s1 [] = Ok () s2 []" "cache D s2" "cache_frame s1 s2"
      "bufs s2 = (bufs s1)(b := (bufs s1 b)\<lparr>b_data := rd_sectors (disk s1) (dev_drive d) (dev_lba s1 d k) (b_data (bufs s1 b)), b_uptodate := 1, b_dirt := 0, b_lock := 0\<rparr>)"
      "\<And>d' k'. d' \<in> D \<Longrightarrow> blockview s2 d' k' = blockview s1 d' k'"
      using read_block [OF gd(3) d(1) d1 gd(1,4) True] by blast
    have "b_count (bufs s b) = 0"
      using unread [of b] True g(2) by (auto simp: got_def)
    then have "got D d k b s s2"
      using s2 g(2) gd(4) by (intro got_same_count [OF g(2) s2(2,3,4) refl]) (simp_all add: is_block_def)
    moreover have "b_uptodate (bufs s2 b) \<noteq> 0" by (simp add: s2(4))
    moreover have "bread (ucast d) (ucast k) s [] = Ok b s2 []"
      using g(1) gd(2) True s2(1) \<open>b_uptodate (bufs s2 b) \<noteq> 0\<close> by (simp add: bread_def)
    ultimately show ?thesis using that held by blast
  qed
qed

lemma brelse_run:
  assumes c: "cache D s" and b: "b \<noteq> 0" "b_count (bufs s b) \<noteq> 0"
  shows "brelse b s [] = Ok () (upd_buf b (\<lambda>h. h\<lparr>b_count := b_count h - 1\<rparr>) s) []"
    and "cache D (upd_buf b (\<lambda>h. h\<lparr>b_count := b_count h - 1\<rparr>) s)"
    and "blockview (upd_buf b (\<lambda>h. h\<lparr>b_count := b_count h - 1\<rparr>) s) = blockview s"
proof -
  have q: "quiet s" using c by (auto simp: cache_def dest: storeD(1))
  have "buffer_wait (upd_buf b (\<lambda>h. h\<lparr>b_count := b_count h - 1\<rparr>) s) = 0" using q by (simp add: quiet_def upd_buf_def)
  then show "brelse b s [] = Ok () (upd_buf b (\<lambda>h. h\<lparr>b_count := b_count h - 1\<rparr>) s) []"
    using b q by (simp add: brelse_def quiet_def wait_on_buffer_unlocked wake_up_def buffer_waitq_def)
  show "cache D (upd_buf b (\<lambda>h. h\<lparr>b_count := b_count h - 1\<rparr>) s)" by (rule cache_count [OF c])
  show "blockview (upd_buf b (\<lambda>h. h\<lparr>b_count := b_count h - 1\<rparr>) s) = blockview s" by (rule store_count)
qed

text \<open>Changing the data of an up-to-date buffer and marking it dirty.\<close>

definition put_data :: "nat \<Rightarrow> (nat \<Rightarrow> u8) \<Rightarrow> 'z hdst_scheme \<Rightarrow> 'z hdst_scheme" where
  "put_data b v s = upd_buf b (\<lambda>h. h\<lparr>b_data := v, b_dirt := 1\<rparr>) s"

lemma put_data_run:
  fixes s :: "'z cache_scheme"
  assumes c: "cache D s" and d: "d \<in> D" "holds s d k b"
  shows "cache D (put_data b v s)"
    and "\<And>i. i < 1024 \<Longrightarrow> blockview (put_data b v s) d k i = v i"
    and "\<And>d' k'. d' \<in> D \<Longrightarrow> (d', k') \<noteq> (d, k) \<Longrightarrow> blockview (put_data b v s) d' k' = blockview s d' k'"
proof -
  let ?s = "put_data b v s"
  have st: "store D s" using c by (simp add: cache_def)
  note sd = storeD [OF st]
  have fr: "cache_frame s ?s" by (simp add: put_data_def)
  note f = cache_frame_simps [OF fr]
  have eq: "disk ?s = disk s" "request ?s = request s" "free_list ?s = free_list s" "hash_table ?s = hash_table s"
    by (simp_all add: put_data_def upd_buf_def)
  have o: "y \<noteq> b \<Longrightarrow> bufs ?s y = bufs s y" for y by (simp add: put_data_def upd_buf_def)
  have bb: "bufs ?s b = (bufs s b)\<lparr>b_data := v, b_dirt := 1\<rparr>" by (simp add: put_data_def upd_buf_def)
  have same: "is_block (bufs ?s y) = is_block (bufs s y)" "b_uptodate (bufs ?s y) = b_uptodate (bufs s y)"
    "b_dev (bufs ?s y) = b_dev (bufs s y)" "b_blocknr (bufs ?s y) = b_blocknr (bufs s y)"
    "b_lock (bufs ?s y) = b_lock (bufs s y)" "b_wait (bufs ?s y) = b_wait (bufs s y)"
    "links_hash (bufs ?s y) = links_hash (bufs s y)" "links_free (bufs ?s y) = links_free (bufs s y)" for y
    using o [of y] by (cases "y = b"; simp add: bb is_block_def fun_eq_iff links_hash_def links_free_def)+
  have dnz: "d \<noteq> 0" using D_nz [OF sd(2) d(1)] .
  have hold: "holds ?s d' k' y \<longleftrightarrow> holds s d' k' y" for d' k' y by (simp add: holds_def same f)
  have db: "disk_block ?s = disk_block s" by (simp add: disk_block_def dev_lba_def f eq fun_eq_iff)
  have st': "store D ?s"
    unfolding store_def
  proof (intro conjI ballI impI)
    have "hd_idle ?s = hd_idle s" by (simp add: hd_idle_def free_request_def f eq)
    then show "quiet ?s" using sd(1) f by (simp add: quiet_def same)
    show "parts_ok D ?s" using sd(2) parts_ok_cong [OF f(1)] by blast
  next
    fix y assume "y \<in> heads ?s"
    then have y: "y \<in> heads s" using f by simp
    show "buf_ok D ?s (bufs ?s y)"
    proof (cases "y = b")
      case True
      have "b_dev (bufs s b) = d" using d(2) by (simp add: holds_def is_block_def)
      then show ?thesis using sd(3) [OF y] True d(2) dnz hd_block_cong [OF f(1,2)] by (auto simp: buf_ok_def bb holds_def)
    next
      case False
      then show ?thesis using sd(3) [OF y] o buf_ok_cong [OF f(1,2) eq(1)] by simp
    qed
  next
    fix y z assume a: "y \<in> heads ?s" "z \<in> heads ?s" "b_dev (bufs ?s y) \<noteq> 0" "is_block (bufs ?s z) (b_dev (bufs ?s y)) (b_blocknr (bufs ?s y))"
    have h: "y \<in> heads s" "z \<in> heads s" using a f by auto
    show "y = z"
      using store_unique [OF st h, of "b_dev (bufs s y)" "b_blocknr (bufs s y)"] a(3,4) unfolding same is_block_def by blast
  qed
  obtain F C where q: "queues s F C" "set F = heads s" "2 \<le> nr_buffers s" using c by (auto simp: cache_def)
  have "queues ?s F C" by (rule queues_cong [OF eq(3,4) _ q(1)]) (simp add: same)
  then show "cache D ?s" using st' q f(3) by (auto simp: cache_def)
  show "blockview ?s d k i = v i" if "i < 1024" for i
    using blockview_held [OF st' _ dnz that, of k b] hold d(2) by (simp add: bb)
  fix d' k' assume d': "d' \<in> D" "(d', k') \<noteq> (d, k)"
  have d'nz: "d' \<noteq> 0" using D_nz [OF sd(2) d'(1)] .
  have nb: "\<not> holds s d' k' b" using d(2) d'(2) by (auto simp: holds_def is_block_def)
  show "blockview ?s d' k' = blockview s d' k'"
  proof
    fix i
    show "blockview ?s d' k' i = blockview s d' k' i"
    proof (cases "i < 1024")
      case i: True
      show ?thesis
      proof (cases "\<exists>y. holds s d' k' y")
        case True
        then obtain y where y: "holds s d' k' y" by blast
        then have "y \<noteq> b" using nb by auto
        then show ?thesis using blockview_held [OF st y d'nz i] blockview_held [OF st' _ d'nz i] y hold o by simp
      next
        case False
        then show ?thesis using blockview_unheld [of s d' k' i] blockview_unheld [of ?s d' k' i] hold i db by auto
      qed
    qed (simp add: blockview_beyond)
  qed
qed

end
