(* ===== verification/Buffer_Props.thy ===== *)
theory Buffer_Props
  imports Buffer_Store
begin

text \<open>
  The contract of a store of blocks as a locale, its interpretation on the buffer cache, and the properties of \<^verbatim>\<open>buffer.c\<close>.
\<close>

section \<open>The contract\<close>

text \<open>The last value written to block \<open>k\<close> by a sequence of writes (\<open>Some v\<close>) and reads (\<open>None\<close>).\<close>

fun last_write :: "'k \<Rightarrow> ('k \<times> (nat \<Rightarrow> u8) option) list \<Rightarrow> (nat \<Rightarrow> u8) option" where
  "last_write k [] = None"
| "last_write k (a # as) = (case last_write k as of Some v \<Rightarrow> Some v | None \<Rightarrow> if fst a = k then snd a else None)"

locale block_store =
  fixes ok :: "'s \<Rightarrow> bool" and valid :: "'s \<Rightarrow> 'k \<Rightarrow> bool" and view :: "'s \<Rightarrow> 'k \<Rightarrow> nat \<Rightarrow> u8"
    and rd :: "'k \<Rightarrow> 's \<Rightarrow> (nat \<Rightarrow> u8) \<times> 's" and wr :: "'k \<Rightarrow> (nat \<Rightarrow> u8) \<Rightarrow> 's \<Rightarrow> 's"
  assumes rd_ok: "ok s \<Longrightarrow> valid s k \<Longrightarrow> ok (snd (rd k s))"
    and rd_valid: "ok s \<Longrightarrow> valid s k \<Longrightarrow> valid (snd (rd k s)) k' = valid s k'"
    and rd_view: "ok s \<Longrightarrow> valid s k \<Longrightarrow> valid s k' \<Longrightarrow> view (snd (rd k s)) k' = view s k'"
    and rd_value: "ok s \<Longrightarrow> valid s k \<Longrightarrow> i < 1024 \<Longrightarrow> fst (rd k s) i = view s k i"
    and wr_ok: "ok s \<Longrightarrow> valid s k \<Longrightarrow> ok (wr k v s)"
    and wr_valid: "ok s \<Longrightarrow> valid s k \<Longrightarrow> valid (wr k v s) k' = valid s k'"
    and wr_view: "ok s \<Longrightarrow> valid s k \<Longrightarrow> valid s k' \<Longrightarrow> i < 1024 \<Longrightarrow> view (wr k v s) k' i = (if k' = k then v i else view s k' i)"
begin

text \<open>A sequence of accesses: a write or a read whose result is thrown away.\<close>

definition access :: "'k \<times> (nat \<Rightarrow> u8) option \<Rightarrow> 's \<Rightarrow> 's" where
  "access a s = (case snd a of None \<Rightarrow> snd (rd (fst a) s) | Some v \<Rightarrow> wr (fst a) v s)"

lemma access_ok: "ok s \<Longrightarrow> valid s (fst a) \<Longrightarrow> ok (access a s) \<and> (\<forall>k. valid (access a s) k = valid s k)"
  by (cases "snd a") (auto simp: access_def rd_ok wr_ok rd_valid wr_valid)

lemma access_view:
  "ok s \<Longrightarrow> valid s (fst a) \<Longrightarrow> valid s k \<Longrightarrow> i < 1024 \<Longrightarrow>
   view (access a s) k i = (case snd a of Some v \<Rightarrow> if fst a = k then v i else view s k i | None \<Rightarrow> view s k i)"
  by (cases "snd a") (auto simp: access_def rd_view wr_view)

lemma accesses_view:
  "ok s \<Longrightarrow> \<forall>a\<in>set as. valid s (fst a) \<Longrightarrow> valid s k \<Longrightarrow> i < 1024 \<Longrightarrow>
   view (fold access as s) k i = (case last_write k as of Some v \<Rightarrow> v i | None \<Rightarrow> view s k i)"
proof (induction as arbitrary: s)
  case (Cons a as)
  have a: "ok (access a s)" "\<And>k. valid (access a s) k = valid s k" using access_ok [of s a] Cons.prems by auto
  have "view (fold access as (access a s)) k i = (case last_write k as of Some v \<Rightarrow> v i | None \<Rightarrow> view (access a s) k i)"
    using Cons.IH [OF a(1)] Cons.prems a(2) by simp
  then show ?case
    using access_view [of s a k i] Cons.prems by (auto split: option.splits)
qed simp

lemma accesses_ok: "ok s \<Longrightarrow> \<forall>a\<in>set as. valid s (fst a) \<Longrightarrow> ok (fold access as s) \<and> (\<forall>k. valid (fold access as s) k = valid s k)"
proof (induction as arbitrary: s)
  case (Cons a as)
  then show ?case using access_ok [of s a] by simp
qed simp

lemma read_last_write:
  "ok s \<Longrightarrow> \<forall>a\<in>set as. valid s (fst a) \<Longrightarrow> valid s k \<Longrightarrow> i < 1024 \<Longrightarrow>
   fst (rd k (fold access as s)) i = (case last_write k as of Some v \<Rightarrow> v i | None \<Rightarrow> view s k i)"
  using accesses_view [of s as k i] accesses_ok [of s as] rd_value [of "fold access as s" k i] by simp

end

section \<open>Blocks through the cache\<close>

text \<open>Some buffer is unused, and every buffer in use holds its block.\<close>

definition calm :: "u16 set \<Rightarrow> 'z cache_scheme \<Rightarrow> bool" where
  "calm D s \<longleftrightarrow> cache D s \<and> (\<exists>x\<in>heads s. b_count (bufs s x) = 0) \<and>
     (\<forall>x\<in>heads s. b_count (bufs s x) \<noteq> 0 \<longrightarrow> b_uptodate (bufs s x) \<noteq> 0 \<and> b_count (bufs s x) \<noteq> 255)"

text \<open>The pattern of every client: get the block, look at it or change it, release the buffer.\<close>

definition read_block_data :: "u16 \<times> u16 \<Rightarrow> ('z cache_scheme, nat \<Rightarrow> u8) km" where
  "read_block_data k = bnd (bread (ucast (fst k)) (ucast (snd k))) (\<lambda>b.
     bnd (gets (\<lambda>s. b_data (bufs s b))) (\<lambda>v. seqK (brelse b) (ret v)))"

definition write_block_data :: "u16 \<times> u16 \<Rightarrow> (nat \<Rightarrow> u8) \<Rightarrow> ('z cache_scheme, unit) km" where
  "write_block_data k v = bnd (bread (ucast (fst k)) (ucast (snd k))) (\<lambda>b.
     seqK (modify (put_data b v)) (brelse b))"

text \<open>From \<open>s\<close> to \<open>s'\<close> nobody's buffers changed and no use count did.\<close>

definition same_users :: "'z cache_scheme \<Rightarrow> 'z cache_scheme \<Rightarrow> bool" where
  "same_users s s' \<longleftrightarrow> cache_frame s s' \<and> (\<forall>x. b_count (bufs s' x) = b_count (bufs s x))"

lemma calm_back:
  assumes c: "calm D s" and "cache D s'" and u: "same_users s s'"
    and up: "\<And>x. b_count (bufs s x) \<noteq> 0 \<Longrightarrow> b_uptodate (bufs s' x) = 0 \<longleftrightarrow> b_uptodate (bufs s x) = 0"
  shows "calm D s'"
proof -
  have n: "heads s' = heads s" using u cache_frame_simps(3) [of s s'] by (simp add: same_users_def)
  show ?thesis
    using assms unfolding calm_def n by (auto simp: same_users_def)
qed

lemma u8_inc_nz: "x \<noteq> 255 \<Longrightarrow> x + 1 \<noteq> (0 :: u8)"
proof
  assume "x \<noteq> 255" "x + 1 = 0"
  then have "x = - 1" by (simp add: eq_neg_iff_add_eq_0)
  moreover have "(- 1 :: u8) = 255" by simp
  ultimately show False using \<open>x \<noteq> 255\<close> by simp
qed

lemma read_block_data_run:
  assumes c: "calm D s" and d: "d \<in> D" "hd_block s d k"
  shows "\<exists>v s'. read_block_data (d, k) s [] = Ok v s' [] \<and> calm D s' \<and> same_users s s' \<and> (\<forall>i<1024. v i = blockview s d k i) \<and>
    (\<forall>d' k'. d' \<in> D \<longrightarrow> hd_block s d' k' \<longrightarrow> blockview s' d' k' = blockview s d' k')"
proof -
  have ch: "cache D s" and ex: "\<exists>x\<in>heads s. b_count (bufs s x) = 0"
    and un: "\<And>x. x \<in> heads s \<Longrightarrow> b_count (bufs s x) \<noteq> 0 \<Longrightarrow> b_uptodate (bufs s x) \<noteq> 0"
    using c by (auto simp: calm_def)
  obtain b s1 where b: "bread (ucast d) (ucast k) s [] = Ok b s1 []" "got D d k b s s1" "b_uptodate (bufs s1 b) \<noteq> 0"
    "\<And>i. i < 1024 \<Longrightarrow> b_data (bufs s1 b) i = blockview s d k i"
    by (rule bread_run [OF ch d ex un]) blast+
  note g = gotD [OF b(2)]
  have cnt: "b_count (bufs s1 b) = b_count (bufs s b) + 1" using b(2) by (simp add: got_def)
  have "b_count (bufs s b) \<noteq> 255" using c g(1) cache_frame_simps(3) [OF g(5)] by (force simp: calm_def)
  then have c0: "b_count (bufs s1 b) \<noteq> 0" using cnt u8_inc_nz by simp
  let ?s = "upd_buf b (\<lambda>h. h\<lparr>b_count := b_count h - 1\<rparr>) s1"
  note r = brelse_run [OF g(3) g(2) c0]
  have run: "read_block_data (d, k) s [] = Ok (b_data (bufs s1 b)) ?s []"
    using b(1) r(1) by (simp add: read_block_data_def)
  have u: "same_users s ?s"
    using b(2) g(5) cache_frame_trans [OF g(5) cache_frame_buf] by (simp add: same_users_def got_def upd_buf_def)
  have "calm D ?s"
  proof (rule calm_back [OF c r(2) u])
    fix x assume "b_count (bufs s x) \<noteq> 0"
    then show "b_uptodate (bufs ?s x) = 0 \<longleftrightarrow> b_uptodate (bufs s x) = 0"
      using b(2) by (cases "x = b") (auto simp: got_def upd_buf_def)
  qed
  then show ?thesis using run u b(2,4) r(3) by (intro exI [of _ "b_data (bufs s1 b)"] exI [of _ ?s]) (simp add: got_def)
qed


lemma write_block_data_run:
  assumes c: "calm D s" and d: "d \<in> D" "hd_block s d k"
  shows "\<exists>s'. write_block_data (d, k) v s [] = Ok () s' [] \<and> calm D s' \<and> same_users s s' \<and>
    (\<forall>d' k' i. d' \<in> D \<longrightarrow> hd_block s d' k' \<longrightarrow> i < 1024 \<longrightarrow> blockview s' d' k' i = (if (d', k') = (d, k) then v i else blockview s d' k' i))"
proof -
  have ch: "cache D s" and ex: "\<exists>x\<in>heads s. b_count (bufs s x) = 0"
    and un: "\<And>x. x \<in> heads s \<Longrightarrow> b_count (bufs s x) \<noteq> 0 \<Longrightarrow> b_uptodate (bufs s x) \<noteq> 0"
    using c by (auto simp: calm_def)
  obtain b s1 where b: "bread (ucast d) (ucast k) s [] = Ok b s1 []" "got D d k b s s1" "b_uptodate (bufs s1 b) \<noteq> 0"
    by (rule bread_run [OF ch d ex un]) blast+
  note g = gotD [OF b(2)]
  have cnt: "b_count (bufs s1 b) = b_count (bufs s b) + 1" using b(2) by (simp add: got_def)
  have "b_count (bufs s b) \<noteq> 255" using c g(1) cache_frame_simps(3) [OF g(5)] by (force simp: calm_def)
  then have c1: "b_count (bufs s1 b) \<noteq> 0" using cnt u8_inc_nz by simp
  define s2 where "s2 = put_data b v s1"
  have h: "holds s1 d k b" using g(1,4) b(3) by (simp add: holds_def)
  note w = put_data_run [OF g(3) d(1) h, where v = v, folded s2_def]
  have c2: "b_count (bufs s2 b) \<noteq> 0" using c1 by (simp add: s2_def put_data_def upd_buf_def)
  let ?s = "upd_buf b (\<lambda>h. h\<lparr>b_count := b_count h - 1\<rparr>) s2"
  note r = brelse_run [OF w(1) g(2) c2]
  have run: "write_block_data (d, k) v s [] = Ok () ?s []"
    using b(1) r(1) by (simp add: write_block_data_def s2_def)
  have "cache_frame s1 s2" by (simp add: s2_def put_data_def)
  then have u: "same_users s ?s"
    using b(2) cache_frame_trans [OF cache_frame_trans [OF g(5)] cache_frame_buf]
    by (simp add: same_users_def got_def) (simp add: s2_def put_data_def upd_buf_def)
  have "calm D ?s"
  proof (rule calm_back [OF c r(2) u])
    fix x assume "b_count (bufs s x) \<noteq> 0"
    then show "b_uptodate (bufs ?s x) = 0 \<longleftrightarrow> b_uptodate (bufs s x) = 0"
      using b(2) by (cases "x = b") (auto simp: got_def upd_buf_def s2_def put_data_def)
  qed
  moreover have "blockview ?s d' k' i = (if (d', k') = (d, k) then v i else blockview s d' k' i)"
    if "d' \<in> D" "hd_block s d' k'" "i < 1024" for d' k' i
    using w(2,3) that b(2) by (simp add: r(3) got_def)
  ultimately show ?thesis using run u by (intro exI [of _ ?s]) simp
qed

text \<open>The cache as an instance of the contract.\<close>

definition cache_rd :: "u16 \<times> u16 \<Rightarrow> 'z cache_scheme \<Rightarrow> (nat \<Rightarrow> u8) \<times> 'z cache_scheme" where
  "cache_rd k s = (case read_block_data k s [] of Ok v s' _ \<Rightarrow> (v, s') | _ \<Rightarrow> (\<lambda>_. 0, s))"

definition cache_wr :: "u16 \<times> u16 \<Rightarrow> (nat \<Rightarrow> u8) \<Rightarrow> 'z cache_scheme \<Rightarrow> 'z cache_scheme" where
  "cache_wr k v s = (case write_block_data k v s [] of Ok _ s' _ \<Rightarrow> s' | _ \<Rightarrow> s)"

definition dev_block :: "u16 set \<Rightarrow> 'z cache_scheme \<Rightarrow> u16 \<times> u16 \<Rightarrow> bool" where
  "dev_block D s k \<longleftrightarrow> fst k \<in> D \<and> hd_block s (fst k) (snd k)"

definition cache_view :: "'z cache_scheme \<Rightarrow> u16 \<times> u16 \<Rightarrow> nat \<Rightarrow> u8" where
  "cache_view s k = blockview s (fst k) (snd k)"

lemma same_users_block: "same_users s s' \<Longrightarrow> hd_block s' d k = hd_block s d k"
  using cache_frame_simps(1,2) [of s s'] by (intro hd_block_cong) (auto simp: same_users_def)

interpretation buffer_cache: block_store "calm D" "dev_block D" cache_view cache_rd cache_wr for D
proof
  fix s :: "'z cache_scheme" and k k' :: "u16 \<times> u16" and i :: nat and v
  assume s: "calm D s" "dev_block D s k"
  then have k: "fst k \<in> D" "hd_block s (fst k) (snd k)" by (auto simp: dev_block_def)
  obtain w s1 where r: "read_block_data k s [] = Ok w s1 []" "calm D s1" "same_users s s1" "\<forall>i<1024. w i = blockview s (fst k) (snd k) i"
    "\<forall>d' k'. d' \<in> D \<longrightarrow> hd_block s d' k' \<longrightarrow> blockview s1 d' k' = blockview s d' k'"
    using read_block_data_run [OF s(1) k] by auto
  obtain s2 where w: "write_block_data k v s [] = Ok () s2 []" "calm D s2" "same_users s s2"
    "\<forall>d' k' i. d' \<in> D \<longrightarrow> hd_block s d' k' \<longrightarrow> i < 1024 \<longrightarrow> blockview s2 d' k' i = (if (d', k') = k then v i else blockview s d' k' i)"
    using write_block_data_run [OF s(1) k, of v] by auto
  show "calm D (snd (cache_rd k s))" using r by (simp add: cache_rd_def)
  show "dev_block D (snd (cache_rd k s)) k' = dev_block D s k'" using r same_users_block [OF r(3)] by (simp add: cache_rd_def dev_block_def)
  show "dev_block D s k' \<Longrightarrow> cache_view (snd (cache_rd k s)) k' = cache_view s k'" using r by (simp add: cache_rd_def dev_block_def cache_view_def)
  show "i < 1024 \<Longrightarrow> fst (cache_rd k s) i = cache_view s k i" using r by (simp add: cache_rd_def cache_view_def)
  show "calm D (cache_wr k v s)" using w by (simp add: cache_wr_def)
  show "dev_block D (cache_wr k v s) k' = dev_block D s k'" using w same_users_block [OF w(3)] by (simp add: cache_wr_def dev_block_def)
  show "dev_block D s k' \<Longrightarrow> i < 1024 \<Longrightarrow> cache_view (cache_wr k v s) k' i = (if k' = k then v i else cache_view s k' i)"
    using w by (cases k') (simp add: cache_wr_def dev_block_def cache_view_def)
qed


section \<open>Properties\<close>

text \<open>
  C4: the cache is a faithful store. After any sequence of reads and writes of blocks through \<^verbatim>\<open>bread\<close> and \<^verbatim>\<open>brelse\<close>, with
  whatever evictions and write-backs they cause, reading a block returns and gives the last value written to
  it, or what it held at the start.
\<close>

theorem cache_last_write_wins:
  assumes "calm D s" "\<forall>a\<in>set as. dev_block D s (fst a)" "dev_block D s k"
  shows "\<exists>v s'. read_block_data k (fold (\<lambda>a s. case snd a of None \<Rightarrow> snd (cache_rd (fst a) s) | Some w \<Rightarrow> cache_wr (fst a) w s) as s) [] = Ok v s' []
    \<and> calm D s' \<and> (\<forall>i<BLOCK_SIZE. v i = (case last_write k as of Some w \<Rightarrow> w i | None \<Rightarrow> cache_view s k i))"
proof -
  let ?s = "fold buffer_cache.access as s"
  have acc: "(\<lambda>a s. case snd a of None \<Rightarrow> snd (cache_rd (fst a) s) | Some w \<Rightarrow> cache_wr (fst a) w s) = buffer_cache.access"
    by (simp add: fun_eq_iff buffer_cache.access_def)
  have ok: "calm D ?s" "dev_block D ?s k" using buffer_cache.accesses_ok [OF assms(1,2)] assms(3) by blast+
  obtain v s' where v: "read_block_data k ?s [] = Ok v s' []" "calm D s'"
    using read_block_data_run [OF ok(1), of "fst k" "snd k"] ok(2) by (auto simp: dev_block_def)
  then have "fst (cache_rd k ?s) = v" by (simp add: cache_rd_def)
  then have "v i = (case last_write k as of Some w \<Rightarrow> w i | None \<Rightarrow> cache_view s k i)" if "i < 1024" for i
    using buffer_cache.read_last_write [OF assms that] by simp
  then show ?thesis unfolding acc using v by (simp add: BLOCK_SIZE_def)
qed

text \<open>
  C21: \<^verbatim>\<open>bread\<close> of a block of a device in use returns a buffer that holds the current contents of the block and has one more user; no other
  use count, no buffer in use and no block of the store changes.
\<close>

theorem bread_returns_block:
  assumes "calm D s" "d \<in> D" "hd_block s d k"
  shows "\<exists>b s'. bread (ucast d) (ucast k) s [] = Ok b s' [] \<and> got D d k b s s' \<and>
    (\<forall>i<BLOCK_SIZE. b_data (bufs s' b) i = blockview s d k i)"
proof -
  have "cache D s" "\<exists>x\<in>heads s. b_count (bufs s x) = 0"
    "\<And>x. x \<in> heads s \<Longrightarrow> b_count (bufs s x) \<noteq> 0 \<Longrightarrow> b_uptodate (bufs s x) \<noteq> 0"
    using assms(1) by (auto simp: calm_def)
  from bread_run [OF this(1) assms(2,3) this(2,3)] show ?thesis by (metis BLOCK_SIZE_def)
qed

text \<open>
  C22: after the buffer part of \<^verbatim>\<open>sync\<close> the disk itself holds the current contents of every block, and no block has changed.
\<close>

theorem sync_buffers_durable:
  assumes "cache D s"
  shows "\<exists>s'. sync_buffers s [] = Ok () s' [] \<and> cache D s' \<and>
    (\<forall>d k. d \<in> D \<longrightarrow> hd_block s d k \<longrightarrow> blockview s' d k = blockview s d k \<and>
       (\<forall>i<BLOCK_SIZE. disk_block s' d k i = blockview s d k i))"
proof -
  have st: "store D s" using assms by (simp add: cache_def)
  obtain s' where s': "sync_buffers s [] = Ok () s' []" "store D s'" "cleaned D s s'" "\<And>x. x \<in> heads s \<Longrightarrow> b_dirt (bufs s' x) = 0"
    using sync_buffers_run [OF st] by blast
  note k = cleaned_keep [OF s'(3)]
  obtain F C where q: "queues s F C" "set F = heads s" "2 \<le> nr_buffers s" using assms by (auto simp: cache_def)
  have "queues s' F C" by (rule queues_cong [OF k(9,10) _ q(1)]) (simp add: k)
  then have "cache D s'" using s'(2) q k(8) by (auto simp: cache_def)
  moreover have "disk_block s' d b i = blockview s d b i" if d: "d \<in> D" "hd_block s d b" "i < 1024" for d b i
  proof -
    have dnz: "d \<noteq> 0" using D_nz [OF storeD(2) [OF st] d(1)] .
    have "disk_block s' d b i = blockview s' d b i"
    proof (cases "\<exists>x. holds s' d b x")
      case True
      then obtain x where x: "holds s' d b x" by blast
      then have "b_dirt (bufs s' x) = 0" "x \<in> heads s'" using s'(4) k(8) by (auto simp: holds_def)
      then show ?thesis
        using x storeD(3) [OF s'(2), of x] blockview_held [OF s'(2) x dnz d(3)] dnz d(3)
        by (auto simp: buf_ok_def holds_def is_block_def)
    next
      case False
      then show ?thesis using blockview_unheld d(3) by metis
    qed
    then show ?thesis using s'(3) d by (simp add: cleaned_def)
  qed
  ultimately show ?thesis using s'(1,3) by (intro exI [of _ s']) (simp add: cleaned_def BLOCK_SIZE_def)
qed

lemma loopK_result:
  assumes "\<And>s e r s' e'. iter s e = Ok (Some r) s' e' \<Longrightarrow> Q r s'"
  shows "loopK iter s e = Ok r s' e' \<Longrightarrow> Q r s'"
proof (induction "length e" arbitrary: s e rule: less_induct)
  case less
  show ?case
  proof (cases "iter s e")
    case (Ok x s1 e1)
    show ?thesis
    proof (cases x)
      case None
      have c: "(if length e1 < length e then loopK iter s1 e1 else Hang s1) = Ok r s' e'"
        using less.prems Ok None by (subst (asm) loopK.simps) simp
      then have "length e1 < length e" by (auto split: if_splits)
      then show ?thesis using c less.hyps [of e1 s1] by simp
    next
      case (Some y)
      then have "y = r" "s1 = s'" using less.prems Ok by (subst (asm) loopK.simps, simp)+
      then show ?thesis using assms Ok Some by blast
    qed
  qed (use less.prems in \<open>subst (asm) loopK.simps, simp\<close>)+
qed

lemma insert_body:
  fixes s :: "'z cache_scheme"
  shows "body (bufs (insert_into_queues b s) x) = body (bufs s x)"
proof -
  have "body (bufs (link_hash b t) x) = body (bufs t x)" for t :: "'z cache_scheme" using link_hash_frame(1) [of t b] by (simp add: queue_frame_def)
  moreover have "body (bufs (link_free_tail b s) x) = body (bufs s x)" by (simp add: link_free_tail_def upd_buf_def Let_def)
  ultimately show ?thesis by (simp add: insert_into_queues_def)
qed

lemma get_hash_table_result:
  assumes "get_hash_table dev block s e = Ok b s' e'" "b \<noteq> 0"
  shows "ucast (b_dev (bufs s' b)) = dev \<and> ucast (b_blocknr (bufs s' b)) = block"
proof -
  have "b \<noteq> 0 \<longrightarrow> ucast (b_dev (bufs s' b)) = dev \<and> ucast (b_blocknr (bufs s' b)) = block"
    by (rule loopK_result [OF _ assms(1) [unfolded get_hash_table_def]])
      (auto simp: bnd_Ok_iff seqK_Ok_iff split: if_splits)
  then show ?thesis using assms(2) by blast
qed


lemma insert_ids [simp]:
  "b_dev (bufs (insert_into_queues b s) x) = b_dev (bufs s x)" "b_blocknr (bufs (insert_into_queues b s) x) = b_blocknr (bufs s x)"
  using body_fields [OF insert_body [of b s x]] by auto

text \<open>
  C23: whatever the rest of the system does while \<^verbatim>\<open>getblk\<close> sleeps, if it returns then the buffer it returns belongs to the block it was
  asked for. Nothing is assumed of the state or of the other processes.
\<close>

theorem getblk_identity:
  assumes "getblk (ucast d) (ucast k) s e = Ok b s' e'"
  shows "b_dev (bufs s' b) = d \<and> b_blocknr (bufs s' b) = k"
proof -
  have "ucast (b_dev (bufs s' b)) = (ucast d :: u32) \<and> ucast (b_blocknr (bufs s' b)) = (ucast k :: u32)"
  proof (rule loopK_result [OF _ assms [unfolded getblk_def]], goal_cases)
    case (1 s e r s' e')
    then obtain tmp s1 e1 where h: "get_hash_table (ucast d) (ucast k) s e = Ok tmp s1 e1" by (auto simp: bnd_Ok_iff)
    show ?case
    proof (cases "tmp = 0")
      case False
      then show ?thesis using 1 h get_hash_table_result [OF h] by auto
    next
      case True
      then show ?thesis using 1 h
        by (auto simp: bnd_Ok_iff seqK_Ok_iff ucast_up_inj find_buffer_def upd_buf_def split: if_splits option.splits)
    qed
  qed
  then show ?thesis by (simp add: ucast_up_inj)
qed


section \<open>Initialisation\<close>

definition fresh :: "nat \<Rightarrow> buffer_head \<Rightarrow> buffer_head" where
  "fresh i h = h\<lparr>b_dev := 0, b_dirt := 0, b_count := 0, b_lock := 0, b_uptodate := 0, b_wait := 0,
     b_next := 0, b_prev := 0, b_prev_free := i - 1, b_next_free := i + 1\<rparr>"

lemma init_buffers_step:
  "1024 \<le> b \<and> h + 32 \<le> b - 1024 \<Longrightarrow> init_buffers b h n B =
     init_buffers (if b - 1024 = 0x100000 then 0xA0000 else b - 1024) (h + 32) (n + 1) (B(n + 1 := fresh (n + 1) (B (n + 1))))"
  by (subst init_buffers.simps) (simp add: fresh_def Let_def)

lemma init_buffers_spec:
  "init_buffers b h n B = (m, B') \<Longrightarrow> n \<le> m \<and> (\<forall>i. B' i = (if n < i \<and> i \<le> m then fresh i (B i) else B i))"
proof (induction b h n B rule: init_buffers.induct)
  case (1 b h n B)
  show ?case
  proof (cases "1024 \<le> b \<and> h + 32 \<le> b - 1024")
    case True
    define B1 where "B1 = B(n + 1 := (B (n + 1))\<lparr>b_dev := 0, b_dirt := 0, b_count := 0, b_lock := 0, b_uptodate := 0, b_wait := 0,
                   b_next := 0, b_prev := 0, b_prev_free := n, b_next_free := n + 2\<rparr>)"
    have f: "B1 (n + 1) = fresh (n + 1) (B (n + 1))" by (simp add: B1_def fresh_def)
    have run: "init_buffers (if b - 1024 = 0x100000 then 0xA0000 else b - 1024) (h + 32) (n + 1) B1 = (m, B')"
      using "1.prems" True by (subst (asm) init_buffers.simps) (simp add: B1_def)
    have IH: "n + 1 \<le> m \<and> (\<forall>i. B' i = (if n + 1 < i \<and> i \<le> m then fresh i (B1 i) else B1 i))"
      using "1.IH" [OF True B1_def run] .
    have "B' i = (if n < i \<and> i \<le> m then fresh i (B i) else B i)" for i
    proof (cases "i = n + 1")
      case True
      then show ?thesis using IH f by simp
    next
      case False
      then show ?thesis using IH by (auto simp: B1_def)
    qed
    then show ?thesis using IH by auto
  next
    case False
    then show ?thesis using "1.prems" by (subst (asm) init_buffers.simps) auto
  qed
qed

lemma path_adj_upt: "path_adj [Suc a..<b] = {(i, Suc i) | i. Suc a \<le> i \<and> Suc i < b}"
proof (induction b)
  case (Suc b)
  show ?case
  proof (cases "Suc a < b")
    case True
    then have "path_adj [Suc a..<Suc b] = insert (b - 1, b) (path_adj [Suc a..<b])"
      using path_adj_snoc [of "[Suc a..<b]" b] by simp
    then show ?thesis using Suc True by (auto simp: less_Suc_eq)
  next
    case False
    then have "path_adj [Suc a..<Suc b] = {}" by (cases "Suc a = b") simp_all
    then show ?thesis using False by auto
  qed
qed simp

text \<open>
  \<^verbatim>\<open>buffer_init\<close> establishes the invariant of the queues. If the kernel leaves room for at least two heads and their
  blocks below \<^verbatim>\<open>BUFFER_END\<close>, there are buffers, they form the free list in order, every hash chain is empty, and no
  buffer is in use, locked, dirty or bound to a device.
\<close>

lemma buffer_init_queues:
  assumes room: "end_addr + 64 + 2048 \<le> unat BUFFER_END" and none: "nr_buffers s = 0"
  shows "2 \<le> nr_buffers (buffer_init end_addr s) \<and>
    queues (buffer_init end_addr s) [1..<nr_buffers (buffer_init end_addr s) + 1] (\<lambda>_. []) \<and>
    (\<forall>x\<in>heads (buffer_init end_addr s). b_dev (bufs (buffer_init end_addr s) x) = 0 \<and> b_count (bufs (buffer_init end_addr s) x) = 0 \<and>
       b_lock (bufs (buffer_init end_addr s) x) = 0 \<and> b_dirt (bufs (buffer_init end_addr s) x) = 0 \<and> b_wait (bufs (buffer_init end_addr s) x) = 0) \<and>
    (\<forall>x. x \<notin> heads (buffer_init end_addr s) \<longrightarrow> bufs (buffer_init end_addr s) x = bufs s x)"
proof -
  obtain n B where nB: "init_buffers (unat BUFFER_END) end_addr 0 (bufs s) = (n, B)" by fastforce
  note sp = init_buffers_spec [OF nB]
  have n2: "2 \<le> n"
  proof -
    have u: "unat BUFFER_END = 2097152" by (simp add: BUFFER_END_def)
    define B1 where "B1 = (bufs s)(1 := fresh 1 (bufs s 1))"
    have "init_buffers 2096128 (end_addr + 32) 1 B1 = (n, B)"
      using nB init_buffers_step [of 2097152 end_addr 0 "bufs s"] room unfolding u B1_def by simp
    then have "init_buffers 2095104 (end_addr + 32 + 32) (1 + 1) (B1(1 + 1 := fresh (1 + 1) (B1 (1 + 1)))) = (n, B)"
      using init_buffers_step [of 2096128 "end_addr + 32" 1 B1] room unfolding u by simp
    then have "1 + 1 \<le> n" using init_buffers_spec by blast
    then show ?thesis by simp
  qed
  then have n1: "1 \<le> n" by simp
  let ?s = "buffer_init end_addr s" and ?F = "[Suc 0..<Suc n]"
  have nr: "nr_buffers ?s = n" and fl: "free_list ?s = 1" and ht: "\<And>k. k < NR_HASH \<Longrightarrow> hash_table ?s k = 0"
    using none by (simp_all add: buffer_init_def nB)
  have bs: "bufs ?s i = (if i = n then (if n = 1 then (B 1)\<lparr>b_prev_free := n, b_next_free := 1\<rparr> else (B n)\<lparr>b_next_free := 1\<rparr>)
      else if i = 1 then (B 1)\<lparr>b_prev_free := n\<rparr> else B i)" for i
    by (simp add: buffer_init_def nB Let_def)
  have B: "B i = fresh i (bufs s i)" if "1 \<le> i" "i \<le> n" for i using sp that by simp
  have fields: "b_dev (bufs ?s i) = 0 \<and> b_count (bufs ?s i) = 0 \<and> b_lock (bufs ?s i) = 0 \<and> b_dirt (bufs ?s i) = 0 \<and> b_wait (bufs ?s i) = 0 \<and>
      links_hash (bufs ?s i) = (0, 0) \<and> b_next_free (bufs ?s i) = (if i = n then 1 else i + 1) \<and>
      b_prev_free (bufs ?s i) = (if i = 1 then n else i - 1)" if "1 \<le> i" "i \<le> n" for i
    using B [OF that] B [of 1] B [of n] n1 that by (auto simp: bs fresh_def links_hash_def)
  have F: "set ?F = {1..n}" by auto
  have last_F: "last ?F = n" "hd ?F = 1" using n1 by (simp, simp add: upt_conv_Cons del: upt_Suc)
  have "ring (bufs ?s) ?F"
  proof (rule ringI)
    fix x y assume "(x, y) \<in> path_adj ?F"
    then have "1 \<le> x" "y = Suc x" "y \<le> n" unfolding path_adj_upt by auto
    then show "b_next_free (bufs ?s x) = y \<and> b_prev_free (bufs ?s y) = x" using fields [of x] fields [of y] by simp
  qed (use n1 last_F fields [of n] fields [of 1] in auto)
  then have "queues ?s ?F (\<lambda>_. [])"
    using fields fl ht last_F by (intro queuesI) (auto simp: chain_def F)
  moreover have "bufs ?s x = bufs s x" if "\<not> (1 \<le> x \<and> x \<le> n)" for x
    using sp that n1 by (auto simp: bs)
  ultimately show ?thesis using n2 fields by (simp add: nr)
qed


section \<open>Waiting\<close>

text \<open>
  C30: a process that waits for a buffer gives up the processor to the best ready task. It is asleep and at the head of the queue of the buffer
  until somebody runs it again, and then it wakes the process that was waiting there before it.
\<close>

theorem sleep_on_buffer_yields:
  fixes s :: "'z cache_scheme"
  assumes "sched_ok s" "current s \<noteq> INIT_TASK_PTR" "task s 0 = INIT_TASK_PTR"
  shows "\<exists>n s1. best s1 n \<and> sched_ok s1 \<and> task s1 n \<noteq> current s \<and> b_wait (bufs s1 b) = current s \<and>
     t_state (tstruct s1 (current s)) = TASK_UNINTERRUPTIBLE \<and>
     sleep_on (Some (b_waitq b)) s [] = Asleep (s1\<lparr>current := task s1 n\<rparr>) \<and>
     (\<forall>f fs. sleep_on (Some (b_waitq b)) s (f # fs) =
        Ok () ((if b_wait (bufs s b) = 0 then id else wake_task (b_wait (bufs s b)))
                 ((f (s1\<lparr>current := task s1 n\<rparr>))\<lparr>current := current s\<rparr>)) fs)"
proof -
  have g: "wq_get (b_waitq b) t = b_wait (bufs t b)" for t :: "'z cache_scheme" by (simp add: b_waitq_def)
  show ?thesis using b_wait_queue.sleep_on_run [OF assms, of b] unfolding g .
qed

section \<open>A concrete cache\<close>

text \<open>Two unused buffers, the drive of \<open>ex_hd\<close> and the device 0x301.\<close>

definition ex_cache :: cache where
  "ex_cache = hdst.extend (ex_hd\<lparr>bufs := (\<lambda>_. ex_buf)(1 := ex_buf\<lparr>b_prev_free := 2, b_next_free := 2\<rparr>, 2 := ex_buf\<lparr>b_prev_free := 1, b_next_free := 1\<rparr>)\<rparr>)
     (cache.fields (\<lambda>_. 0) 1 0 2)"

lemmas ex_cache_defs = ex_cache_def cache.defs ex_hd_defs ex_buf_def

lemma ex_cache_heads: "heads ex_cache = {1, 2}"
  by (auto simp: ex_cache_def cache.defs hdst.defs)

lemma ex_cache_block: "hd_block ex_cache 0x301 k" if "k < 7" for k
proof -
  have "unat k < 7" using that by (simp add: word_less_nat_alt)
  then show ?thesis by (simp add: hd_block_def ex_cache_defs MAJOR_def MINOR_def dev_lba_def dev_drive_def)
qed

lemma ex_cache_idle: "hd_idle ex_cache"
  by (simp add: hd_idle_def ex_cache_defs free_request_def ex_req_def NR_REQUEST_def upt_conv_Cons del: upt_rec_numeral)

lemma ex_cache_calm: "calm {0x301} ex_cache"
proof -
  have b: "bufs ex_cache x = (if x = 1 then ex_buf\<lparr>b_prev_free := 2, b_next_free := 2\<rparr> else if x = 2 then ex_buf\<lparr>b_prev_free := 1, b_next_free := 1\<rparr> else ex_buf)" for x
    by (simp add: ex_cache_def cache.defs hdst.defs)
  have "quiet ex_cache" using ex_cache_idle by (auto simp: quiet_def b) (simp_all add: ex_cache_defs)
  moreover have "parts_ok {0x301} ex_cache" by (simp add: parts_ok_def)
  ultimately have "store {0x301} ex_cache"
    unfolding store_def ex_cache_heads by (simp add: buf_ok_def b) (simp add: ex_buf_def)
  moreover have "queues ex_cache [1, 2] (\<lambda>_. [])"
    by (rule queuesI) (auto simp: ring_def ring_adj_def chain_def b links_hash_def ex_cache_defs)
  moreover have "2 \<le> nr_buffers ex_cache" by (simp add: ex_cache_defs)
  ultimately have "cache {0x301} ex_cache" unfolding cache_def ex_cache_heads by (auto intro!: exI [of _ "[1, 2]"])
  then show ?thesis unfolding calm_def ex_cache_heads by (simp add: b) (simp add: ex_buf_def)
qed

theorem cache_last_write_wins_witness:
  "calm {0x301} ex_cache \<and> dev_block {0x301} ex_cache (0x301, 3) \<and>
   (\<exists>v s'. read_block_data (0x301, 3) (cache_wr (0x301, 4) (\<lambda>_. 9) (cache_wr (0x301, 3) (\<lambda>_. 7) ex_cache)) [] = Ok v s' [] \<and> v 100 = 7)"
proof -
  have v: "dev_block {0x301} ex_cache (0x301, 3)" "dev_block {0x301} ex_cache (0x301, 4)" by (simp_all add: dev_block_def ex_cache_block)
  show ?thesis
    using cache_last_write_wins [OF ex_cache_calm, of "[((0x301, 3), Some (\<lambda>_. 7)), ((0x301, 4), Some (\<lambda>_. 9))]" "(0x301, 3)"] v ex_cache_calm
    by (force simp: BLOCK_SIZE_def)
qed

theorem bread_returns_block_witness:
  "calm {0x301} ex_cache \<and> hd_block ex_cache 0x301 3 \<and>
   (\<exists>b s'. bread (ucast (0x301 :: u16)) (ucast (3 :: u16)) ex_cache [] = Ok b s' [] \<and> b_data (bufs s' b) 5 = blockview ex_cache 0x301 3 5)"
  using bread_returns_block [OF ex_cache_calm, of "0x301" 3] ex_cache_calm ex_cache_block [of 3] by (force simp: BLOCK_SIZE_def)

theorem sync_buffers_durable_witness:
  "cache {0x301} ex_cache \<and> (\<exists>s'. sync_buffers ex_cache [] = Ok () s' [] \<and> disk_block s' 0x301 3 5 = blockview ex_cache 0x301 3 5)"
proof -
  have c: "cache {0x301} ex_cache" using ex_cache_calm by (simp add: calm_def)
  show ?thesis using sync_buffers_durable [OF c] c ex_cache_block [of 3] by (force simp: BLOCK_SIZE_def)
qed

theorem getblk_identity_witness:
  "\<exists>b s'. getblk (ucast (0x301 :: u16)) (ucast (3 :: u16)) ex_cache [] = Ok b s' [] \<and> b_dev (bufs s' b) = 0x301 \<and> b_blocknr (bufs s' b) = 3"
proof -
  have "cache {0x301} ex_cache" "\<exists>x\<in>heads ex_cache. b_count (bufs ex_cache x) = 0" using ex_cache_calm by (simp_all add: calm_def)
  moreover have b3: "hd_block ex_cache 0x301 3" by (simp add: ex_cache_block)
  ultimately obtain b s' where g: "getblk (ucast (0x301 :: u16)) (ucast (3 :: u16)) ex_cache [] = Ok b s' []"
    using getblk_run [of "{0x301}" ex_cache "0x301" 3] b3 by (metis insertI1)
  then show ?thesis using getblk_identity [OF g] by blast
qed

theorem sleep_on_buffer_yields_witness:
  "sched_ok ex_cache \<and> (\<exists>s'. sleep_on (Some (b_waitq 1)) ex_cache [] = Asleep s')"
proof -
  have "sched_ok ex_cache" "current ex_cache \<noteq> INIT_TASK_PTR" "task ex_cache 0 = INIT_TASK_PTR"
    using ex_sched_ok
    by (simp_all add: sched_ok_def in_slot_def slots_inj_def ex_cache_def cache.defs ex_hd_def hdst.defs sched.defs) (simp_all add: ex_sched_def ex_ptr_def INIT_TASK_PTR_def)
  from sleep_on_buffer_yields [OF this, of 1] this(1) show ?thesis by blast
qed

end
