(* ===== verification/Fs_State.thy ===== *)
theory Fs_State
  imports Buffer_Props
begin

text \<open>
  The state of the file system, \<^verbatim>\<open>src/include/linux/fs.h\<close>: inodes, super blocks and open files, and the fields of the structures that
  live inside a block (little-endian shorts and longs, bits of a bit map, disk inodes).

  A pointer to an element of one of the tables is the index plus one; 0 is the null pointer.
\<close>

section \<open>Data\<close>

definition NR_OPEN :: nat where "NR_OPEN = 20"
definition NR_INODE :: nat where "NR_INODE = 32"
definition NR_FILE :: nat where "NR_FILE = 64"
definition NR_SUPER :: nat where "NR_SUPER = 8"
definition NAME_LEN :: nat where "NAME_LEN = 14"
definition SUPER_MAGIC :: u16 where "SUPER_MAGIC = 0x137F"
definition INODES_PER_BLOCK :: u32 where "INODES_PER_BLOCK = 32"
definition DIR_ENTRIES_PER_BLOCK :: nat where "DIR_ENTRIES_PER_BLOCK = 64"
definition ROOT_DEV :: u32 where "ROOT_DEV = 0x306"

record m_inode =
  i_mode :: u16
  i_uid :: u16
  i_size :: u32
  i_mtime :: u32
  i_gid :: u8
  i_nlinks :: u8
  i_zone :: "nat \<Rightarrow> u16"
  i_wait :: u32
  i_atime :: u32
  i_ctime :: u32
  i_dev :: u16
  i_num :: u16
  i_count :: u16
  i_lock :: u8
  i_dirt :: u8
  i_pipe :: u8
  i_mount :: u8
  i_seek :: u8
  i_update :: u8

record file_struct =
  f_mode :: u16
  f_flags :: u16
  f_count :: u16
  f_inode :: nat
  f_pos :: int

record super_block =
  s_ninodes :: u16
  s_nzones :: u16
  s_imap_blocks :: u16
  s_zmap_blocks :: u16
  s_firstdatazone :: u16
  s_log_zone_size :: u16
  s_max_size :: u32
  s_magic :: u16
  s_imap :: "nat \<Rightarrow> nat"
  s_zmap :: "nat \<Rightarrow> nat"
  s_dev :: u16
  s_isup :: nat
  s_imount :: nat
  s_time :: u32
  s_rd_only :: u8
  s_dirt :: u8

record fs = cache +
  inode_table :: "nat \<Rightarrow> m_inode"
  last_allocated_inode :: nat
  super_table :: "nat \<Rightarrow> super_block"
  file_table :: "nat \<Rightarrow> file_struct"

text \<open>An inode all of whose bytes are zero, as \<^verbatim>\<open>memset\<close> leaves it.\<close>

definition zero_inode :: m_inode where
  "zero_inode = \<lparr>i_mode = 0, i_uid = 0, i_size = 0, i_mtime = 0, i_gid = 0, i_nlinks = 0, i_zone = (\<lambda>_. 0), i_wait = 0, i_atime = 0,
     i_ctime = 0, i_dev = 0, i_num = 0, i_count = 0, i_lock = 0, i_dirt = 0, i_pipe = 0, i_mount = 0, i_seek = 0, i_update = 0\<rparr>"

definition upd_inode :: "nat \<Rightarrow> (m_inode \<Rightarrow> m_inode) \<Rightarrow> 'z fs_scheme \<Rightarrow> 'z fs_scheme" where
  "upd_inode p f s = s\<lparr>inode_table := (inode_table s)(p := f (inode_table s p))\<rparr>"

definition upd_super :: "nat \<Rightarrow> (super_block \<Rightarrow> super_block) \<Rightarrow> 'z fs_scheme \<Rightarrow> 'z fs_scheme" where
  "upd_super p f s = s\<lparr>super_table := (super_table s)(p := f (super_table s p))\<rparr>"

definition upd_file :: "nat \<Rightarrow> (file_struct \<Rightarrow> file_struct) \<Rightarrow> 'z fs_scheme \<Rightarrow> 'z fs_scheme" where
  "upd_file p f s = s\<lparr>file_table := (file_table s)(p := f (file_table s p))\<rparr>"

text \<open>The time stamps are the low 32 bits of \<^verbatim>\<open>CURRENT_TIME\<close>.\<close>

definition now :: "'z fs_scheme \<Rightarrow> u32" where
  "now s = word_of_int (CURRENT_TIME s)"

definition get_super :: "u32 \<Rightarrow> 'z fs_scheme \<Rightarrow> nat" where
  "get_super dev s = (case find (\<lambda>i. ucast (s_dev (super_table s i)) = dev) [1..<NR_SUPER + 1] of None \<Rightarrow> 0 | Some i \<Rightarrow> i)"

section \<open>File modes\<close>

definition S_IFMT :: u16 where "S_IFMT = 0xF000"
definition S_ISREG :: "u16 \<Rightarrow> bool" where "S_ISREG m \<longleftrightarrow> m AND S_IFMT = 0x8000"
definition S_ISDIR :: "u16 \<Rightarrow> bool" where "S_ISDIR m \<longleftrightarrow> m AND S_IFMT = 0x4000"
definition S_ISCHR :: "u16 \<Rightarrow> bool" where "S_ISCHR m \<longleftrightarrow> m AND S_IFMT = 0x2000"
definition S_ISBLK :: "u16 \<Rightarrow> bool" where "S_ISBLK m \<longleftrightarrow> m AND S_IFMT = 0x6000"

section \<open>Fields of a block\<close>

definition get16 :: "(nat \<Rightarrow> u8) \<Rightarrow> nat \<Rightarrow> u16" where
  "get16 D i = ucast (D i) OR push_bit 8 (ucast (D (i + 1)))"

definition put16 :: "nat \<Rightarrow> u16 \<Rightarrow> (nat \<Rightarrow> u8) \<Rightarrow> nat \<Rightarrow> u8" where
  "put16 i v D = D(i := ucast v, i + 1 := ucast (drop_bit 8 v))"

definition get32 :: "(nat \<Rightarrow> u8) \<Rightarrow> nat \<Rightarrow> u32" where
  "get32 D i = ucast (get16 D i) OR push_bit 16 (ucast (get16 D (i + 2)))"

definition put32 :: "nat \<Rightarrow> u32 \<Rightarrow> (nat \<Rightarrow> u8) \<Rightarrow> nat \<Rightarrow> u8" where
  "put32 i v D = put16 (i + 2) (ucast (drop_bit 16 v)) (put16 i (ucast v) D)"

text \<open>The disk inode at byte offset \<open>i\<close> of a block: the first 32 bytes of the inode in memory.\<close>

definition get_d_inode :: "(nat \<Rightarrow> u8) \<Rightarrow> nat \<Rightarrow> m_inode \<Rightarrow> m_inode" where
  "get_d_inode D i m = m\<lparr>i_mode := get16 D i, i_uid := get16 D (i + 2), i_size := get32 D (i + 4), i_mtime := get32 D (i + 8),
     i_gid := D (i + 12), i_nlinks := D (i + 13), i_zone := (\<lambda>k. if k < 9 then get16 D (i + 14 + 2 * k) else i_zone m k)\<rparr>"

definition put_d_inode :: "nat \<Rightarrow> m_inode \<Rightarrow> (nat \<Rightarrow> u8) \<Rightarrow> nat \<Rightarrow> u8" where
  "put_d_inode i m D =
     fold (\<lambda>k. put16 (i + 14 + 2 * k) (i_zone m k)) [0..<9]
       ((put32 (i + 8) (i_mtime m) (put32 (i + 4) (i_size m) (put16 (i + 2) (i_uid m) (put16 i (i_mode m) D))))
          (i + 12 := i_gid m, i + 13 := i_nlinks m))"

text \<open>
  Bits of a bit map. \<^verbatim>\<open>btsl\<close> and \<^verbatim>\<open>btrl\<close> with a register operand address the 32-bit word that holds the bit; in little-endian order
  bit \<open>j\<close> is bit \<open>j mod 8\<close> of byte \<open>j div 8\<close>.
\<close>

definition bit_at :: "(nat \<Rightarrow> u8) \<Rightarrow> nat \<Rightarrow> bool" where
  "bit_at D j = bit (D (j div 8)) (j mod 8)"

definition set_bit_at :: "nat \<Rightarrow> (nat \<Rightarrow> u8) \<Rightarrow> nat \<Rightarrow> u8" where
  "set_bit_at j D = D(j div 8 := D (j div 8) OR push_bit (j mod 8) 1)"

definition clear_bit_at :: "nat \<Rightarrow> (nat \<Rightarrow> u8) \<Rightarrow> nat \<Rightarrow> u8" where
  "clear_bit_at j D = D(j div 8 := D (j div 8) AND NOT (push_bit (j mod 8) 1))"

text \<open>\<^verbatim>\<open>bsfl\<close>: the lowest bit that is set.\<close>

definition bsfl :: "u32 \<Rightarrow> nat option" where
  "bsfl w = find (bit w) [0..<32]"

text \<open>The assembler loop: \<open>n\<close> words are left, \<open>ecx\<close> counts the bits passed.\<close>

fun find_zero_loop :: "(nat \<Rightarrow> u8) \<Rightarrow> nat \<Rightarrow> nat \<Rightarrow> nat" where
  "find_zero_loop D 0 ecx = ecx"
| "find_zero_loop D (Suc n) ecx =
     (case bsfl (NOT (get32 D (ecx div 8))) of
        Some edx \<Rightarrow> ecx + edx
      | None \<Rightarrow> find_zero_loop D n (ecx + 32))"

definition find_first_zero :: "(nat \<Rightarrow> u8) \<Rightarrow> nat" where
  "find_first_zero D = find_zero_loop D 256 0"

section \<open>Loops\<close>

text \<open>
  A loop whose rounds either sleep or lower a measure of the state, such as the number of dirty flags
  that are left to write back.
\<close>

function loopM :: "('s \<Rightarrow> nat) \<Rightarrow> ('s, 'a option) km \<Rightarrow> ('s, 'a) km" where
  "loopM m rnd s e = (case rnd s e of
     Ok None s' e' \<Rightarrow> (if length e' < length e \<or> (length e' = length e \<and> m s' < m s) then loopM m rnd s' e' else Hang s')
   | Ok (Some r) s' e' \<Rightarrow> Ok r s' e'
   | Panic msg s' \<Rightarrow> Panic msg s'
   | Fault msg s' \<Rightarrow> Fault msg s'
   | Asleep s' \<Rightarrow> Asleep s'
   | Hang s' \<Rightarrow> Hang s'
   | Exit c s' \<Rightarrow> Exit c s')"
  by pat_completeness auto
termination
  by (relation "inv_image (less_than <*lex*> less_than) (\<lambda>(m, rnd, s, e). (length e, m s))") auto

declare loopM.simps [simp del]

lemma loopM_done: "rnd s e = Ok (Some r) s' e' \<Longrightarrow> loopM m rnd s e = Ok r s' e'"
  by (subst loopM.simps) simp

lemma loopM_again:
  "rnd s e = Ok None s' e' \<Longrightarrow> length e' < length e \<or> (length e' = length e \<and> m s' < m s) \<Longrightarrow> loopM m rnd s e = loopM m rnd s' e'"
  by (subst loopM.simps) auto

end
