(* ===== verification/Bitmap.thy ===== *)
theory Bitmap
  imports Fs_State
begin

text \<open>
  Allocation of data blocks in the zone bit map, \<^verbatim>\<open>src/fs/bitmap.c\<close>, and the freeing of all blocks of a file, \<^verbatim>\<open>src/fs/truncate.c\<close>.
\<close>

definition free_block :: "u32 \<Rightarrow> u32 \<Rightarrow> ('z fs_scheme, unit) km" where
  "free_block dev block =
     bnd (gets (get_super dev)) (\<lambda>sb.
       if sb = 0 then panic ''trying to free block on nonexistent device''
       else bnd (gets (\<lambda>s. super_table s sb)) (\<lambda>p.
         if sint block < uint (s_firstdatazone p) \<or> sint block \<ge> uint (s_nzones p) then panic ''trying to free block not in datazone''
         else bnd (get_hash_table dev block) (\<lambda>bh.
           bnd (gets (\<lambda>s. b_count (bufs s bh))) (\<lambda>count.
             if bh \<noteq> 0 \<and> count \<noteq> 1 then ret ()
             else seqK (if bh \<noteq> 0 then seqK (modify (upd_buf bh (\<lambda>h. h\<lparr>b_dirt := 0, b_uptodate := 0\<rparr>))) (brelse bh) else ret ())
               (bnd (gets (\<lambda>s. super_table s sb)) (\<lambda>p.
                 let n = nat (sint block - (uint (s_firstdatazone p) - 1)); zm = s_zmap p (n div 8192) in
                 if 8 \<le> n div 8192 \<or> zm = 0 then fault ''no zone map for block''
                 else bnd (gets (\<lambda>s. bit_at (b_data (bufs s zm)) (n mod 8192))) (\<lambda>was.
                   seqK (modify (upd_buf zm (\<lambda>h. h\<lparr>b_data := clear_bit_at (n mod 8192) (b_data h)\<rparr>)))
                     (if \<not> was then panic ''free_block: bit already cleared''
                      else modify (upd_buf zm (\<lambda>h. h\<lparr>b_dirt := 1\<rparr>))))))))))"

text \<open>The \<^verbatim>\<open>for\<close> loop of \<^verbatim>\<open>new_block\<close> and \<^verbatim>\<open>new_inode\<close>: the first slot whose map has a free bit.\<close>

definition find_map_slot :: "(nat \<Rightarrow> nat) \<Rightarrow> 'z fs_scheme \<Rightarrow> nat option" where
  "find_map_slot m s = find (\<lambda>i. m i \<noteq> 0 \<and> find_first_zero (b_data (bufs s (m i))) < 8192) [0..<8]"

definition clear_block :: "(nat \<Rightarrow> u8) \<Rightarrow> nat \<Rightarrow> u8" where
  "clear_block D = (\<lambda>i. if i < BLOCK_SIZE then 0 else D i)"

definition new_block :: "u32 \<Rightarrow> ('z fs_scheme, u32) km" where
  "new_block dev =
     bnd (gets (get_super dev)) (\<lambda>sb.
       if sb = 0 then panic ''trying to get new block from nonexistant device''
       else bnd (gets (\<lambda>s. find_map_slot (s_zmap (super_table s sb)) s)) (\<lambda>slot.
         case slot of None \<Rightarrow> ret 0
         | Some i \<Rightarrow>
             bnd (gets (\<lambda>s. (s_zmap (super_table s sb) i, find_first_zero (b_data (bufs s (s_zmap (super_table s sb) i)))))) (\<lambda>(bh, j).
               bnd (gets (\<lambda>s. bit_at (b_data (bufs s bh)) j)) (\<lambda>was.
                 seqK (modify (upd_buf bh (\<lambda>h. h\<lparr>b_data := set_bit_at j (b_data h)\<rparr>)))
                   (if was then panic ''new_block: bit already set''
                    else seqK (modify (upd_buf bh (\<lambda>h. h\<lparr>b_dirt := 1\<rparr>)))
                      (bnd (gets (\<lambda>s. super_table s sb)) (\<lambda>p.
                        let z = int j + int i * 8192 + uint (s_firstdatazone p) - 1 in
                        if z \<ge> uint (s_nzones p) then ret 0
                        else bnd (getblk dev (word_of_int z)) (\<lambda>bh.
                          if bh = 0 then panic ''new_block: cannot get block''
                          else bnd (gets (\<lambda>s. b_count (bufs s bh))) (\<lambda>count.
                            if count \<noteq> 1 then panic ''new block: count is != 1''
                            else seqK (modify (upd_buf bh (\<lambda>h. h\<lparr>b_data := clear_block (b_data h), b_uptodate := 1, b_dirt := 1\<rparr>)))
                              (seqK (brelse bh) (ret (word_of_int z))))))))))))"

section \<open>Truncation\<close>

definition zone_at :: "nat \<Rightarrow> nat \<Rightarrow> 'z fs_scheme \<Rightarrow> u16" where
  "zone_at bh i s = get16 (b_data (bufs s bh)) (2 * i)"

definition free_ind :: "u32 \<Rightarrow> u32 \<Rightarrow> ('z fs_scheme, unit) km" where
  "free_ind dev block =
     (if block = 0 then ret ()
      else bnd (bread dev block) (\<lambda>bh.
        seqK (whenK (bh \<noteq> 0)
               (seqK (forK [0..<512] (\<lambda>i. bnd (gets (zone_at bh i)) (\<lambda>z. whenK (z \<noteq> 0) (free_block dev (ucast z)))))
                 (brelse bh)))
          (free_block dev block)))"

definition free_dind :: "u32 \<Rightarrow> u32 \<Rightarrow> ('z fs_scheme, unit) km" where
  "free_dind dev block =
     (if block = 0 then ret ()
      else bnd (bread dev block) (\<lambda>bh.
        seqK (whenK (bh \<noteq> 0)
               (seqK (forK [0..<512] (\<lambda>i. bnd (gets (zone_at bh i)) (\<lambda>z. whenK (z \<noteq> 0) (free_ind dev (ucast z)))))
                 (brelse bh)))
          (free_block dev block)))"

definition truncate :: "nat \<Rightarrow> ('z fs_scheme, unit) km" where
  "truncate inode =
     bnd (gets (\<lambda>s. i_mode (inode_table s inode))) (\<lambda>mode.
       if \<not> (S_ISREG mode \<or> S_ISDIR mode) then ret ()
       else seqK (forK [0..<7] (\<lambda>i.
              bnd (gets (\<lambda>s. inode_table s inode)) (\<lambda>m. whenK (i_zone m i \<noteq> 0)
                (seqK (free_block (ucast (i_dev m)) (ucast (i_zone m i)))
                  (modify (upd_inode inode (\<lambda>m. m\<lparr>i_zone := (i_zone m)(i := 0)\<rparr>)))))))
         (seqK (bnd (gets (\<lambda>s. inode_table s inode)) (\<lambda>m. free_ind (ucast (i_dev m)) (ucast (i_zone m 7))))
           (seqK (bnd (gets (\<lambda>s. inode_table s inode)) (\<lambda>m. free_dind (ucast (i_dev m)) (ucast (i_zone m 8))))
             (modify (\<lambda>s. upd_inode inode (\<lambda>m. m\<lparr>i_zone := (i_zone m)(7 := 0, 8 := 0), i_size := 0, i_dirt := 1,
                 i_mtime := now s, i_ctime := now s\<rparr>) s)))))"

end
