(* ===== verification/Inode.thy ===== *)
theory Inode
  imports Bitmap
begin

text \<open>
  Inodes, \<^verbatim>\<open>src/fs/inode.c\<close>, with the inode part of \<^verbatim>\<open>src/fs/bitmap.c\<close>: locking, reading and writing the disk inode, the map from file blocks
  to device blocks, and the table of inodes in memory.
\<close>

definition i_waitq :: "nat \<Rightarrow> 'z fs_scheme waitq" where
  "i_waitq p = \<lparr>wq_get = (\<lambda>s. i_wait (inode_table s p)), wq_set = (\<lambda>t. upd_inode p (\<lambda>m. m\<lparr>i_wait := t\<rparr>))\<rparr>"

interpretation i_wait_queue: wait_queue "i_waitq p" for p
  by unfold_locales (simp_all add: i_waitq_def upd_inode_def)

section \<open>Locks\<close>

definition wait_on_inode :: "nat \<Rightarrow> ('z fs_scheme, unit) km" where
  "wait_on_inode p = loopK
     (bnd (gets (\<lambda>s. i_lock (inode_table s p) \<noteq> 0)) (\<lambda>locked.
        if locked then seqK (sleep_on (Some (i_waitq p))) (ret None) else ret (Some ())))"

definition lock_inode :: "nat \<Rightarrow> ('z fs_scheme, unit) km" where
  "lock_inode p = seqK (wait_on_inode p) (modify (upd_inode p (\<lambda>m. m\<lparr>i_lock := 1\<rparr>)))"

definition unlock_inode :: "nat \<Rightarrow> 'z fs_scheme \<Rightarrow> 'z fs_scheme" where
  "unlock_inode p s = wake_up (Some (i_waitq p)) (upd_inode p (\<lambda>m. m\<lparr>i_lock := 0\<rparr>) s)"

section \<open>The inode on the disk\<close>

text \<open>The block of the disk inode and its byte offset there, in unsigned arithmetic like the source's \<^verbatim>\<open>sizeof\<close> expressions.\<close>

definition inode_block :: "super_block \<Rightarrow> m_inode \<Rightarrow> u32" where
  "inode_block sb m = 2 + ucast (s_imap_blocks sb) + ucast (s_zmap_blocks sb) + (ucast (i_num m) - 1) div INODES_PER_BLOCK"

definition inode_offset :: "m_inode \<Rightarrow> nat" where
  "inode_offset m = 32 * unat ((ucast (i_num m) - 1) mod INODES_PER_BLOCK)"

definition read_inode :: "nat \<Rightarrow> ('z fs_scheme, unit) km" where
  "read_inode p =
     seqK (lock_inode p)
       (bnd (gets (\<lambda>s. (get_super (ucast (i_dev (inode_table s p))) s, inode_table s p))) (\<lambda>(sb, m).
          if sb = 0 then fault ''read_inode: no super block''
          else bnd (gets (\<lambda>s. super_table s sb)) (\<lambda>sbp.
            bnd (bread (ucast (i_dev m)) (inode_block sbp m)) (\<lambda>bh.
              if bh = 0 then panic ''unable to read i-node block''
              else seqK (modify (\<lambda>s. upd_inode p (\<lambda>m. get_d_inode (b_data (bufs s bh)) (inode_offset m) m) s))
                (seqK (brelse bh) (modify (unlock_inode p)))))))"

definition write_inode :: "nat \<Rightarrow> ('z fs_scheme, unit) km" where
  "write_inode p =
     seqK (lock_inode p)
       (bnd (gets (\<lambda>s. (get_super (ucast (i_dev (inode_table s p))) s, inode_table s p))) (\<lambda>(sb, m).
          if sb = 0 then fault ''write_inode: no super block''
          else bnd (gets (\<lambda>s. super_table s sb)) (\<lambda>sbp.
            bnd (bread (ucast (i_dev m)) (inode_block sbp m)) (\<lambda>bh.
              if bh = 0 then panic ''unable to read i-node block''
              else seqK (modify (\<lambda>s. upd_buf bh (\<lambda>h. h\<lparr>b_data := put_d_inode (inode_offset (inode_table s p)) (inode_table s p) (b_data h), b_dirt := 1\<rparr>) s))
                (seqK (modify (upd_inode p (\<lambda>m. m\<lparr>i_dirt := 0\<rparr>)))
                  (seqK (brelse bh) (modify (unlock_inode p))))))))"

definition sync_inodes :: "('z fs_scheme, unit) km" where
  "sync_inodes = forK [1..<NR_INODE + 1] (\<lambda>p.
     seqK (wait_on_inode p)
       (bnd (gets (\<lambda>s. i_dirt (inode_table s p) \<noteq> 0 \<and> i_pipe (inode_table s p) = 0)) (\<lambda>dirt.
          whenK dirt (write_inode p))))"

definition sys_sync :: "('z fs_scheme, int) km" where
  "sys_sync = seqK sync_inodes (seqK sync_buffers (ret 0))"

section \<open>Blocks of a file\<close>

text \<open>\<^verbatim>\<open>if (create && !inode->i_zone[k]) if (inode->i_zone[k]=new_block(inode->i_dev)) ...\<close>, then the zone.\<close>

definition bmap_zone :: "nat \<Rightarrow> nat \<Rightarrow> bool \<Rightarrow> ('z fs_scheme, u16) km" where
  "bmap_zone p k create =
     bnd (gets (\<lambda>s. inode_table s p)) (\<lambda>m.
       if create \<and> i_zone m k = 0 then
         bnd (new_block (ucast (i_dev m))) (\<lambda>z.
           seqK (modify (upd_inode p (\<lambda>m. m\<lparr>i_zone := (i_zone m)(k := ucast z)\<rparr>)))
             (seqK (whenK (ucast z \<noteq> (0 :: u16)) (modify (\<lambda>s. upd_inode p (\<lambda>m. m\<lparr>i_ctime := now s, i_dirt := 1\<rparr>) s)))
               (gets (\<lambda>s. i_zone (inode_table s p) k))))
       else ret (i_zone m k))"

text \<open>Entry \<open>k\<close> of the indirect block \<open>z\<close>: the part of \<^verbatim>\<open>_bmap\<close> from \<^verbatim>\<open>bread\<close> to \<^verbatim>\<open>brelse\<close>.\<close>

definition bmap_ind :: "nat \<Rightarrow> u32 \<Rightarrow> nat \<Rightarrow> bool \<Rightarrow> ('z fs_scheme, u32) km" where
  "bmap_ind p z k create =
     bnd (gets (\<lambda>s. ucast (i_dev (inode_table s p)))) (\<lambda>dev.
       bnd (bread dev z) (\<lambda>bh.
         if bh = 0 then ret 0
         else bnd (gets (zone_at bh k)) (\<lambda>i.
           if create \<and> i = 0 then
             bnd (gets (\<lambda>s. ucast (i_dev (inode_table s p)))) (\<lambda>dev.
               bnd (new_block dev) (\<lambda>n.
                 seqK (whenK (n \<noteq> 0) (modify (upd_buf bh (\<lambda>h. h\<lparr>b_data := put16 (2 * k) (ucast n) (b_data h), b_dirt := 1\<rparr>))))
                   (seqK (brelse bh) (ret n))))
           else seqK (brelse bh) (ret (ucast i)))))"

definition bmap_create :: "nat \<Rightarrow> int \<Rightarrow> bool \<Rightarrow> ('z fs_scheme, u32) km" where
  "bmap_create p block create =
     (if block < 0 then panic ''_bmap: block<0''
      else if block \<ge> 7 + 512 + 512 * 512 then panic ''_bmap: block>big''
      else if block < 7 then bnd (bmap_zone p (nat block) create) (\<lambda>z. ret (ucast z))
      else if block - 7 < 512 then
        bnd (bmap_zone p 7 create) (\<lambda>z. if z = 0 then ret 0 else bmap_ind p (ucast z) (nat (block - 7)) create)
      else let b = nat (block - 7 - 512) in
        bnd (bmap_zone p 8 create) (\<lambda>z. if z = 0 then ret 0
          else bnd (bmap_ind p (ucast z) (b div 512) create) (\<lambda>i. if i = 0 then ret 0
            else bmap_ind p i (b mod 512) create)))"

definition bmap :: "nat \<Rightarrow> int \<Rightarrow> ('z fs_scheme, u32) km" where
  "bmap p block = bmap_create p block False"

definition create_block :: "nat \<Rightarrow> int \<Rightarrow> ('z fs_scheme, u32) km" where
  "create_block p block = bmap_create p block True"

section \<open>The inode table\<close>

definition free_inode :: "nat \<Rightarrow> ('z fs_scheme, unit) km" where
  "free_inode p =
     (if p = 0 then ret ()
      else bnd (gets (\<lambda>s. inode_table s p)) (\<lambda>m.
        if i_dev m = 0 then modify (upd_inode p (\<lambda>_. zero_inode))
        else if i_count m > 1 then panic ''free_inode''
        else if i_nlinks m \<noteq> 0 then panic ''trying to free inode with links''
        else bnd (gets (get_super (ucast (i_dev m)))) (\<lambda>sb.
          if sb = 0 then panic ''trying to free inode on nonexistent device''
          else bnd (gets (\<lambda>s. super_table s sb)) (\<lambda>sbp.
            if i_num m < 1 \<or> i_num m > s_ninodes sbp then panic ''trying to free inode 0 or nonexistant inode''
            else let bh = s_imap sbp (unat (i_num m) div 8192); j = unat (i_num m) mod 8192 in
              if bh = 0 then panic ''nonexistent imap in superblock''
              else bnd (gets (\<lambda>s. bit_at (b_data (bufs s bh)) j)) (\<lambda>was.
                seqK (modify (upd_buf bh (\<lambda>h. h\<lparr>b_data := clear_bit_at j (b_data h)\<rparr>)))
                  (if \<not> was then panic ''free_inode: bit already cleared''
                   else seqK (modify (upd_buf bh (\<lambda>h. h\<lparr>b_dirt := 1\<rparr>)))
                     (modify (upd_inode p (\<lambda>_. zero_inode)))))))))"

text \<open>The number of flags the loops of \<^verbatim>\<open>iput\<close> and \<^verbatim>\<open>get_empty_inode\<close> have left to clear.\<close>

definition dirty_flag :: "nat \<Rightarrow> 'z fs_scheme \<Rightarrow> nat" where
  "dirty_flag p s = (if i_dirt (inode_table s p) = 0 then 0 else 1)"

definition iput_loop :: "nat \<Rightarrow> ('z fs_scheme, unit) km" where
  "iput_loop p = loopM (dirty_flag p)
     (bnd (gets (\<lambda>s. inode_table s p)) (\<lambda>m.
        if i_nlinks m = 0 then seqK (truncate p) (seqK (free_inode p) (ret (Some ())))
        else if i_dirt m \<noteq> 0 then seqK (write_inode p) (seqK (wait_on_inode p) (ret None))
        else seqK (modify (upd_inode p (\<lambda>m. m\<lparr>i_count := i_count m - 1\<rparr>))) (ret (Some ()))))"

definition iput :: "nat \<Rightarrow> ('z fs_scheme, unit) km" where
  "iput p =
     (if p = 0 then ret ()
      else seqK (wait_on_inode p)
        (bnd (gets (\<lambda>s. inode_table s p)) (\<lambda>m.
          if i_count m = 0 then panic ''iput: trying to free free inode''
          else if i_pipe m \<noteq> 0 then
            seqK (modify (wake_up (Some (i_waitq p))))
              (seqK (modify (upd_inode p (\<lambda>m. m\<lparr>i_count := i_count m - 1\<rparr>)))
                (bnd (gets (\<lambda>s. inode_table s p)) (\<lambda>m.
                  if i_count m \<noteq> 0 then ret ()
                  else seqK (free_page (i_size m))
                    (modify (upd_inode p (\<lambda>m. m\<lparr>i_count := 0, i_dirt := 0, i_pipe := 0\<rparr>))))))
          else if i_dev m = 0 \<or> i_count m > 1 then modify (upd_inode p (\<lambda>m. m\<lparr>i_count := i_count m - 1\<rparr>))
          else iput_loop p)))"

text \<open>The \<^verbatim>\<open>do ... while\<close> walk over the table from the slot used last, wrapping at the end.\<close>

definition find_unused_inode :: "'z fs_scheme \<Rightarrow> nat option" where
  "find_unused_inode s = find (\<lambda>i. i_count (inode_table s (i + 1)) = 0)
     ([last_allocated_inode s..<NR_INODE] @ [0..<last_allocated_inode s])"

definition write_back_inode :: "nat \<Rightarrow> ('z fs_scheme, unit) km" where
  "write_back_inode p = loopM (dirty_flag p)
     (bnd (gets (\<lambda>s. i_dirt (inode_table s p) \<noteq> 0)) (\<lambda>dirt.
        if dirt then seqK (write_inode p) (seqK (wait_on_inode p) (ret None)) else ret (Some ())))"

definition get_empty_inode :: "('z fs_scheme, nat) km" where
  "get_empty_inode =
     bnd (loopK (bnd (gets find_unused_inode) (\<lambda>r.
       case r of None \<Rightarrow> panic ''No free inodes in mem''
       | Some inr \<Rightarrow>
           seqK (modify (\<lambda>s. s\<lparr>last_allocated_inode := inr\<rparr>))
             (seqK (wait_on_inode (inr + 1))
               (seqK (write_back_inode (inr + 1))
                 (gets (\<lambda>s. if i_count (inode_table s (inr + 1)) = 0 then Some (inr + 1) else None)))))))
       (\<lambda>p. seqK (modify (upd_inode p (\<lambda>_. zero_inode\<lparr>i_count := 1\<rparr>))) (ret p))"

definition PIPE_HEAD :: "m_inode \<Rightarrow> u32" where
  "PIPE_HEAD m = ucast (i_zone m 0) OR push_bit 16 (ucast (i_zone m 1))"

definition PIPE_TAIL :: "m_inode \<Rightarrow> u32" where
  "PIPE_TAIL m = ucast (i_zone m 2) OR push_bit 16 (ucast (i_zone m 3))"

definition set_PIPE_HEAD :: "u32 \<Rightarrow> m_inode \<Rightarrow> m_inode" where
  "set_PIPE_HEAD v m = m\<lparr>i_zone := (i_zone m)(0 := ucast v, 1 := ucast (drop_bit 16 v))\<rparr>"

definition set_PIPE_TAIL :: "u32 \<Rightarrow> m_inode \<Rightarrow> m_inode" where
  "set_PIPE_TAIL v m = m\<lparr>i_zone := (i_zone m)(2 := ucast v, 3 := ucast (drop_bit 16 v))\<rparr>"

definition get_pipe_inode :: "('z fs_scheme, nat) km" where
  "get_pipe_inode =
     bnd get_empty_inode (\<lambda>p.
       if p = 0 then ret 0
       else bnd (runst get_free_page) (\<lambda>page.
         seqK (modify (upd_inode p (\<lambda>m. m\<lparr>i_size := page\<rparr>)))
           (if page = 0 then seqK (modify (upd_inode p (\<lambda>m. m\<lparr>i_count := 0\<rparr>))) (ret 0)
            else seqK (modify (upd_inode p (\<lambda>m. (set_PIPE_HEAD 0 (set_PIPE_TAIL 0 (m\<lparr>i_count := 2\<rparr>)))\<lparr>i_pipe := 1\<rparr>))) (ret p))))"

text \<open>The walk of \<^verbatim>\<open>iget\<close>: from the start again if the inode has changed hands while it was locked.\<close>

definition find_inode :: "u32 \<Rightarrow> u32 \<Rightarrow> 'z fs_scheme \<Rightarrow> nat option" where
  "find_inode dev nr s = find (\<lambda>p. ucast (i_dev (inode_table s p)) = dev \<and> ucast (i_num (inode_table s p)) = nr) [1..<NR_INODE + 1]"

definition iget_search :: "u32 \<Rightarrow> u32 \<Rightarrow> ('z fs_scheme, nat) km" where
  "iget_search dev nr = loopK
     (bnd (gets (find_inode dev nr)) (\<lambda>r.
        case r of None \<Rightarrow> ret (Some 0)
        | Some p \<Rightarrow> seqK (wait_on_inode p)
            (gets (\<lambda>s. if ucast (i_dev (inode_table s p)) = dev \<and> ucast (i_num (inode_table s p)) = nr then Some p else None))))"

definition iget :: "u32 \<Rightarrow> u32 \<Rightarrow> ('z fs_scheme, nat) km" where
  "iget dev nr =
     (if dev = 0 then panic ''iget with dev==0''
      else bnd get_empty_inode (\<lambda>empty.
        bnd (iget_search dev nr) (\<lambda>p.
          if p \<noteq> 0 then
            seqK (modify (upd_inode p (\<lambda>m. m\<lparr>i_count := i_count m + 1\<rparr>)))
              (seqK (whenK (empty \<noteq> 0) (iput empty)) (ret p))
          else if empty = 0 then ret 0
          else seqK (modify (upd_inode empty (\<lambda>m. m\<lparr>i_dev := ucast dev, i_num := ucast nr\<rparr>)))
            (seqK (read_inode empty) (ret empty)))))"

definition new_inode :: "u32 \<Rightarrow> ('z fs_scheme, nat) km" where
  "new_inode dev =
     bnd get_empty_inode (\<lambda>p.
       if p = 0 then ret 0
       else bnd (gets (get_super dev)) (\<lambda>sb.
         if sb = 0 then panic ''new_inode with unknown device''
         else bnd (gets (\<lambda>s. find_map_slot (s_imap (super_table s sb)) s)) (\<lambda>slot.
           case slot of None \<Rightarrow> seqK (iput p) (ret 0)
           | Some i \<Rightarrow>
               bnd (gets (\<lambda>s. (s_imap (super_table s sb) i, find_first_zero (b_data (bufs s (s_imap (super_table s sb) i))), super_table s sb))) (\<lambda>(bh, j, sbp).
                 if j + i * 8192 > unat (s_ninodes sbp) then seqK (iput p) (ret 0)
                 else bnd (gets (\<lambda>s. bit_at (b_data (bufs s bh)) j)) (\<lambda>was.
                   seqK (modify (upd_buf bh (\<lambda>h. h\<lparr>b_data := set_bit_at j (b_data h)\<rparr>)))
                     (if was then panic ''new_inode: bit already set''
                      else seqK (modify (upd_buf bh (\<lambda>h. h\<lparr>b_dirt := 1\<rparr>)))
                        (seqK (modify (\<lambda>s. upd_inode p (\<lambda>m. m\<lparr>i_count := 1, i_nlinks := 1, i_dev := ucast dev, i_dirt := 1,
                              i_num := of_nat (j + i * 8192), i_mtime := now s, i_atime := now s, i_ctime := now s\<rparr>) s))
                          (ret p))))))))"

end
