(* ===== verification/Super.thy ===== *)
theory Super
  imports Inode
begin

text \<open>
  Mounting, \<^verbatim>\<open>src/fs/super.c\<close>. \<^verbatim>\<open>do_mount\<close> copies the whole super block structure from block 1, so the fields that only make sense
  in memory hold what the disk has there until the function overwrites them.
\<close>

definition I_MAP_SLOTS :: nat where "I_MAP_SLOTS = 8"
definition Z_MAP_SLOTS :: nat where "Z_MAP_SLOTS = 8"

text \<open>The structure at the start of a block, with the alignment of the i386: pointers from byte 20, \<^verbatim>\<open>s_dev\<close> at 84.\<close>

definition disk_super :: "(nat \<Rightarrow> u8) \<Rightarrow> super_block" where
  "disk_super D = \<lparr>s_ninodes = get16 D 0, s_nzones = get16 D 2, s_imap_blocks = get16 D 4, s_zmap_blocks = get16 D 6,
     s_firstdatazone = get16 D 8, s_log_zone_size = get16 D 10, s_max_size = get32 D 12, s_magic = get16 D 16,
     s_imap = (\<lambda>i. unat (get32 D (20 + 4 * i))), s_zmap = (\<lambda>i. unat (get32 D (52 + 4 * i))),
     s_dev = get16 D 84, s_isup = unat (get32 D 88), s_imount = unat (get32 D 92), s_time = get32 D 96,
     s_rd_only = D 100, s_dirt = D 101\<rparr>"

text \<open>
  One of the two loops that read a bit map: slots \<open>i\<close> onwards of the \<open>n\<close> blocks, starting at device block \<open>block\<close>. The result is the next block
  number. A ninth block is written past the end of the array.
\<close>

fun read_map :: "nat \<Rightarrow> ((nat \<Rightarrow> nat) \<Rightarrow> super_block \<Rightarrow> super_block) \<Rightarrow> (super_block \<Rightarrow> nat \<Rightarrow> nat) \<Rightarrow> u32 \<Rightarrow> nat \<Rightarrow> nat \<Rightarrow> u32 \<Rightarrow> ('z fs_scheme, u32) km" where
  "read_map p put get dev i 0 block = ret block"
| "read_map p put get dev i (Suc n) block =
     bnd (bread dev block) (\<lambda>bh.
       if 8 \<le> i then fault ''bit map slot out of range''
       else seqK (modify (upd_super p (\<lambda>sb. put ((get sb)(i := bh)) sb)))
         (if bh \<noteq> 0 then read_map p put get dev (i + 1) n (block + 1) else ret block))"

definition do_mount :: "u32 \<Rightarrow> ('z fs_scheme, nat) km" where
  "do_mount dev =
     bnd (gets (\<lambda>s. find (\<lambda>i. s_dev (super_table s i) = 0) [1..<NR_SUPER + 1])) (\<lambda>r.
       case r of None \<Rightarrow> fault ''super_block[NR_SUPER].s_dev''
       | Some p \<Rightarrow>
           seqK (modify (upd_super p (\<lambda>sb. sb\<lparr>s_dev := - 1\<rparr>)))
             (bnd (bread dev 1) (\<lambda>bh.
               if bh = 0 then ret 0
               else seqK (modify (\<lambda>s. upd_super p (\<lambda>_. disk_super (b_data (bufs s bh))) s))
                 (seqK (brelse bh)
                   (bnd (gets (\<lambda>s. s_magic (super_table s p))) (\<lambda>magic.
                     if magic \<noteq> SUPER_MAGIC then seqK (modify (upd_super p (\<lambda>sb. sb\<lparr>s_dev := 0\<rparr>))) (ret 0)
                     else seqK (modify (upd_super p (\<lambda>sb. sb\<lparr>s_imap := (\<lambda>_. 0), s_zmap := (\<lambda>_. 0)\<rparr>)))
                       (bnd (gets (\<lambda>s. super_table s p)) (\<lambda>sb.
                         bnd (read_map p (\<lambda>m sb. sb\<lparr>s_imap := m\<rparr>) s_imap dev 0 (unat (s_imap_blocks sb)) 2) (\<lambda>block.
                           bnd (read_map p (\<lambda>m sb. sb\<lparr>s_zmap := m\<rparr>) s_zmap dev 0 (unat (s_zmap_blocks sb)) block) (\<lambda>block.
                             if block \<noteq> 2 + ucast (s_imap_blocks sb) + ucast (s_zmap_blocks sb) then
                               seqK (forK [0..<I_MAP_SLOTS] (\<lambda>i. bnd (gets (\<lambda>s. s_imap (super_table s p) i)) brelse))
                                 (seqK (forK [0..<Z_MAP_SLOTS] (\<lambda>i. bnd (gets (\<lambda>s. s_zmap (super_table s p) i)) brelse))
                                   (seqK (modify (upd_super p (\<lambda>sb. sb\<lparr>s_dev := 0\<rparr>))) (ret 0)))
                             else bnd (gets (\<lambda>s. (s_imap (super_table s p) 0, s_zmap (super_table s p) 0))) (\<lambda>(im, zm).
                               if im = 0 \<or> zm = 0 then fault ''super block without bit maps''
                               else seqK (modify (upd_buf im (\<lambda>h. h\<lparr>b_data := (b_data h)(0 := b_data h 0 OR 1)\<rparr>)))
                                 (seqK (modify (upd_buf zm (\<lambda>h. h\<lparr>b_data := (b_data h)(0 := b_data h 0 OR 1)\<rparr>)))
                                   (seqK (modify (upd_super p (\<lambda>sb. sb\<lparr>s_dev := ucast dev, s_isup := 0, s_imount := 0, s_time := 0, s_rd_only := 0, s_dirt := 0\<rparr>)))
                                     (ret p))))))))))))))"

text \<open>
  \<^verbatim>\<open>mount_root\<close>. The two loops that count free blocks and inodes only print; they read every bit map up to the last block and the last
  inode, which must exist.
\<close>

definition mount_root :: "('z fs_scheme, unit) km" where
  "mount_root =
     seqK (modify (\<lambda>s. s\<lparr>file_table := (\<lambda>i. if 1 \<le> i \<and> i \<le> NR_FILE then (file_table s i)\<lparr>f_count := 0\<rparr> else file_table s i),
              super_table := (\<lambda>i. if 1 \<le> i \<and> i \<le> NR_SUPER then (super_table s i)\<lparr>s_dev := 0\<rparr> else super_table s i)\<rparr>))
       (bnd (do_mount ROOT_DEV) (\<lambda>p.
          if p = 0 then panic ''Unable to mount root''
          else bnd (iget ROOT_DEV 1) (\<lambda>mi.
            if mi = 0 then panic ''Unable to read root i-node''
            else seqK (modify (upd_inode mi (\<lambda>m. m\<lparr>i_count := i_count m + 3\<rparr>)))
              (seqK (modify (upd_super p (\<lambda>sb. sb\<lparr>s_isup := mi, s_imount := mi\<rparr>)))
                (seqK (modify (upd_cur (\<lambda>t. t\<lparr>t_pwd := mi, t_root := mi\<rparr>)))
                  (bnd (gets (\<lambda>s. super_table s p)) (\<lambda>sb.
                    if list_all (\<lambda>i. s_zmap sb i \<noteq> 0) [0..<(unat (s_nzones sb) + 8191) div 8192] \<and>
                       list_all (\<lambda>i. s_imap sb i \<noteq> 0) [0..<unat (s_ninodes sb) div 8192 + 1]
                    then ret () else fault ''missing bit map'')))))))"

end
