(* ===== verification/Namei.thy ===== *)
theory Namei
  imports Super
begin

text \<open>
  Path names, \<^verbatim>\<open>src/fs/namei.c\<close>: permissions, directory entries, the walk along a path, and the system calls that create and remove names.

  A directory entry is a pair of a buffer and a byte offset in it: two bytes of inode number and 14 bytes of name. Where the source
  returns a buffer and stores the entry through a pointer argument, the model returns the pair, with buffer 0 for a null pointer.
\<close>

section \<open>Constants\<close>

definition ERROR :: int where "ERROR = 99"
definition EPERM :: int where "EPERM = 1"
definition ENOENT :: int where "ENOENT = 2"
definition ESRCH :: int where "ESRCH = 3"
definition EINTR :: int where "EINTR = 4"
definition EIO :: int where "EIO = 5"
definition ENOEXEC :: int where "ENOEXEC = 8"
definition EBADF :: int where "EBADF = 9"
definition ECHILD :: int where "ECHILD = 10"
definition EAGAIN :: int where "EAGAIN = 11"
definition ENOMEM :: int where "ENOMEM = 12"
definition EACCES :: int where "EACCES = 13"
definition EEXIST :: int where "EEXIST = 17"
definition EXDEV :: int where "EXDEV = 18"
definition ENOTDIR :: int where "ENOTDIR = 20"
definition EISDIR :: int where "EISDIR = 21"
definition EINVAL :: int where "EINVAL = 22"
definition EMFILE :: int where "EMFILE = 24"
definition ENOTTY :: int where "ENOTTY = 25"
definition ENOSPC :: int where "ENOSPC = 28"
definition ESPIPE :: int where "ESPIPE = 29"
definition ENOSYS :: int where "ENOSYS = 38"
definition ENOTEMPTY :: int where "ENOTEMPTY = 39"

definition MAY_EXEC :: u32 where "MAY_EXEC = 1"
definition MAY_WRITE :: u32 where "MAY_WRITE = 2"
definition MAY_READ :: u32 where "MAY_READ = 4"

definition O_ACCMODE :: u32 where "O_ACCMODE = 3"
definition O_WRONLY :: u32 where "O_WRONLY = 1"
definition O_CREAT :: u32 where "O_CREAT = 0x40"
definition O_EXCL :: u32 where "O_EXCL = 0x80"
definition O_TRUNC :: u32 where "O_TRUNC = 0x200"
definition O_APPEND :: u32 where "O_APPEND = 0x400"
definition O_NONBLOCK :: u32 where "O_NONBLOCK = 0x800"

definition I_DIRECTORY :: u32 where "I_DIRECTORY = 0x4000"
definition I_REGULAR :: u32 where "I_REGULAR = 0x8000"

text \<open>The characters of \<^verbatim>\<open>"\004\002\006\377"\<close>; the last one is the signed char -1.\<close>

definition ACC_MODE :: "u32 \<Rightarrow> u32" where
  "ACC_MODE x = (let k = x AND O_ACCMODE in if k = 0 then 4 else if k = 1 then 2 else if k = 2 then 6 else - 1)"

section \<open>Permissions\<close>

definition permission :: "nat \<Rightarrow> u32 \<Rightarrow> 'z fs_scheme \<Rightarrow> u32" where
  "permission inode msk s =
     (let m = inode_table s inode; mode = (ucast (i_mode m) :: u32) in
      if i_dev m \<noteq> 0 \<and> i_nlinks m = 0 then 0
      else (if \<not> (t_uid (cur s) \<noteq> 0 \<and> t_euid (cur s) \<noteq> 0) then 0x1FF
            else if t_uid (cur s) = i_uid m \<or> t_euid (cur s) = i_uid m then drop_bit 6 mode
            else if t_gid (cur s) = ucast (i_gid m) \<or> t_egid (cur s) = ucast (i_gid m) then drop_bit 3 mode
            else mode) AND msk AND 7)"

section \<open>Directory entries\<close>

definition de_inode :: "nat \<Rightarrow> nat \<Rightarrow> 'z fs_scheme \<Rightarrow> u16" where
  "de_inode bh de s = get16 (b_data (bufs s bh)) de"

definition put_de_inode :: "nat \<Rightarrow> nat \<Rightarrow> u16 \<Rightarrow> 'z fs_scheme \<Rightarrow> 'z fs_scheme" where
  "put_de_inode bh de v = upd_buf bh (\<lambda>h. h\<lparr>b_data := put16 de v (b_data h)\<rparr>)"

text \<open>\<^verbatim>\<open>match\<close>: the bytes at \<open>name\<close> in user memory against the name of an entry. \<^verbatim>\<open>repe cmpsb\<close> finds no difference among no bytes.\<close>

definition match :: "nat \<Rightarrow> u32 \<Rightarrow> nat \<Rightarrow> nat \<Rightarrow> 'z fs_scheme \<Rightarrow> bool" where
  "match len name bh de s =
     (let D = b_data (bufs s bh) in
      if bh = 0 \<or> get16 D de = 0 \<or> len > NAME_LEN then False
      else if len < NAME_LEN \<and> D (de + 2 + len) \<noteq> 0 then False
      else list_all (\<lambda>i. get_fs_byte (name + of_nat i) s = D (de + 2 + i)) [0..<len])"

text \<open>
  The loop of \<^verbatim>\<open>find_entry\<close>: \<open>n\<close> entries are left, the next is number \<open>i\<close> at offset \<open>de\<close> of buffer \<open>bh\<close>. After a block that cannot be read the
  source goes on with a null buffer pointer and reads through it unless the directory ends there.
\<close>

fun find_entry_loop :: "nat \<Rightarrow> u32 \<Rightarrow> nat \<Rightarrow> nat \<Rightarrow> nat \<Rightarrow> nat \<Rightarrow> nat \<Rightarrow> ('z fs_scheme, nat \<times> nat) km" where
  "find_entry_loop dir name len 0 i bh de = seqK (brelse bh) (ret (0, 0))"
| "find_entry_loop dir name len (Suc n) i bh de =
     (if bh = 0 then fault ''find_entry: null buffer''
      else let here = (\<lambda>bh de. bnd (gets (match len name bh de)) (\<lambda>m.
             if m then ret (bh, de) else find_entry_loop dir name len n (i + 1) bh (de + 16)))
           in if de < BLOCK_SIZE then here bh de
              else seqK (brelse bh)
                (bnd (bmap dir (int (i div DIR_ENTRIES_PER_BLOCK))) (\<lambda>block.
                  if block = 0 then find_entry_loop dir name len (n - 63) (i + 64) 0 0
                  else bnd (gets (\<lambda>s. ucast (i_dev (inode_table s dir)))) (\<lambda>dev.
                    bnd (bread dev block) (\<lambda>bh.
                      if bh = 0 then find_entry_loop dir name len (n - 63) (i + 64) 0 0
                      else here bh 0)))))"

definition find_entry :: "nat \<Rightarrow> u32 \<Rightarrow> nat \<Rightarrow> ('z fs_scheme, nat \<times> nat) km" where
  "find_entry dir name namelen =
     (let len = min namelen NAME_LEN in
      bnd (gets (\<lambda>s. inode_table s dir)) (\<lambda>m.
        if len = 0 \<or> i_zone m 0 = 0 then ret (0, 0)
        else bnd (bread (ucast (i_dev m)) (ucast (i_zone m 0))) (\<lambda>bh.
          if bh = 0 then ret (0, 0)
          else find_entry_loop dir name len (unat (i_size m div 16)) 0 bh 0)))"

text \<open>Writing the name of an entry: the bytes of the name, then zeros.\<close>

definition put_name :: "nat \<Rightarrow> u32 \<Rightarrow> nat \<Rightarrow> 'z fs_scheme \<Rightarrow> (nat \<Rightarrow> u8) \<Rightarrow> nat \<Rightarrow> u8" where
  "put_name de name len s D = (\<lambda>k. if de + 2 \<le> k \<and> k < de + 2 + NAME_LEN
     then (if k - (de + 2) < len then get_fs_byte (name + of_nat (k - (de + 2))) s else 0) else D k)"

text \<open>
  The loop of \<^verbatim>\<open>add_entry\<close>. It ends at the first unused entry, which is at the latest the one behind the last, or in \<^verbatim>\<open>create_block\<close>, which
  panics on a block number too big for a file; \<open>n\<close> bounds the entries a file can have.
\<close>

fun add_entry_loop :: "nat \<Rightarrow> u32 \<Rightarrow> nat \<Rightarrow> nat \<Rightarrow> nat \<Rightarrow> nat \<Rightarrow> nat \<Rightarrow> ('z fs_scheme, nat \<times> nat) km" where
  "add_entry_loop dir name len 0 i bh de = (\<lambda>s e. Hang s)"
| "add_entry_loop dir name len (Suc n) i bh de =
     (let here = (\<lambda>bh de.
          bnd (gets (\<lambda>s. i_size (inode_table s dir) \<le> of_nat (i * 16))) (\<lambda>past.
            seqK (whenK past (seqK (modify (put_de_inode bh de 0))
                   (modify (\<lambda>s. upd_inode dir (\<lambda>m. m\<lparr>i_size := of_nat ((i + 1) * 16), i_dirt := 1, i_ctime := now s\<rparr>) s))))
              (bnd (gets (de_inode bh de)) (\<lambda>ino.
                if ino = 0 then
                  seqK (modify (\<lambda>s. upd_inode dir (\<lambda>m. m\<lparr>i_mtime := now s\<rparr>) s))
                    (seqK (modify (\<lambda>s. upd_buf bh (\<lambda>h. h\<lparr>b_data := put_name de name len s (b_data h), b_dirt := 1\<rparr>) s))
                      (ret (bh, de)))
                else add_entry_loop dir name len n (i + 1) bh (de + 16)))))
      in if de < BLOCK_SIZE then here bh de
         else seqK (brelse bh)
           (bnd (create_block dir (int (i div DIR_ENTRIES_PER_BLOCK))) (\<lambda>block.
             if block = 0 then ret (0, 0)
             else bnd (gets (\<lambda>s. ucast (i_dev (inode_table s dir)))) (\<lambda>dev.
               bnd (bread dev block) (\<lambda>bh.
                 if bh = 0 then fault ''add_entry: null buffer'' else here bh 0)))))"

definition MAX_DIR_ENTRIES :: nat where "MAX_DIR_ENTRIES = 64 * (7 + 512 + 512 * 512)"

definition add_entry :: "nat \<Rightarrow> u32 \<Rightarrow> nat \<Rightarrow> ('z fs_scheme, nat \<times> nat) km" where
  "add_entry dir name namelen =
     (let len = min namelen NAME_LEN in
      bnd (gets (\<lambda>s. inode_table s dir)) (\<lambda>m.
        if len = 0 \<or> i_zone m 0 = 0 then ret (0, 0)
        else bnd (bread (ucast (i_dev m)) (ucast (i_zone m 0))) (\<lambda>bh.
          if bh = 0 then ret (0, 0)
          else add_entry_loop dir name len (MAX_DIR_ENTRIES + 1) 0 bh 0)))"

section \<open>Paths\<close>

text \<open>
  The scan of one component: its length, the character that ended it and the address behind that. \<open>None\<close> if it never ends.
\<close>

partial_function (option) scan_name :: "(u32 \<Rightarrow> u8) \<Rightarrow> u32 \<Rightarrow> nat \<Rightarrow> (nat \<times> u8 \<times> u32) option" where
  "scan_name M p n = (if M p \<noteq> 0 \<and> M p \<noteq> 0x2F then scan_name M (p + 1) (n + 1) else Some (n, M p, p + 1))"

text \<open>
  The loop of \<^verbatim>\<open>get_dir\<close>. A component takes at least one byte of the path, so a path of more than \<open>n\<close> components, the size of the address space, has
  no end.
\<close>

fun get_dir_loop :: "nat \<Rightarrow> nat \<Rightarrow> u32 \<Rightarrow> ('z fs_scheme, nat) km" where
  "get_dir_loop 0 inode path = (\<lambda>s e. Hang s)"
| "get_dir_loop (Suc n) inode path =
     bnd (gets (\<lambda>s. S_ISDIR (i_mode (inode_table s inode)) \<and> permission inode MAY_EXEC s \<noteq> 0)) (\<lambda>ok.
       if \<not> ok then seqK (iput inode) (ret 0)
       else bnd (gets (\<lambda>s. scan_name (fs_mem s) path 0)) (\<lambda>r.
         case r of None \<Rightarrow> (\<lambda>s e. Hang s)
         | Some (len, c, path') \<Rightarrow>
             if c = 0 then ret inode
             else bnd (find_entry inode path len) (\<lambda>(bh, de).
               if bh = 0 then seqK (iput inode) (ret 0)
               else bnd (gets (\<lambda>s. (de_inode bh de s, i_dev (inode_table s inode)))) (\<lambda>(inr, idev).
                 seqK (brelse bh) (seqK (iput inode)
                   (bnd (iget (ucast idev) (ucast inr)) (\<lambda>inode'.
                     if inode' = 0 then ret 0 else get_dir_loop n inode' path')))))))"

definition get_dir :: "u32 \<Rightarrow> ('z fs_scheme, nat) km" where
  "get_dir path =
     bnd (gets (\<lambda>s. (t_root (cur s), t_pwd (cur s)))) (\<lambda>(rt, pw).
       bnd (gets (\<lambda>s. (rt = 0 \<or> i_count (inode_table s rt) = 0, pw = 0 \<or> i_count (inode_table s pw) = 0))) (\<lambda>(norm, nopw).
         if norm then panic ''No root inode''
         else if nopw then panic ''No cwd inode''
         else bnd (gets (get_fs_byte path)) (\<lambda>c.
           if c = 0 then ret 0
           else let inode = (if c = 0x2F then rt else pw); start = (if c = 0x2F then path + 1 else path) in
             seqK (modify (upd_inode inode (\<lambda>m. m\<lparr>i_count := i_count m + 1\<rparr>)))
               (get_dir_loop (2 ^ 32) inode start))))"

text \<open>The last component: the length of what follows the last slash and its address.\<close>

partial_function (option) scan_base :: "(u32 \<Rightarrow> u8) \<Rightarrow> u32 \<Rightarrow> nat \<Rightarrow> u32 \<Rightarrow> (nat \<times> u32) option" where
  "scan_base M p n base =
     (if M p = 0 then Some (n, base)
      else if M p = 0x2F then scan_base M (p + 1) 0 (p + 1)
      else scan_base M (p + 1) (n + 1) base)"

definition dir_namei :: "u32 \<Rightarrow> ('z fs_scheme, nat \<times> nat \<times> u32) km" where
  "dir_namei path =
     bnd (get_dir path) (\<lambda>dir.
       if dir = 0 then ret (0, 0, 0)
       else bnd (gets (\<lambda>s. scan_base (fs_mem s) path 0 path)) (\<lambda>r.
         case r of None \<Rightarrow> (\<lambda>s e. Hang s) | Some (len, base) \<Rightarrow> ret (dir, len, base)))"

definition namei :: "u32 \<Rightarrow> ('z fs_scheme, nat) km" where
  "namei path =
     bnd (dir_namei path) (\<lambda>(dir, namelen, basename).
       if dir = 0 then ret 0
       else if namelen = 0 then ret dir
       else bnd (find_entry dir basename namelen) (\<lambda>(bh, de).
         if bh = 0 then seqK (iput dir) (ret 0)
         else bnd (gets (\<lambda>s. (de_inode bh de s, i_dev (inode_table s dir)))) (\<lambda>(inr, dev).
           seqK (brelse bh) (seqK (iput dir)
             (bnd (iget (ucast dev) (ucast inr)) (\<lambda>inode.
               seqK (whenK (inode \<noteq> 0) (modify (\<lambda>s. upd_inode inode (\<lambda>m. m\<lparr>i_atime := now s, i_dirt := 1\<rparr>) s)))
                 (ret inode)))))))"

end
