(* ===== verification/Namei_Calls.thy ===== *)
theory Namei_Calls
  imports Namei
begin

text \<open>
  The system calls of \<^verbatim>\<open>src/fs/namei.c\<close> that create and remove names: \<^verbatim>\<open>open_namei\<close>, \<^verbatim>\<open>mkdir\<close>, \<^verbatim>\<open>rmdir\<close>, \<^verbatim>\<open>unlink\<close> and \<^verbatim>\<open>link\<close>.
\<close>

definition modify_inode :: "nat \<Rightarrow> (u32 \<Rightarrow> m_inode \<Rightarrow> m_inode) \<Rightarrow> ('z fs_scheme, unit) km" where
  "modify_inode p f = modify (\<lambda>s. upd_inode p (f (now s)) s)"

definition dirty_buf :: "nat \<Rightarrow> ('z fs_scheme, unit) km" where
  "dirty_buf bh = modify (upd_buf bh (\<lambda>h. h\<lparr>b_dirt := 1\<rparr>))"

definition i_dev_of :: "nat \<Rightarrow> 'z fs_scheme \<Rightarrow> u32" where
  "i_dev_of p s = ucast (i_dev (inode_table s p))"

text \<open>The part of \<^verbatim>\<open>open_namei\<close> after the name was not found.\<close>

definition open_create :: "nat \<Rightarrow> u32 \<Rightarrow> nat \<Rightarrow> u32 \<Rightarrow> u32 \<Rightarrow> ('z fs_scheme, int \<times> nat) km" where
  "open_create dir basename namelen flag mode =
     (if flag AND O_CREAT = 0 then seqK (iput dir) (ret (- ENOENT, 0))
      else bnd (gets (permission dir MAY_WRITE)) (\<lambda>pm.
        if pm = 0 then seqK (iput dir) (ret (- EACCES, 0))
        else bnd (gets (i_dev_of dir)) (\<lambda>dev. bnd (new_inode dev) (\<lambda>inode.
          if inode = 0 then seqK (iput dir) (ret (- ENOSPC, 0))
          else seqK (modify_inode inode (\<lambda>t m. m\<lparr>i_mode := ucast mode, i_dirt := 1\<rparr>))
            (bnd (add_entry dir basename namelen) (\<lambda>(bh, de).
              if bh = 0 then
                seqK (modify_inode inode (\<lambda>t m. m\<lparr>i_nlinks := i_nlinks m - 1\<rparr>))
                  (seqK (iput inode) (seqK (iput dir) (ret (- ENOSPC, 0))))
              else seqK (modify (\<lambda>s. put_de_inode bh de (i_num (inode_table s inode)) s))
                (seqK (dirty_buf bh) (seqK (brelse bh) (seqK (iput dir) (ret (0, inode)))))))))))"

text \<open>The part of \<^verbatim>\<open>open_namei\<close> for a name that exists.\<close>

definition open_existing :: "nat \<Rightarrow> nat \<Rightarrow> nat \<Rightarrow> u32 \<Rightarrow> ('z fs_scheme, int \<times> nat) km" where
  "open_existing dir bh de flag =
     bnd (gets (\<lambda>s. (ucast (de_inode bh de s), i_dev_of dir s))) (\<lambda>(inr, dev).
       seqK (brelse bh) (seqK (iput dir)
         (if flag AND O_EXCL \<noteq> 0 then ret (- EEXIST, 0)
          else bnd (iget dev inr) (\<lambda>inode.
            if inode = 0 then ret (- EACCES, 0)
            else bnd (gets (\<lambda>s. (S_ISDIR (i_mode (inode_table s inode)) \<and> flag AND O_ACCMODE \<noteq> 0) \<or>
                   permission inode (ACC_MODE flag) s \<noteq> ACC_MODE flag)) (\<lambda>bad.
              if bad then seqK (iput inode) (ret (- EPERM, 0))
              else seqK (modify_inode inode (\<lambda>t m. m\<lparr>i_atime := t\<rparr>))
                (seqK (whenK (flag AND O_TRUNC \<noteq> 0) (truncate inode)) (ret (0, inode))))))))"

definition open_namei :: "u32 \<Rightarrow> u32 \<Rightarrow> u32 \<Rightarrow> ('z fs_scheme, int \<times> nat) km" where
  "open_namei path flag0 mode0 =
     (let flag = (if flag0 AND O_TRUNC \<noteq> 0 \<and> flag0 AND O_ACCMODE = 0 then flag0 OR O_WRONLY else flag0) in
      bnd (gets (\<lambda>s. ucast (t_umask (cur s)))) (\<lambda>um.
        let mode = (mode0 AND 0x1FF AND NOT um) OR I_REGULAR in
        bnd (dir_namei path) (\<lambda>(dir, namelen, basename).
          if dir = 0 then ret (- ENOENT, 0)
          else if namelen = 0 then
            (if flag AND (O_ACCMODE OR O_CREAT OR O_TRUNC) = 0 then ret (0, dir)
             else seqK (iput dir) (ret (- EISDIR, 0)))
          else bnd (find_entry dir basename namelen) (\<lambda>(bh, de).
            if bh = 0 then open_create dir basename namelen flag mode
            else open_existing dir bh de flag))))"

section \<open>Directories\<close>

text \<open>\<^verbatim>\<open>strcpy(de->name, ".")\<close> and the like: the characters and the terminating zero.\<close>

definition put_str :: "nat \<Rightarrow> u8 list \<Rightarrow> (nat \<Rightarrow> u8) \<Rightarrow> nat \<Rightarrow> u8" where
  "put_str off cs D = (\<lambda>k. if off \<le> k \<and> k < off + length cs then cs ! (k - off) else if k = off + length cs then 0 else D k)"

definition dot_entries :: "u16 \<Rightarrow> u16 \<Rightarrow> (nat \<Rightarrow> u8) \<Rightarrow> nat \<Rightarrow> u8" where
  "dot_entries self parent D = put_str 18 [0x2E, 0x2E] (put16 16 parent (put_str 2 [0x2E] (put16 0 self D)))"

text \<open>The part of \<^verbatim>\<open>sys_mkdir\<close> from the new inode on.\<close>

definition mkdir_new :: "nat \<Rightarrow> u32 \<Rightarrow> nat \<Rightarrow> u32 \<Rightarrow> nat \<Rightarrow> ('z fs_scheme, int) km" where
  "mkdir_new dir basename namelen mode inode =
     seqK (modify_inode inode (\<lambda>t m. m\<lparr>i_size := 32, i_dirt := 1, i_mtime := t, i_atime := t\<rparr>))
       (bnd (gets (i_dev_of inode)) (\<lambda>dev. bnd (new_block dev) (\<lambda>z.
         seqK (modify_inode inode (\<lambda>t m. m\<lparr>i_zone := (i_zone m)(0 := ucast z)\<rparr>))
           (if ucast z = (0 :: u16) then
              seqK (iput dir)
                (seqK (modify_inode inode (\<lambda>t m. m\<lparr>i_nlinks := i_nlinks m - 1\<rparr>)) (seqK (iput inode) (ret (- ENOSPC))))
            else seqK (modify_inode inode (\<lambda>t m. m\<lparr>i_dirt := 1\<rparr>))
              (bnd (gets (\<lambda>s. inode_table s inode)) (\<lambda>m. bnd (bread (ucast (i_dev m)) (ucast (i_zone m 0))) (\<lambda>dir_block.
                if dir_block = 0 then
                  seqK (iput dir)
                    (seqK (bnd (gets (\<lambda>s. inode_table s inode)) (\<lambda>m. free_block (ucast (i_dev m)) (ucast (i_zone m 0))))
                      (seqK (modify_inode inode (\<lambda>t m. m\<lparr>i_nlinks := i_nlinks m - 1\<rparr>)) (seqK (iput inode) (ret (- ERROR)))))
                else seqK (modify (\<lambda>s. upd_buf dir_block (\<lambda>h. h\<lparr>b_data :=
                       dot_entries (i_num (inode_table s inode)) (i_num (inode_table s dir)) (b_data h), b_dirt := 1\<rparr>) s))
                  (seqK (modify_inode inode (\<lambda>t m. m\<lparr>i_nlinks := 2\<rparr>))
                    (seqK (brelse dir_block)
                      (bnd (gets (\<lambda>s. ucast (t_umask (cur s)))) (\<lambda>um.
                        seqK (modify_inode inode (\<lambda>t m. m\<lparr>i_mode := ucast (I_DIRECTORY OR (mode AND 0x1FF AND NOT um)), i_dirt := 1\<rparr>))
                          (bnd (add_entry dir basename namelen) (\<lambda>(bh, de).
                            if bh = 0 then
                              seqK (iput dir)
                                (seqK (bnd (gets (\<lambda>s. inode_table s inode)) (\<lambda>m. free_block (ucast (i_dev m)) (ucast (i_zone m 0))))
                                  (seqK (modify_inode inode (\<lambda>t m. m\<lparr>i_nlinks := 0\<rparr>)) (seqK (iput inode) (ret (- ENOSPC)))))
                            else seqK (modify (\<lambda>s. put_de_inode bh de (i_num (inode_table s inode)) s))
                              (seqK (dirty_buf bh)
                                (seqK (modify_inode dir (\<lambda>t m. m\<lparr>i_nlinks := i_nlinks m + 1, i_dirt := 1\<rparr>))
                                  (seqK (iput dir) (seqK (iput inode) (seqK (brelse bh) (ret 0)))))))))))))))))))"

definition sys_mkdir :: "u32 \<Rightarrow> u32 \<Rightarrow> ('z fs_scheme, int) km" where
  "sys_mkdir path mode =
     bnd (gets (\<lambda>s. t_euid (cur s) \<noteq> 0 \<and> t_uid (cur s) \<noteq> 0)) (\<lambda>user.
       if user then ret (- EPERM)
       else bnd (dir_namei path) (\<lambda>(dir, namelen, basename).
         if dir = 0 then ret (- ENOENT)
         else if namelen = 0 then seqK (iput dir) (ret (- ENOENT))
         else bnd (gets (permission dir MAY_WRITE)) (\<lambda>pm.
           if pm = 0 then seqK (iput dir) (ret (- EPERM))
           else bnd (find_entry dir basename namelen) (\<lambda>(bh, de).
             if bh \<noteq> 0 then seqK (brelse bh) (seqK (iput dir) (ret (- EEXIST)))
             else bnd (gets (i_dev_of dir)) (\<lambda>dev. bnd (new_inode dev) (\<lambda>inode.
               if inode = 0 then seqK (iput dir) (ret (- ENOSPC))
               else mkdir_new dir basename namelen mode inode))))))"

text \<open>\<^verbatim>\<open>strcmp(".", de[0].name) == 0\<close> and the like.\<close>

definition str_is :: "nat \<Rightarrow> u8 list \<Rightarrow> (nat \<Rightarrow> u8) \<Rightarrow> bool" where
  "str_is off cs D = list_all (\<lambda>i. D (off + i) = (cs @ [0]) ! i) [0..<length cs + 1]"

text \<open>
  The loop of \<^verbatim>\<open>empty_dir\<close>: \<open>n\<close> entries are left. After a hole the source goes on with
  the pointers into the buffer it has released, and releases it again.
\<close>

fun empty_dir_loop :: "nat \<Rightarrow> nat \<Rightarrow> nat \<Rightarrow> nat \<Rightarrow> nat \<Rightarrow> ('z fs_scheme, bool) km" where
  "empty_dir_loop inode 0 nr bh de = seqK (brelse bh) (ret True)"
| "empty_dir_loop inode (Suc n) nr bh de =
     (let here = (\<lambda>bh de. bnd (gets (de_inode bh de)) (\<lambda>ino.
          if ino \<noteq> 0 then seqK (brelse bh) (ret False) else empty_dir_loop inode n (nr + 1) bh (de + 16)))
      in if de < BLOCK_SIZE then here bh de
         else seqK (brelse bh)
           (bnd (bmap inode (int (nr div DIR_ENTRIES_PER_BLOCK))) (\<lambda>block.
             if block = 0 then empty_dir_loop inode (n - 63) (nr + 64) bh de
             else bnd (gets (i_dev_of inode)) (\<lambda>dev. bnd (bread dev block) (\<lambda>bh.
               if bh = 0 then ret False else here bh 0)))))"

definition empty_dir :: "nat \<Rightarrow> ('z fs_scheme, bool) km" where
  "empty_dir inode =
     bnd (gets (\<lambda>s. inode_table s inode)) (\<lambda>m.
       let len = unat (i_size m div 16) in
       if len < 2 \<or> i_zone m 0 = 0 then ret False
       else bnd (bread (ucast (i_dev m)) (ucast (i_zone m 0))) (\<lambda>bh.
         if bh = 0 then ret False
         else bnd (gets (\<lambda>s. get16 (b_data (bufs s bh)) 0 \<noteq> i_num (inode_table s inode) \<or> get16 (b_data (bufs s bh)) 16 = 0 \<or>
                \<not> str_is 2 [0x2E] (b_data (bufs s bh)) \<or> \<not> str_is 18 [0x2E, 0x2E] (b_data (bufs s bh)))) (\<lambda>bad.
           if bad then ret False else empty_dir_loop inode (len - 2) 2 bh 32)))"

text \<open>The checks of \<^verbatim>\<open>sys_rmdir\<close> once the entry is found, and the removal.\<close>

definition rmdir_entry :: "nat \<Rightarrow> nat \<Rightarrow> nat \<Rightarrow> ('z fs_scheme, int) km" where
  "rmdir_entry dir bh de =
     bnd (gets (permission dir MAY_WRITE)) (\<lambda>pm.
       if pm = 0 then seqK (iput dir) (seqK (brelse bh) (ret (- EPERM)))
       else bnd (gets (\<lambda>s. (i_dev_of dir s, ucast (de_inode bh de s)))) (\<lambda>(dev, inr). bnd (iget dev inr) (\<lambda>inode.
         if inode = 0 then seqK (iput dir) (seqK (brelse bh) (ret (- EPERM)))
         else if inode = dir then seqK (iput inode) (seqK (iput dir) (seqK (brelse bh) (ret (- EPERM))))
         else bnd (gets (\<lambda>s. S_ISDIR (i_mode (inode_table s inode)))) (\<lambda>isdir.
           if \<not> isdir then seqK (iput inode) (seqK (iput dir) (seqK (brelse bh) (ret (- ENOTDIR))))
           else bnd (empty_dir inode) (\<lambda>empty.
             if \<not> empty then seqK (iput inode) (seqK (iput dir) (seqK (brelse bh) (ret (- ENOTEMPTY))))
             else seqK (modify (put_de_inode bh de 0))
               (seqK (dirty_buf bh) (seqK (brelse bh)
                 (seqK (modify_inode inode (\<lambda>t m. m\<lparr>i_nlinks := 0, i_dirt := 1\<rparr>))
                   (seqK (modify_inode dir (\<lambda>t m. m\<lparr>i_nlinks := i_nlinks m - 1, i_ctime := t, i_mtime := t, i_dirt := 1\<rparr>))
                     (seqK (iput dir) (seqK (iput inode) (ret 0))))))))))))"

definition sys_rmdir :: "u32 \<Rightarrow> ('z fs_scheme, int) km" where
  "sys_rmdir path =
     bnd (gets (\<lambda>s. t_euid (cur s) \<noteq> 0 \<and> t_uid (cur s) \<noteq> 0)) (\<lambda>user.
       if user then ret (- EPERM)
       else bnd (dir_namei path) (\<lambda>(dir, namelen, basename).
         if dir = 0 then ret (- ENOENT)
         else if namelen = 0 then seqK (iput dir) (ret (- ENOENT))
         else bnd (find_entry dir basename namelen) (\<lambda>(bh, de).
           if bh = 0 then seqK (iput dir) (ret (- ENOENT)) else rmdir_entry dir bh de)))"

section \<open>Links\<close>

definition unlink_entry :: "nat \<Rightarrow> nat \<Rightarrow> nat \<Rightarrow> ('z fs_scheme, int) km" where
  "unlink_entry dir bh de =
     bnd (gets (\<lambda>s. (i_dev_of dir s, ucast (de_inode bh de s)))) (\<lambda>(dev, inr). bnd (iget dev inr) (\<lambda>inode.
       if inode = 0 then seqK (iput dir) (seqK (brelse bh) (ret (- ENOENT)))
       else bnd (gets (\<lambda>s. S_ISREG (i_mode (inode_table s inode)))) (\<lambda>isreg.
         if \<not> isreg then seqK (iput inode) (seqK (iput dir) (seqK (brelse bh) (ret (- EPERM))))
         else seqK (modify_inode inode (\<lambda>t m. if i_nlinks m = 0 then m\<lparr>i_nlinks := 1\<rparr> else m))
           (seqK (modify (put_de_inode bh de 0))
             (seqK (dirty_buf bh) (seqK (brelse bh)
               (seqK (modify_inode inode (\<lambda>t m. m\<lparr>i_nlinks := i_nlinks m - 1, i_dirt := 1, i_ctime := t\<rparr>))
                 (seqK (iput inode) (seqK (iput dir) (ret 0))))))))))"

definition sys_unlink :: "u32 \<Rightarrow> ('z fs_scheme, int) km" where
  "sys_unlink path =
     bnd (dir_namei path) (\<lambda>(dir, namelen, basename).
       if dir = 0 then ret (- ENOENT)
       else if namelen = 0 then seqK (iput dir) (ret (- ENOENT))
       else bnd (gets (permission dir MAY_WRITE)) (\<lambda>pm.
         if pm = 0 then seqK (iput dir) (ret (- EPERM))
         else bnd (find_entry dir basename namelen) (\<lambda>(bh, de).
           if bh = 0 then seqK (iput dir) (ret (- ENOENT)) else unlink_entry dir bh de)))"

definition link_name :: "nat \<Rightarrow> nat \<Rightarrow> u32 \<Rightarrow> nat \<Rightarrow> ('z fs_scheme, int) km" where
  "link_name oldinode dir basename namelen =
     bnd (find_entry dir basename namelen) (\<lambda>(bh, de).
       if bh \<noteq> 0 then seqK (brelse bh) (seqK (iput dir) (seqK (iput oldinode) (ret (- EEXIST))))
       else bnd (add_entry dir basename namelen) (\<lambda>(bh, de).
         if bh = 0 then seqK (iput dir) (seqK (iput oldinode) (ret (- ENOSPC)))
         else seqK (modify (\<lambda>s. put_de_inode bh de (i_num (inode_table s oldinode)) s))
           (seqK (dirty_buf bh) (seqK (brelse bh) (seqK (iput dir)
             (seqK (modify_inode oldinode (\<lambda>t m. m\<lparr>i_nlinks := i_nlinks m + 1, i_ctime := t, i_dirt := 1\<rparr>))
               (seqK (iput oldinode) (ret 0))))))))"

definition sys_link :: "u32 \<Rightarrow> u32 \<Rightarrow> ('z fs_scheme, int) km" where
  "sys_link oldname newname =
     bnd (namei oldname) (\<lambda>oldinode.
       if oldinode = 0 then ret (- ENOENT)
       else bnd (gets (\<lambda>s. S_ISREG (i_mode (inode_table s oldinode)))) (\<lambda>isreg.
         if \<not> isreg then seqK (iput oldinode) (ret (- EPERM))
         else bnd (dir_namei newname) (\<lambda>(dir, namelen, basename).
           if dir = 0 then seqK (iput oldinode) (ret (- EACCES))
           else if namelen = 0 then seqK (iput oldinode) (seqK (iput dir) (ret (- EPERM)))
           else bnd (gets (\<lambda>s. i_dev (inode_table s dir) \<noteq> i_dev (inode_table s oldinode))) (\<lambda>xdev.
             if xdev then seqK (iput dir) (seqK (iput oldinode) (ret (- EXDEV)))
             else bnd (gets (permission dir MAY_WRITE)) (\<lambda>pm.
               if pm = 0 then seqK (iput dir) (seqK (iput oldinode) (ret (- EACCES)))
               else link_name oldinode dir basename namelen)))))"

end
