(* ===== verification/User_Area.thy ===== *)
theory User_Area
  imports Namei_Calls
begin

text \<open>
  What several system calls share: \<^verbatim>\<open>verify_area\<close> of \<^verbatim>\<open>src/kernel/fork.c\<close>, and loops that carry values from round to round.
\<close>

text \<open>\<^verbatim>\<open>verify_area\<close>: \<open>n\<close> pages are left from linear address \<open>start\<close>.\<close>

fun verify_pages :: "nat \<Rightarrow> u32 \<Rightarrow> ('z sched_scheme, unit) km" where
  "verify_pages 0 start = ret ()"
| "verify_pages (Suc n) start = seqK (write_verify start) (verify_pages n (start + 4096))"

definition verify_area :: "u32 \<Rightarrow> int \<Rightarrow> ('z sched_scheme, unit) km" where
  "verify_area addr size0 =
     bnd (gets (\<lambda>s. get_base (t_ldt (cur s) 2))) (\<lambda>base.
       let size1 = wrap32 (size0 + uint (addr AND 0xfff)) in
       verify_pages (nat ((size1 + 4095) div 4096)) ((addr AND 0xfffff000) + base))"

text \<open>
  A loop with loop variables \<open>x\<close>. A round returns \<open>Inl\<close> the new values to go round again, or \<open>Inr\<close> the result. It makes progress by using up
  part of the script or by lowering the measure \<open>m\<close>; a round that does neither spins until an interrupt, the next entry of the script, changes
  the state.
\<close>

function loopX :: "('x \<Rightarrow> nat) \<Rightarrow> ('x \<Rightarrow> ('s, 'x + 'a) km) \<Rightarrow> 'x \<Rightarrow> ('s, 'a) km" where
  "loopX m rnd x s e = (case rnd x s e of
     Ok (Inl x') s' e' \<Rightarrow>
       (if length e' < length e \<or> (length e' = length e \<and> m x' < m x) then loopX m rnd x' s' e'
        else case e of [] \<Rightarrow> Hang s' | f # fs \<Rightarrow> loopX m rnd x' (f s') fs)
   | Ok (Inr r) s' e' \<Rightarrow> Ok r s' e'
   | Panic msg s' \<Rightarrow> Panic msg s'
   | Fault msg s' \<Rightarrow> Fault msg s'
   | Asleep s' \<Rightarrow> Asleep s'
   | Hang s' \<Rightarrow> Hang s'
   | Exit c s' \<Rightarrow> Exit c s')"
  by pat_completeness auto
termination
  by (relation "inv_image (less_than <*lex*> less_than) (\<lambda>(m, rnd, x, s, e). (length e, m x))") auto

declare loopX.simps [simp del]

lemma loopX_done: "rnd x s e = Ok (Inr r) s' e' \<Longrightarrow> loopX m rnd x s e = Ok r s' e'"
  by (subst loopX.simps) simp

lemma loopX_again:
  "rnd x s e = Ok (Inl x') s' e' \<Longrightarrow> length e' < length e \<or> (length e' = length e \<and> m x' < m x) \<Longrightarrow> loopX m rnd x s e = loopX m rnd x' s' e'"
  by (subst loopX.simps) auto

text \<open>A computation without effect on the script that may have no result, which is an error.\<close>

definition liftO :: "string \<Rightarrow> ('s \<Rightarrow> 's option) \<Rightarrow> ('s, unit) km" where
  "liftO msg f = (\<lambda>s e. case f s of None \<Rightarrow> Fault msg s | Some s' \<Rightarrow> Ok () s' e)"

end
