(* ===== verification/Ring.thy ===== *)
theory Ring
  imports Kernel_Prelude
begin

text \<open>
  The contract of a ring buffer with a head and a tail index that are masked to a power of two: the queues of the terminals and the
  pipes are instances. Proved once here: as long as it is not full, such a ring is a first-in first-out queue, and one cell always stays free.
\<close>

locale ring_buffer =
  fixes k :: nat and q_hd q_tl :: "'q \<Rightarrow> u32" and q_cell :: "'q \<Rightarrow> nat \<Rightarrow> u8"
    and putq :: "u8 \<Rightarrow> 'q \<Rightarrow> 'q" and getq :: "'q \<Rightarrow> u8 \<times> 'q"
  assumes k: "0 < k" "k < 32"
    and put_hd: "q_hd (putq c q) = (q_hd q + 1) AND mask k" and put_tl: "q_tl (putq c q) = q_tl q"
    and put_cell: "q_cell (putq c q) = (q_cell q)(unat (q_hd q) := c)"
    and get_hd: "q_hd (snd (getq q)) = q_hd q" and get_tl: "q_tl (snd (getq q)) = (q_tl q + 1) AND mask k"
    and get_cell: "q_cell (snd (getq q)) = q_cell q" and get_val: "fst (getq q) = q_cell q (unat (q_tl q))"
begin

definition ring_wf :: "'q \<Rightarrow> bool" where
  "ring_wf q \<longleftrightarrow> unat (q_hd q) < 2 ^ k \<and> unat (q_tl q) < 2 ^ k"

definition ring_count :: "'q \<Rightarrow> nat" where
  "ring_count q = (unat (q_hd q) + 2 ^ k - unat (q_tl q)) mod 2 ^ k"

definition ring_list :: "'q \<Rightarrow> u8 list" where
  "ring_list q = map (\<lambda>i. q_cell q ((unat (q_tl q) + i) mod 2 ^ k)) [0..<ring_count q]"

lemma pow_less: "(2 :: nat) ^ k < 2 ^ 32"
  using k by (intro power_strict_increasing) auto

lemma unat_and_mask: "unat (w AND mask k :: u32) = unat w mod 2 ^ k"
  by (metis take_bit_eq_mask take_bit_eq_mod unsigned_take_bit_eq)

lemma unat_next: "unat (w :: u32) < 2 ^ k \<Longrightarrow> unat ((w + 1) AND mask k) = (unat w + 1) mod 2 ^ k"
proof -
  assume w: "unat w < 2 ^ k"
  then have "unat (w + 1) = unat w + 1" using pow_less by (intro unat_inc) (auto simp: word_unat_eq_iff unsigned_minus_1_eq_mask mask_eq_exp_minus_1)
  then show ?thesis by (simp add: unat_and_mask)
qed

lemma length_ring [simp]: "length (ring_list q) = ring_count q"
  by (simp add: ring_list_def)

lemma ring_count_less: "ring_count q < 2 ^ k"
  by (simp add: ring_count_def)

lemma count_eq:
  assumes "ring_wf q"
  shows "ring_count q = (if unat (q_tl q) \<le> unat (q_hd q) then unat (q_hd q) - unat (q_tl q) else unat (q_hd q) + 2 ^ k - unat (q_tl q))"
proof (cases "unat (q_tl q) \<le> unat (q_hd q)")
  case True
  then have "unat (q_hd q) + 2 ^ k - unat (q_tl q) = (unat (q_hd q) - unat (q_tl q)) + 2 ^ k" by simp
  moreover have "unat (q_hd q) - unat (q_tl q) < 2 ^ k" using assms by (simp add: ring_wf_def less_imp_diff_less)
  ultimately have "ring_count q = unat (q_hd q) - unat (q_tl q)" unfolding ring_count_def by (simp only: mod_add_self2) simp
  then show ?thesis using True by simp
next
  case False
  then have "unat (q_hd q) + 2 ^ k - unat (q_tl q) < 2 ^ k" using assms unfolding ring_wf_def by linarith
  then show ?thesis using False by (simp add: ring_count_def)
qed

lemma ring_empty: "ring_wf q \<Longrightarrow> ring_list q = [] \<longleftrightarrow> q_hd q = q_tl q"
proof -
  assume w: "ring_wf q"
  have "ring_list q = [] \<longleftrightarrow> ring_count q = 0" by (metis length_ring length_0_conv)
  also have "\<dots> \<longleftrightarrow> unat (q_hd q) = unat (q_tl q)" using w count_eq [OF w] by (auto simp: ring_wf_def)
  finally show ?thesis by (simp add: word_unat_eq_iff)
qed

lemma ring_chars: "ring_wf q \<Longrightarrow> unat ((q_hd q - q_tl q) AND mask k) = ring_count q"
proof -
  assume w: "ring_wf q"
  have "take_bit k (unat (q_hd q - q_tl q)) = ring_count q"
  proof (cases "unat (q_tl q) \<le> unat (q_hd q)")
    case True
    then have "unat (q_hd q - q_tl q) = unat (q_hd q) - unat (q_tl q)" by (simp add: unat_sub word_le_nat_alt)
    then show ?thesis using True w count_eq [OF w] ring_count_less [of q] by (simp add: take_bit_nat_eq_self)
  next
    case False
    have "uint (q_hd q - q_tl q) = (uint (q_hd q) - uint (q_tl q)) mod 2 ^ 32" by (simp add: uint_word_ariths)
    then have "int (take_bit k (unat (q_hd q - q_tl q))) = (uint (q_hd q) - uint (q_tl q)) mod 2 ^ 32 mod 2 ^ k"
      by (simp add: take_bit_eq_mod zmod_int)
    also have "\<dots> = (uint (q_hd q) - uint (q_tl q)) mod 2 ^ k"
      using k by (metis less_imp_le mod_mod_cancel le_imp_power_dvd)
    also have "\<dots> = (uint (q_hd q) + 2 ^ k - uint (q_tl q)) mod 2 ^ k"
      by (metis diff_add_eq mod_add_self2)
    also have "\<dots> = int (ring_count q)"
      using w by (simp add: ring_wf_def ring_count_def of_nat_diff zmod_int)
    finally show ?thesis by linarith
  qed
  then show ?thesis by (simp add: unat_and_mask take_bit_eq_mod)
qed

lemma ring_left:
  assumes w: "ring_wf q"
  shows "unat ((q_tl q - q_hd q - 1) AND mask k) = 2 ^ k - 1 - ring_count q"
proof -
  have "(q_tl q - q_hd q - 1) AND mask k = (NOT (q_hd q - q_tl q)) AND mask k" by (simp add: not_eq_complement)
  also have "\<dots> = mask k - ((q_hd q - q_tl q) AND mask k)"
  proof -
    have "(x AND mask k) + (NOT x AND mask k) = mask k" for x :: u32
      by (subst disjunctive_add_eq_or) (auto simp: bit_eq_iff bit_simps)
    then show ?thesis by (metis add_diff_cancel_left')
  qed
  finally have e: "(q_tl q - q_hd q - 1) AND mask k = mask k - ((q_hd q - q_tl q) AND mask k)" .
  have "(q_hd q - q_tl q) AND mask k \<le> mask k" by (simp add: word_and_le1)
  then have "unat ((q_tl q - q_hd q - 1) AND mask k) = unat (mask k :: u32) - ring_count q"
    by (simp add: e unat_sub ring_chars [OF w])
  moreover have "unat (mask k :: u32) = 2 ^ k - 1"
  proof -
    have "unat (of_nat (2 ^ k) :: u32) = 2 ^ k" using k pow_less by (simp add: unsigned_of_nat take_bit_nat_eq_self del: of_nat_power)
    then show ?thesis using k by (simp add: mask_eq_exp_minus_1 unat_minus_one)
  qed
  ultimately show ?thesis by simp
qed

lemma put_wf: "ring_wf q \<Longrightarrow> ring_wf (putq c q)" and get_wf: "ring_wf q \<Longrightarrow> ring_wf (snd (getq q))"
  by (simp_all add: ring_wf_def put_hd put_tl get_hd get_tl unat_and_mask)

lemma put_count:
  assumes w: "ring_wf q" and "ring_count q < 2 ^ k - 1"
  shows "ring_count (putq c q) = ring_count q + 1"
proof -
  have b: "unat (q_hd q) < 2 ^ k" "unat (q_tl q) < 2 ^ k" using w by (simp_all add: ring_wf_def)
  have h: "unat (q_hd (putq c q)) = (unat (q_hd q) + 1) mod 2 ^ k" "unat (q_tl (putq c q)) = unat (q_tl q)"
    using b by (simp_all add: put_hd put_tl unat_next)
  show ?thesis
  proof (cases "unat (q_hd q) + 1 = 2 ^ k")
    case True
    then show ?thesis using h b assms count_eq [OF w] count_eq [OF put_wf [OF w]] by (auto split: if_splits)
  next
    case False
    then have "unat (q_hd (putq c q)) = unat (q_hd q) + 1" using h b by simp
    then show ?thesis using h b assms count_eq [OF w] count_eq [OF put_wf [OF w]] by (auto split: if_splits)
  qed
qed

lemma hd_pos: "ring_wf q \<Longrightarrow> (unat (q_tl q) + ring_count q) mod 2 ^ k = unat (q_hd q)"
  using count_eq [of q] by (auto simp: ring_wf_def split: if_splits)

lemma hd_free:
  assumes w: "ring_wf q" and i: "i < ring_count q"
  shows "(unat (q_tl q) + i) mod 2 ^ k \<noteq> unat (q_hd q)"
proof
  assume "(unat (q_tl q) + i) mod 2 ^ k = unat (q_hd q)"
  then have "(unat (q_tl q) + i) mod 2 ^ k = (unat (q_tl q) + ring_count q) mod 2 ^ k" using hd_pos [OF w] by simp
  moreover have "(unat (q_tl q) + j) mod 2 ^ k = (if unat (q_tl q) + j < 2 ^ k then unat (q_tl q) + j else unat (q_tl q) + j - 2 ^ k)"
    if "j < 2 ^ k" for j
  proof (cases "unat (q_tl q) + j < 2 ^ k")
    case False
    then have "unat (q_tl q) + j - 2 ^ k < 2 ^ k" using that w unfolding ring_wf_def by linarith
    then show ?thesis using False by (simp add: le_mod_geq)
  qed simp
  ultimately show False using i ring_count_less [of q] by (auto split: if_splits)
qed

lemma put_list:
  assumes w: "ring_wf q" and f: "ring_count q < 2 ^ k - 1"
  shows "ring_list (putq c q) = ring_list q @ [c]"
  using put_count [OF w f, of c] hd_pos [OF w] hd_free [OF w] by (simp add: ring_list_def put_cell put_tl)

text \<open>The next place for the head is the tail exactly when all cells but one are taken.\<close>

lemma put_full:
  assumes w: "ring_wf q"
  shows "(q_hd q + 1) AND mask k = q_tl q \<longleftrightarrow> ring_count q = 2 ^ k - 1"
proof
  assume h: "(q_hd q + 1) AND mask k = q_tl q"
  show "ring_count q = 2 ^ k - 1"
  proof (rule ccontr)
    assume "ring_count q \<noteq> 2 ^ k - 1"
    then have "ring_count q < 2 ^ k - 1" using ring_count_less [of q] by simp
    then have "ring_list (putq 0 q) \<noteq> []" using put_list [OF w, of 0] by simp
    then show False using ring_empty [OF put_wf [OF w]] h by (simp add: put_hd put_tl)
  qed
next
  assume c: "ring_count q = 2 ^ k - 1"
  have b: "unat (q_hd q) < 2 ^ k" "unat (q_tl q) < 2 ^ k" using w by (simp_all add: ring_wf_def)
  have "(unat (q_hd q) + 1) mod 2 ^ k = (unat (q_tl q) + (ring_count q + 1)) mod 2 ^ k"
    using hd_pos [OF w] by (metis add.assoc mod_add_left_eq)
  also have "\<dots> = unat (q_tl q)" using c b by simp
  finally show "(q_hd q + 1) AND mask k = q_tl q" using unat_next [OF b(1)] by (simp add: word_unat_eq_iff)
qed

lemma get_count:
  assumes w: "ring_wf q" and "ring_list q \<noteq> []"
  shows "ring_count (snd (getq q)) = ring_count q - 1"
proof -
  have b: "unat (q_hd q) < 2 ^ k" "unat (q_tl q) < 2 ^ k" using w by (simp_all add: ring_wf_def)
  have h: "unat (q_tl (snd (getq q))) = (unat (q_tl q) + 1) mod 2 ^ k" "unat (q_hd (snd (getq q))) = unat (q_hd q)"
    using b by (simp_all add: get_hd get_tl unat_next)
  have ne: "unat (q_hd q) \<noteq> unat (q_tl q)" using assms ring_empty [OF w] by (auto simp: word_unat_eq_iff)
  show ?thesis
  proof (cases "unat (q_tl q) + 1 = 2 ^ k")
    case True
    then show ?thesis using h b ne count_eq [OF w] count_eq [OF get_wf [OF w]] by (auto split: if_splits)
  next
    case False
    then have "unat (q_tl (snd (getq q))) = unat (q_tl q) + 1" using h b by simp
    then show ?thesis using h b ne count_eq [OF w] count_eq [OF get_wf [OF w]] by (auto split: if_splits)
  qed
qed

lemma get_list:
  assumes w: "ring_wf q" and ne: "ring_list q \<noteq> []"
  shows "ring_list q = fst (getq q) # ring_list (snd (getq q))"
proof -
  have c: "0 < ring_count q" using ne by (metis length_ring length_greater_0_conv)
  have b: "unat (q_tl q) < 2 ^ k" using w by (simp add: ring_wf_def)
  have t: "unat (q_tl (snd (getq q))) = (unat (q_tl q) + 1) mod 2 ^ k" using b by (simp add: get_tl unat_next)
  have "[0..<ring_count q] = 0 # map Suc [0..<ring_count q - 1]" using c by (metis Suc_pred' map_Suc_upt upt_conv_Cons)
  then show ?thesis
    using b by (simp add: ring_list_def get_val get_cell get_count [OF w ne] t mod_add_left_eq add.commute comp_def) (simp add: mod_simps)
qed

text \<open>A ring whose tail has been given the value of its head, or the other way round, is empty.\<close>

lemma ring_flush: "ring_wf q \<Longrightarrow> q_hd q = q_tl q \<Longrightarrow> ring_list q = []"
  by (simp add: ring_empty)

lemma puts_list:
  "ring_wf q \<Longrightarrow> ring_count q + length cs < 2 ^ k \<Longrightarrow>
   ring_list (fold putq cs q) = ring_list q @ cs \<and> ring_wf (fold putq cs q)"
proof (induction cs arbitrary: q)
  case (Cons c cs)
  have "ring_list (putq c q) = ring_list q @ [c]" "ring_count (putq c q) = ring_count q + 1"
    using Cons.prems put_list put_count by auto
  then show ?case using Cons.IH [OF put_wf [OF Cons.prems(1)]] Cons.prems by simp
qed simp

end

end
