(* ===== verification/Tty.thy ===== *)
theory Tty
  imports User_Area Ring Console_Props
begin

text \<open>
  Terminals: \<^verbatim>\<open>src/kernel/tty_io.c\<close>, \<^verbatim>\<open>src/include/linux/tty.h\<close>, \<^verbatim>\<open>src/include/ctype.h\<close>, \<^verbatim>\<open>src/lib/ctype.c\<close>, \<^verbatim>\<open>con_write\<close> and \<^verbatim>\<open>respond\<close> of
  \<^verbatim>\<open>src/kernel/console.c\<close> and \<^verbatim>\<open>src/fs/tty_ioctl.c\<close>.

  A terminal is referred to by its index in \<^verbatim>\<open>tty_table\<close>. The function pointer \<^verbatim>\<open>write\<close> of a terminal is a value of \<open>tty_writer\<close>. The serial lines are
  driven by the interrupt routines of \<^verbatim>\<open>rs_io.s\<close>, in \<^verbatim>\<open>Serial_Int\<close>; \<^verbatim>\<open>rs_write\<close> only enables their interrupt.
\<close>

section \<open>Queues\<close>

record tty_queue =
  q_data :: u32
  q_head :: u32
  q_tail :: u32
  q_proc_list :: u32
  q_buf :: "nat \<Rightarrow> u8"

definition TTY_BUF_SIZE :: u32 where "TTY_BUF_SIZE = 1024"

definition EMPTY :: "tty_queue \<Rightarrow> bool" where "EMPTY a \<longleftrightarrow> q_head a = q_tail a"
definition LEFT :: "tty_queue \<Rightarrow> u32" where "LEFT a = (q_tail a - q_head a - 1) AND (TTY_BUF_SIZE - 1)"
definition FULL :: "tty_queue \<Rightarrow> bool" where "FULL a \<longleftrightarrow> LEFT a = 0"
definition CHARS :: "tty_queue \<Rightarrow> u32" where "CHARS a = (q_head a - q_tail a) AND (TTY_BUF_SIZE - 1)"
definition LAST :: "tty_queue \<Rightarrow> u8" where "LAST a = q_buf a (unat ((TTY_BUF_SIZE - 1) AND (q_head a - 1)))"

definition INC :: "u32 \<Rightarrow> u32" where "INC a = (a + 1) AND (TTY_BUF_SIZE - 1)"
definition DEC :: "u32 \<Rightarrow> u32" where "DEC a = (a - 1) AND (TTY_BUF_SIZE - 1)"

definition GETCH :: "tty_queue \<Rightarrow> u8 \<times> tty_queue" where
  "GETCH a = (q_buf a (unat (q_tail a)), a\<lparr>q_tail := INC (q_tail a)\<rparr>)"

definition PUTCH :: "u8 \<Rightarrow> tty_queue \<Rightarrow> tty_queue" where
  "PUTCH c a = a\<lparr>q_buf := (q_buf a)(unat (q_head a) := c), q_head := INC (q_head a)\<rparr>"

lemma tty_mask: "TTY_BUF_SIZE - 1 = mask 10"
  by (simp add: TTY_BUF_SIZE_def mask_eq_exp_minus_1)

interpretation tty_ring: ring_buffer 10 q_head q_tail q_buf PUTCH GETCH
  by unfold_locales (simp_all add: PUTCH_def GETCH_def INC_def tty_mask)

section \<open>Terminals\<close>

record termios =
  c_iflag :: u32
  c_oflag :: u32
  c_cflag :: u32
  c_lflag :: u32
  c_line :: u8
  c_cc :: "nat \<Rightarrow> u8"

datatype tty_writer = Con_write | Rs_write

record tty_struct =
  tt_termios :: termios
  tt_pgrp :: int
  tt_stopped :: int
  tt_write :: tty_writer
  read_q :: tty_queue
  write_q :: tty_queue
  secondary :: tty_queue

record ttyst = fs +
  tty_table :: "nat \<Rightarrow> tty_struct"
  console :: con
  cr_flag :: bool

definition upd_tty :: "nat \<Rightarrow> (tty_struct \<Rightarrow> tty_struct) \<Rightarrow> 'z ttyst_scheme \<Rightarrow> 'z ttyst_scheme" where
  "upd_tty t f s = s\<lparr>tty_table := (tty_table s)(t := f (tty_table s t))\<rparr>"

definition VINTR :: nat where "VINTR = 0"
definition VERASE :: nat where "VERASE = 2"
definition VEOF :: nat where "VEOF = 4"
definition VTIME :: nat where "VTIME = 5"
definition VMIN :: nat where "VMIN = 6"
definition VSTART :: nat where "VSTART = 8"
definition VSTOP :: nat where "VSTOP = 9"

definition cc :: "nat \<Rightarrow> tty_struct \<Rightarrow> int" where
  "cc k t = uint (c_cc (tt_termios t) k)"

definition L_FLAG :: "u32 \<Rightarrow> tty_struct \<Rightarrow> bool" where "L_FLAG f t \<longleftrightarrow> c_lflag (tt_termios t) AND f \<noteq> 0"
definition I_FLAG :: "u32 \<Rightarrow> tty_struct \<Rightarrow> bool" where "I_FLAG f t \<longleftrightarrow> c_iflag (tt_termios t) AND f \<noteq> 0"
definition O_FLAG :: "u32 \<Rightarrow> tty_struct \<Rightarrow> bool" where "O_FLAG f t \<longleftrightarrow> c_oflag (tt_termios t) AND f \<noteq> 0"

definition ISIG :: u32 where "ISIG = 1"
definition ICANON :: u32 where "ICANON = 2"
definition ECHO :: u32 where "ECHO = 8"
definition ECHOCTL :: u32 where "ECHOCTL = 0x200"
definition ECHOKE :: u32 where "ECHOKE = 0x800"
definition INLCR :: u32 where "INLCR = 0x40"
definition IGNCR :: u32 where "IGNCR = 0x80"
definition ICRNL :: u32 where "ICRNL = 0x100"
definition IUCLC :: u32 where "IUCLC = 0x200"
definition OPOST :: u32 where "OPOST = 1"
definition OLCUC :: u32 where "OLCUC = 2"
definition ONLCR :: u32 where "ONLCR = 4"
definition OCRNL :: u32 where "OCRNL = 8"
definition ONLRET :: u32 where "ONLRET = 0x20"

definition INIT_C_CC :: "nat \<Rightarrow> u8" where
  "INIT_C_CC i = (if i < 17 then [3, 28, 127, 21, 4, 0, 1, 0, 17, 19, 25, 0, 18, 15, 23, 22, 0] ! i else 0)"

definition empty_queue :: "u32 \<Rightarrow> tty_queue" where
  "empty_queue d = \<lparr>q_data = d, q_head = 0, q_tail = 0, q_proc_list = 0, q_buf = (\<lambda>_. 0)\<rparr>"

definition init_tty_table :: "nat \<Rightarrow> tty_struct" where
  "init_tty_table t =
     (if t = 0 then \<lparr>tt_termios = \<lparr>c_iflag = 0, c_oflag = OPOST OR ONLCR, c_cflag = 0, c_lflag = ICANON OR ECHO OR ECHOCTL OR ECHOKE, c_line = 0, c_cc = INIT_C_CC\<rparr>,
        tt_pgrp = 0, tt_stopped = 0, tt_write = Con_write, read_q = empty_queue 0, write_q = empty_queue 0, secondary = empty_queue 0\<rparr>
      else let port = (if t = 1 then 0x3f8 else 0x2f8) in
       \<lparr>tt_termios = \<lparr>c_iflag = 0, c_oflag = OPOST OR ONLRET, c_cflag = 0x3B, c_lflag = 0, c_line = 0, c_cc = INIT_C_CC\<rparr>,
        tt_pgrp = 0, tt_stopped = 0, tt_write = Rs_write, read_q = empty_queue port, write_q = empty_queue port, secondary = empty_queue 0\<rparr>)"

section \<open>Character types\<close>

text \<open>\<^verbatim>\<open>_ctype\<close>, whose element 0 is for the character -1.\<close>

definition ctype_table :: "u8 list" where
  "ctype_table = [0] @ replicate 9 8 @ replicate 5 0x28 @ replicate 18 8 @ [0xA0] @ replicate 15 0x10 @ replicate 10 4 @ replicate 7 0x10
     @ replicate 6 0x41 @ replicate 20 1 @ replicate 6 0x10 @ replicate 6 0x42 @ replicate 20 2 @ replicate 4 0x10 @ [8] @ replicate 128 0"

text \<open>\<^verbatim>\<open>(_ctype+1)[c] & m\<close>; there is no such element for characters below -1, which a signed char can be.\<close>

definition ctype_is :: "u8 \<Rightarrow> int \<Rightarrow> bool option" where
  "ctype_is m c = (if - 1 \<le> c \<and> c \<le> 255 then Some (ctype_table ! nat (c + 1) AND m \<noteq> 0) else None)"

definition char_of_int :: "int \<Rightarrow> int" where
  "char_of_int c = sint (word_of_int c :: u8)"

text \<open>\<^verbatim>\<open>tolower\<close> adds \<^verbatim>\<open>'a'+'A'\<close>; \<^verbatim>\<open>toupper\<close> adds \<^verbatim>\<open>'A'-'a'\<close>. Both results are stored in a char.\<close>

definition tolower :: "int \<Rightarrow> int option" where
  "tolower c = map_option (\<lambda>u. char_of_int (if u then c + (97 + 65) else c)) (ctype_is 1 c)"

definition toupper :: "int \<Rightarrow> int option" where
  "toupper c = map_option (\<lambda>l. char_of_int (if l then c + (65 - 97) else c)) (ctype_is 2 c)"

section \<open>Input and output processing\<close>

definition tty_intr :: "nat \<Rightarrow> nat \<Rightarrow> 'z ttyst_scheme \<Rightarrow> 'z ttyst_scheme" where
  "tty_intr t sig s =
     (if tt_pgrp (tty_table s t) \<le> 0 then s
      else fold (\<lambda>i s. if task s i \<noteq> 0 \<and> t_pgrp (tstruct s (task s i)) = tt_pgrp (tty_table s t)
             then upd_task (task s i) (\<lambda>p. p\<lparr>t_signal := t_signal p OR push_bit (sig - 1) 1\<rparr>) s else s) [0..<NR_TASKS] s)"

definition secondary_waitq :: "nat \<Rightarrow> 'z ttyst_scheme waitq" where
  "secondary_waitq t = \<lparr>wq_get = (\<lambda>s. q_proc_list (secondary (tty_table s t))),
     wq_set = (\<lambda>p. upd_tty t (\<lambda>y. y\<lparr>secondary := (secondary y)\<lparr>q_proc_list := p\<rparr>\<rparr>))\<rparr>"

definition write_waitq :: "nat \<Rightarrow> 'z ttyst_scheme waitq" where
  "write_waitq t = \<lparr>wq_get = (\<lambda>s. q_proc_list (write_q (tty_table s t))),
     wq_set = (\<lambda>p. upd_tty t (\<lambda>y. y\<lparr>write_q := (write_q y)\<lparr>q_proc_list := p\<rparr>\<rparr>))\<rparr>"

interpretation secondary_wait_queue: wait_queue "secondary_waitq t" for t
  by unfold_locales (simp_all add: secondary_waitq_def upd_tty_def)

interpretation write_wait_queue: wait_queue "write_waitq t" for t
  by unfold_locales (simp_all add: write_waitq_def upd_tty_def)

definition put_write :: "int \<Rightarrow> tty_struct \<Rightarrow> tty_struct" where
  "put_write c y = y\<lparr>write_q := PUTCH (word_of_int c) (write_q y)\<rparr>"

definition put_secondary :: "int \<Rightarrow> tty_struct \<Rightarrow> tty_struct" where
  "put_secondary c y = y\<lparr>secondary := PUTCH (word_of_int c) (secondary y)\<rparr>"

text \<open>
  One round of \<^verbatim>\<open>copy_to_cooked\<close>, up to the point where the terminal's \<^verbatim>\<open>write\<close> is called. \<open>Next\<close> is a \<^verbatim>\<open>continue\<close> without a call, \<open>Write\<close> a call
  followed by the given change of the terminal.
\<close>

datatype 's cooked = Next 's | Write 's "tty_struct \<Rightarrow> tty_struct"

text \<open>Carriage return, newline and case: \<open>None\<close> if the character is dropped, the inner option for the undefined \<^verbatim>\<open>tolower\<close>.\<close>

definition cook_map :: "tty_struct \<Rightarrow> int \<Rightarrow> int option option" where
  "cook_map y c =
     (if c = 13 \<and> \<not> I_FLAG ICRNL y \<and> I_FLAG IGNCR y then None
      else let c1 = (if c = 13 then (if I_FLAG ICRNL y then 10 else c) else if c = 10 \<and> I_FLAG INLCR y then 13 else c)
           in Some (if I_FLAG IUCLC y then tolower c1 else Some c1))"

text \<open>The echo of an ordinary character.\<close>

definition echo_char :: "int \<Rightarrow> tty_struct \<Rightarrow> tty_struct" where
  "echo_char c y =
     (if c = 10 then put_write 13 (put_write 10 y)
      else if c < 32 then (if L_FLAG ECHOCTL y then put_write (c + 64) (put_write 94 y) else y)
      else put_write c y)"

definition cook_char :: "nat \<Rightarrow> int \<Rightarrow> 'z ttyst_scheme \<Rightarrow> 'z ttyst_scheme cooked" where
  "cook_char t c s =
     (let y = tty_table s t in
      if L_FLAG ICANON y \<and> c = cc VERASE y then
        let l = sint (LAST (secondary y)) in
        if EMPTY (secondary y) \<or> l = 10 \<or> l = cc VEOF y then Next s
        else let back = (\<lambda>y. y\<lparr>secondary := (secondary y)\<lparr>q_head := DEC (q_head (secondary y))\<rparr>\<rparr>) in
          if L_FLAG ECHO y then Write (upd_tty t (\<lambda>y. put_write 127 (if l < 32 then put_write 127 y else y)) s) back
          else Next (upd_tty t back s)
      else if L_FLAG ICANON y \<and> c = cc VSTOP y then Next (upd_tty t (\<lambda>y. y\<lparr>tt_stopped := 1\<rparr>) s)
      else if L_FLAG ICANON y \<and> c = cc VSTART y then Next (upd_tty t (\<lambda>y. y\<lparr>tt_stopped := 0\<rparr>) s)
      else if \<not> L_FLAG ISIG y \<and> c = cc VINTR y then Next (tty_intr t 2 s)
      else let s1 = (if c = 10 \<or> c = cc VEOF y
                     then upd_tty t (\<lambda>y. y\<lparr>secondary := (secondary y)\<lparr>q_data := q_data (secondary y) + 1\<rparr>\<rparr>) s else s)
           in if L_FLAG ECHO y then Write (upd_tty t (echo_char c) s1) (put_secondary c)
              else Next (upd_tty t (put_secondary c) s1))"

text \<open>
  \<^verbatim>\<open>con_write\<close>, \<^verbatim>\<open>respond\<close> and \<^verbatim>\<open>copy_to_cooked\<close> call each other: the reply to a query is put into the read queue and cooked, and the echo of
  that is written again. \<open>Con n t\<close> is the loop of \<^verbatim>\<open>con_write\<close> with \<open>n\<close> characters to go, \<open>Cooked t\<close> the loop of \<^verbatim>\<open>copy_to_cooked\<close>. \<open>None\<close>: the calls
  nest forever or a character type is looked up out of range.
\<close>

datatype tty_job = Con nat nat | Cooked nat

definition respond_chars :: "u8 list" where
  "respond_chars = [27, 0x5B, 0x3F, 0x31, 0x3B, 0x32, 0x63]"

partial_function (option) tty_run :: "tty_job \<Rightarrow> 'z ttyst_scheme \<Rightarrow> 'z ttyst_scheme option" where
  "tty_run j s = (case j of
     Con n t \<Rightarrow>
       (if n = 0 then Some s
        else let (c, wq) = GETCH (write_q (tty_table s t));
                 (v, r) = con_char (c_cc (tt_termios (tty_table s t)) VERASE) c (console s);
                 s1 = (upd_tty t (\<lambda>y. y\<lparr>write_q := wq\<rparr>) s)\<lparr>console := v\<rparr>
             in Option.bind
                  (if r then tty_run (Cooked t) (upd_tty t (\<lambda>y. y\<lparr>read_q := fold PUTCH respond_chars (read_q y)\<rparr>) s1) else Some s1)
                  (\<lambda>s2. tty_run (Con (n - 1) t) s2))
   | Cooked t \<Rightarrow>
       (if EMPTY (read_q (tty_table s t)) \<or> FULL (secondary (tty_table s t)) then Some (wake_up (Some (secondary_waitq t)) s)
        else let (c, rq) = GETCH (read_q (tty_table s t)); s1 = upd_tty t (\<lambda>y. y\<lparr>read_q := rq\<rparr>) s
             in case cook_map (tty_table s t) (sint c) of
                  None \<Rightarrow> tty_run (Cooked t) s1
                | Some None \<Rightarrow> None
                | Some (Some c') \<Rightarrow>
                    (case cook_char t c' s1 of
                       Next s2 \<Rightarrow> tty_run (Cooked t) s2
                     | Write s2 after \<Rightarrow>
                         Option.bind
                           (if tt_write (tty_table s2 t) = Con_write then tty_run (Con (unat (CHARS (write_q (tty_table s2 t)))) t) s2 else Some s2)
                           (\<lambda>s3. tty_run (Cooked t) (upd_tty t after s3)))))"

definition con_write :: "nat \<Rightarrow> 'z ttyst_scheme \<Rightarrow> 'z ttyst_scheme option" where
  "con_write t s = tty_run (Con (unat (CHARS (write_q (tty_table s t)))) t) s"

definition rs_write :: "nat \<Rightarrow> 'z ttyst_scheme \<Rightarrow> 'z ttyst_scheme option" where
  "rs_write t s = Some s"

definition copy_to_cooked :: "nat \<Rightarrow> 'z ttyst_scheme \<Rightarrow> 'z ttyst_scheme option" where
  "copy_to_cooked t s = tty_run (Cooked t) s"

definition do_tty_interrupt :: "nat \<Rightarrow> 'z ttyst_scheme \<Rightarrow> 'z ttyst_scheme option" where
  "do_tty_interrupt t s = copy_to_cooked t s"

definition tty_write_fn :: "nat \<Rightarrow> ('z ttyst_scheme, unit) km" where
  "tty_write_fn t = bnd (gets (\<lambda>s. tt_write (tty_table s t))) (\<lambda>w.
     liftO ''terminal output'' (case w of Con_write \<Rightarrow> con_write t | Rs_write \<Rightarrow> rs_write t))"

definition tty_init :: "u8 \<Rightarrow> u8 \<Rightarrow> 'z ttyst_scheme \<Rightarrow> 'z ttyst_scheme" where
  "tty_init col row s = s\<lparr>console := con_init col row (console s)\<rparr>"

end
