(* ===== verification/Tty_Calls.thy ===== *)
theory Tty_Calls
  imports Tty
begin

text \<open>
  Reading and writing a terminal (\<^verbatim>\<open>tty_read\<close>, \<^verbatim>\<open>tty_write\<close> of \<^verbatim>\<open>src/kernel/tty_io.c\<close>) and its control operations (\<^verbatim>\<open>src/fs/tty_ioctl.c\<close>).
\<close>

section \<open>Waiting\<close>

definition sleep_if_empty :: "nat \<Rightarrow> ('z ttyst_scheme, unit) km" where
  "sleep_if_empty t = loopX (\<lambda>_. 0) (\<lambda>_ :: unit.
     bnd (gets (\<lambda>s. t_signal (cur s) = 0 \<and> EMPTY (secondary (tty_table s t)))) (\<lambda>wait.
       if wait then seqK (interruptible_sleep_on (Some (secondary_waitq t))) (ret (Inl ())) else ret (Inr ()))) ()"

definition sleep_if_full :: "nat \<Rightarrow> ('z ttyst_scheme, unit) km" where
  "sleep_if_full t =
     bnd (gets (\<lambda>s. FULL (write_q (tty_table s t)))) (\<lambda>full.
       if \<not> full then ret ()
       else loopX (\<lambda>_. 0) (\<lambda>_ :: unit.
         bnd (gets (\<lambda>s. t_signal (cur s) = 0 \<and> LEFT (write_q (tty_table s t)) < 128)) (\<lambda>wait.
           if wait then seqK (interruptible_sleep_on (Some (write_waitq t))) (ret (Inl ())) else ret (Inr ()))) ())"

section \<open>Reading\<close>

definition ALRMMASK :: u32 where "ALRMMASK = push_bit (SIGALRM - 1) 1"

definition set_alarm :: "int \<Rightarrow> 'z sched_scheme \<Rightarrow> 'z sched_scheme" where
  "set_alarm a = upd_cur (\<lambda>t. t\<lparr>t_alarm := a\<rparr>)"

text \<open>\<^verbatim>\<open>flag=(!oldalarm || time+jiffies<oldalarm)\<close>\<close>

definition alarm_first :: "int \<Rightarrow> int \<Rightarrow> 'z sched_scheme \<Rightarrow> bool" where
  "alarm_first oldalarm time s \<longleftrightarrow> oldalarm = 0 \<or> wrap32 (time + jiffies s) < oldalarm"

text \<open>
  The \<^verbatim>\<open>do ... while\<close> of \<^verbatim>\<open>tty_read\<close>: \<open>b\<close> characters are in the buffer, \<open>nr\<close> are still wanted. \<open>Inr\<close>: an end-of-file character ends the call.
\<close>

primrec take_chars :: "nat \<Rightarrow> u32 \<Rightarrow> nat \<Rightarrow> nat \<Rightarrow> 'z ttyst_scheme \<Rightarrow> (nat \<times> nat + nat) \<times> 'z ttyst_scheme" where
  "take_chars t buf b 0 s = (Inl (b, 0), s)"
| "take_chars t buf b (Suc n) s =
     (let (c, q) = GETCH (secondary (tty_table s t));
          y = tty_table s t;
          q' = (if sint c = cc VEOF y \<or> c = 10 then q\<lparr>q_data := q_data q - 1\<rparr> else q);
          s1 = upd_tty t (\<lambda>y. y\<lparr>secondary := q'\<rparr>) s
      in if sint c = cc VEOF y \<and> L_FLAG ICANON y then (Inr b, s1)
         else let s2 = put_fs_byte c (buf + of_nat b) s1
              in if n = 0 \<or> EMPTY q' then (Inl (b + 1, n), s2) else take_chars t buf (b + 1) n s2)"

text \<open>One round of the main loop; the loop variables are \<^verbatim>\<open>b - buf\<close>, \<^verbatim>\<open>nr\<close> and \<^verbatim>\<open>flag\<close>. \<open>Inr (Inl r)\<close> is a \<^verbatim>\<open>return\<close>, \<open>Inr (Inr b)\<close> a \<^verbatim>\<open>break\<close>.\<close>

definition tty_read_round ::
  "nat \<Rightarrow> u32 \<Rightarrow> int \<Rightarrow> int \<Rightarrow> nat \<Rightarrow> nat \<times> nat \<times> bool \<Rightarrow> ('z ttyst_scheme, (nat \<times> nat \<times> bool) + (nat + nat)) km" where
  "tty_read_round t buf oldalarm time minimum x = (case x of (b, nr, flag) \<Rightarrow>
     if nr = 0 then ret (Inr (Inr b))
     else bnd (gets (\<lambda>s. (t_signal (cur s), tty_table s t))) (\<lambda>(sg, y).
       if flag \<and> sg AND ALRMMASK \<noteq> 0 then
         seqK (modify (upd_cur (\<lambda>p. p\<lparr>t_signal := t_signal p AND NOT ALRMMASK\<rparr>))) (ret (Inr (Inr b)))
       else if sg \<noteq> 0 then ret (Inr (Inr b))
       else if EMPTY (secondary y) \<or> (L_FLAG ICANON y \<and> q_data (secondary y) = 0 \<and> LEFT (secondary y) > 20) then
         seqK (sleep_if_empty t) (ret (Inl (b, nr, flag)))
       else bnd (runst (take_chars t buf b nr)) (\<lambda>r. case r of
           Inr b' \<Rightarrow> ret (Inr (Inl b'))
         | Inl (b', nr') \<Rightarrow>
             bnd (gets (\<lambda>s. (L_FLAG ICANON (tty_table s t), alarm_first oldalarm time s, wrap32 (time + jiffies s)))) (\<lambda>(canon, first, a).
               let again = (if time \<noteq> 0 \<and> \<not> canon then first else flag) in
               seqK (whenK (time \<noteq> 0 \<and> \<not> canon) (modify (set_alarm (if first then a else oldalarm))))
                 (if canon then (if b' \<noteq> 0 then ret (Inr (Inr b')) else ret (Inl (b', nr', again)))
                  else if minimum \<le> b' then ret (Inr (Inr b')) else ret (Inl (b', nr', again)))))))"

definition tty_read :: "nat \<Rightarrow> u32 \<Rightarrow> int \<Rightarrow> ('z ttyst_scheme, int) km" where
  "tty_read channel buf nr =
     (if channel > 2 \<or> nr < 0 then ret (- 1)
      else bnd (gets (\<lambda>s. (t_alarm (cur s), 10 * cc VTIME (tty_table s channel), cc VMIN (tty_table s channel)))) (\<lambda>(oldalarm, time, vmin).
        bnd (gets (\<lambda>s. (time \<noteq> 0 \<and> vmin = 0 \<and> alarm_first oldalarm time s, wrap32 (time + jiffies s)))) (\<lambda>(flag, a).
          let minimum = nat (min (if time \<noteq> 0 \<and> vmin = 0 then 1 else vmin) nr) in
          seqK (whenK flag (modify (set_alarm a)))
            (bnd (loopX (\<lambda>(b, n, f). n) (tty_read_round channel buf oldalarm time minimum) (0, nat nr, flag)) (\<lambda>r. case r of
               Inl b \<Rightarrow> ret (int b)
             | Inr b \<Rightarrow>
                 seqK (modify (set_alarm oldalarm))
                   (bnd (gets (\<lambda>s. t_signal (cur s))) (\<lambda>sg.
                     if sg \<noteq> 0 \<and> b = 0 then ret (- EINTR) else ret (int b))))))))"

section \<open>Writing\<close>

text \<open>Output processing of one character: \<open>None\<close> if \<^verbatim>\<open>toupper\<close> is undefined. The flag tells whether the character was consumed.\<close>

definition post_char :: "nat \<Rightarrow> int \<Rightarrow> 'z ttyst_scheme \<Rightarrow> (bool \<times> 'z ttyst_scheme) option" where
  "post_char t c0 s =
     (let y = tty_table s t in
      if O_FLAG OPOST y then
        let c1 = (if c0 = 13 \<and> O_FLAG OCRNL y then 10 else if c0 = 10 \<and> O_FLAG ONLRET y then 13 else c0) in
        if c1 = 10 \<and> \<not> cr_flag s \<and> O_FLAG ONLCR y then Some (False, (upd_tty t (put_write 13) s)\<lparr>cr_flag := True\<rparr>)
        else map_option (\<lambda>c. (True, (upd_tty t (put_write c) s)\<lparr>cr_flag := False\<rparr>)) (if O_FLAG OLCUC y then toupper c1 else Some c1)
      else Some (True, (upd_tty t (put_write c0) s)\<lparr>cr_flag := False\<rparr>))"

text \<open>
  The inner loop of \<^verbatim>\<open>tty_write\<close>. Every round puts a character into the queue, so it runs at most as often as there is room; \<open>fuel\<close> is the size of the
  queue. The result is the number of characters consumed and the number left.
\<close>

primrec put_chars :: "nat \<Rightarrow> nat \<Rightarrow> u32 \<Rightarrow> nat \<Rightarrow> nat \<Rightarrow> 'z ttyst_scheme \<Rightarrow> (nat \<times> nat \<times> 'z ttyst_scheme) option" where
  "put_chars 0 t buf b nr s = Some (b, nr, s)"
| "put_chars (Suc fuel) t buf b nr s =
     (if nr = 0 \<or> FULL (write_q (tty_table s t)) then Some (b, nr, s)
      else case post_char t (sint (get_fs_byte (buf + of_nat b) s)) s of
        None \<Rightarrow> None
      | Some (True, s') \<Rightarrow> put_chars fuel t buf (b + 1) (nr - 1) s'
      | Some (False, s') \<Rightarrow> put_chars fuel t buf b nr s')"

definition tty_write_round :: "nat \<Rightarrow> u32 \<Rightarrow> nat \<times> nat \<Rightarrow> ('z ttyst_scheme, (nat \<times> nat) + nat) km" where
  "tty_write_round t buf x = (case x of (b, nr) \<Rightarrow>
     if nr = 0 then ret (Inr b)
     else seqK (sleep_if_full t)
       (bnd (gets (\<lambda>s. t_signal (cur s))) (\<lambda>sg.
         if sg \<noteq> 0 then ret (Inr b)
         else (\<lambda>s e. case put_chars (unat TTY_BUF_SIZE) t buf b nr s of
             None \<Rightarrow> Fault ''character type'' s
           | Some (b', nr', s') \<Rightarrow>
               seqK (tty_write_fn t) (seqK (whenK (nr' > 0) schedule) (ret (Inl (b', nr')))) s' e))))"

definition tty_write :: "nat \<Rightarrow> u32 \<Rightarrow> int \<Rightarrow> ('z ttyst_scheme, int) km" where
  "tty_write channel buf nr =
     (if channel > 2 \<or> nr < 0 then ret (- 1)
      else bnd (loopX snd (tty_write_round channel buf) (0, nat nr)) (\<lambda>b. ret (int b)))"

section \<open>Control\<close>

definition flush_q :: "tty_queue \<Rightarrow> tty_queue" where
  "flush_q q = q\<lparr>q_head := q_tail q\<rparr>"

text \<open>The bytes of \<^verbatim>\<open>struct termios\<close> (36 with the padding at the end) and of \<^verbatim>\<open>struct termio\<close> (18, one of padding).\<close>

definition le32 :: "u32 \<Rightarrow> u8 list" where
  "le32 w = [ucast w, ucast (drop_bit 8 w), ucast (drop_bit 16 w), ucast (drop_bit 24 w)]"

definition le16 :: "u32 \<Rightarrow> u8 list" where
  "le16 w = [ucast w, ucast (drop_bit 8 w)]"

definition put_fs_bytes :: "u8 list \<Rightarrow> u32 \<Rightarrow> 'z sched_scheme \<Rightarrow> 'z sched_scheme" where
  "put_fs_bytes bs a s = fold (\<lambda>i. put_fs_byte (bs ! i) (a + of_nat i)) [0..<length bs] s"

definition termios_bytes :: "termios \<Rightarrow> u8 list" where
  "termios_bytes t = le32 (c_iflag t) @ le32 (c_oflag t) @ le32 (c_cflag t) @ le32 (c_lflag t) @ [c_line t] @ map (c_cc t) [0..<17]"

definition termio_bytes :: "termios \<Rightarrow> u8 list" where
  "termio_bytes t = le16 (c_iflag t) @ le16 (c_oflag t) @ le16 (c_cflag t) @ le16 (c_lflag t) @ [c_line t] @ map (c_cc t) [0..<8]"

text \<open>
  \<^verbatim>\<open>get_termios\<close> copies the padding bytes of the structures as well; their contents are indeterminate and the model leaves the user's bytes
  there unchanged.
\<close>

definition get_termios :: "nat \<Rightarrow> u32 \<Rightarrow> ('z ttyst_scheme, int) km" where
  "get_termios t a = seqK (verify_area a 36)
     (seqK (modify (\<lambda>s. put_fs_bytes (termios_bytes (tt_termios (tty_table s t))) a s)) (ret 0))"

definition get_termio :: "nat \<Rightarrow> u32 \<Rightarrow> ('z ttyst_scheme, int) km" where
  "get_termio t a = seqK (verify_area a 18)
     (seqK (modify (\<lambda>s. put_fs_bytes (termio_bytes (tt_termios (tty_table s t))) a s)) (ret 0))"

definition set_termios :: "nat \<Rightarrow> u32 \<Rightarrow> ('z ttyst_scheme, int) km" where
  "set_termios t a = seqK (modify (\<lambda>s. upd_tty t (\<lambda>y. y\<lparr>tt_termios :=
     \<lparr>c_iflag = get_fs_long a s, c_oflag = get_fs_long (a + 4) s, c_cflag = get_fs_long (a + 8) s, c_lflag = get_fs_long (a + 12) s,
      c_line = get_fs_byte (a + 16) s, c_cc = (\<lambda>i. if i < 17 then get_fs_byte (a + 17 + of_nat i) s else c_cc (tt_termios y) i)\<rparr>\<rparr>) s)) (ret 0)"

text \<open>\<^verbatim>\<open>set_termio\<close> stores the low halves of the flags.\<close>

definition low16 :: "u32 \<Rightarrow> u16 \<Rightarrow> u32" where
  "low16 w v = (w AND 0xffff0000) OR ucast v"

definition set_termio :: "nat \<Rightarrow> u32 \<Rightarrow> ('z ttyst_scheme, int) km" where
  "set_termio t a = seqK (modify (\<lambda>s. upd_tty t (\<lambda>y. y\<lparr>tt_termios := let o' = tt_termios y in
     \<lparr>c_iflag = low16 (c_iflag o') (get_fs_word a s), c_oflag = low16 (c_oflag o') (get_fs_word (a + 2) s),
      c_cflag = low16 (c_cflag o') (get_fs_word (a + 4) s), c_lflag = low16 (c_lflag o') (get_fs_word (a + 6) s),
      c_line = get_fs_byte (a + 8) s, c_cc = (\<lambda>i. if i < 8 then get_fs_byte (a + 9 + of_nat i) s else c_cc o' i)\<rparr>\<rparr>) s)) (ret 0)"

definition flush_read :: "nat \<Rightarrow> ('z ttyst_scheme, unit) km" where
  "flush_read t = modify (upd_tty t (\<lambda>y. y\<lparr>read_q := flush_q (read_q y)\<rparr>))"

definition flush_write :: "nat \<Rightarrow> ('z ttyst_scheme, unit) km" where
  "flush_write t = modify (upd_tty t (\<lambda>y. y\<lparr>write_q := flush_q (write_q y)\<rparr>))"

text \<open>\<^verbatim>\<open>tty_ioctl\<close>; a terminal number above 2 is past the end of \<^verbatim>\<open>tty_table\<close>. All commands not listed return \<^verbatim>\<open>-EINVAL\<close>.\<close>

definition tty_ioctl :: "u16 \<Rightarrow> u32 \<Rightarrow> u32 \<Rightarrow> ('z ttyst_scheme, int) km" where
  "tty_ioctl dev cmd arg =
     bnd (gets (\<lambda>s. if MAJOR dev = 5 then t_tty (cur s) else int (MINOR dev))) (\<lambda>d.
       if d < 0 then panic ''tty_ioctl: dev<0''
       else if d > 2 then fault ''tty_table out of range''
       else let t = nat d in
         if cmd = 0x5401 then get_termios t arg
         else if cmd = 0x5404 then seqK (flush_read t) (set_termios t arg)
         else if cmd = 0x5403 \<or> cmd = 0x5402 then set_termios t arg
         else if cmd = 0x5405 then get_termio t arg
         else if cmd = 0x5408 then seqK (flush_read t) (set_termio t arg)
         else if cmd = 0x5407 \<or> cmd = 0x5406 then set_termio t arg
         else if cmd = 0x5409 then ret 0
         else if cmd = 0x540B then
           (if arg = 0 then seqK (flush_read t) (ret 0)
            else if arg = 1 then seqK (flush_write t) (ret 0)
            else if arg = 2 then seqK (flush_read t) (seqK (flush_write t) (ret 0))
            else ret (- EINVAL))
         else if cmd = 0x540F then
           seqK (verify_area arg 4) (seqK (modify (\<lambda>s. put_fs_long (word_of_int (tt_pgrp (tty_table s t))) arg s)) (ret 0))
         else if cmd = 0x5410 then
           seqK (modify (\<lambda>s. upd_tty t (\<lambda>y. y\<lparr>tt_pgrp := sint (get_fs_long arg s)\<rparr>) s)) (ret 0)
         else if cmd = 0x5411 then
           seqK (verify_area arg 4) (seqK (modify (\<lambda>s. put_fs_long (CHARS (write_q (tty_table s t))) arg s)) (ret 0))
         else ret (- EINVAL))"

end
