(* ===== verification/Files.thy ===== *)
theory Files
  imports Tty_Calls
begin

text \<open>
  Reading and writing through file descriptors: \<^verbatim>\<open>src/fs/file_dev.c\<close>, \<^verbatim>\<open>block_dev.c\<close>, \<^verbatim>\<open>char_dev.c\<close>, \<^verbatim>\<open>pipe.c\<close> and \<^verbatim>\<open>read_write.c\<close>.

  The contents of a pipe are in a page of physical memory, whose address is in \<^verbatim>\<open>i_size\<close>. Where a loop would run over the end of a block buffer, or in front
  of it, the model faults.
\<close>

section \<open>Copying between the kernel and user memory\<close>

definition to_user :: "(nat \<Rightarrow> u8) \<Rightarrow> nat \<Rightarrow> nat \<Rightarrow> u32 \<Rightarrow> 'z sched_scheme \<Rightarrow> 'z sched_scheme" where
  "to_user D off n buf s = fold (\<lambda>i. put_fs_byte (D (off + i)) (buf + of_nat i)) [0..<n] s"

definition from_user :: "nat \<Rightarrow> nat \<Rightarrow> u32 \<Rightarrow> 'z sched_scheme \<Rightarrow> (nat \<Rightarrow> u8) \<Rightarrow> nat \<Rightarrow> u8" where
  "from_user off n buf s D = (\<lambda>k. if off \<le> k \<and> k < off + n then get_fs_byte (buf + of_nat (k - off)) s else D k)"

section \<open>Regular files\<close>

definition add_pos :: "nat \<Rightarrow> int \<Rightarrow> 'z fs_scheme \<Rightarrow> 'z fs_scheme" where
  "add_pos filp n = upd_file filp (\<lambda>f. f\<lparr>f_pos := wrap32 (f_pos f + n)\<rparr>)"

text \<open>The loop of \<^verbatim>\<open>file_read\<close>; every round reads at least one byte, so \<open>left\<close> rounds are enough. The result is the value of \<^verbatim>\<open>left\<close> at the end.\<close>

primrec file_read_loop :: "nat \<Rightarrow> nat \<Rightarrow> nat \<Rightarrow> u32 \<Rightarrow> nat \<Rightarrow> ('z fs_scheme, nat) km" where
  "file_read_loop 0 inode filp buf left = ret left"
| "file_read_loop (Suc fuel) inode filp buf left =
     (if left = 0 then ret 0
      else bnd (gets (\<lambda>s. f_pos (file_table s filp))) (\<lambda>pos.
        bnd (bmap inode (c_div pos 1024)) (\<lambda>nr.
          bnd (if nr = 0 then ret 0 else bnd (gets (i_dev_of inode)) (\<lambda>dev. bread dev nr)) (\<lambda>bh.
            if nr \<noteq> 0 \<and> bh = 0 then ret left
            else bnd (gets (\<lambda>s. c_mod (f_pos (file_table s filp)) 1024)) (\<lambda>off.
              if off < 0 then fault ''file_read: in front of the block''
              else let chars = min (1024 - nat off) left in
                seqK (modify (add_pos filp (int chars)))
                  (seqK (modify (\<lambda>s. to_user (if bh = 0 then (\<lambda>_. 0) else b_data (bufs s bh)) (nat off) chars buf s))
                    (seqK (brelse bh)
                      (file_read_loop fuel inode filp (buf + of_nat chars) (left - chars)))))))))"

definition file_read :: "nat \<Rightarrow> nat \<Rightarrow> u32 \<Rightarrow> int \<Rightarrow> ('z fs_scheme, int) km" where
  "file_read inode filp buf count =
     (if count \<le> 0 then ret 0
      else bnd (file_read_loop (nat count) inode filp buf (nat count)) (\<lambda>left.
        seqK (modify_inode inode (\<lambda>t m. m\<lparr>i_atime := t\<rparr>))
          (ret (if int left < count then count - int left else - ERROR))))"

text \<open>The loop of \<^verbatim>\<open>file_write\<close>: \<open>left\<close> is \<^verbatim>\<open>count-i\<close>. The result is the final position and what was left.\<close>

primrec file_write_loop :: "nat \<Rightarrow> nat \<Rightarrow> int \<Rightarrow> u32 \<Rightarrow> nat \<Rightarrow> ('z fs_scheme, int \<times> nat) km" where
  "file_write_loop 0 inode pos buf left = ret (pos, left)"
| "file_write_loop (Suc fuel) inode pos buf left =
     (if left = 0 then ret (pos, 0)
      else bnd (create_block inode (c_div pos 1024)) (\<lambda>block.
        if block = 0 then ret (pos, left)
        else bnd (gets (i_dev_of inode)) (\<lambda>dev. bnd (bread dev block) (\<lambda>bh.
          if bh = 0 then ret (pos, left)
          else let off = c_mod pos 1024 in
            if off < 0 then fault ''file_write: in front of the block''
            else let c = min (1024 - nat off) left; pos' = wrap32 (pos + int c) in
              seqK (dirty_buf bh)
                (seqK (modify_inode inode (\<lambda>t m. if word_of_int pos' > i_size m then m\<lparr>i_size := word_of_int pos', i_dirt := 1\<rparr> else m))
                  (seqK (modify (\<lambda>s. upd_buf bh (\<lambda>h. h\<lparr>b_data := from_user (nat off) c buf s (b_data h)\<rparr>) s))
                    (seqK (brelse bh)
                      (file_write_loop fuel inode pos' (buf + of_nat c) (left - c)))))))))"

definition file_write :: "nat \<Rightarrow> nat \<Rightarrow> u32 \<Rightarrow> int \<Rightarrow> ('z fs_scheme, int) km" where
  "file_write inode filp buf count =
     bnd (gets (\<lambda>s. ucast (f_flags (file_table s filp)) AND O_APPEND \<noteq> 0)) (\<lambda>append.
       bnd (gets (\<lambda>s. if append then sint (i_size (inode_table s inode)) else f_pos (file_table s filp))) (\<lambda>pos.
         bnd (file_write_loop (nat count) inode pos buf (nat count)) (\<lambda>(pos', left).
           seqK (modify_inode inode (\<lambda>t m. m\<lparr>i_mtime := t\<rparr>))
             (bnd (gets (\<lambda>s. ucast (f_flags (file_table s filp)) AND O_APPEND \<noteq> 0)) (\<lambda>append.
               seqK (whenK (\<not> append) (seqK (modify (upd_file filp (\<lambda>f. f\<lparr>f_pos := pos'\<rparr>))) (modify_inode inode (\<lambda>t m. m\<lparr>i_ctime := t\<rparr>))))
                 (ret (if left < nat count then int (nat count - left) else - 1)))))))"

section \<open>Block devices\<close>

text \<open>The loops of \<^verbatim>\<open>block_write\<close> and \<^verbatim>\<open>block_read\<close>: \<open>nw\<close> bytes are transferred, the position in the file structure advances.\<close>

primrec block_write_loop :: "nat \<Rightarrow> u32 \<Rightarrow> nat \<Rightarrow> u32 \<Rightarrow> int \<Rightarrow> u32 \<Rightarrow> nat \<Rightarrow> nat \<Rightarrow> ('z fs_scheme, int) km" where
  "block_write_loop 0 dev filp block off buf count nw = ret (int nw)"
| "block_write_loop (Suc fuel) dev filp block off buf count nw =
     (if count = 0 then ret (int nw)
      else bnd (bread dev block) (\<lambda>bh.
        if bh = 0 then ret (if nw \<noteq> 0 then int nw else - EIO)
        else let chars = min count 1024 in
          seqK (modify (add_pos filp (int chars)))
            (if off < 0 \<or> off + int chars > 1024 then fault ''block_write: outside the block''
             else seqK (modify (\<lambda>s. upd_buf bh (\<lambda>h. h\<lparr>b_data := from_user (nat off) chars buf s (b_data h), b_dirt := 1\<rparr>) s))
               (seqK (brelse bh)
                 (block_write_loop fuel dev filp (block + 1) 0 (buf + of_nat chars) (count - chars) (nw + chars))))))"

definition block_write :: "u32 \<Rightarrow> nat \<Rightarrow> u32 \<Rightarrow> int \<Rightarrow> ('z fs_scheme, int) km" where
  "block_write dev filp buf count =
     bnd (gets (\<lambda>s. f_pos (file_table s filp))) (\<lambda>pos.
       block_write_loop (nat count) dev filp (word_of_int (c_div pos 1024)) (c_mod pos 1024) buf (nat count) 0)"

primrec block_read_loop :: "nat \<Rightarrow> u32 \<Rightarrow> nat \<Rightarrow> u32 \<Rightarrow> nat \<Rightarrow> u32 \<Rightarrow> nat \<Rightarrow> nat \<Rightarrow> ('z fs_scheme, int) km" where
  "block_read_loop 0 dev filp block off buf count nw = ret (int nw)"
| "block_read_loop (Suc fuel) dev filp block off buf count nw =
     (if count = 0 then ret (int nw)
      else bnd (bread dev block) (\<lambda>bh.
        if bh = 0 then ret (if nw \<noteq> 0 then int nw else - EIO)
        else let chars = min count 1024 in
          seqK (modify (add_pos filp (int chars)))
            (if off + chars > 1024 then fault ''block_read: past the block''
             else seqK (modify (\<lambda>s. to_user (b_data (bufs s bh)) off chars buf s))
               (seqK (dirty_buf bh) (seqK (brelse bh)
                 (block_read_loop fuel dev filp (block + 1) 0 (buf + of_nat chars) (count - chars) (nw + chars)))))))"

text \<open>\<^verbatim>\<open>block_read\<close> takes the position as an unsigned long.\<close>

definition block_read :: "u32 \<Rightarrow> nat \<Rightarrow> u32 \<Rightarrow> int \<Rightarrow> ('z fs_scheme, int) km" where
  "block_read dev filp buf count =
     bnd (gets (\<lambda>s. (word_of_int (f_pos (file_table s filp)) :: u32))) (\<lambda>pos.
       block_read_loop (nat count) dev filp (pos div 1024) (unat (pos mod 1024)) buf (nat count) 0)"

section \<open>Character devices\<close>

definition rw_ttyx :: "nat \<Rightarrow> nat \<Rightarrow> u32 \<Rightarrow> int \<Rightarrow> ('z ttyst_scheme, int) km" where
  "rw_ttyx rw minor buf count = (if rw = READ then tty_read minor buf count else tty_write minor buf count)"

definition rw_tty :: "nat \<Rightarrow> nat \<Rightarrow> u32 \<Rightarrow> int \<Rightarrow> ('z ttyst_scheme, int) km" where
  "rw_tty rw minor buf count =
     bnd (gets (\<lambda>s. t_tty (cur s))) (\<lambda>t. if t < 0 then ret (- EPERM) else rw_ttyx rw (nat t) buf count)"

text \<open>\<^verbatim>\<open>crw_table\<close> has eight entries, of which 4 and 5 are not null.\<close>

definition rw_char :: "nat \<Rightarrow> u16 \<Rightarrow> u32 \<Rightarrow> int \<Rightarrow> ('z ttyst_scheme, int) km" where
  "rw_char rw dev buf count =
     (if MAJOR dev \<ge> 8 then panic ''rw_char: dev>NRDEV''
      else if MAJOR dev = 4 then rw_ttyx rw (MINOR dev) buf count
      else if MAJOR dev = 5 then rw_tty rw (MINOR dev) buf count
      else panic ''Trying to r/w from/to nonexistent character device'')"

section \<open>Pipes\<close>

definition PIPE_SIZE :: "m_inode \<Rightarrow> u32" where "PIPE_SIZE m = (PIPE_HEAD m - PIPE_TAIL m) AND 4095"
definition PIPE_EMPTY :: "m_inode \<Rightarrow> bool" where "PIPE_EMPTY m \<longleftrightarrow> PIPE_HEAD m = PIPE_TAIL m"
definition PIPE_FULL :: "m_inode \<Rightarrow> bool" where "PIPE_FULL m \<longleftrightarrow> PIPE_SIZE m = 4095"
definition INC_PIPE :: "u32 \<Rightarrow> u32" where "INC_PIPE h = (h + 1) AND 4095"

text \<open>Byte \<open>i\<close> of a page of physical memory, which the memory manager sees as 32-bit words.\<close>

definition word_byte :: "nat \<Rightarrow> u32 \<Rightarrow> u8" where
  "word_byte k w = ucast (drop_bit (8 * k) w)"

definition put_word_byte :: "nat \<Rightarrow> u8 \<Rightarrow> u32 \<Rightarrow> u32" where
  "put_word_byte k c w = (w AND NOT (push_bit (8 * k) 0xFF)) OR push_bit (8 * k) (ucast c)"

definition page_byte :: "(nat \<Rightarrow> u32) \<Rightarrow> nat \<Rightarrow> u8" where
  "page_byte P i = word_byte (i mod 4) (P (i div 4))"

definition put_page_byte :: "nat \<Rightarrow> u8 \<Rightarrow> (nat \<Rightarrow> u32) \<Rightarrow> nat \<Rightarrow> u32" where
  "put_page_byte i c P = P(i div 4 := put_word_byte (i mod 4) c (P (i div 4)))"

text \<open>A pipe: its inode and its page.\<close>

type_synonym pipe = "m_inode \<times> (nat \<Rightarrow> u32)"

definition pipe_get :: "pipe \<Rightarrow> u8 \<times> pipe" where
  "pipe_get p = (page_byte (snd p) (unat (PIPE_TAIL (fst p))), (set_PIPE_TAIL (INC_PIPE (PIPE_TAIL (fst p))) (fst p), snd p))"

definition pipe_put :: "u8 \<Rightarrow> pipe \<Rightarrow> pipe" where
  "pipe_put c p = (set_PIPE_HEAD (INC_PIPE (PIPE_HEAD (fst p))) (fst p), put_page_byte (unat (PIPE_HEAD (fst p))) c (snd p))"

definition the_pipe :: "nat \<Rightarrow> 'z fs_scheme \<Rightarrow> pipe" where
  "the_pipe inode s = (inode_table s inode, phys s (i_size (inode_table s inode)))"

definition set_pipe :: "nat \<Rightarrow> pipe \<Rightarrow> 'z fs_scheme \<Rightarrow> 'z fs_scheme" where
  "set_pipe inode p s = s\<lparr>inode_table := (inode_table s)(inode := fst p), phys := (phys s)(i_size (inode_table s inode) := snd p)\<rparr>"

text \<open>The copying loop of \<^verbatim>\<open>read_pipe\<close>; the result is the number of bytes read.\<close>

primrec read_pipe_loop :: "nat \<Rightarrow> nat \<Rightarrow> u32 \<Rightarrow> nat \<Rightarrow> 'z fs_scheme \<Rightarrow> nat \<times> 'z fs_scheme" where
  "read_pipe_loop 0 inode buf b s = (b, s)"
| "read_pipe_loop (Suc count) inode buf b s =
     (if PIPE_EMPTY (inode_table s inode) then (b, s)
      else let (c, p) = pipe_get (the_pipe inode s)
           in read_pipe_loop count inode buf (b + 1) (set_pipe inode p (put_fs_byte c (buf + of_nat b) s)))"

definition wait_pipe :: "nat \<Rightarrow> ('z fs_scheme, bool) km" where
  "wait_pipe inode = loopX (\<lambda>_. 0) (\<lambda>_ :: unit.
     bnd (gets (\<lambda>s. PIPE_EMPTY (inode_table s inode))) (\<lambda>empty.
       if \<not> empty then ret (Inr True)
       else seqK (modify (wake_up (Some (i_waitq inode))))
         (bnd (gets (\<lambda>s. i_count (inode_table s inode))) (\<lambda>n.
           if n \<noteq> 2 then ret (Inr False)
           else seqK (sleep_on (Some (i_waitq inode))) (ret (Inl ())))))) ()"

definition read_pipe :: "nat \<Rightarrow> u32 \<Rightarrow> int \<Rightarrow> ('z fs_scheme, int) km" where
  "read_pipe inode buf count =
     bnd (wait_pipe inode) (\<lambda>data.
       if \<not> data then ret 0
       else bnd (runst (read_pipe_loop (nat count) inode buf 0)) (\<lambda>b.
         seqK (modify (wake_up (Some (i_waitq inode)))) (ret (int b))))"

definition SIGPIPE :: nat where "SIGPIPE = 13"

definition raise_sigpipe :: "'z sched_scheme \<Rightarrow> 'z sched_scheme" where
  "raise_sigpipe = upd_cur (\<lambda>t. t\<lparr>t_signal := t_signal t OR push_bit (SIGPIPE - 1) 1\<rparr>)"

text \<open>A round of \<^verbatim>\<open>write_pipe\<close>: wait while the pipe is full, else put a byte. The loop variable is the number of bytes written.\<close>

definition write_pipe_round :: "nat \<Rightarrow> u32 \<Rightarrow> nat \<Rightarrow> nat \<Rightarrow> ('z fs_scheme, nat + nat) km" where
  "write_pipe_round inode buf count b =
     (if count \<le> b then seqK (modify (wake_up (Some (i_waitq inode)))) (ret (Inr b))
      else bnd (gets (\<lambda>s. PIPE_FULL (inode_table s inode))) (\<lambda>full.
        if full then
          seqK (modify (wake_up (Some (i_waitq inode))))
            (bnd (gets (\<lambda>s. i_count (inode_table s inode))) (\<lambda>n.
              if n \<noteq> 2 then seqK (modify raise_sigpipe) (ret (Inr b))
              else seqK (sleep_on (Some (i_waitq inode))) (ret (Inl b))))
        else seqK (modify (\<lambda>s. set_pipe inode (pipe_put (get_fs_byte (buf + of_nat b) s) (the_pipe inode s)) s))
          (seqK (modify (wake_up (Some (i_waitq inode)))) (ret (Inl (b + 1))))))"

definition write_pipe :: "nat \<Rightarrow> u32 \<Rightarrow> int \<Rightarrow> ('z fs_scheme, int) km" where
  "write_pipe inode buf count =
     seqK (modify (wake_up (Some (i_waitq inode))))
       (bnd (gets (\<lambda>s. i_count (inode_table s inode))) (\<lambda>n.
         if n \<noteq> 2 then seqK (modify raise_sigpipe) (ret (- 1))
         else bnd (loopX (\<lambda>b. nat count - b) (write_pipe_round inode buf (nat count)) 0) (\<lambda>b. ret (int b))))"

section \<open>System calls\<close>

definition cur_filp :: "u32 \<Rightarrow> 'z sched_scheme \<Rightarrow> nat" where
  "cur_filp fd s = t_filp (cur s) (unat fd)"

definition set_filp :: "nat \<Rightarrow> nat \<Rightarrow> 'z sched_scheme \<Rightarrow> 'z sched_scheme" where
  "set_filp fd f = upd_cur (\<lambda>t. t\<lparr>t_filp := (t_filp t)(fd := f)\<rparr>)"

definition sys_pipe :: "u32 \<Rightarrow> ('z fs_scheme, int) km" where
  "sys_pipe fildes =
     bnd (gets (\<lambda>s. take 2 (filter (\<lambda>i. f_count (file_table s i) = 0) [1..<NR_FILE + 1]))) (\<lambda>fs.
       case fs of
         [f0, f1] \<Rightarrow>
           seqK (modify (\<lambda>s. upd_file f1 (\<lambda>f. f\<lparr>f_count := f_count f + 1\<rparr>) (upd_file f0 (\<lambda>f. f\<lparr>f_count := f_count f + 1\<rparr>) s)))
             (bnd (gets (\<lambda>s. take 2 (filter (\<lambda>i. t_filp (cur s) i = 0) [0..<NR_OPEN]))) (\<lambda>fds.
               case fds of
                 [d0, d1] \<Rightarrow>
                   seqK (modify (\<lambda>s. set_filp d1 f1 (set_filp d0 f0 s)))
                     (bnd get_pipe_inode (\<lambda>inode.
                       if inode = 0 then
                         seqK (modify (\<lambda>s. set_filp d1 0 (set_filp d0 0 s)))
                           (seqK (modify (\<lambda>s. upd_file f1 (\<lambda>f. f\<lparr>f_count := 0\<rparr>) (upd_file f0 (\<lambda>f. f\<lparr>f_count := 0\<rparr>) s))) (ret (- 1)))
                       else
                         seqK (modify (\<lambda>s. upd_file f1 (\<lambda>f. f\<lparr>f_inode := inode, f_pos := 0, f_mode := 2\<rparr>)
                                 (upd_file f0 (\<lambda>f. f\<lparr>f_inode := inode, f_pos := 0, f_mode := 1\<rparr>) s)))
                           (seqK (modify (\<lambda>s. put_fs_long (of_nat d1) (fildes + 4) (put_fs_long (of_nat d0) fildes s))) (ret 0))))
               | _ \<Rightarrow> seqK (modify (\<lambda>s. upd_file f1 (\<lambda>f. f\<lparr>f_count := 0\<rparr>) (upd_file f0 (\<lambda>f. f\<lparr>f_count := 0\<rparr>) s))) (ret (- 1))))
       | _ \<Rightarrow> ret (- 1))"

definition IS_BLOCKDEV :: "nat \<Rightarrow> bool" where "IS_BLOCKDEV x \<longleftrightarrow> x = 2 \<or> x = 3"

definition sys_lseek :: "u32 \<Rightarrow> int \<Rightarrow> int \<Rightarrow> ('z fs_scheme, int) km" where
  "sys_lseek fd offset origin =
     bnd (gets (\<lambda>s. let f = cur_filp fd s; i = f_inode (file_table s f) in
         if fd \<ge> of_nat NR_OPEN \<or> f = 0 \<or> i = 0 \<or> \<not> IS_BLOCKDEV (MAJOR (i_dev (inode_table s i))) then None else Some (f, i))) (\<lambda>r.
       case r of None \<Rightarrow> ret (- EBADF)
       | Some (f, i) \<Rightarrow>
           bnd (gets (\<lambda>s. (file_table s f, inode_table s i))) (\<lambda>(fl, m).
             let seek = (\<lambda>p. seqK (modify (upd_file f (\<lambda>f. f\<lparr>f_pos := p\<rparr>))) (ret p)) in
             if i_pipe m \<noteq> 0 then ret (- ESPIPE)
             else if origin = 0 then (if offset < 0 then ret (- EINVAL) else seek offset)
             else if origin = 1 then
               (let p = wrap32 (f_pos fl + offset) in if p < 0 then ret (- EINVAL) else seek p)
             else if origin = 2 then
               (let p = wrap32 (uint (i_size m) + offset) in if p < 0 then ret (- EINVAL) else seek p)
             else ret (- EINVAL)))"

definition sys_read :: "u32 \<Rightarrow> u32 \<Rightarrow> int \<Rightarrow> ('z ttyst_scheme, int) km" where
  "sys_read fd buf count =
     bnd (gets (\<lambda>s. fd \<ge> of_nat NR_OPEN \<or> count < 0 \<or> cur_filp fd s = 0)) (\<lambda>bad.
       if bad then ret (- EINVAL)
       else if count = 0 then ret 0
       else bnd (gets (cur_filp fd)) (\<lambda>f.
         seqK (verify_area buf count)
           (bnd (gets (\<lambda>s. (file_table s f, f_inode (file_table s f)))) (\<lambda>(fl, inode). bnd (gets (\<lambda>s. inode_table s inode)) (\<lambda>m.
             if i_pipe m \<noteq> 0 then (if f_mode fl AND 1 \<noteq> 0 then read_pipe inode buf count else ret (- 1))
             else if S_ISCHR (i_mode m) then rw_char READ (i_zone m 0) buf count
             else if S_ISBLK (i_mode m) then block_read (ucast (i_zone m 0)) f buf count
             else if S_ISDIR (i_mode m) \<or> S_ISREG (i_mode m) then
               let count' = (if word_of_int (count + f_pos fl) > i_size m then sint (i_size m - word_of_int (f_pos fl)) else count) in
               if count' \<le> 0 then ret 0 else file_read inode f buf count'
             else ret (- EINVAL))))))"

definition sys_write :: "u32 \<Rightarrow> u32 \<Rightarrow> int \<Rightarrow> ('z ttyst_scheme, int) km" where
  "sys_write fd buf count =
     bnd (gets (\<lambda>s. fd \<ge> of_nat NR_OPEN \<or> count < 0 \<or> cur_filp fd s = 0)) (\<lambda>bad.
       if bad then ret (- EINVAL)
       else if count = 0 then ret 0
       else bnd (gets (cur_filp fd)) (\<lambda>f.
         bnd (gets (\<lambda>s. (file_table s f, f_inode (file_table s f)))) (\<lambda>(fl, inode). bnd (gets (\<lambda>s. inode_table s inode)) (\<lambda>m.
           if i_pipe m \<noteq> 0 then (if f_mode fl AND 2 \<noteq> 0 then write_pipe inode buf count else ret (- 1))
           else if S_ISCHR (i_mode m) then rw_char WRITE (i_zone m 0) buf count
           else if S_ISBLK (i_mode m) then block_write (ucast (i_zone m 0)) f buf count
           else if S_ISREG (i_mode m) then file_write inode f buf count
           else ret (- EINVAL)))))"

end
