(* ===== verification/Open.thy ===== *)
theory Open
  imports Files
begin

text \<open>
  Opening and closing files and the system calls on names and descriptors: \<^verbatim>\<open>src/fs/open.c\<close>, \<^verbatim>\<open>fcntl.c\<close>, \<^verbatim>\<open>stat.c\<close> and \<^verbatim>\<open>ioctl.c\<close>.
\<close>

section \<open>Attributes of a file\<close>

definition sys_utime :: "u32 \<Rightarrow> u32 \<Rightarrow> ('z fs_scheme, int) km" where
  "sys_utime filename tbuf =
     bnd (namei filename) (\<lambda>inode.
       if inode = 0 then ret (- ENOENT)
       else bnd (gets (\<lambda>s. if tbuf \<noteq> 0 then (get_fs_long tbuf s, get_fs_long (tbuf + 4) s) else (now s, now s))) (\<lambda>(actime, modtime).
         seqK (modify_inode inode (\<lambda>t m. m\<lparr>i_atime := actime, i_mtime := modtime, i_dirt := 1\<rparr>))
           (seqK (iput inode) (ret 0))))"

text \<open>The mode bits \<^verbatim>\<open>sys_access\<close> tests: those of the owner for the owner and for the group alike.\<close>

definition access_bits :: "task_struct \<Rightarrow> m_inode \<Rightarrow> u32 \<Rightarrow> u32" where
  "access_bits t m mode =
     (let res = (if \<not> (t_euid t \<noteq> 0 \<and> t_uid t \<noteq> 0) then (if mode AND 0x49 \<noteq> 0 then 0x1FF else 0x1B6) else mode) in
      if t_euid t = i_uid m then drop_bit 6 res
      else if t_egid t = ucast (i_gid m) then drop_bit 6 res
      else res)"

text \<open>\<^verbatim>\<open>sys_access\<close> compares the ids with those of the inode after it has released it.\<close>

definition sys_access :: "u32 \<Rightarrow> u32 \<Rightarrow> ('z fs_scheme, int) km" where
  "sys_access filename mode0 =
     (let mode = mode0 AND 7 in
      bnd (namei filename) (\<lambda>inode.
        if inode = 0 then ret (- EACCES)
        else bnd (gets (\<lambda>s. ucast (i_mode (inode_table s inode)) AND 0x1FF)) (\<lambda>res.
          seqK (iput inode)
            (bnd (gets (\<lambda>s. access_bits (cur s) (inode_table s inode) res)) (\<lambda>res.
              ret (if res AND 7 AND mode = mode then 0 else - EACCES))))))"

definition sys_chdir :: "u32 \<Rightarrow> ('z fs_scheme, int) km" where
  "sys_chdir filename =
     bnd (namei filename) (\<lambda>inode.
       if inode = 0 then ret (- ENOENT)
       else bnd (gets (\<lambda>s. S_ISDIR (i_mode (inode_table s inode)))) (\<lambda>isdir.
         if \<not> isdir then seqK (iput inode) (ret (- ENOTDIR))
         else bnd (gets (\<lambda>s. t_pwd (cur s))) (\<lambda>old.
           seqK (iput old) (seqK (modify (upd_cur (\<lambda>t. t\<lparr>t_pwd := inode\<rparr>))) (ret 0)))))"

definition sys_chroot :: "u32 \<Rightarrow> ('z fs_scheme, int) km" where
  "sys_chroot filename =
     bnd (namei filename) (\<lambda>inode.
       if inode = 0 then ret (- ENOENT)
       else bnd (gets (\<lambda>s. S_ISDIR (i_mode (inode_table s inode)))) (\<lambda>isdir.
         if \<not> isdir then seqK (iput inode) (ret (- ENOTDIR))
         else bnd (gets (\<lambda>s. t_root (cur s))) (\<lambda>old.
           seqK (iput old) (seqK (modify (upd_cur (\<lambda>t. t\<lparr>t_root := inode\<rparr>))) (ret 0)))))"

definition sys_chmod :: "u32 \<Rightarrow> u32 \<Rightarrow> ('z fs_scheme, int) km" where
  "sys_chmod filename mode =
     bnd (namei filename) (\<lambda>inode.
       if inode = 0 then ret (- ENOENT)
       else bnd (gets (\<lambda>s. (cur s, inode_table s inode))) (\<lambda>(t, m).
         let user = (t_uid t \<noteq> 0 \<and> t_euid t \<noteq> 0) in
         if user \<and> t_uid t \<noteq> i_uid m \<and> t_euid t \<noteq> i_uid m then seqK (iput inode) (ret (- EACCES))
         else let mode' = (if user then (mode AND 0x1FF) OR (ucast (i_mode m) AND 0xE00) else mode) in
           seqK (modify_inode inode (\<lambda>t m. m\<lparr>i_mode := ucast ((mode' AND 0xFFF) OR (ucast (i_mode m) AND NOT 0xFFF)), i_dirt := 1\<rparr>))
             (seqK (iput inode) (ret 0))))"

definition sys_chown :: "u32 \<Rightarrow> u32 \<Rightarrow> u32 \<Rightarrow> ('z fs_scheme, int) km" where
  "sys_chown filename uid gid =
     bnd (namei filename) (\<lambda>inode.
       if inode = 0 then ret (- ENOENT)
       else bnd (gets (\<lambda>s. t_uid (cur s) \<noteq> 0 \<and> t_euid (cur s) \<noteq> 0)) (\<lambda>user.
         if user then seqK (iput inode) (ret (- EACCES))
         else seqK (modify_inode inode (\<lambda>t m. m\<lparr>i_uid := ucast uid, i_gid := ucast gid, i_dirt := 1\<rparr>))
           (seqK (iput inode) (ret 0))))"

section \<open>Descriptors\<close>

definition free_fd :: "nat \<Rightarrow> 'z sched_scheme \<Rightarrow> nat option" where
  "free_fd from s = find (\<lambda>i. t_filp (cur s) i = 0) [from..<NR_OPEN]"

definition clear_cloexec :: "nat \<Rightarrow> 'z sched_scheme \<Rightarrow> 'z sched_scheme" where
  "clear_cloexec fd = upd_cur (\<lambda>t. t\<lparr>t_close_on_exec := t_close_on_exec t AND NOT (push_bit fd 1)\<rparr>)"

text \<open>
  The special case of terminals in \<^verbatim>\<open>sys_open\<close>: a session leader without a terminal gets the one it opens; opening \<^verbatim>\<open>/dev/tty\<close> without a terminal
  is an error (\<open>False\<close>).
\<close>

definition open_tty :: "nat \<Rightarrow> ('z ttyst_scheme, bool) km" where
  "open_tty inode =
     bnd (gets (\<lambda>s. (inode_table s inode, cur s))) (\<lambda>(m, t).
       if \<not> S_ISCHR (i_mode m) then ret True
       else if MAJOR (i_zone m 0) = 4 then
         (if t_leader t \<noteq> 0 \<and> t_tty t < 0 then
            seqK (modify (upd_cur (\<lambda>t. t\<lparr>t_tty := int (MINOR (i_zone m 0))\<rparr>)))
              (if MINOR (i_zone m 0) > 2 then fault ''tty_table out of range''
               else seqK (modify (upd_tty (MINOR (i_zone m 0)) (\<lambda>y. y\<lparr>tt_pgrp := t_pgrp t\<rparr>))) (ret True))
          else ret True)
       else ret (\<not> (MAJOR (i_zone m 0) = 5 \<and> t_tty t < 0)))"

definition sys_open :: "u32 \<Rightarrow> u32 \<Rightarrow> u32 \<Rightarrow> ('z ttyst_scheme, int) km" where
  "sys_open filename flag mode0 =
     bnd (gets (\<lambda>s. mode0 AND 0x1FF AND NOT (ucast (t_umask (cur s))))) (\<lambda>mode.
       bnd (gets (free_fd 0)) (\<lambda>r. case r of None \<Rightarrow> ret (- EINVAL)
       | Some fd \<Rightarrow>
           seqK (modify (clear_cloexec fd))
             (bnd (gets (\<lambda>s. find (\<lambda>i. f_count (file_table s i) = 0) [1..<NR_FILE + 1])) (\<lambda>r. case r of None \<Rightarrow> ret (- EINVAL)
             | Some f \<Rightarrow>
                 seqK (modify (\<lambda>s. upd_file f (\<lambda>x. x\<lparr>f_count := f_count x + 1\<rparr>) (set_filp fd f s)))
                   (bnd (open_namei filename flag mode) (\<lambda>(i, inode).
                     if i < 0 then
                       seqK (modify (\<lambda>s. upd_file f (\<lambda>x. x\<lparr>f_count := 0\<rparr>) (set_filp fd 0 s))) (ret i)
                     else bnd (open_tty inode) (\<lambda>ok.
                       if \<not> ok then
                         seqK (iput inode) (seqK (modify (\<lambda>s. upd_file f (\<lambda>x. x\<lparr>f_count := 0\<rparr>) (set_filp fd 0 s))) (ret (- EPERM)))
                       else
                         seqK (modify (\<lambda>s. upd_file f (\<lambda>x. x\<lparr>f_mode := i_mode (inode_table s inode), f_flags := ucast flag, f_count := 1,
                                 f_inode := inode, f_pos := 0\<rparr>) s))
                           (ret (int fd)))))))))"

definition sys_creat :: "u32 \<Rightarrow> u32 \<Rightarrow> ('z ttyst_scheme, int) km" where
  "sys_creat pathname mode = sys_open pathname (O_CREAT OR O_TRUNC) mode"

definition sys_close :: "u32 \<Rightarrow> ('z fs_scheme, int) km" where
  "sys_close fd =
     (if fd \<ge> of_nat NR_OPEN then ret (- EINVAL)
      else seqK (modify (clear_cloexec (unat fd)))
        (bnd (gets (cur_filp fd)) (\<lambda>filp.
          if filp = 0 then ret (- EINVAL)
          else seqK (modify (set_filp (unat fd) 0))
            (bnd (gets (\<lambda>s. f_count (file_table s filp))) (\<lambda>n.
              if n = 0 then panic ''Close: file count is 0''
              else seqK (modify (upd_file filp (\<lambda>x. x\<lparr>f_count := f_count x - 1\<rparr>)))
                (if n - 1 \<noteq> 0 then ret 0
                 else bnd (gets (\<lambda>s. f_inode (file_table s filp))) (\<lambda>inode. seqK (iput inode) (ret 0))))))))"

definition dupfd :: "u32 \<Rightarrow> u32 \<Rightarrow> 'z fs_scheme \<Rightarrow> int \<times> 'z fs_scheme" where
  "dupfd fd arg s =
     (if fd \<ge> of_nat NR_OPEN \<or> cur_filp fd s = 0 then (- EBADF, s)
      else if arg \<ge> of_nat NR_OPEN then (- EINVAL, s)
      else case free_fd (unat arg) s of None \<Rightarrow> (- EMFILE, s)
      | Some n \<Rightarrow> (int n, upd_file (cur_filp fd s) (\<lambda>x. x\<lparr>f_count := f_count x + 1\<rparr>) (set_filp n (cur_filp fd s) (clear_cloexec n s))))"

definition sys_dup2 :: "u32 \<Rightarrow> u32 \<Rightarrow> ('z fs_scheme, int) km" where
  "sys_dup2 oldfd newfd = seqK (sys_close newfd) (runst (dupfd oldfd newfd))"

definition sys_dup :: "u32 \<Rightarrow> ('z fs_scheme, int) km" where
  "sys_dup fildes = runst (dupfd fildes 0)"

definition sys_fcntl :: "u32 \<Rightarrow> u32 \<Rightarrow> u32 \<Rightarrow> 'z fs_scheme \<Rightarrow> int \<times> 'z fs_scheme" where
  "sys_fcntl fd cmd arg s =
     (if fd \<ge> of_nat NR_OPEN \<or> cur_filp fd s = 0 then (- EBADF, s)
      else let filp = cur_filp fd s; flags = O_APPEND OR O_NONBLOCK in
        if cmd = 0 then dupfd fd arg s
        else if cmd = 1 then (if bit (t_close_on_exec (cur s)) (unat fd) then 1 else 0, s)
        else if cmd = 2 then
          (0, if arg AND 1 \<noteq> 0 then upd_cur (\<lambda>t. t\<lparr>t_close_on_exec := t_close_on_exec t OR push_bit (unat fd) 1\<rparr>) s
              else clear_cloexec (unat fd) s)
        else if cmd = 3 then (uint (f_flags (file_table s filp)), s)
        else if cmd = 4 then
          (0, upd_file filp (\<lambda>x. x\<lparr>f_flags := (f_flags x AND NOT (ucast flags)) OR ucast (arg AND flags)\<rparr>) s)
        else (- 1, s))"

section \<open>Status and control\<close>

text \<open>The fields of \<^verbatim>\<open>struct stat\<close>; the four padding bytes of the structure are indeterminate and the model leaves the user's bytes there.\<close>

definition stat_fields :: "m_inode \<Rightarrow> u32 \<Rightarrow> 'z sched_scheme \<Rightarrow> 'z sched_scheme" where
  "stat_fields m a s =
     put_fs_long (i_ctime m) (a + 28) (put_fs_long (i_mtime m) (a + 24) (put_fs_long (i_atime m) (a + 20) (put_fs_long (i_size m) (a + 16)
       (put_fs_word (i_zone m 0) (a + 12) (put_fs_byte (i_gid m) (a + 10) (put_fs_word (i_uid m) (a + 8) (put_fs_byte (i_nlinks m) (a + 6)
         (put_fs_word (i_mode m) (a + 4) (put_fs_word (i_num m) (a + 2) (put_fs_word (i_dev m) a s))))))))))"

definition cp_stat :: "nat \<Rightarrow> u32 \<Rightarrow> ('z fs_scheme, int) km" where
  "cp_stat inode statbuf =
     seqK (verify_area statbuf 32) (seqK (modify (\<lambda>s. stat_fields (inode_table s inode) statbuf s)) (ret 0))"

definition sys_stat :: "u32 \<Rightarrow> u32 \<Rightarrow> ('z fs_scheme, int) km" where
  "sys_stat filename statbuf =
     bnd (namei filename) (\<lambda>inode.
       if inode = 0 then ret (- ENOENT)
       else bnd (cp_stat inode statbuf) (\<lambda>i. seqK (iput inode) (ret i)))"

definition sys_fstat :: "u32 \<Rightarrow> u32 \<Rightarrow> ('z fs_scheme, int) km" where
  "sys_fstat fd statbuf =
     bnd (gets (\<lambda>s. if fd \<ge> of_nat NR_OPEN \<or> cur_filp fd s = 0 then 0 else f_inode (file_table s (cur_filp fd s)))) (\<lambda>inode.
       if inode = 0 then ret (- ENOENT) else cp_stat inode statbuf)"

text \<open>\<^verbatim>\<open>ioctl_table\<close> has eight entries, of which 4 and 5 are \<^verbatim>\<open>tty_ioctl\<close> and the others null.\<close>

definition sys_ioctl :: "u32 \<Rightarrow> u32 \<Rightarrow> u32 \<Rightarrow> ('z ttyst_scheme, int) km" where
  "sys_ioctl fd cmd arg =
     bnd (gets (\<lambda>s. fd \<ge> of_nat NR_OPEN \<or> cur_filp fd s = 0)) (\<lambda>bad.
       if bad then ret (- EBADF)
       else bnd (gets (\<lambda>s. inode_table s (f_inode (file_table s (cur_filp fd s))))) (\<lambda>m.
         if \<not> S_ISCHR (i_mode m) \<and> \<not> S_ISBLK (i_mode m) then ret (- EINVAL)
         else let dev = i_zone m 0 in
           if MAJOR dev \<ge> 8 then panic ''unknown device for ioctl''
           else if MAJOR dev \<noteq> 4 \<and> MAJOR dev \<noteq> 5 then ret (- ENOTTY)
           else tty_ioctl dev cmd arg))"

end
