(* ===== verification/Process.thy ===== *)
theory Process
  imports Open
begin

text \<open>
  Processes: \<^verbatim>\<open>src/kernel/fork.c\<close>, \<^verbatim>\<open>exit.c\<close> and \<^verbatim>\<open>sys.c\<close>.

  The page that holds a task structure is identified with the pointer to it. The local descriptor table and the task state segment are parts of that
  structure; their addresses are its address plus the offsets of the fields.
\<close>

record procst = ttyst +
  last_pid :: int

definition LDT_OFFSET :: u32 where "LDT_OFFSET = 328"
definition TSS_OFFSET :: u32 where "TSS_OFFSET = 352"
definition SIGCHLD :: int where "SIGCHLD = 17"
definition WNOHANG :: u32 where "WNOHANG = 1"

section \<open>Fork\<close>

text \<open>The registers \<^verbatim>\<open>copy_process\<close> finds on the kernel stack.\<close>

record fork_regs =
  r_ebp :: int
  r_edi :: int
  r_esi :: int
  r_gs :: int
  r_ebx :: int
  r_ecx :: int
  r_edx :: int
  r_fs :: int
  r_es :: int
  r_ds :: int
  r_eip :: int
  r_cs :: int
  r_eflags :: int
  r_esp :: int
  r_ss :: int

definition upd_ldt :: "nat \<Rightarrow> desc_struct \<Rightarrow> task_struct \<Rightarrow> task_struct" where
  "upd_ldt i d t = t\<lparr>t_ldt := (t_ldt t)(i := d)\<rparr>"

text \<open>\<^verbatim>\<open>get_limit(0x0f)\<close> and \<^verbatim>\<open>get_limit(0x17)\<close> are the limits of entries 1 and 2 of the table of the current task.\<close>

definition copy_mem :: "nat \<Rightarrow> u32 \<Rightarrow> ('z procst_scheme, int) km" where
  "copy_mem nr p =
     bnd (gets (\<lambda>s. t_ldt (cur s))) (\<lambda>ldt.
       let code_limit = get_limit (ldt 1); data_limit = get_limit (ldt 2);
           old_code_base = get_base (ldt 1); old_data_base = get_base (ldt 2) in
       if old_data_base \<noteq> old_code_base then panic ''We don't support separate I&D''
       else if data_limit < code_limit then panic ''Bad data_limit''
       else let new_base = of_nat nr * 0x4000000 in
         seqK (modify (upd_task p (\<lambda>t. upd_ldt 2 (set_base (t_ldt t 2) new_base) (upd_ldt 1 (set_base (t_ldt t 1) new_base) t))))
           (bnd (copy_page_tables old_data_base new_base data_limit) (\<lambda>r.
             if r \<noteq> 0 then seqK (free_page_tables new_base data_limit) (ret (- ENOMEM)) else ret 0)))"

text \<open>The child's task structure before its memory is set up; \<open>p\<close> is its address.\<close>

definition child_tss :: "nat \<Rightarrow> u32 \<Rightarrow> fork_regs \<Rightarrow> tss_struct \<Rightarrow> tss_struct" where
  "child_tss nr p r t = t\<lparr>tss_back_link := 0, tss_esp0 := sint (p + 4096), tss_ss0 := 0x10, tss_eip := r_eip r, tss_eflags := r_eflags r,
     tss_eax := 0, tss_ecx := r_ecx r, tss_edx := r_edx r, tss_ebx := r_ebx r, tss_esp := r_esp r, tss_ebp := r_ebp r,
     tss_esi := r_esi r, tss_edi := r_edi r, tss_es := r_es r AND 0xffff, tss_cs := r_cs r AND 0xffff, tss_ss := r_ss r AND 0xffff,
     tss_ds := r_ds r AND 0xffff, tss_fs := r_fs r AND 0xffff, tss_gs := r_gs r AND 0xffff,
     tss_ldt := int (16 * nr + 8 * FIRST_LDT_ENTRY), tss_trace_bitmap := wrap32 0x80000000\<rparr>"

definition child_task :: "nat \<Rightarrow> u32 \<Rightarrow> fork_regs \<Rightarrow> 'z procst_scheme \<Rightarrow> task_struct" where
  "child_task nr p r s = (let t = cur s in
     t\<lparr>t_state := TASK_RUNNING, t_pid := last_pid s, t_father := t_pid t, t_counter := t_priority t, t_signal := 0, t_alarm := 0, t_leader := 0,
       t_utime := 0, t_stime := 0, t_cutime := 0, t_cstime := 0, t_start_time := jiffies s, t_tss := child_tss nr p r (t_tss t)\<rparr>)"

definition fnsave_child :: "u32 \<Rightarrow> 'z procst_scheme \<Rightarrow> 'z procst_scheme" where
  "fnsave_child p s =
     (if last_task_used_math s = current s
      then (upd_task p (\<lambda>t. t\<lparr>t_tss := (t_tss t)\<lparr>tss_i387 := fpu s\<rparr>\<rparr>) s)\<lparr>fpu := fninit (fpu s)\<rparr> else s)"

definition share_file :: "nat \<Rightarrow> 'z fs_scheme \<Rightarrow> 'z fs_scheme" where
  "share_file f s = (if f = 0 then s else upd_file f (\<lambda>x. x\<lparr>f_count := f_count x + 1\<rparr>) s)"

definition share_inode :: "nat \<Rightarrow> 'z fs_scheme \<Rightarrow> 'z fs_scheme" where
  "share_inode i s = (if i = 0 then s else upd_inode i (\<lambda>m. m\<lparr>i_count := i_count m + 1\<rparr>) s)"

definition set_descs :: "nat \<Rightarrow> u32 \<Rightarrow> 'z sched_scheme \<Rightarrow> 'z sched_scheme" where
  "set_descs nr p s = s\<lparr>gdt := (gdt s)(2 * nr + FIRST_TSS_ENTRY := set_tss_desc (p + TSS_OFFSET),
     2 * nr + FIRST_LDT_ENTRY := set_ldt_desc (p + LDT_OFFSET))\<rparr>"

definition copy_process :: "nat \<Rightarrow> fork_regs \<Rightarrow> ('z procst_scheme, int) km" where
  "copy_process nr r =
     bnd (runst get_free_page) (\<lambda>p.
       if p = 0 then ret (- EAGAIN)
       else seqK (modify (\<lambda>s. upd_task p (\<lambda>_. child_task nr p r s) s))
         (seqK (modify (fnsave_child p))
           (bnd (copy_mem nr p) (\<lambda>e.
             if e \<noteq> 0 then seqK (free_page p) (ret (- EAGAIN))
             else seqK (modify (\<lambda>s. fold (\<lambda>i. share_file (t_filp (tstruct s p) i)) [0..<NR_OPEN] s))
               (seqK (modify (\<lambda>s. share_inode (t_pwd (cur s)) s))
                 (seqK (modify (\<lambda>s. share_inode (t_root (cur s)) s))
                   (seqK (modify (set_descs nr p))
                     (seqK (modify (\<lambda>s. s\<lparr>task := (task s)(nr := p)\<rparr>)) (gets last_pid)))))))))"

text \<open>The \<^verbatim>\<open>repeat\<close> loop of \<^verbatim>\<open>find_empty_process\<close>.\<close>

partial_function (option) next_pid :: "(int \<Rightarrow> bool) \<Rightarrow> int \<Rightarrow> int option" where
  "next_pid used pid =
     (let pid' = (if wrap32 (pid + 1) < 0 then 1 else wrap32 (pid + 1))
      in if used pid' then next_pid used pid' else Some pid')"

definition pid_used :: "'z sched_scheme \<Rightarrow> int \<Rightarrow> bool" where
  "pid_used s pid \<longleftrightarrow> list_ex (\<lambda>i. task s i \<noteq> 0 \<and> t_pid (tstruct s (task s i)) = pid) [0..<NR_TASKS]"

definition find_empty_process :: "('z procst_scheme, int) km" where
  "find_empty_process = (\<lambda>s e. case next_pid (pid_used s) (last_pid s) of None \<Rightarrow> Hang s
     | Some pid \<Rightarrow> Ok (case find (\<lambda>i. task s i = 0) [1..<NR_TASKS] of None \<Rightarrow> - EAGAIN | Some i \<Rightarrow> int i) (s\<lparr>last_pid := pid\<rparr>) e)"

text \<open>The system call: \<^verbatim>\<open>sys_fork\<close> of \<^verbatim>\<open>src/kernel/system_call.s\<close>.\<close>

definition sys_fork :: "fork_regs \<Rightarrow> ('z procst_scheme, int) km" where
  "sys_fork r = bnd find_empty_process (\<lambda>nr. if nr < 0 then ret nr else copy_process (nat nr) r)"

section \<open>Exit\<close>

definition release :: "u32 \<Rightarrow> ('z sched_scheme, unit) km" where
  "release p =
     (if p = 0 then ret ()
      else bnd (gets (\<lambda>s. find (\<lambda>i. task s i = p) [1..<NR_TASKS])) (\<lambda>r.
        case r of None \<Rightarrow> panic ''trying to release non-existent task''
        | Some i \<Rightarrow> seqK (modify (\<lambda>s. s\<lparr>task := (task s)(i := 0)\<rparr>)) (seqK (free_page p) schedule)))"

definition send_sig :: "int \<Rightarrow> u32 \<Rightarrow> bool \<Rightarrow> 'z sched_scheme \<Rightarrow> 'z sched_scheme" where
  "send_sig sig p priv s =
     (if p = 0 \<or> sig < 1 \<or> sig > 32 then s
      else if priv \<or> t_uid (cur s) = t_uid (tstruct s p) \<or> t_euid (cur s) = t_uid (tstruct s p) \<or>
              t_uid (cur s) = t_euid (tstruct s p) \<or> t_euid (cur s) = t_euid (tstruct s p)
           then upd_task p (\<lambda>t. t\<lparr>t_signal := t_signal t OR push_bit (nat (sig - 1)) 1\<rparr>) s
      else s)"

text \<open>The tasks a \<^verbatim>\<open>pid\<close> argument of \<^verbatim>\<open>do_kill\<close> selects.\<close>

definition kill_match :: "int \<Rightarrow> int \<Rightarrow> task_struct \<Rightarrow> bool" where
  "kill_match me pid t =
     (if pid = 0 then t_pgrp t = me else if pid > 0 then t_pid t = pid else if pid = - 1 then True else t_pgrp t = wrap32 (- pid))"

definition do_kill :: "int \<Rightarrow> int \<Rightarrow> bool \<Rightarrow> 'z sched_scheme \<Rightarrow> 'z sched_scheme" where
  "do_kill pid sig priv s =
     fold (\<lambda>i s. if task s i \<noteq> 0 \<and> kill_match (t_pid (cur s)) pid (tstruct s (task s i)) then send_sig sig (task s i) priv s else s)
       (rev [1..<NR_TASKS]) s"

definition sys_kill :: "int \<Rightarrow> int \<Rightarrow> ('z sched_scheme, int) km" where
  "sys_kill pid sig = seqK (modify (\<lambda>s. do_kill pid sig (\<not> (t_uid (cur s) \<noteq> 0 \<or> t_euid (cur s) \<noteq> 0)) s)) (ret 0)"

text \<open>The children of the current process become orphans.\<close>

definition orphan :: "nat \<Rightarrow> 'z sched_scheme \<Rightarrow> 'z sched_scheme" where
  "orphan i s = (if task s i \<noteq> 0 \<and> t_father (tstruct s (task s i)) = t_pid (cur s)
                 then upd_task (task s i) (\<lambda>t. t\<lparr>t_father := 0\<rparr>) s else s)"

text \<open>Giving up the terminal of a session leader.\<close>

definition leave_tty :: "('z ttyst_scheme, unit) km" where
  "leave_tty =
     bnd (gets cur) (\<lambda>t.
       if t_leader t \<noteq> 0 \<and> t_tty t \<ge> 0 then
         (if t_tty t > 2 then fault ''tty_table out of range'' else modify (upd_tty (nat (t_tty t)) (\<lambda>y. y\<lparr>tt_pgrp := 0\<rparr>)))
       else ret ())"

definition do_exit :: "int \<Rightarrow> ('z ttyst_scheme, int) km" where
  "do_exit code =
     bnd (gets (\<lambda>s. t_ldt (cur s))) (\<lambda>ldt.
       seqK (free_page_tables (get_base (ldt 1)) (get_limit (ldt 1)))
         (seqK (free_page_tables (get_base (ldt 2)) (get_limit (ldt 2)))
           (seqK (modify (fold orphan [0..<NR_TASKS]))
             (seqK (forK [0..<NR_OPEN] (\<lambda>i. bnd (gets (\<lambda>s. t_filp (cur s) i)) (\<lambda>f. whenK (f \<noteq> 0) (seqK (sys_close (of_nat i)) (ret ())))))
               (seqK (bnd (gets (\<lambda>s. t_pwd (cur s))) iput)
                 (seqK (modify (upd_cur (\<lambda>t. t\<lparr>t_pwd := 0\<rparr>)))
                   (seqK (bnd (gets (\<lambda>s. t_root (cur s))) iput)
                     (seqK (modify (upd_cur (\<lambda>t. t\<lparr>t_root := 0\<rparr>)))
                       (seqK leave_tty
                         (seqK (modify (\<lambda>s. if last_task_used_math s = current s then s\<lparr>last_task_used_math := 0\<rparr> else s))
                           (seqK (bnd (gets (\<lambda>s. t_father (cur s))) (\<lambda>f.
                                if f \<noteq> 0 then
                                  seqK (modify (upd_cur (\<lambda>t. t\<lparr>t_state := TASK_ZOMBIE\<rparr>)))
                                    (seqK (modify (do_kill f SIGCHLD True)) (modify (upd_cur (\<lambda>t. t\<lparr>t_exit_code := code\<rparr>))))
                                else bnd (gets current) release))
                             (seqK schedule (ret (- 1))))))))))))))"

definition sys_exit :: "int \<Rightarrow> ('z ttyst_scheme, int) km" where
  "sys_exit error_code = do_exit ((error_code AND 0xff) * 256)"

section \<open>Wait\<close>

definition wait_match :: "int \<Rightarrow> 'z sched_scheme \<Rightarrow> nat \<Rightarrow> bool" where
  "wait_match pid s i =
     (let p = task s i; t = tstruct s p in
      p \<noteq> 0 \<and> p \<noteq> current s \<and>
      (pid = - 1 \<or> t_pid t = pid \<or> (pid = 0 \<and> t_pgrp t = t_pgrp (cur s)) \<or> (pid < 0 \<and> t_pgrp t = wrap32 (- pid))) \<and>
      t_father t = t_pid (cur s))"

definition zombie_child :: "int \<Rightarrow> 'z sched_scheme \<Rightarrow> nat option" where
  "zombie_child pid s = find (\<lambda>i. wait_match pid s i \<and> t_state (tstruct s (task s i)) = TASK_ZOMBIE) (rev [1..<NR_TASKS])"

definition reap :: "u32 \<Rightarrow> u32 \<Rightarrow> ('z sched_scheme, int) km" where
  "reap p stat_addr =
     bnd (gets (\<lambda>s. tstruct s p)) (\<lambda>t.
       seqK (modify (put_fs_long (word_of_int (t_exit_code t)) stat_addr))
         (seqK (modify (upd_cur (\<lambda>c. c\<lparr>t_cutime := wrap32 (t_cutime c + t_utime t), t_cstime := wrap32 (t_cstime c + t_stime t)\<rparr>)))
           (seqK (release p) (ret (t_pid t)))))"

text \<open>A round of \<^verbatim>\<open>sys_waitpid\<close>; the loop variable is \<^verbatim>\<open>flag\<close>.\<close>

definition wait_round :: "int \<Rightarrow> u32 \<Rightarrow> u32 \<Rightarrow> bool \<Rightarrow> ('z sched_scheme, bool + int) km" where
  "wait_round pid stat_addr options flag =
     bnd (gets (zombie_child pid)) (\<lambda>z. case z of
       Some i \<Rightarrow> bnd (gets (\<lambda>s. task s i)) (\<lambda>p. bnd (reap p stat_addr) (\<lambda>r. ret (Inr r)))
     | None \<Rightarrow>
         bnd (gets (\<lambda>s. flag \<or> list_ex (wait_match pid s) [1..<NR_TASKS])) (\<lambda>flag.
           if \<not> flag then ret (Inr (- ECHILD))
           else if options AND WNOHANG \<noteq> 0 then ret (Inr 0)
           else seqK sys_pause
             (seqK (modify (upd_cur (\<lambda>t. t\<lparr>t_signal := t_signal t AND NOT (push_bit (nat (SIGCHLD - 1)) 1)\<rparr>)))
               (bnd (gets (\<lambda>s. t_signal (cur s))) (\<lambda>sg. if sg = 0 then ret (Inl flag) else ret (Inr (- EINTR)))))))"

definition sys_waitpid :: "int \<Rightarrow> u32 \<Rightarrow> u32 \<Rightarrow> ('z sched_scheme, int) km" where
  "sys_waitpid pid stat_addr options =
     seqK (verify_area stat_addr 4) (loopX (\<lambda>_. 0) (wait_round pid stat_addr options) False)"

section \<open>System calls of sys.c\<close>

definition sys_ftime :: int where "sys_ftime = - ENOSYS"
definition sys_mknod :: int where "sys_mknod = - ENOSYS"
definition sys_break :: int where "sys_break = - ENOSYS"
definition sys_mount :: int where "sys_mount = - ENOSYS"
definition sys_umount :: int where "sys_umount = - ENOSYS"
definition sys_ustat :: int where "sys_ustat = - 1"
definition sys_ptrace :: int where "sys_ptrace = - ENOSYS"
definition sys_stty :: int where "sys_stty = - ENOSYS"
definition sys_gtty :: int where "sys_gtty = - ENOSYS"
definition sys_rename :: int where "sys_rename = - ENOSYS"
definition sys_prof :: int where "sys_prof = - ENOSYS"
definition sys_acct :: int where "sys_acct = - ENOSYS"
definition sys_phys :: int where "sys_phys = - ENOSYS"
definition sys_lock :: int where "sys_lock = - ENOSYS"
definition sys_mpx :: int where "sys_mpx = - ENOSYS"
definition sys_ulimit :: int where "sys_ulimit = - ENOSYS"

definition user_task :: "task_struct \<Rightarrow> bool" where
  "user_task t \<longleftrightarrow> t_euid t \<noteq> 0 \<and> t_uid t \<noteq> 0"

definition sys_setgid :: "int \<Rightarrow> 'z sched_scheme \<Rightarrow> int \<times> 'z sched_scheme" where
  "sys_setgid gid s =
     (if user_task (cur s) then
        if uint (t_gid (cur s)) = gid \<or> uint (t_sgid (cur s)) = gid then (0, upd_cur (\<lambda>t. t\<lparr>t_egid := word_of_int gid\<rparr>) s)
        else (- EPERM, s)
      else (0, upd_cur (\<lambda>t. t\<lparr>t_gid := word_of_int gid, t_egid := word_of_int gid\<rparr>) s))"

definition sys_setuid :: "int \<Rightarrow> 'z sched_scheme \<Rightarrow> int \<times> 'z sched_scheme" where
  "sys_setuid uid s =
     (if user_task (cur s) then
        if uid = uint (t_uid (cur s)) \<or> t_suid (cur s) = t_uid (cur s) then (0, upd_cur (\<lambda>t. t\<lparr>t_euid := word_of_int uid\<rparr>) s)
        else (- EPERM, s)
      else (0, upd_cur (\<lambda>t. t\<lparr>t_euid := word_of_int uid, t_uid := word_of_int uid\<rparr>) s))"

definition sys_time :: "u32 \<Rightarrow> ('z sched_scheme, int) km" where
  "sys_time tloc =
     bnd (gets CURRENT_TIME) (\<lambda>i.
       if tloc \<noteq> 0 then seqK (verify_area tloc 4) (seqK (modify (put_fs_long (word_of_int i) tloc)) (ret i)) else ret i)"

definition sys_stime :: "u32 \<Rightarrow> 'z sched_scheme \<Rightarrow> int \<times> 'z sched_scheme" where
  "sys_stime tptr s =
     (if user_task (cur s) then (- 1, s)
      else (0, s\<lparr>startup_time := sint (get_fs_long tptr s - word_of_int (c_div (jiffies s) HZ))\<rparr>))"

definition sys_times :: "u32 \<Rightarrow> ('z sched_scheme, int) km" where
  "sys_times tbuf =
     (if tbuf = 0 then gets jiffies
      else seqK (verify_area tbuf 16)
        (seqK (modify (\<lambda>s. put_fs_long (word_of_int (t_utime (cur s))) tbuf s))
          (seqK (modify (\<lambda>s. put_fs_long (word_of_int (t_stime (cur s))) (tbuf + 4) s))
            (seqK (modify (\<lambda>s. put_fs_long (word_of_int (t_cutime (cur s))) (tbuf + 8) s))
              (seqK (modify (\<lambda>s. put_fs_long (word_of_int (t_cstime (cur s))) (tbuf + 12) s)) (gets jiffies))))))"

definition sys_brk :: "u32 \<Rightarrow> 'z sched_scheme \<Rightarrow> int \<times> 'z sched_scheme" where
  "sys_brk end_data_seg s =
     (let s' = (if end_data_seg \<ge> t_end_code (cur s) \<and> end_data_seg < t_start_stack (cur s) - 16384
                then upd_cur (\<lambda>t. t\<lparr>t_brk := end_data_seg\<rparr>) s else s)
      in (sint (t_brk (cur s')), s'))"

definition sys_setpgid :: "int \<Rightarrow> int \<Rightarrow> 'z sched_scheme \<Rightarrow> int \<times> 'z sched_scheme" where
  "sys_setpgid pid0 pgid0 s =
     (let pid = (if pid0 = 0 then t_pid (cur s) else pid0); pgid = (if pgid0 = 0 then pid else pgid0) in
      case find (\<lambda>i. task s i \<noteq> 0 \<and> t_pid (tstruct s (task s i)) = pid) [0..<NR_TASKS] of
        None \<Rightarrow> (- ESRCH, s)
      | Some i \<Rightarrow> let t = tstruct s (task s i) in
          if t_leader t \<noteq> 0 then (- EPERM, s)
          else if t_session t \<noteq> t_session (cur s) then (- EPERM, s)
          else (0, upd_task (task s i) (\<lambda>t. t\<lparr>t_pgrp := pgid\<rparr>) s))"

definition sys_getpgrp :: "'z sched_scheme \<Rightarrow> int" where
  "sys_getpgrp s = t_pgrp (cur s)"

definition sys_setsid :: "'z sched_scheme \<Rightarrow> int \<times> 'z sched_scheme" where
  "sys_setsid s =
     (if user_task (cur s) then (- EPERM, s)
      else if t_leader (cur s) \<noteq> 0 then (- EPERM, s)
      else (t_pid (cur s), upd_cur (\<lambda>t. t\<lparr>t_leader := 1, t_session := t_pid t, t_pgrp := t_pid t, t_tty := - 1\<rparr>) s))"

text \<open>\<^verbatim>\<open>struct utsname\<close> has five fields of nine bytes.\<close>

definition c_string :: "string \<Rightarrow> u8 list" where
  "c_string cs = map of_char cs @ [0]"

definition thisname :: "u8 list" where
  "thisname = c_string ''linux .0'' @ c_string ''nodename'' @ c_string ''release '' @ c_string ''version '' @ c_string ''machine ''"

definition sys_uname :: "u32 \<Rightarrow> ('z sched_scheme, int) km" where
  "sys_uname name =
     (if name = 0 then ret (- 1)
      else seqK (verify_area name 45) (seqK (modify (put_fs_bytes thisname name)) (ret 0)))"

definition sys_umask :: "u32 \<Rightarrow> 'z sched_scheme \<Rightarrow> int \<times> 'z sched_scheme" where
  "sys_umask msk s = (uint (t_umask (cur s)), upd_cur (\<lambda>t. t\<lparr>t_umask := ucast (msk AND 0x1FF)\<rparr>) s)"

end
