(* ===== verification/Exec.thy ===== *)
theory Exec
  imports Process
begin

text \<open>
  Executing a new program, \<^verbatim>\<open>src/fs/exec.c\<close>.

  The argument pages are kept in the local array \<^verbatim>\<open>page\<close>, here a function on its indices; an index past its end is an error. User memory after the old page
  tables are freed reads as zero, since a missing page is supplied zeroed on demand, apart from the argument pages mapped at its top.
\<close>

definition MAX_ARG_PAGES :: nat where "MAX_ARG_PAGES = 32"

type_synonym arg_pages = "nat \<Rightarrow> u32"

section \<open>Reading the file\<close>

definition cp_block :: "nat \<Rightarrow> u32 \<Rightarrow> 'z fs_scheme \<Rightarrow> 'z fs_scheme" where
  "cp_block bh to s = to_user (b_data (bufs s bh)) 0 BLOCK_SIZE to s"

text \<open>\<^verbatim>\<open>read_head\<close>: \<open>n\<close> blocks are left, the next is \<open>count\<close>. \<open>False\<close> is the error return.\<close>

primrec read_head_loop :: "nat \<Rightarrow> nat \<Rightarrow> nat \<Rightarrow> ('z fs_scheme, bool) km" where
  "read_head_loop inode 0 count = ret True"
| "read_head_loop inode (Suc n) count =
     bnd (gets (\<lambda>s. inode_table s inode)) (\<lambda>m.
       if i_zone m (count + 1) = 0 then read_head_loop inode n (count + 1)
       else bnd (bread (ucast (i_dev m)) (ucast (i_zone m (count + 1)))) (\<lambda>bh.
         if bh = 0 then ret False
         else seqK (modify (cp_block bh (of_nat (count * 1024)))) (seqK (brelse bh) (read_head_loop inode n (count + 1)))))"

definition read_head :: "nat \<Rightarrow> int \<Rightarrow> ('z fs_scheme, int) km" where
  "read_head inode blocks =
     bnd (read_head_loop inode (nat (min blocks 6)) 0) (\<lambda>ok. ret (if ok then 0 else - 1))"

primrec read_ind_loop :: "u32 \<Rightarrow> nat \<Rightarrow> nat \<Rightarrow> nat \<Rightarrow> u32 \<Rightarrow> ('z fs_scheme, bool) km" where
  "read_ind_loop dev ih 0 k offset = seqK (brelse ih) (ret True)"
| "read_ind_loop dev ih (Suc n) k offset =
     bnd (gets (zone_at ih k)) (\<lambda>block.
       if block = 0 then read_ind_loop dev ih n (k + 1) (offset + 1024)
       else bnd (bread dev (ucast block)) (\<lambda>bh.
         if bh = 0 then seqK (brelse ih) (ret False)
         else seqK (modify (cp_block bh offset)) (seqK (brelse bh) (read_ind_loop dev ih n (k + 1) (offset + 1024)))))"

definition read_ind :: "u32 \<Rightarrow> u32 \<Rightarrow> int \<Rightarrow> u32 \<Rightarrow> ('z fs_scheme, int) km" where
  "read_ind dev ind sz offset =
     (if sz \<le> 0 then panic ''size<=0 in read_ind''
      else if ind = 0 then ret 0
      else bnd (bread dev ind) (\<lambda>ih.
        if ih = 0 then ret (- 1)
        else bnd (read_ind_loop dev ih (nat ((min sz (512 * 1024) + 1023) div 1024)) 0 offset) (\<lambda>ok. ret (if ok then 0 else - 1))))"

text \<open>The loop over the double indirect block: \<open>n\<close> entries are left.\<close>

primrec read_dind_loop :: "u32 \<Rightarrow> nat \<Rightarrow> nat \<Rightarrow> nat \<Rightarrow> int \<Rightarrow> ('z fs_scheme, int) km" where
  "read_dind_loop dev dind 0 count sz = panic ''Impossibly long executable''"
| "read_dind_loop dev dind (Suc n) count sz =
     bnd (gets (zone_at dind count)) (\<lambda>z.
       bnd (read_ind dev (ucast z) sz (of_nat (1024 * (518 + count)))) (\<lambda>i.
         if i \<noteq> 0 \<or> sz - 1024 * 512 \<le> 0 then ret i else read_dind_loop dev dind n (count + 1) (sz - 1024 * 512)))"

definition read_area :: "nat \<Rightarrow> int \<Rightarrow> ('z fs_scheme, int) km" where
  "read_area inode sz =
     bnd (read_head inode (c_div (sz + 1023) 1024)) (\<lambda>i.
       if i \<noteq> 0 \<or> sz - 1024 * 6 \<le> 0 then ret i
       else bnd (gets (\<lambda>s. inode_table s inode)) (\<lambda>m.
         bnd (read_ind (ucast (i_dev m)) (ucast (i_zone m 7)) (sz - 1024 * 6) (1024 * 6)) (\<lambda>i.
           if i \<noteq> 0 \<or> sz - 1024 * 6 - 1024 * 512 \<le> 0 then ret i
           else bnd (gets (\<lambda>s. inode_table s inode)) (\<lambda>m.
             if i_zone m 8 = 0 then ret 0
             else bnd (bread (ucast (i_dev m)) (ucast (i_zone m 8))) (\<lambda>dind.
               if dind = 0 then ret (- 1)
               else bnd (gets (i_dev_of inode)) (\<lambda>dev. read_dind_loop dev dind 512 0 (sz - 1024 * 6 - 1024 * 512)))))))"

section \<open>Arguments\<close>

text \<open>The length of the string at \<open>a\<close>; \<open>None\<close> if it never ends.\<close>

partial_function (option) fs_strlen :: "(u32 \<Rightarrow> u8) \<Rightarrow> u32 \<Rightarrow> nat \<Rightarrow> nat option" where
  "fs_strlen M a n = (if M a = 0 then Some n else fs_strlen M (a + 1) (n + 1))"

partial_function (option) count_loop :: "(u32 \<Rightarrow> u32) \<Rightarrow> u32 \<Rightarrow> nat \<Rightarrow> nat option" where
  "count_loop L a n = (if L a = 0 then Some n else count_loop L (a + 4) (n + 1))"

definition hangK :: "('s, 'a) km" where "hangK = (\<lambda>s e. Hang s)"

definition count :: "u32 \<Rightarrow> ('z sched_scheme, nat) km" where
  "count argv =
     (if argv = 0 then ret 0
      else bnd (gets (\<lambda>s. count_loop (\<lambda>a. get_fs_long a s) argv 0)) (\<lambda>r. case r of None \<Rightarrow> hangK | Some n \<Rightarrow> ret n))"

text \<open>Allocating the pages of a string, from index \<open>i\<close> up to the first that exists; \<open>n\<close> indices are left. \<open>False\<close>: no memory.\<close>

primrec fill_pages :: "nat \<Rightarrow> nat \<Rightarrow> arg_pages \<Rightarrow> ('z mm_scheme, bool \<times> arg_pages) km" where
  "fill_pages 0 i pg = ret (True, pg)"
| "fill_pages (Suc n) i pg =
     (if pg i \<noteq> 0 then ret (True, pg)
      else bnd (runst get_free_page) (\<lambda>page.
        if page = 0 then ret (False, pg) else fill_pages n (i + 1) (pg(i := page))))"

text \<open>Copying the \<open>n\<close> bytes that end before \<open>tmp\<close> to before \<open>p\<close>, last byte first.\<close>

primrec copy_bytes :: "nat \<Rightarrow> u32 \<Rightarrow> arg_pages \<Rightarrow> u32 \<Rightarrow> ('z sched_scheme, u32) km" where
  "copy_bytes 0 tmp pg p = ret p"
| "copy_bytes (Suc n) tmp pg p =
     (let p' = p - 1; i = unat (p' div 4096) in
      if i \<ge> MAX_ARG_PAGES then fault ''exec: index past the argument pages''
      else if pg i = 0 then panic ''nonexistent page in exec.c''
      else seqK (modify (\<lambda>s. s\<lparr>phys := (phys s)(pg i := put_page_byte (unat (p' mod 4096)) (get_fs_byte (tmp - 1) s) (phys s (pg i)))\<rparr>))
        (copy_bytes n (tmp - 1) pg p'))"

text \<open>\<^verbatim>\<open>p-len < 0\<close> compares unsigned values and is never true.\<close>

primrec copy_strings :: "nat \<Rightarrow> u32 \<Rightarrow> arg_pages \<Rightarrow> u32 \<Rightarrow> ('z sched_scheme, u32 \<times> arg_pages) km" where
  "copy_strings 0 argv pg p = ret (p, pg)"
| "copy_strings (Suc n) argv pg p =
     bnd (gets (get_fs_long (argv + of_nat (4 * n)))) (\<lambda>tmp.
       if tmp = 0 then panic ''argc is wrong''
       else bnd (gets (\<lambda>s. fs_strlen (fs_mem s) tmp 0)) (\<lambda>r. case r of None \<Rightarrow> hangK
       | Some l \<Rightarrow>
           let len = l + 1; i = unat (drop_bit 12 (p - of_nat len)) in
           bnd (fill_pages (MAX_ARG_PAGES - i) i pg) (\<lambda>(ok, pg).
             if \<not> ok then ret (0, pg)
             else bnd (copy_bytes len (tmp + of_nat len) pg p) (\<lambda>p. copy_strings n argv pg p))))"

definition map_arg_page :: "arg_pages \<Rightarrow> u32 \<Rightarrow> nat \<Rightarrow> ('z sched_scheme, unit) km" where
  "map_arg_page pg base i =
     whenK (pg i \<noteq> 0)
       (let off = 0x4000000 - of_nat ((MAX_ARG_PAGES - i) * 4096) in
        bnd (put_page (pg i) (base + off)) (\<lambda>r.
          whenK (r \<noteq> 0) (modify (\<lambda>s. s\<lparr>fs_mem := (\<lambda>a. if off \<le> a \<and> a - off < 4096 then page_byte (phys s (pg i)) (unat (a - off)) else fs_mem s a)\<rparr>))))"

definition change_ldt :: "u32 \<Rightarrow> arg_pages \<Rightarrow> ('z sched_scheme, u32) km" where
  "change_ldt text_size pg =
     (let code_limit = (text_size + 4096 - 1) AND 0xFFFFF000 in
      bnd (gets (\<lambda>s. get_base (t_ldt (cur s) 1))) (\<lambda>base.
        seqK (modify (upd_cur (\<lambda>t. upd_ldt 2 (set_limit (set_base (t_ldt t 2) base) 0x4000000)
               (upd_ldt 1 (set_limit (set_base (t_ldt t 1) base) code_limit) t))))
          (seqK (forK (rev [0..<MAX_ARG_PAGES]) (map_arg_page pg base)) (ret 0x4000000))))"

text \<open>A table of \<open>n\<close> pointers at \<open>tbl\<close> to the strings from \<open>p\<close> on, with a null at the end; the result is the address behind the last string.\<close>

primrec put_ptrs :: "nat \<Rightarrow> u32 \<Rightarrow> u32 \<Rightarrow> ('z sched_scheme, u32) km" where
  "put_ptrs 0 tbl p = seqK (modify (put_fs_long 0 tbl)) (ret p)"
| "put_ptrs (Suc n) tbl p =
     seqK (modify (put_fs_long p tbl))
       (bnd (gets (\<lambda>s. fs_strlen (fs_mem s) p 0)) (\<lambda>r. case r of None \<Rightarrow> hangK
         | Some l \<Rightarrow> put_ptrs n (tbl + 4) (p + of_nat l + 1)))"

definition create_tables :: "u32 \<Rightarrow> nat \<Rightarrow> nat \<Rightarrow> ('z sched_scheme, u32) km" where
  "create_tables p argc envc =
     (let envp = (0xfffffffc AND p) - 4 * of_nat (envc + 1); argv = envp - 4 * of_nat (argc + 1); sp = argv - 12 in
      seqK (modify (\<lambda>s. put_fs_long (of_nat argc) sp (put_fs_long argv (sp + 4) (put_fs_long envp (sp + 8) s))))
        (bnd (put_ptrs argc argv p) (\<lambda>p. seqK (put_ptrs envc envp p) (ret sp))))"

section \<open>Execve\<close>

record exec =
  a_magic :: u32
  a_text :: u32
  a_data :: u32
  a_bss :: u32
  a_syms :: u32
  a_entry :: u32
  a_trsize :: u32
  a_drsize :: u32

definition get_exec :: "(nat \<Rightarrow> u8) \<Rightarrow> exec" where
  "get_exec D = \<lparr>a_magic = get32 D 0, a_text = get32 D 4, a_data = get32 D 8, a_bss = get32 D 12, a_syms = get32 D 16,
     a_entry = get32 D 20, a_trsize = get32 D 24, a_drsize = get32 D 28\<rparr>"

definition ZMAGIC :: u32 where "ZMAGIC = 0x10B"

definition N_TXTOFF :: "exec \<Rightarrow> u32" where
  "N_TXTOFF ex = (if a_magic ex = ZMAGIC then 1024 - 32 + 32 else 32)"

definition bad_exec :: "exec \<Rightarrow> m_inode \<Rightarrow> bool" where
  "bad_exec ex m \<longleftrightarrow> a_magic ex \<noteq> ZMAGIC \<or> a_trsize ex \<noteq> 0 \<or> a_drsize ex \<noteq> 0 \<or> a_text ex + a_data ex + a_bss ex > 0x3000000 \<or>
     i_size m < a_text ex + a_data ex + a_syms ex + N_TXTOFF ex"

text \<open>The execute permission of \<^verbatim>\<open>do_execve\<close>.\<close>

definition exec_ok :: "task_struct \<Rightarrow> m_inode \<Rightarrow> bool" where
  "exec_ok t m =
     (let i = i_mode m in
      bit (if t_uid t \<noteq> 0 \<and> t_euid t \<noteq> 0 then
             (if t_euid t = i_uid m then drop_bit 6 i else if t_egid t = ucast (i_gid m) then drop_bit 3 i else i)
           else if i AND 0x49 \<noteq> 0 then 1 else i) 0)"

definition close_on_exec_files :: "('z fs_scheme, unit) km" where
  "close_on_exec_files = forK [0..<NR_OPEN] (\<lambda>i.
     bnd (gets (\<lambda>s. bit (t_close_on_exec (cur s)) i)) (\<lambda>b. whenK b (seqK (sys_close (of_nat i)) (ret ()))))"

text \<open>From the point of no return on: the old program is gone, the new one is set up. The result is the new stack pointer.\<close>

definition exec_image :: "nat \<Rightarrow> exec \<Rightarrow> arg_pages \<Rightarrow> u32 \<Rightarrow> nat \<Rightarrow> nat \<Rightarrow> ('z ttyst_scheme, u32) km" where
  "exec_image inode ex pg p argc envc =
     seqK (modify (upd_cur (\<lambda>t. t\<lparr>t_sig_fn := (\<lambda>i. if i < 32 then 0 else t_sig_fn t i)\<rparr>)))
       (seqK close_on_exec_files
         (seqK (modify (upd_cur (\<lambda>t. t\<lparr>t_close_on_exec := 0\<rparr>)))
           (bnd (gets (\<lambda>s. t_ldt (cur s))) (\<lambda>ldt.
             seqK (free_page_tables (get_base (ldt 1)) (get_limit (ldt 1)))
               (seqK (free_page_tables (get_base (ldt 2)) (get_limit (ldt 2)))
                 (seqK (modify (\<lambda>s. s\<lparr>fs_mem := (\<lambda>_. 0)\<rparr>))
                   (seqK (modify (\<lambda>s. if last_task_used_math s = current s then s\<lparr>last_task_used_math := 0\<rparr> else s))
                     (seqK (modify (upd_cur (\<lambda>t. t\<lparr>t_used_math := 0\<rparr>)))
                       (bnd (change_ldt (a_text ex) pg) (\<lambda>lim.
                         bnd (create_tables (p + (lim - 32 * 4096)) argc envc) (\<lambda>sp.
                           seqK (modify (upd_cur (\<lambda>t. t\<lparr>t_end_code := a_text ex, t_end_data := a_data ex + a_text ex,
                                 t_brk := a_bss ex + (a_data ex + a_text ex), t_start_stack := sp AND 0xfffff000\<rparr>)))
                             (bnd (read_area inode (sint (a_text ex + a_data ex))) (\<lambda>i.
                               seqK (iput inode)
                                 (seqK (whenK (i < 0) (seqK (sys_exit (- 1)) (ret ())))
                                   (seqK (modify (\<lambda>s. let e = a_text ex + a_data ex in
                                        fold (\<lambda>k. put_fs_byte 0 (e + of_nat k)) [0..<(4096 - unat e mod 4096) mod 4096] s))
                                     (ret sp))))))))))))))))"

text \<open>
  \<^verbatim>\<open>do_execve\<close>; \<open>cs\<close> is \<^verbatim>\<open>eip[1]\<close>. With the result 0 come the values it stores in \<^verbatim>\<open>eip[0]\<close> and \<^verbatim>\<open>eip[3]\<close>.
\<close>

definition do_execve :: "u32 \<Rightarrow> u32 \<Rightarrow> u32 \<Rightarrow> u32 \<Rightarrow> ('z ttyst_scheme, int \<times> (u32 \<times> u32) option) km" where
  "do_execve cs filename argv envp =
     (if 0xffff AND cs \<noteq> 0xf then panic ''execve called from supervisor mode''
      else bnd (namei filename) (\<lambda>inode.
        if inode = 0 then ret (- ENOENT, None)
        else bnd (gets (\<lambda>s. inode_table s inode)) (\<lambda>m. bnd (gets cur) (\<lambda>t.
          if \<not> S_ISREG (i_mode m) then seqK (iput inode) (ret (- EACCES, None))
          else if \<not> exec_ok t m then seqK (iput inode) (ret (- ENOEXEC, None))
          else bnd (bread (ucast (i_dev m)) (ucast (i_zone m 0))) (\<lambda>bh.
            if bh = 0 then seqK (iput inode) (ret (- EACCES, None))
            else bnd (gets (\<lambda>s. get_exec (b_data (bufs s bh)))) (\<lambda>ex.
              seqK (brelse bh)
                (bnd (gets (\<lambda>s. bad_exec ex (inode_table s inode))) (\<lambda>bad.
                  if bad then seqK (iput inode) (ret (- ENOEXEC, None))
                  else if N_TXTOFF ex \<noteq> 1024 then panic ''N_TXTOFF != BLOCK_SIZE. See a.out.h.''
                  else bnd (count argv) (\<lambda>argc. bnd (count envp) (\<lambda>envc.
                    bnd (copy_strings envc envp (\<lambda>_. 0) (of_nat (4096 * MAX_ARG_PAGES - 4))) (\<lambda>(p, pg).
                      bnd (copy_strings argc argv pg p) (\<lambda>(p, pg).
                        if p = 0 then
                          seqK (forK [0..<MAX_ARG_PAGES] (\<lambda>i. free_page (pg i))) (seqK (iput inode) (ret (- 1, None)))
                        else bnd (exec_image inode ex pg p argc envc) (\<lambda>sp. ret (0, Some (a_entry ex, sp)))))))))))))))"

end
