(* ===== verification/Memory_Refs.thy ===== *)
theory Memory_Refs
  imports Memory
begin

text \<open>
  Reference counting of page frames. \<open>refs P i\<close> counts the references to the frame number \<open>i\<close> of
  the map that the page directory and the page tables of user space hold in physical memory \<open>P\<close>:
  directory entries from 2 on, as entries 0 and 1 map the kernel's own 8 megabytes and are not
  counted by \<^verbatim>\<open>mem_map\<close>. \<open>mm_ok ext M P\<close> says that the map \<open>M\<close> counts exactly these references
  plus \<open>ext i\<close> references that the kernel holds elsewhere (task structures, pipe buffers, pages
  of \<^verbatim>\<open>execve\<close>), and that page tables are frames nobody else refers to.
\<close>

definition hits :: "nat \<Rightarrow> u32 \<Rightarrow> nat" where
  "hits i w = of_bool (present w \<and> frame w = page_addr i)"

definition user_dir :: "(u32 \<Rightarrow> nat \<Rightarrow> u32) \<Rightarrow> nat \<Rightarrow> bool" where
  "user_dir P d \<longleftrightarrow> 2 \<le> d \<and> d < 1024 \<and> present (P 0 d)"

definition tbl :: "(u32 \<Rightarrow> nat \<Rightarrow> u32) \<Rightarrow> nat \<Rightarrow> u32" where
  "tbl P d = frame (P 0 d)"

definition table_refs :: "(u32 \<Rightarrow> nat \<Rightarrow> u32) \<Rightarrow> u32 \<Rightarrow> nat \<Rightarrow> nat" where
  "table_refs P t i = (\<Sum>e<1024. hits i (P t e))"

definition dir_refs :: "(u32 \<Rightarrow> nat \<Rightarrow> u32) \<Rightarrow> nat \<Rightarrow> nat \<Rightarrow> nat" where
  "dir_refs P i d = (if present (P 0 d) then hits i (P 0 d) + table_refs P (tbl P d) i else 0)"

definition refs :: "(u32 \<Rightarrow> nat \<Rightarrow> u32) \<Rightarrow> nat \<Rightarrow> nat" where
  "refs P i = (\<Sum>d = 2..<1024. dir_refs P i d)"

definition mm_ok :: "(nat \<Rightarrow> nat) \<Rightarrow> (nat \<Rightarrow> u16) \<Rightarrow> (u32 \<Rightarrow> nat \<Rightarrow> u32) \<Rightarrow> bool" where
  "mm_ok ext M P \<longleftrightarrow>
     (\<forall>i<1536. unat (M i) = refs P i + ext i) \<and>
     (\<forall>d. user_dir P d \<longrightarrow> (\<exists>i<1536. tbl P d = page_addr i \<and> M i = 1)) \<and>
     (\<forall>d e. user_dir P d \<longrightarrow> e < 1024 \<longrightarrow> present (P (tbl P d) e) \<longrightarrow> frame (P (tbl P d) e) < HIGH_MEMORY)"

abbreviation mm_inv :: "(nat \<Rightarrow> nat) \<Rightarrow> 'z mm_scheme \<Rightarrow> bool" where
  "mm_inv ext s \<equiv> mm_ok ext (mem_map s) (phys s)"

text \<open>The free frames of a map: what \<^verbatim>\<open>get_free_page\<close> can still hand out.\<close>

definition free_frames :: "(nat \<Rightarrow> u16) \<Rightarrow> nat" where
  "free_frames M = card {i. i < 1536 \<and> M i = 0}"

text \<open>An address that is not that of the directory or of a page table; and one that is not free either, as that of a page some process or the kernel uses.\<close>

definition no_table :: "(u32 \<Rightarrow> nat \<Rightarrow> u32) \<Rightarrow> u32 \<Rightarrow> bool" where
  "no_table P b \<longleftrightarrow> b \<noteq> 0 \<and> (\<forall>d. user_dir P d \<longrightarrow> tbl P d \<noteq> b)"

definition data_frame :: "'z mm_scheme \<Rightarrow> u32 \<Rightarrow> bool" where
  "data_frame s b \<longleftrightarrow> no_table (phys s) b \<and> (\<forall>k<1536. b = page_addr k \<longrightarrow> mem_map s k \<noteq> 0)"

named_theorems refs_simps \<open>reference counts after an update of physical memory\<close>

section \<open>Counting\<close>

lemma hits_0 [simp]: "hits i 0 = 0"
  by (simp add: hits_def)

lemma hits_absent: "\<not> present w \<Longrightarrow> hits i w = 0"
  by (simp add: hits_def)

lemma hits_le: "hits i w \<le> 1"
  by (simp add: hits_def)

lemma hits_low: "frame w < 0x200000 \<Longrightarrow> i < 1536 \<Longrightarrow> hits i w = 0"
  using page_addr_ge [of i] by (auto simp: hits_def simp flip: not_le)

lemma hits_page: "present w \<Longrightarrow> frame w = page_addr k \<Longrightarrow> i < 1536 \<Longrightarrow> k < 1536 \<Longrightarrow>
    hits i w = of_bool (i = k)"
  by (auto simp: hits_def page_addr_inj)

lemma hits_and_not2 [simp]: "hits i (w AND - 3) = hits i w"
  by (simp add: hits_def)

lemma dir_refs_le: "2 \<le> d \<Longrightarrow> d < 1024 \<Longrightarrow> dir_refs P i d \<le> refs P i"
  unfolding refs_def by (rule member_le_sum) auto

lemma dir_refs_le2:
  assumes "d \<noteq> d'" "2 \<le> d" "d < 1024" "2 \<le> d'" "d' < 1024"
  shows "dir_refs P i d + dir_refs P i d' \<le> refs P i"
proof -
  have "sum (dir_refs P i) {d, d'} \<le> refs P i"
    unfolding refs_def by (rule sum_mono2) (use assms in auto)
  then show ?thesis using assms by simp
qed

lemma pte_hits_le: "e < 1024 \<Longrightarrow> hits i (P t e) \<le> table_refs P t i"
  unfolding table_refs_def by (rule member_le_sum) auto

lemma user_dir_hit:
  "user_dir P d \<Longrightarrow> i < 1536 \<Longrightarrow> tbl P d = page_addr i \<Longrightarrow> hits i (P 0 d) = 1"
  by (simp add: user_dir_def hits_def tbl_def)

section \<open>What the invariant gives\<close>


lemma ok_count: "mm_ok ext M P \<Longrightarrow> i < 1536 \<Longrightarrow> unat (M i) = refs P i + ext i"
  by (simp add: mm_ok_def)

lemma ok_table: "mm_ok ext M P \<Longrightarrow> user_dir P d \<Longrightarrow> \<exists>i<1536. tbl P d = page_addr i \<and> M i = 1"
  by (simp add: mm_ok_def)

lemma ok_pte: "mm_ok ext M P \<Longrightarrow> user_dir P d \<Longrightarrow> e < 1024 \<Longrightarrow> present (P (tbl P d) e) \<Longrightarrow> frame (P (tbl P d) e) < 0x800000"
  by (simp add: mm_ok_def)

lemma ok_tbl_nz: "mm_ok ext M P \<Longrightarrow> user_dir P d \<Longrightarrow> tbl P d \<noteq> 0"
  using ok_table by fastforce

text \<open>Two directory entries never share a page table: its count would be at least 2.\<close>

lemma ok_tbl_inj:
  assumes ok: "mm_ok ext M P" and "user_dir P d" "user_dir P d'" "tbl P d = tbl P d'"
  shows "d = d'"
proof (rule ccontr)
  assume "d \<noteq> d'"
  obtain i where i: "i < 1536" "tbl P d = page_addr i" "M i = 1"
    using ok_table [OF ok] assms(2) by blast
  have "dir_refs P i d + dir_refs P i d' \<le> refs P i"
    using assms \<open>d \<noteq> d'\<close> by (intro dir_refs_le2) (auto simp: user_dir_def)
  moreover have "1 \<le> dir_refs P i d" "1 \<le> dir_refs P i d'"
    using assms i user_dir_hit [of P d i] user_dir_hit [of P d' i]
    by (simp_all add: dir_refs_def user_dir_def)
  ultimately show False
    using ok_count [OF ok, of i] i by simp
qed

text \<open>No page table entry points to a page table.\<close>

lemma ok_pte_not_table:
  assumes ok: "mm_ok ext M P" and "user_dir P d" "user_dir P d'" "e < 1024" "present (P (tbl P d) e)"
  shows "frame (P (tbl P d) e) \<noteq> tbl P d'"
proof
  assume eq: "frame (P (tbl P d) e) = tbl P d'"
  obtain i where i: "i < 1536" "tbl P d' = page_addr i" "M i = 1"
    using ok_table [OF ok] assms(3) by blast
  have h: "1 \<le> table_refs P (tbl P d) i"
    using pte_hits_le [OF assms(4), of i P "tbl P d"] assms eq i by (simp add: hits_def)
  have h': "hits i (P 0 d') = 1"
    using assms i by (simp add: user_dir_hit)
  have "2 \<le> refs P i"
  proof (cases "d = d'")
    case True
    then have "2 \<le> dir_refs P i d"
      using h h' assms by (simp add: dir_refs_def user_dir_def)
    then show ?thesis
      using dir_refs_le [of d P i] assms by (simp add: user_dir_def)
  next
    case False
    then have "dir_refs P i d + dir_refs P i d' \<le> refs P i"
      using assms by (intro dir_refs_le2) (auto simp: user_dir_def)
    moreover have "1 \<le> dir_refs P i d" "1 \<le> dir_refs P i d'"
      using h h' assms by (simp_all add: dir_refs_def user_dir_def)
    ultimately show ?thesis by simp
  qed
  then show False using ok_count [OF ok, of i] i by simp
qed

text \<open>A free frame is no page table.\<close>

lemma ok_free_not_table: "mm_ok ext M P \<Longrightarrow> user_dir P d \<Longrightarrow> i < 1536 \<Longrightarrow> M i \<noteq> 1 \<Longrightarrow> page_addr i \<noteq> tbl P d"
  using ok_table [of ext M P d] page_addr_inj by metis

lemma free_frames_cong: "(\<And>i. i < 1536 \<Longrightarrow> M i = 0 \<longleftrightarrow> M' i = 0) \<Longrightarrow> free_frames M = free_frames M'"
  unfolding free_frames_def by (rule arg_cong [of _ _ card]) auto

lemma free_frames_take:
  assumes "k < 1536" "M k = 0" "v \<noteq> 0"
  shows "free_frames M = Suc (free_frames (M(k := v)))"
proof -
  have "{i. i < 1536 \<and> M i = 0} = insert k {i. i < 1536 \<and> (M(k := v)) i = 0}" using assms by auto
  then show ?thesis using assms by (simp add: free_frames_def)
qed

lemma free_frames_0: "free_frames M = 0 \<longleftrightarrow> (\<forall>i<1536. M i \<noteq> 0)"
  by (auto simp: free_frames_def)

section \<open>Updates of physical memory\<close>

text \<open>\<open>tables_sep P\<close>: the part of the invariant that the counting lemmas need.\<close>

definition tables_sep :: "(u32 \<Rightarrow> nat \<Rightarrow> u32) \<Rightarrow> bool" where
  "tables_sep P \<longleftrightarrow>
     (\<forall>d d'. user_dir P d \<longrightarrow> user_dir P d' \<longrightarrow> tbl P d = tbl P d' \<longrightarrow> d = d') \<and>
     (\<forall>d. user_dir P d \<longrightarrow> tbl P d \<noteq> 0)"

lemma mm_ok_sep: "mm_ok ext M P \<Longrightarrow> tables_sep P"
  unfolding tables_sep_def by (blast dest: ok_tbl_inj ok_tbl_nz)

lemma refs_cong:
  assumes "\<And>d. 2 \<le> d \<Longrightarrow> d < 1024 \<Longrightarrow> dir_refs P i d = dir_refs P' i d"
  shows "refs P i = refs P' i"
  unfolding refs_def using assms by (intro sum.cong) auto

lemma table_refs_upd:
  "e < 1024 \<Longrightarrow> table_refs (P(t := (P t)(e := v))) t i + hits i (P t e) = table_refs P t i + hits i v"
  using sum_fun_upd [of "{..<1024}" e "\<lambda>_. hits i" "P t" v] by (simp add: table_refs_def)

lemma refs_other_frame:
  assumes "b \<noteq> 0" "\<And>d. user_dir P d \<Longrightarrow> tbl P d \<noteq> b"
  shows "refs (P(b := f)) i = refs P i"
proof (rule refs_cong)
  fix d assume d: "2 \<le> d" "d < (1024::nat)"
  show "dir_refs (P(b := f)) i d = dir_refs P i d"
    using assms d by (auto simp: dir_refs_def table_refs_def tbl_def user_dir_def)
qed

lemma sum_remove2:
  fixes f g :: "nat \<Rightarrow> nat"
  assumes "finite A" "d \<in> A" "\<And>x. x \<in> A \<Longrightarrow> x \<noteq> d \<Longrightarrow> f x = g x"
  shows "sum f A + g d = sum g A + f d"
proof -
  have "sum f (A - {d}) = sum g (A - {d})"
    by (rule sum.cong) (use assms in auto)
  then show ?thesis
    using assms(1,2) by (simp add: sum.remove)
qed

lemma refs_set_pte:
  assumes sep: "tables_sep P" and d: "user_dir P d" and e: "e < 1024"
  shows "refs (P(tbl P d := (P (tbl P d))(e := v))) i + hits i (P (tbl P d) e) = refs P i + hits i v"
    (is "refs ?P' i + _ = _")
proof -
  have nz: "tbl P d \<noteq> 0" using sep d by (simp add: tables_sep_def)
  have same: "dir_refs ?P' i d' = dir_refs P i d'" if "2 \<le> d'" "d' < 1024" "d' \<noteq> d" for d'
  proof -
    have "present (P 0 d') \<Longrightarrow> tbl P d' \<noteq> tbl P d"
      using sep d that unfolding tables_sep_def user_dir_def by blast
    then show ?thesis
      using nz by (auto simp: dir_refs_def table_refs_def tbl_def)
  qed
  have this_dir: "dir_refs ?P' i d + hits i (P (tbl P d) e) = dir_refs P i d + hits i v"
    using nz d table_refs_upd [OF e, of P "tbl P d" v i]
    by (simp add: dir_refs_def tbl_def user_dir_def)
  have "refs ?P' i + dir_refs P i d = refs P i + dir_refs ?P' i d"
    unfolding refs_def using same d by (intro sum_remove2) (auto simp: user_dir_def)
  then show ?thesis using this_dir by simp
qed

lemma refs_set_dir:
  assumes sep: "tables_sep P" and "2 \<le> d" "d < 1024" and "\<not> present (P 0 d)" and "k < 1536" and "P (page_addr k) = (\<lambda>_. 0)"
    and "i < 1536"
  shows "refs (P(0 := (P 0)(d := page_addr k OR 7))) i = refs P i + of_bool (i = k)"
    (is "refs ?P' i = _")
proof -
  have "dir_refs ?P' i d = of_bool (i = k)"
    using assms by (simp add: dir_refs_def table_refs_def tbl_def hits_def page_addr_inj)
  moreover have "dir_refs P i d = 0"
    using assms by (simp add: dir_refs_def)
  moreover have "refs ?P' i + dir_refs P i d = refs P i + dir_refs ?P' i d"
    unfolding refs_def
  proof (rule sum_remove2)
    fix d' assume d': "d' \<in> {2..<1024}" "d' \<noteq> d"
    then have "present (P 0 d') \<Longrightarrow> frame (P 0 d') \<noteq> 0"
      using sep by (auto simp: tables_sep_def user_dir_def tbl_def)
    with d' show "dir_refs ?P' i d' = dir_refs P i d'"
      by (simp add: dir_refs_def table_refs_def tbl_def)
  qed (use assms in auto)
  ultimately show ?thesis by simp
qed

section \<open>Updates that keep the invariant\<close>

lemma mm_ok_set_pte_ext:
  assumes ok: "mm_ok ext M P" and d: "user_dir P d" and e: "e < 1024"
    and cnt: "\<And>i. i < 1536 \<Longrightarrow> unat (M' i) + hits i (P (tbl P d) e) + ext i = unat (M i) + hits i v + ext' i"
    and tab: "\<And>d' i. user_dir P d' \<Longrightarrow> i < 1536 \<Longrightarrow> tbl P d' = page_addr i \<Longrightarrow> M' i = M i"
    and v: "present v \<Longrightarrow> frame v < 0x800000"
  shows "mm_ok ext' M' (P(tbl P d := (P (tbl P d))(e := v)))" (is "mm_ok ext' M' ?P'")
proof -
  have nz: "tbl P d \<noteq> 0" using ok d by (rule ok_tbl_nz)
  have ud [simp]: "user_dir ?P' d' = user_dir P d'" for d'
    using nz by (simp add: user_dir_def)
  have tb [simp]: "tbl ?P' d' = tbl P d'" for d'
    using nz by (simp add: tbl_def)
  show ?thesis
    unfolding mm_ok_def
  proof (intro conjI allI impI)
    fix i :: nat assume i: "i < 1536"
    show "unat (M' i) = refs ?P' i + ext' i"
      using refs_set_pte [OF mm_ok_sep [OF ok] d e, of v i] cnt [OF i] ok_count [OF ok i] by linarith
  next
    fix d' assume "user_dir ?P' d'"
    then show "\<exists>i<1536. tbl ?P' d' = page_addr i \<and> M' i = 1"
      using ok_table [OF ok, of d'] tab by fastforce
  next
    fix d' e' assume "user_dir ?P' d'" "e' < (1024::nat)" "present (?P' (tbl ?P' d') e')"
    then show "frame (?P' (tbl ?P' d') e') < HIGH_MEMORY"
      using ok_pte [OF ok, of d' e'] v by (auto split: if_splits)
  qed
qed

lemmas mm_ok_set_pte = mm_ok_set_pte_ext [where ext' = ext and ext = ext for ext, unfolded add_right_cancel]

lemma mm_ok_other_frame:
  assumes ok: "mm_ok ext M P" and b: "b \<noteq> 0" "\<And>d. user_dir P d \<Longrightarrow> tbl P d \<noteq> b"
  shows "mm_ok ext M (P(b := f))"
proof -
  have ud [simp]: "user_dir (P(b := f)) d' = user_dir P d'" for d'
    using b by (simp add: user_dir_def)
  have tb [simp]: "tbl (P(b := f)) d' = tbl P d'" for d'
    using b by (simp add: tbl_def)
  show ?thesis
    using ok b unfolding mm_ok_def by (simp add: refs_other_frame)
qed

lemma mm_ok_take:
  assumes ok: "mm_ok ext M P" and k: "k < 1536" "M k = 0"
  shows "ext k = 0" "refs P k = 0" "mm_ok (ext(k := 1)) (M(k := 1)) P"
proof -
  from ok_count [OF ok k(1)] k(2) show e: "ext k = 0" and r: "refs P k = 0"
    by auto
  show "mm_ok (ext(k := 1)) (M(k := 1)) P"
    unfolding mm_ok_def
  proof (intro conjI allI impI)
    fix i :: nat assume "i < 1536"
    then show "unat ((M(k := 1)) i) = refs P i + (ext(k := 1)) i"
      using ok_count [OF ok] r by auto
  next
    fix d assume "user_dir P d"
    then show "\<exists>i<1536. tbl P d = page_addr i \<and> (M(k := 1)) i = 1"
      using ok_table [OF ok] by fastforce
  next
    fix d e assume "user_dir P d" "e < (1024::nat)" "present (P (tbl P d) e)"
    then show "frame (P (tbl P d) e) < HIGH_MEMORY"
      using ok_pte [OF ok] by simp
  qed
qed

lemma get_free_page_ok:
  assumes ok: "mm_inv ext s" and g: "get_free_page s = (page, s')" and nz: "page \<noteq> 0"
  obtains k where "k < 1536" "page = page_addr k" "mem_map s k = 0" "ext k = 0"
    "mm_inv (ext(k := 1)) s'"
    "s' = s\<lparr>mem_map := (mem_map s)(k := 1), phys := (phys s)(page_addr k := (\<lambda>_. 0))\<rparr>"
proof (cases rule: get_free_page_cases [of s])
  case full
  with g nz show ?thesis by simp
next
  case (found k)
  then have s': "s' = s\<lparr>mem_map := (mem_map s)(k := 1), phys := (phys s)(page_addr k := (\<lambda>_. 0))\<rparr>"
    and pg: "page = page_addr k" using g by auto
  have "mm_ok (ext(k := 1)) ((mem_map s)(k := 1)) (phys s)"
    using mm_ok_take(3) [OF ok] found by simp
  moreover have "user_dir (phys s) d \<Longrightarrow> tbl (phys s) d \<noteq> page_addr k" for d
    using ok_free_not_table [OF ok, of d k] found by fastforce
  ultimately have "mm_inv (ext(k := 1)) s'"
    unfolding s' using found by (simp add: mm_ok_other_frame)
  with found s' pg mm_ok_take(1) [OF ok] show ?thesis using that by simp
qed

lemma mm_ok_set_dir:
  assumes ok: "mm_ok (ext(k := 1)) M P" and k: "k < 1536" "M k = 1" "P (page_addr k) = (\<lambda>_. 0)" "ext k = 0"
    and d: "2 \<le> d" "d < 1024" "\<not> present (P 0 d)"
  shows "mm_ok ext M (P(0 := (P 0)(d := page_addr k OR 7)))" (is "mm_ok ext M ?P'")
proof -
  have ud: "user_dir ?P' d' \<longleftrightarrow> user_dir P d' \<or> d' = d" for d'
    using d by (auto simp: user_dir_def)
  have tb: "tbl ?P' d' = (if d' = d then page_addr k else tbl P d')" for d'
    using k by (simp add: tbl_def)
  have notd: "\<not> user_dir P d" using d by (simp add: user_dir_def)
  have nz: "user_dir P d' \<Longrightarrow> tbl P d' \<noteq> 0" for d'
    using ok_tbl_nz [OF ok] by simp
  show ?thesis
    unfolding mm_ok_def
  proof (intro conjI allI impI)
    fix i :: nat assume i: "i < 1536"
    show "unat (M i) = refs ?P' i + ext i"
      using ok_count [OF ok i] refs_set_dir [OF mm_ok_sep [OF ok] d k(1,3) i] k(4) by auto
  next
    fix d' assume "user_dir ?P' d'"
    then show "\<exists>i<1536. tbl ?P' d' = page_addr i \<and> M i = 1"
      using ok_table [OF ok, of d'] k unfolding ud tb by auto
  next
    fix d' e assume a: "user_dir ?P' d'" "e < (1024::nat)" "present (?P' (tbl ?P' d') e)"
    show "frame (?P' (tbl ?P' d') e) < HIGH_MEMORY"
    proof (cases "d' = d")
      case True
      then show ?thesis using a k by (simp add: tb)
    next
      case False
      then show ?thesis
        using a ok_pte [OF ok, of d' e] nz [of d'] by (auto simp: tb ud)
    qed
  qed
qed

text \<open>\<open>same_space s s' d\<close>: the four megabytes of linear space of directory entry \<open>d\<close> are mapped in
  \<open>s'\<close> exactly as in \<open>s\<close>.\<close>

definition same_space :: "'z mm_scheme \<Rightarrow> 'z mm_scheme \<Rightarrow> nat \<Rightarrow> bool" where
  "same_space s s' d \<longleftrightarrow> phys s' 0 d = phys s 0 d \<and>
     (user_dir (phys s) d \<longrightarrow> phys s' (tbl (phys s) d) = phys s (tbl (phys s) d))"

lemma same_space_trans: "same_space s s1 d \<Longrightarrow> same_space s1 s2 d \<Longrightarrow> same_space s s2 d"
  by (auto simp: same_space_def user_dir_def tbl_def)

section \<open>Freeing\<close>

lemma free_page_run:
  "k < 1536 \<Longrightarrow> mem_map s k \<noteq> 0 \<Longrightarrow>
   free_page (page_addr k) s e = Ok () (s\<lparr>mem_map := (mem_map s)(k := mem_map s k - 1)\<rparr>) e"
  by (simp add: free_page_def)

lemma free_page_low: "addr < 0x200000 \<Longrightarrow> free_page addr s e = Ok () s e"
  by (simp add: free_page_def)

lemma pte_count_pos:
  assumes ok: "mm_ok ext M P" and d: "user_dir P d" and e: "e < 1024"
    and w: "present (P (tbl P d) e)" "frame (P (tbl P d) e) = page_addr k" and k: "k < 1536"
  shows "M k \<noteq> 0"
proof -
  have "1 \<le> table_refs P (tbl P d) k"
    using pte_hits_le [OF e, of k P "tbl P d"] w by (simp add: hits_def)
  also have "\<dots> \<le> refs P k"
    using dir_refs_le [of d P k] d by (simp add: dir_refs_def user_dir_def)
  finally show ?thesis
    using ok_count [OF ok k] by auto
qed

lemma free_pte_ok:
  assumes ok: "mm_inv ext s" and d: "user_dir (phys s) d" and nr: "nr < 1024"
  shows "\<exists>M. free_pte (tbl (phys s) d) nr s e =
      Ok () (s\<lparr>mem_map := M, phys := (phys s)(tbl (phys s) d := (phys s (tbl (phys s) d))(nr := 0))\<rparr>) e
    \<and> mm_ok ext M ((phys s)(tbl (phys s) d := (phys s (tbl (phys s) d))(nr := 0)))"
proof -
  let ?t = "tbl (phys s) d" and ?w = "phys s (tbl (phys s) d) nr"
  have run: "free_pte ?t nr s e = seqK (whenK (present ?w) (free_page (frame ?w))) (modify (set_phys ?t nr 0)) s e"
    by (simp add: free_pte_def)
  show ?thesis
  proof (cases "present ?w \<and> 0x200000 \<le> frame ?w")
    case True
    then obtain k where k: "k < 1536" "frame ?w = page_addr k"
      using frame_page_addr_ex [of ?w] ok_pte [OF ok d nr] by auto
    have nz: "mem_map s k \<noteq> 0"
      using pte_count_pos [OF ok d nr] True k by simp
    let ?M = "(mem_map s)(k := mem_map s k - 1)"
    have "mm_ok ext ?M ((phys s)(?t := (phys s ?t)(nr := 0)))"
    proof (rule mm_ok_set_pte [OF ok d nr])
      fix i :: nat assume "i < 1536"
      then show "unat (?M i) + hits i ?w = unat (mem_map s i) + hits i 0"
        using True k nz by (auto simp: hits_page unat_dec unat_gt_0)
    next
      fix d' i assume "user_dir (phys s) d'" "i < (1536::nat)" "tbl (phys s) d' = page_addr i"
      then show "?M i = mem_map s i"
        using ok_pte_not_table [OF ok d _ nr, of d'] True k by auto
    qed simp
    moreover have "free_pte ?t nr s e = Ok () (s\<lparr>mem_map := ?M, phys := (phys s)(?t := (phys s ?t)(nr := 0))\<rparr>) e"
      using True k nz by (simp add: run free_page_run set_phys_def)
    ultimately show ?thesis by blast
  next
    case False
    then have "i < 1536 \<Longrightarrow> hits i ?w = 0" for i
      by (cases "present ?w") (auto simp: hits_low hits_absent not_le)
    then have "mm_ok ext (mem_map s) ((phys s)(?t := (phys s ?t)(nr := 0)))"
      by (intro mm_ok_set_pte [OF ok d nr]) auto
    moreover have "free_pte ?t nr s e = Ok () (s\<lparr>mem_map := mem_map s, phys := (phys s)(?t := (phys s ?t)(nr := 0))\<rparr>) e"
      using False by (cases "present ?w") (auto simp: run free_page_low set_phys_def not_le seqK_run)
    ultimately show ?thesis by blast
  qed
qed

lemma free_ptes_ok:
  assumes ok: "mm_inv ext s" and d: "user_dir (phys s) d" and n: "n \<le> 1024"
  shows "\<exists>M. forK [0..<n] (free_pte (tbl (phys s) d)) s e =
      Ok () (s\<lparr>mem_map := M,
        phys := (phys s)(tbl (phys s) d := (\<lambda>i. if i < n then 0 else phys s (tbl (phys s) d) i))\<rparr>) e
    \<and> mm_ok ext M ((phys s)(tbl (phys s) d := (\<lambda>i. if i < n then 0 else phys s (tbl (phys s) d) i)))"
  using n
proof (induction n)
  case 0
  have "(phys s)(tbl (phys s) d := phys s (tbl (phys s) d)) = phys s" by simp
  then show ?case using ok by (auto intro!: exI [of _ "mem_map s"])
next
  case (Suc n)
  let ?t = "tbl (phys s) d"
  let ?P = "\<lambda>n. (phys s)(?t := (\<lambda>i. if i < n then 0 else phys s ?t i))"
  have "n \<le> 1024" using Suc.prems by simp
  from Suc.IH [OF this] obtain M where run: "forK [0..<n] (free_pte ?t) s e = Ok () (s\<lparr>mem_map := M, phys := ?P n\<rparr>) e"
    and okn: "mm_ok ext M (?P n)" by blast
  have nz: "?t \<noteq> 0" using ok_tbl_nz [OF ok d] .
  have tb: "tbl (?P n) d = ?t" and ud: "user_dir (?P n) d"
    using nz d by (simp_all add: tbl_def user_dir_def)
  have upd: "(\<lambda>i. if i < n then 0 else phys s ?t i)(n := 0) = (\<lambda>i. if i < Suc n then 0 else phys s ?t i)"
    by (auto simp: fun_eq_iff less_Suc_eq)
  let ?s = "s\<lparr>mem_map := M, phys := ?P n\<rparr>"
  from free_pte_ok [of ext ?s d n e] okn ud Suc.prems
  obtain M' where "free_pte ?t n ?s e = Ok () (?s\<lparr>mem_map := M', phys := ?P (Suc n)\<rparr>) e"
    "mm_ok ext M' (?P (Suc n))"
    by (auto simp: tb upd)
  then show ?case
    by (intro exI [of _ M']) (simp add: forK_append run fun_upd_def)
qed

lemma refs_clear_dir:
  assumes sep: "tables_sep P" and d: "user_dir P d" and z: "\<And>e. e < 1024 \<Longrightarrow> P (tbl P d) e = 0"
  shows "refs (P(0 := (P 0)(d := 0))) i + hits i (P 0 d) = refs P i" (is "refs ?P' i + _ = _")
proof -
  have "dir_refs ?P' i d = 0" by (simp add: dir_refs_def)
  moreover have "dir_refs P i d = hits i (P 0 d)"
    using d z by (simp add: dir_refs_def user_dir_def table_refs_def)
  moreover have "refs ?P' i + dir_refs P i d = refs P i + dir_refs ?P' i d"
    unfolding refs_def
  proof (rule sum_remove2)
    fix d' assume d': "d' \<in> {2..<1024}" "d' \<noteq> d"
    then have "present (P 0 d') \<Longrightarrow> frame (P 0 d') \<noteq> 0"
      using sep by (auto simp: tables_sep_def user_dir_def tbl_def)
    with d' show "dir_refs ?P' i d' = dir_refs P i d'"
      by (simp add: dir_refs_def table_refs_def tbl_def)
  qed (use d in \<open>auto simp: user_dir_def\<close>)
  ultimately show ?thesis by simp
qed

lemma mm_ok_clear_dir:
  assumes ok: "mm_ok ext M P" and d: "user_dir P d" and z: "\<And>e. e < 1024 \<Longrightarrow> P (tbl P d) e = 0"
    and k: "k < 1536" "tbl P d = page_addr k"
  shows "mm_ok ext (M(k := M k - 1)) (P(0 := (P 0)(d := 0)))" (is "mm_ok ext ?M ?P'")
proof -
  have Mk: "M k = 1"
    using ok_table [OF ok d] k by (auto simp: page_addr_inj)
  have ud: "user_dir ?P' d' \<longleftrightarrow> user_dir P d' \<and> d' \<noteq> d" for d'
    by (auto simp: user_dir_def)
  have tb: "d' \<noteq> d \<Longrightarrow> tbl ?P' d' = tbl P d'" for d'
    by (simp add: tbl_def)
  show ?thesis
    unfolding mm_ok_def
  proof (intro conjI allI impI)
    fix i :: nat assume i: "i < 1536"
    have "hits i (P 0 d) = of_bool (i = k)"
      using d k i by (simp add: hits_def user_dir_def tbl_def page_addr_inj)
    then show "unat (?M i) = refs ?P' i + ext i"
      using refs_clear_dir [OF mm_ok_sep [OF ok] d z, of i] ok_count [OF ok i] Mk by auto
  next
    fix d' assume d': "user_dir ?P' d'"
    then obtain i where "i < 1536" "tbl P d' = page_addr i" "M i = 1"
      using ok_table [OF ok, of d'] ud by auto
    moreover have "i \<noteq> k"
      using ok_tbl_inj [OF ok, of d' d] d d' k calculation ud by auto
    ultimately show "\<exists>i<1536. tbl ?P' d' = page_addr i \<and> ?M i = 1"
      using d' by (auto simp: ud tb)
  next
    fix d' e assume a: "user_dir ?P' d'" "e < (1024::nat)" "present (?P' (tbl ?P' d') e)"
    then show "frame (?P' (tbl ?P' d') e) < HIGH_MEMORY"
      using ok_pte [OF ok, of d' e] ok_tbl_nz [OF ok, of d'] by (auto simp: ud tb)
  qed
qed

lemma free_dir_ok:
  assumes ok: "mm_inv ext s" and d: "2 \<le> d" "d < 1024"
  shows "\<exists>s'. free_dir d s e = Ok () s' e \<and> mm_inv ext s' \<and> \<not> present (phys s' 0 d)
    \<and> (\<forall>d'. d' \<noteq> d \<longrightarrow> same_space s s' d') \<and> (\<forall>b. no_table (phys s) b \<longrightarrow> no_table (phys s') b \<and> phys s' b = phys s b)"
proof (cases "present (phys s 0 d)")
  case False
  then show ?thesis using ok d by (simp add: free_dir_def same_space_def)
next
  case True
  let ?t = "tbl (phys s) d"
  let ?P = "(phys s)(?t := (\<lambda>i. if i < 1024 then 0 else phys s ?t i))"
  have ud: "user_dir (phys s) d" using True d by (simp add: user_dir_def)
  have nz: "?t \<noteq> 0" using ok_tbl_nz [OF ok ud] .
  obtain M where run: "forK [0..<1024] (free_pte ?t) s e = Ok () (s\<lparr>mem_map := M, phys := ?P\<rparr>) e"
    and ok': "mm_ok ext M ?P"
    using free_ptes_ok [OF ok ud, of 1024 e] by auto
  have ud': "user_dir ?P d" and tb': "tbl ?P d = ?t"
    using ud nz by (simp_all add: user_dir_def tbl_def)
  obtain k where k: "k < 1536" "?t = page_addr k" "M k = 1"
    using ok_table [OF ok' ud'] tb' by auto
  have fr: "frame (phys s 0 d) = page_addr k" using k by (simp add: tbl_def)
  have "mm_ok ext (M(k := M k - 1)) (?P(0 := (?P 0)(d := 0)))"
    by (rule mm_ok_clear_dir [OF ok' ud']) (use k tb' in auto)
  moreover have "free_dir d s e = Ok () (s\<lparr>mem_map := M(k := M k - 1), phys := ?P(0 := (?P 0)(d := 0))\<rparr>) e"
    using True d run k nz by (simp add: free_dir_def fr free_page_run set_phys_def tbl_def)
  moreover have "d' \<noteq> d \<Longrightarrow> user_dir (phys s) d' \<Longrightarrow> tbl (phys s) d' \<noteq> ?t" for d'
    using ok_tbl_inj [OF ok _ ud] by auto
  moreover have "no_table (?P(0 := (?P 0)(d := 0))) b \<and> (?P(0 := (?P 0)(d := 0))) b = phys s b" if "no_table (phys s) b" for b
    using that ud nz by (auto simp: no_table_def user_dir_def tbl_def)
  ultimately show ?thesis
    using nz ok_tbl_nz [OF ok] by (auto simp: same_space_def)
qed

lemma free_dirs_ok:
  assumes "mm_inv ext s" and "2 \<le> d" "d + n \<le> 1024"
  shows "\<exists>s'. forK [d..<d + n] free_dir s e = Ok () s' e \<and> mm_inv ext s'
    \<and> (\<forall>d'. d \<le> d' \<and> d' < d + n \<longrightarrow> \<not> present (phys s' 0 d'))
    \<and> (\<forall>d'. \<not> (d \<le> d' \<and> d' < d + n) \<longrightarrow> same_space s s' d') \<and> (\<forall>b. no_table (phys s) b \<longrightarrow> no_table (phys s') b \<and> phys s' b = phys s b)"
  using assms
proof (induction n)
  case 0
  then show ?case by (auto simp: same_space_def)
next
  case (Suc n)
  then obtain s1 where s1: "forK [d..<d + n] free_dir s e = Ok () s1 e" "mm_inv ext s1"
    "\<forall>d'. d \<le> d' \<and> d' < d + n \<longrightarrow> \<not> present (phys s1 0 d')"
    "\<forall>d'. \<not> (d \<le> d' \<and> d' < d + n) \<longrightarrow> same_space s s1 d'" "\<forall>b. no_table (phys s) b \<longrightarrow> no_table (phys s1) b \<and> phys s1 b = phys s b" by auto
  obtain s2 where s2: "free_dir (d + n) s1 e = Ok () s2 e" "mm_inv ext s2" "\<not> present (phys s2 0 (d + n))"
    "\<forall>d'. d' \<noteq> d + n \<longrightarrow> same_space s1 s2 d'" "\<forall>b. no_table (phys s1) b \<longrightarrow> no_table (phys s2) b \<and> phys s2 b = phys s1 b"
    using free_dir_ok [OF s1(2), of "d + n" e] Suc.prems by auto
  have "forK [d..<d + Suc n] free_dir s e = Ok () s2 e"
    using s1(1) s2(1) by (simp add: forK_append)
  moreover have "\<forall>d'. d \<le> d' \<and> d' < d + Suc n \<longrightarrow> \<not> present (phys s2 0 d')"
    using s1(3) s2(3,4) by (auto simp: less_Suc_eq same_space_def)
  moreover have "\<forall>d'. \<not> (d \<le> d' \<and> d' < d + Suc n) \<longrightarrow> same_space s s2 d'"
  proof (intro allI impI)
    fix d' assume "\<not> (d \<le> d' \<and> d' < d + Suc n)"
    then have "same_space s s1 d'" "same_space s1 s2 d'" using s1(4) s2(4) by auto
    then show "same_space s s2 d'" by (rule same_space_trans)
  qed
  moreover have "\<forall>b. no_table (phys s) b \<longrightarrow> no_table (phys s2) b \<and> phys s2 b = phys s b" using s1(5) s2(5) by simp
  ultimately show ?case using s2(2) by blast
qed

section \<open>Copying\<close>

text \<open>What one step of \<^verbatim>\<open>copy_page_tables\<close> leaves in the new table and in the old one.\<close>

definition cow :: "u32 \<Rightarrow> u32" where
  "cow w = (if present w then w AND - 3 else 0)"

definition ro :: "u32 \<Rightarrow> u32" where
  "ro w = (if present w \<and> w AND - 3 > LOW_MEM then w AND - 3 else w)"

text \<open>\<open>kernel_map P\<close>: the first kernel table, set up by \<^verbatim>\<open>boot/head.s\<close>, lies below \<^verbatim>\<open>LOW_MEM\<close>, and its
  first 160 entries, the 640 kilobytes that the first \<^verbatim>\<open>fork\<close> copies, map low memory.\<close>

definition kernel_map :: "(u32 \<Rightarrow> nat \<Rightarrow> u32) \<Rightarrow> bool" where
  "kernel_map P \<longleftrightarrow> tbl P 0 \<noteq> 0 \<and> tbl P 0 < LOW_MEM \<and>
     (\<forall>e<0xA0. frame (P (tbl P 0) e) < LOW_MEM)"

lemma cow_simps [simp]: "present (cow w) = present w" "hits i (cow w) = hits i w"
  "present w \<Longrightarrow> frame (cow w) = frame w"
  by (auto simp: cow_def hits_absent)

lemma ro_simps [simp]: "present (ro w) = present w" "hits i (ro w) = hits i w" "frame (ro w) = frame w"
  by (auto simp: ro_def)

lemma mm_ok_set_same:
  assumes ok: "mm_ok ext M P" and F: "F \<noteq> 0" and e: "e < 1024" and b: "present (P F e) \<Longrightarrow> frame (P F e) < 0x800000"
  shows "mm_ok ext M (P(F := (P F)(e := ro (P F e))))"
proof (cases "\<exists>d. user_dir P d \<and> tbl P d = F")
  case True
  then obtain d where d: "user_dir P d" "F = tbl P d" by auto
  show ?thesis
    unfolding d(2) by (rule mm_ok_set_pte [OF ok d(1) e]) (use b d in auto)
next
  case False
  then show ?thesis using ok F by (intro mm_ok_other_frame) auto
qed

lemma copy_pte_ok:
  assumes ok: "mm_inv ext s" and td: "user_dir (phys s) td" and T: "T = tbl (phys s) td"
    and F: "F \<noteq> T" "F \<noteq> 0" and nr: "nr < 1024" and fresh: "phys s T nr = 0"
    and src: "(\<exists>fd. user_dir (phys s) fd \<and> F = tbl (phys s) fd) \<or> frame (phys s F nr) < LOW_MEM"
    and ovf: "\<forall>i<1536. unat (mem_map s i) + Suc m < 65536"
  shows "\<exists>M. copy_pte F T nr s e = Ok () (s\<lparr>mem_map := M, phys := (phys s)
            (T := (phys s T)(nr := cow (phys s F nr)), F := (phys s F)(nr := ro (phys s F nr)))\<rparr>) e
    \<and> mm_ok ext M ((phys s)(T := (phys s T)(nr := cow (phys s F nr)), F := (phys s F)(nr := ro (phys s F nr))))
    \<and> (\<forall>i<1536. unat (M i) + m < 65536) \<and> (\<forall>i<1536. M i = 0 \<longleftrightarrow> mem_map s i = 0)"
proof -
  let ?w = "phys s F nr"
  let ?P1 = "(phys s)(T := (phys s T)(nr := cow ?w))"
  let ?P2 = "?P1(F := (phys s F)(nr := ro ?w))"
  have P2: "?P2 = ?P1(F := (?P1 F)(nr := ro (?P1 F nr)))"
    using F by simp
  have b: "present ?w \<Longrightarrow> frame ?w < 0x800000"
    using src ok_pte [OF ok _ nr] by (auto simp: order_less_trans)
  have nop: "(phys s)(T := (phys s T)(nr := 0)) = phys s" "?P1(F := phys s F) = ?P1"
    using fresh F by (auto simp: fun_upd_idem_iff)
  show ?thesis
  proof (cases "present ?w \<and> 0x200000 \<le> frame ?w")
    case False
    have low: "present ?w \<Longrightarrow> \<not> ?w AND - 3 > 0x200000"
      using False above_LOW_MEM_iff [of "?w AND - 3"] by auto
    have h: "i < 1536 \<Longrightarrow> hits i ?w = 0" for i
      using False by (cases "present ?w") (auto simp: hits_low hits_absent not_le)
    have "mm_ok ext (mem_map s) ?P1"
      unfolding T by (rule mm_ok_set_pte [OF ok td nr]) (use fresh h b T in auto)
    then have "mm_ok ext (mem_map s) ?P2"
      unfolding P2 by (rule mm_ok_set_same) (use F nr b in auto)
    moreover have "copy_pte F T nr s e = Ok () (s\<lparr>mem_map := mem_map s, phys := ?P2\<rparr>) e"
      using low nop F by (cases "present ?w") (auto simp: copy_pte_def set_phys_def cow_def ro_def Let_def seqK_run)
    ultimately show ?thesis
      using ovf by (intro exI [of _ "mem_map s"]) auto
  next
    case True
    then obtain k where k: "k < 1536" "frame ?w = page_addr k" "MAP_NR (?w AND - 3) = k"
      using frame_page_addr_ex [of "?w AND - 3"] b by auto
    have hi: "?w AND - 3 > 0x200000"
      using True above_LOW_MEM_iff [of "?w AND - 3"] by auto
    let ?M = "(mem_map s)(k := mem_map s k + 1)"
    have "unat (mem_map s k) + 1 < 65536" using ovf k by auto
    then have inc: "unat (mem_map s k + 1) = unat (mem_map s k) + 1"
      by (simp add: unat_word_ariths)
    have nz: "mem_map s k \<noteq> 0"
      using src True k pte_count_pos [OF ok _ nr _ _ k(1)] by (auto simp flip: not_le)
    have nz': "mem_map s k + 1 \<noteq> 0"
    proof
      assume "mem_map s k + 1 = 0"
      then have "unat (mem_map s k + 1) = 0" by simp
      with inc show False by simp
    qed
    have notab: "user_dir (phys s) d' \<Longrightarrow> tbl (phys s) d' \<noteq> page_addr k" for d'
      using src True k ok_pte_not_table [OF ok _ _ nr, of _ d'] by (auto simp flip: not_le)
    have "mm_ok ext ?M ?P1"
      unfolding T by (rule mm_ok_set_pte [OF ok td nr])
        (use fresh b T k inc True notab in \<open>auto simp: hits_page\<close>)
    then have "mm_ok ext ?M ?P2"
      unfolding P2 by (rule mm_ok_set_same) (use F nr b in auto)
    moreover have "copy_pte F T nr s e = Ok () (s\<lparr>mem_map := ?M, phys := ?P2\<rparr>) e"
      using True hi k F by (auto simp: copy_pte_def set_phys_def cow_def ro_def Let_def seqK_run)
    moreover have "\<forall>i<1536. unat (?M i) + m < 65536"
      using ovf inc by auto
    moreover have "\<forall>i<1536. ?M i = 0 \<longleftrightarrow> mem_map s i = 0" using nz nz' by auto
    ultimately show ?thesis by blast
  qed
qed

definition copied_ptes :: "(u32 \<Rightarrow> nat \<Rightarrow> u32) \<Rightarrow> u32 \<Rightarrow> u32 \<Rightarrow> nat \<Rightarrow> u32 \<Rightarrow> nat \<Rightarrow> u32" where
  "copied_ptes P F T n = P(T := (\<lambda>i. if i < n then cow (P F i) else 0),
                            F := (\<lambda>i. if i < n then ro (P F i) else P F i))"

lemma copy_ptes_ok:
  assumes ok: "mm_inv ext s" and td: "user_dir (phys s) td" and T: "T = tbl (phys s) td"
    and F: "F \<noteq> T" "F \<noteq> 0" and n: "n \<le> 1024" and fresh: "phys s T = (\<lambda>_. 0)"
    and src: "(\<exists>fd. user_dir (phys s) fd \<and> F = tbl (phys s) fd) \<or> (\<forall>e<n. frame (phys s F e) < LOW_MEM)"
    and ovf: "\<forall>i<1536. unat (mem_map s i) + (m + n) < 65536"
  shows "\<exists>M. forK [0..<n] (copy_pte F T) s e = Ok () (s\<lparr>mem_map := M, phys := copied_ptes (phys s) F T n\<rparr>) e
    \<and> mm_ok ext M (copied_ptes (phys s) F T n) \<and> (\<forall>i<1536. unat (M i) + m < 65536) \<and> (\<forall>i<1536. M i = 0 \<longleftrightarrow> mem_map s i = 0)"
  using n src ovf
proof (induction n arbitrary: m)
  case 0
  have "copied_ptes (phys s) F T 0 = phys s" using fresh by (simp add: copied_ptes_def fun_eq_iff)
  then show ?case using ok 0 by (auto intro!: exI [of _ "mem_map s"])
next
  case (Suc n)
  let ?P = "copied_ptes (phys s) F T"
  have "n \<le> 1024" "\<forall>i<1536. unat (mem_map s i) + (Suc m + n) < 65536"
    "(\<exists>fd. user_dir (phys s) fd \<and> F = tbl (phys s) fd) \<or> (\<forall>e<n. frame (phys s F e) < LOW_MEM)"
    using Suc.prems by auto
  from Suc.IH [OF this(1,3,2)] obtain M where
    run: "forK [0..<n] (copy_pte F T) s e = Ok () (s\<lparr>mem_map := M, phys := ?P n\<rparr>) e"
    and okn: "mm_ok ext M (?P n)" and ov: "\<forall>i<1536. unat (M i) + Suc m < 65536"
    and fr: "\<forall>i<1536. M i = 0 \<longleftrightarrow> mem_map s i = 0" by blast
  have nz: "T \<noteq> 0" using ok_tbl_nz [OF ok td] T by simp
  have ud: "user_dir (?P n) d = user_dir (phys s) d" and tb: "tbl (?P n) d = tbl (phys s) d" for d
    using nz F by (simp_all add: user_dir_def tbl_def copied_ptes_def)
  let ?s = "s\<lparr>mem_map := M, phys := ?P n\<rparr>"
  have ent: "?P n F n = phys s F n" "?P n T n = 0"
    using F by (simp_all add: copied_ptes_def)
  have pre: "mm_inv ext ?s" "user_dir (phys ?s) td" "T = tbl (phys ?s) td" "n < 1024" "phys ?s T n = 0"
    using okn td Suc.prems(1) ent by (simp_all add: ud tb T [symmetric])
  have src': "(\<exists>fd. user_dir (phys ?s) fd \<and> F = tbl (phys ?s) fd) \<or> frame (phys ?s F n) < LOW_MEM"
    using Suc.prems(2) by (auto simp: ud tb ent)
  have ov': "\<forall>i<1536. unat (mem_map ?s i) + Suc m < 65536" using ov by simp
  from copy_pte_ok [OF pre(1-3) F pre(4,5) src' ov', of e]
  obtain M' where run1: "copy_pte F T n ?s e = Ok () (?s\<lparr>mem_map := M', phys := (?P n)
      (T := (?P n T)(n := cow (?P n F n)), F := (?P n F)(n := ro (?P n F n)))\<rparr>) e"
    and ok1: "mm_ok ext M' ((?P n)(T := (?P n T)(n := cow (?P n F n)), F := (?P n F)(n := ro (?P n F n))))"
    and ov1: "\<forall>i<1536. unat (M' i) + m < 65536" and fr1: "\<forall>i<1536. M' i = 0 \<longleftrightarrow> M i = 0"
    by auto
  have upd: "(?P n)(T := (?P n T)(n := cow (?P n F n)), F := (?P n F)(n := ro (?P n F n))) = ?P (Suc n)"
    using F by (auto simp: fun_eq_iff less_Suc_eq copied_ptes_def)
  have "forK [0..<Suc n] (copy_pte F T) s e = Ok () (s\<lparr>mem_map := M', phys := ?P (Suc n)\<rparr>) e"
    using run run1 by (simp add: forK_append upd)
  then show ?case using ok1 ov1 fr fr1 unfolding upd by blast
qed

text \<open>\<open>copied s s' f t\<close>: the entry \<open>t\<close> of the directory of \<open>s'\<close> is a copy-on-write copy of the
  entry \<open>f\<close> of \<open>s\<close>, and the original has lost its write permission on the shared pages.\<close>

definition copied :: "'z mm_scheme \<Rightarrow> 'z mm_scheme \<Rightarrow> nat \<Rightarrow> nat \<Rightarrow> nat \<Rightarrow> bool" where
  "copied s s' N f t \<longleftrightarrow> phys s' 0 f = phys s 0 f \<and>
     (if present (phys s 0 f)
      then user_dir (phys s') t \<and>
        (\<forall>e<N. phys s' (tbl (phys s') t) e = cow (phys s (tbl (phys s) f) e)
              \<and> phys s' (tbl (phys s) f) e = ro (phys s (tbl (phys s) f) e))
      else \<not> present (phys s' 0 t))"

lemma copy_one_dir:
  assumes ok: "mm_inv ext s" and td: "2 \<le> td" "td < 1024" "\<not> present (phys s 0 td)" and fd: "fd \<noteq> td"
    and pres: "present (phys s 0 fd)" and N: "N \<le> 1024"
    and src: "2 \<le> fd \<and> fd < 1024 \<or> tbl (phys s) fd \<noteq> 0 \<and> tbl (phys s) fd < LOW_MEM \<and> (\<forall>e<N. frame (phys s (tbl (phys s) fd) e) < LOW_MEM)"
    and ovf: "\<forall>i<1536. unat (mem_map s i) + (m + N + 1) < 65536"
    and g: "get_free_page s = (T, s1)" "T \<noteq> 0"
  shows "\<exists>s'. seqK (modify (set_phys 0 td (T OR 7))) (forK [0..<N] (copy_pte (tbl (phys s) fd) T)) s1 e = Ok () s' e
    \<and> mm_inv ext s' \<and> (\<forall>i<1536. unat (mem_map s' i) + m < 65536)
    \<and> free_frames (mem_map s) = Suc (free_frames (mem_map s'))
    \<and> copied s s' N fd td \<and> (\<forall>d. d \<noteq> fd \<longrightarrow> d \<noteq> td \<longrightarrow> same_space s s' d)
    \<and> (\<forall>b. b \<noteq> tbl (phys s) fd \<longrightarrow> data_frame s b \<longrightarrow> data_frame s' b \<and> phys s' b = phys s b)"
proof -
  let ?F = "tbl (phys s) fd"
  obtain k where k: "k < 1536" "T = page_addr k" "mem_map s k = 0" "ext k = 0" "mm_inv (ext(k := 1)) s1"
    "s1 = s\<lparr>mem_map := (mem_map s)(k := 1), phys := (phys s)(page_addr k := (\<lambda>_. 0))\<rparr>"
    using get_free_page_ok [OF ok g] by blast
  have T0: "T \<noteq> 0" using k by simp
  let ?s2 = "set_phys 0 td (T OR 7) s1"
  let ?P2 = "phys ?s2"
  have P2: "?P2 = (phys s)(T := (\<lambda>_. 0), 0 := (phys s 0)(td := T OR 7))"
    using k T0 by (simp add: set_phys_def fun_upd_twist)
  have ok2: "mm_inv ext ?s2"
    using mm_ok_set_dir [OF k(5) k(1) _ _ k(4) td(1,2)] k td T0 by (simp add: set_phys_def)
  have ud2: "user_dir ?P2 td" and tb2: "T = tbl ?P2 td"
    unfolding user_dir_def tbl_def P2 using td k(1,2) by simp_all
  have F: "?F \<noteq> T" "?F \<noteq> 0"
  proof -
    have "2 \<le> fd \<and> fd < 1024 \<Longrightarrow> user_dir (phys s) fd" using pres by (simp add: user_dir_def)
    then show "?F \<noteq> T" "?F \<noteq> 0"
      using src ok_free_not_table [OF ok _ k(1), of fd] ok_tbl_nz [OF ok, of fd] k(1-3) page_addr_ge [of k]
      by (auto simp flip: not_le)
  qed
  have fresh: "phys ?s2 T = (\<lambda>_. 0)" and PF: "phys ?s2 ?F = phys s ?F"
    using T0 F by (simp_all add: P2)
  have tbs: "d \<noteq> td \<Longrightarrow> tbl ?P2 d = tbl (phys s) d" "d \<noteq> td \<Longrightarrow> user_dir ?P2 d = user_dir (phys s) d" for d
    using T0 by (simp_all add: P2 tbl_def user_dir_def)
  have src2: "(\<exists>fd'. user_dir (phys ?s2) fd' \<and> ?F = tbl (phys ?s2) fd') \<or> (\<forall>e<N. frame (phys ?s2 ?F e) < LOW_MEM)"
    using src pres fd tbs [of fd] PF by (auto simp: user_dir_def)
  have ovf2: "\<forall>i<1536. unat (mem_map ?s2 i) + (m + N) < 65536"
    using ovf k by (auto simp: set_phys_def)
  obtain M where run: "forK [0..<N] (copy_pte ?F T) ?s2 e = Ok () (?s2\<lparr>mem_map := M, phys := copied_ptes ?P2 ?F T N\<rparr>) e"
    and ok3: "mm_ok ext M (copied_ptes ?P2 ?F T N)" and ov3: "\<forall>i<1536. unat (M i) + m < 65536"
    and fr3: "\<forall>i<1536. M i = 0 \<longleftrightarrow> mem_map ?s2 i = 0"
    using copy_ptes_ok [OF ok2 ud2 tb2 F N fresh src2 ovf2, of e] by blast
  define s3 where "s3 = ?s2\<lparr>mem_map := M, phys := copied_ptes ?P2 ?F T N\<rparr>"
  have free: "free_frames (mem_map s) = Suc (free_frames (mem_map s3))"
  proof -
    have "free_frames M = free_frames ((mem_map s)(k := 1))"
      using fr3 k(6) by (intro free_frames_cong) (simp add: set_phys_def)
    then show ?thesis using free_frames_take [of k "mem_map s" 1] k(1,3) by (simp add: s3_def)
  qed
  have P0: "phys s3 0 = (phys s 0)(td := T OR 7)"
    and PT: "i < N \<Longrightarrow> phys s3 T i = cow (phys s ?F i)" "i < N \<Longrightarrow> phys s3 ?F i = ro (phys s ?F i)"
    and Po: "b \<noteq> T \<Longrightarrow> b \<noteq> ?F \<Longrightarrow> b \<noteq> 0 \<Longrightarrow> phys s3 b = phys s b" for i b
    using T0 F PF by (simp_all add: s3_def copied_ptes_def P2)
  have tb3: "tbl (phys s3) td = T" "user_dir (phys s3) td"
    unfolding tbl_def [of "phys s3"] user_dir_def P0 using td k(1,2) by simp_all
  have "copied s s3 N fd td"
    using tb3 fd pres PT by (simp add: copied_def P0)
  moreover have "same_space s s3 d" if "d \<noteq> fd" "d \<noteq> td" for d
  proof -
    have "tbl (phys s) d \<noteq> T \<and> tbl (phys s) d \<noteq> ?F \<and> tbl (phys s) d \<noteq> 0" if ud: "user_dir (phys s) d"
    proof (intro conjI)
      show "tbl (phys s) d \<noteq> T" using ok_free_not_table [OF ok ud k(1)] k(2,3) by force
      show "tbl (phys s) d \<noteq> 0" using ok_tbl_nz [OF ok ud] .
      obtain j where "j < 1536" "tbl (phys s) d = page_addr j" using ok_table [OF ok ud] by blast
      then have "\<not> tbl (phys s) d < LOW_MEM" by simp
      then show "tbl (phys s) d \<noteq> ?F"
        using src pres ok_tbl_inj [OF ok ud, of fd] \<open>d \<noteq> fd\<close> by (auto simp: user_dir_def)
    qed
    then show ?thesis
      using that Po by (auto simp: same_space_def P0)
  qed
  moreover have "data_frame s3 b \<and> phys s3 b = phys s b" if b: "b \<noteq> ?F" "data_frame s b" for b
  proof -
    have bT: "b \<noteq> T" "b \<noteq> 0" using b(2) k(1-3) by (auto simp: data_frame_def no_table_def)
    have "tbl (phys s3) d \<noteq> b" if "user_dir (phys s3) d" for d
      using that b(2) bT(1) tb3(1) by (cases "d = td") (auto simp: data_frame_def no_table_def user_dir_def tbl_def P0)
    moreover have "mem_map s3 i = 0 \<longleftrightarrow> mem_map s i = 0 \<and> i \<noteq> k" if "i < 1536" for i using fr3 k(6) that by (simp add: s3_def set_phys_def)
    ultimately show ?thesis using b Po [OF bT(1) b(1) bT(2)] bT(2) by (auto simp: data_frame_def no_table_def)
  qed
  ultimately show ?thesis
    using run ok3 ov3 free by (intro exI [of _ s3]) (simp add: s3_def)
qed

lemma copied_trans:
  assumes c: "copied s s1 N f t" and f: "same_space s1 s' f" and t: "same_space s1 s' t"
    and src: "2 \<le> f" "f < 1024" and td: "present (phys s 0 f) \<Longrightarrow> N \<le> 1024"
  shows "copied s s' N f t"
proof (cases "present (phys s 0 f)")
  case True
  have eq: "phys s1 0 f = phys s 0 f" "phys s' 0 f = phys s1 0 f" "phys s' 0 t = phys s1 0 t"
    using c f t by (auto simp: copied_def same_space_def)
  have ud: "user_dir (phys s1) f" "user_dir (phys s1) t"
    using True src eq c by (auto simp: user_dir_def copied_def)
  have tb: "tbl (phys s1) f = tbl (phys s) f" "tbl (phys s') t = tbl (phys s1) t"
    using eq by (simp_all add: tbl_def)
  have "phys s' (tbl (phys s) f) = phys s1 (tbl (phys s) f)" "phys s' (tbl (phys s1) t) = phys s1 (tbl (phys s1) t)"
    using f t ud tb by (auto simp: same_space_def)
  moreover have "user_dir (phys s') t" using ud eq by (simp add: user_dir_def)
  ultimately show ?thesis
    using c True eq tb by (simp add: copied_def)
next
  case False
  then show ?thesis using c f t by (auto simp: copied_def same_space_def)
qed

lemma copied_pre:
  assumes "copied s1 s' N f t" and "same_space s s1 f" and "2 \<le> f" "f < 1024"
  shows "copied s s' N f t"
  using assms by (cases "present (phys s 0 f)") (auto simp: copied_def same_space_def user_dir_def tbl_def)

text \<open>How many page tables a copy of the \<open>n\<close> directory entries from \<open>f\<close> on takes.\<close>

definition tables_needed :: "(u32 \<Rightarrow> nat \<Rightarrow> u32) \<Rightarrow> nat \<Rightarrow> nat \<Rightarrow> nat" where
  "tables_needed P f n = length (filter (\<lambda>d. present (P 0 d)) [f..<f + n])"

lemma tables_needed_0 [simp]: "tables_needed P f 0 = 0"
  by (simp add: tables_needed_def)

lemma tables_needed_Suc: "tables_needed P f (Suc n) = of_bool (present (P 0 f)) + tables_needed P (Suc f) n"
proof -
  have "[f..<f + Suc n] = f # [Suc f..<Suc f + n]" by (simp add: upt_conv_Cons)
  then show ?thesis by (simp add: tables_needed_def)
qed

lemma tables_needed_add: "tables_needed P f (a + b) = tables_needed P f a + tables_needed P (f + a) b"
  by (induction a arbitrary: f) (simp_all add: tables_needed_Suc)

lemma tables_needed_cong: "(\<And>j. j < n \<Longrightarrow> present (P 0 (f + j)) = present (P' 0 (f + j))) \<Longrightarrow> tables_needed P f n = tables_needed P' f n"
proof -
  assume eq: "\<And>j. j < n \<Longrightarrow> present (P 0 (f + j)) = present (P' 0 (f + j))"
  have "present (P 0 d) = present (P' 0 d)" if "d \<in> set [f..<f + n]" for d
    using eq [of "d - f"] that by auto
  then have "filter (\<lambda>d. present (P 0 d)) [f..<f + n] = filter (\<lambda>d. present (P' 0 d)) [f..<f + n]" by (rule filter_cong [OF refl])
  then show ?thesis by (simp add: tables_needed_def)
qed

text \<open>
  \<open>copied_upto\<close>: of the \<open>n\<close> entries from \<open>fd\<close> on, the first \<open>q\<close> have been copied, with one frame taken for each page table; the others are as
  they were, on both sides; and if the copy stopped before the end, the next entry needs a page table and no frame is free. The contents of the pages themselves do not change.
\<close>

definition copied_upto :: "'z mm_scheme \<Rightarrow> 'z mm_scheme \<Rightarrow> nat \<Rightarrow> nat \<Rightarrow> nat \<Rightarrow> nat \<Rightarrow> bool" where
  "copied_upto s s' fd td n q \<longleftrightarrow> q \<le> n
     \<and> (\<forall>j<q. copied s s' 1024 (fd + j) (td + j))
     \<and> (\<forall>j. q \<le> j \<and> j < n \<longrightarrow> same_space s s' (fd + j) \<and> same_space s s' (td + j))
     \<and> tables_needed (phys s) fd q + free_frames (mem_map s') = free_frames (mem_map s)
     \<and> (q < n \<longrightarrow> present (phys s 0 (fd + q)) \<and> free_frames (mem_map s') = 0)
     \<and> (\<forall>d. \<not> (fd \<le> d \<and> d < fd + n) \<longrightarrow> \<not> (td \<le> d \<and> d < td + n) \<longrightarrow> same_space s s' d)
     \<and> (\<forall>b. data_frame s b \<longrightarrow> data_frame s' b \<and> phys s' b = phys s b)"

lemma copied_upto_all:
  assumes "copied_upto s s' fd td n q"
  shows "q = n \<longleftrightarrow> tables_needed (phys s) fd n \<le> free_frames (mem_map s)"
proof (cases "q = n")
  case True
  then show ?thesis using assms by (auto simp: copied_upto_def)
next
  case False
  then have q: "q < n" "tables_needed (phys s) fd q = free_frames (mem_map s)" "present (phys s 0 (fd + q))"
    using assms by (auto simp: copied_upto_def)
  then obtain k where "n = q + Suc k" by (metis add_Suc_right less_imp_Suc_add)
  then have "tables_needed (phys s) fd n = free_frames (mem_map s) + Suc (tables_needed (phys s) (Suc (fd + q)) k)"
    using q tables_needed_add [of "phys s" fd q "Suc k"] tables_needed_Suc [of "phys s" "fd + q" k] by simp
  then show ?thesis using False by simp
qed

lemma copied_upto_skip:
  assumes c: "copied_upto s s' (Suc fd) (Suc td) n q" and abs: "\<not> present (phys s 0 fd)" "\<not> present (phys s 0 td)"
    and dis: "fd + n < td \<or> td + n < fd"
  shows "copied_upto s s' fd td (Suc n) (Suc q)"
proof -
  have "same_space s s' fd" "same_space s s' td" using c dis by (auto simp: copied_upto_def)
  then have c0: "copied s s' 1024 fd td" using abs by (auto simp: copied_def same_space_def)
  have "same_space s s' (fd + j) \<and> same_space s s' (td + j)" if "Suc q \<le> j" "j < Suc n" for j
    using c that by (cases j) (auto simp: copied_upto_def)
  moreover have "\<forall>j<Suc q. copied s s' 1024 (fd + j) (td + j)"
    using c c0 by (auto simp: copied_upto_def less_Suc_eq_0_disj)
  ultimately show ?thesis using c abs unfolding copied_upto_def by (simp add: tables_needed_Suc)
qed

lemma copied_upto_step:
  assumes one: "copied s s2 1024 fd td" "\<forall>d. d \<noteq> fd \<longrightarrow> d \<noteq> td \<longrightarrow> same_space s s2 d"
      "free_frames (mem_map s) = Suc (free_frames (mem_map s2))" "present (phys s 0 fd)"
      "\<forall>b. b \<noteq> tbl (phys s) fd \<longrightarrow> data_frame s b \<longrightarrow> data_frame s2 b \<and> phys s2 b = phys s b"
    and c: "copied_upto s2 s' (Suc fd) (Suc td) n q"
    and rng: "fd + n < td \<or> td + n < fd" "2 \<le> fd" "fd + n < 1024"
  shows "copied_upto s s' fd td (Suc n) (Suc q)"
proof -
  have q: "q \<le> n" using c by (simp add: copied_upto_def)
  have "same_space s2 s' fd" "same_space s2 s' td" using c rng by (auto simp: copied_upto_def)
  then have c0: "copied s s' 1024 fd td" using copied_trans [OF one(1)] rng by simp
  have old: "same_space s s2 (Suc fd + j)" "same_space s s2 (Suc td + j)" if "j < n" for j
    using one(2) rng that by auto
  have "copied s s' 1024 (fd + Suc j) (td + Suc j)" if "j < q" for j
    using copied_pre [of s2 s' 1024 "Suc fd + j" "Suc td + j" s] c old [of j] that q rng by (simp add: copied_upto_def)
  then have cj: "\<forall>j<Suc q. copied s s' 1024 (fd + j) (td + j)" using c0 by (auto simp: less_Suc_eq_0_disj)
  have sj: "same_space s s' (fd + j) \<and> same_space s s' (td + j)" if j: "Suc q \<le> j" "j < Suc n" for j
  proof -
    obtain i where i: "j = Suc i" "q \<le> i" "i < n" using j by (cases j) auto
    then show ?thesis using c old [of i] same_space_trans by (simp add: copied_upto_def) blast
  qed
  have P0: "present (phys s2 0 (Suc fd + j)) = present (phys s 0 (Suc fd + j))" if "j < n" for j
    using old(1) [OF that] by (simp add: same_space_def)
  have "tables_needed (phys s) (Suc fd) q = tables_needed (phys s2) (Suc fd) q"
    by (rule tables_needed_cong) (use P0 q in auto)
  then have cnt: "tables_needed (phys s) fd (Suc q) + free_frames (mem_map s') = free_frames (mem_map s)"
    using c one(3,4) by (simp add: copied_upto_def tables_needed_Suc)
  have "Suc q < Suc n \<longrightarrow> present (phys s 0 (fd + Suc q)) \<and> free_frames (mem_map s') = 0"
    using c P0 [of q] by (simp add: copied_upto_def)
  moreover have "same_space s s' d"
    if "\<not> (fd \<le> d \<and> d < fd + Suc n)" "\<not> (td \<le> d \<and> d < td + Suc n)" for d
    using same_space_trans [of s s2 d s'] that one(2) c by (auto simp: copied_upto_def)
  moreover have "data_frame s' b \<and> phys s' b = phys s b" if "data_frame s b" for b
  proof -
    have "b \<noteq> tbl (phys s) fd" using that one(4) rng(2,3) by (auto simp: data_frame_def no_table_def user_dir_def)
    then show ?thesis using one(5) c that by (simp add: copied_upto_def)
  qed
  ultimately show ?thesis using q cj sj cnt unfolding copied_upto_def by simp
qed

lemma copy_dirs_ok:
  assumes "mm_inv ext s" and "2 \<le> td" "td + n \<le> 1024" and "2 \<le> fd" "fd + n \<le> 1024"
    and "fd + n \<le> td \<or> td + n \<le> fd"
    and "\<And>j. j < n \<Longrightarrow> \<not> present (phys s 0 (td + j))"
    and "\<forall>i<1536. unat (mem_map s i) + n * 1025 < 65536"
  shows "\<exists>q s'. copy_dirs False fd td n s e = Ok (if q = n then 0 else - 1) s' e \<and> mm_inv ext s' \<and> copied_upto s s' fd td n q"
  using assms
proof (induction n arbitrary: fd td s)
  case 0
  then show ?case by (simp add: copied_upto_def same_space_def)
next
  case (Suc n)
  have td0: "\<not> present (phys s 0 td)" using Suc.prems(7) [of 0] by simp
  have fdtd: "fd \<noteq> td" "fd + n < td \<or> td + n < fd" and lt: "fd < 1024" "td < 1024" using Suc.prems(2-6) by auto
  have rest: "2 \<le> Suc td" "Suc td + n \<le> 1024" "2 \<le> Suc fd" "Suc fd + n \<le> 1024"
    "Suc fd + n \<le> Suc td \<or> Suc td + n \<le> Suc fd"
    using Suc.prems by auto
  show ?case
  proof (cases "present (phys s 0 fd)")
    case False
    have "\<exists>q s'. copy_dirs False (Suc fd) (Suc td) n s e = Ok (if q = n then 0 else - 1) s' e \<and> mm_inv ext s' \<and> copied_upto s s' (Suc fd) (Suc td) n q"
      using Suc.prems(7) [of "Suc _"] Suc.prems(8)
      by (intro Suc.IH Suc.prems(1) rest) auto
    then obtain q s' where IH: "copy_dirs False (Suc fd) (Suc td) n s e = Ok (if q = n then 0 else - 1) s' e" "mm_inv ext s'"
      "copied_upto s s' (Suc fd) (Suc td) n q" by blast
    then show ?thesis
      using False td0 lt copied_upto_skip [OF IH(3) False td0 fdtd(2)]
      by (intro exI [of _ "Suc q"] exI [of _ s']) simp
  next
    case True
    obtain T s1 where g: "get_free_page s = (T, s1)" by fastforce
    show ?thesis
    proof (cases "T = 0")
      case T0: True
      then have "s1 = s" "\<forall>i<1536. mem_map s i \<noteq> 0"
        using g page_addr_nz by (cases rule: get_free_page_cases [of s]; auto)+
      then have "copied_upto s s fd td (Suc n) 0" using True by (simp add: copied_upto_def same_space_def free_frames_0)
      then show ?thesis
        using True T0 g td0 Suc.prems(1) lt \<open>s1 = s\<close> by (intro exI [of _ 0] exI [of _ s]) simp
    next
      case T: False
      have "\<forall>i<1536. unat (mem_map s i) + (n * 1025 + 1024 + 1) < 65536" using Suc.prems(8) by auto
      with copy_one_dir [OF Suc.prems(1) Suc.prems(2) _ td0 fdtd(1) True, of 1024 "n * 1025" T s1 e]
      obtain s2 where s2: "forK [0..<1024] (copy_pte (tbl (phys s) fd) T) (set_phys 0 td (T OR 7) s1) e = Ok () s2 e"
        "mm_inv ext s2" "\<forall>i<1536. unat (mem_map s2 i) + n * 1025 < 65536"
        "copied s s2 1024 fd td" "\<forall>d. d \<noteq> fd \<longrightarrow> d \<noteq> td \<longrightarrow> same_space s s2 d"
        "free_frames (mem_map s) = Suc (free_frames (mem_map s2))"
        "\<forall>b. b \<noteq> tbl (phys s) fd \<longrightarrow> data_frame s b \<longrightarrow> data_frame s2 b \<and> phys s2 b = phys s b"
        using g T Suc.prems(2-5) by auto
      have abs: "\<not> present (phys s2 0 (Suc td + j))" if "j < n" for j
        using s2(5) Suc.prems(7) [of "Suc j"] that fdtd by (auto simp: same_space_def)
      obtain q s' where IH: "copy_dirs False (Suc fd) (Suc td) n s2 e = Ok (if q = n then 0 else - 1) s' e" "mm_inv ext s'"
        "copied_upto s2 s' (Suc fd) (Suc td) n q"
        using Suc.IH [OF s2(2) rest abs s2(3)] by blast
      have "copy_dirs False fd td (Suc n) s e = Ok (if Suc q = Suc n then 0 else - 1) s' e"
        using True td0 g T s2(1) IH(1) lt by (simp add: tbl_def del: upt_conv_Cons upt_rec_numeral)
      moreover have "copied_upto s s' fd td (Suc n) (Suc q)"
        using copied_upto_step [OF s2(4,5,6) True s2(7) IH(3) fdtd(2)] Suc.prems(4,5) by simp
      ultimately show ?thesis using IH(2) by blast
    qed
  qed
qed

section \<open>Properties\<close>

lemma copy_page_tables_run:
  assumes "mm_inv ext s" and "from AND 0x3fffff = 0" "to AND 0x3fffff = 0"
    and "n = unat (drop_bit 22 (len + 0x3fffff))"
    and "2 \<le> dir_index from" "dir_index from + n \<le> 1024"
    and "2 \<le> dir_index to" "dir_index to + n \<le> 1024"
    and "dir_index from + n \<le> dir_index to \<or> dir_index to + n \<le> dir_index from"
    and "\<And>j. j < n \<Longrightarrow> \<not> present (phys s 0 (dir_index to + j))"
    and "\<forall>i<PAGING_PAGES. unat (mem_map s i) + n * 1025 < 65536"
  shows "\<exists>q s'. copy_page_tables from to len s e = Ok (if tables_needed (phys s) (dir_index from) n \<le> free_frames (mem_map s) then 0 else - 1) s' e
    \<and> mm_inv ext s' \<and> copied_upto s s' (dir_index from) (dir_index to) n q"
proof -
  have "from \<noteq> 0" using assms(5) by (auto simp: dir_index_def)
  then have "copy_page_tables from to len s e = copy_dirs False (dir_index from) (dir_index to) n s e"
    using assms(2-4) by (simp add: copy_page_tables_def)
  moreover obtain q s' where "copy_dirs False (dir_index from) (dir_index to) n s e = Ok (if q = n then 0 else - 1) s' e" "mm_inv ext s'"
    "copied_upto s s' (dir_index from) (dir_index to) n q"
    using copy_dirs_ok [OF assms(1,7,8,5,6,9,10), of e] assms(11) by auto
  ultimately show ?thesis using copied_upto_all [of s s' "dir_index from" "dir_index to" n q] by (intro exI [of _ q] exI [of _ s']) simp
qed

text \<open>
  C1: fork's \<^verbatim>\<open>copy_page_tables\<close>. Started with exact reference counts on a user range whose
  destination is unmapped, it returns, and keeps the counts exact. It returns 0 exactly when there are as many free frames as page tables to copy:
  then one frame is taken for each of them, every entry of the destination is the source entry without write permission, and the source
  entries of shared pages have lost theirs. Otherwise it returns -1, with no frame left: a first part of the range has been copied in the same
  way, and the rest, on both sides, is as it was. In both cases every other part of linear space is mapped as before, and the contents
  of the pages in use, but for the page tables, are the same. The bound on the counts says that no 16-bit count can wrap.
\<close>

theorem copy_page_tables_cow:
  assumes "mm_inv ext s" and "from AND 0x3fffff = 0" "to AND 0x3fffff = 0"
    and "n = unat (drop_bit 22 (len + 0x3fffff))" and "f = dir_index from" and "t = dir_index to"
    and "2 \<le> f" "f + n \<le> 1024" and "2 \<le> t" "t + n \<le> 1024" and "f + n \<le> t \<or> t + n \<le> f"
    and "\<And>j. j < n \<Longrightarrow> \<not> present (phys s 0 (t + j))"
    and "\<forall>i<PAGING_PAGES. unat (mem_map s i) + n * 1025 < 65536"
  shows "\<exists>r q s'. copy_page_tables from to len s e = Ok r s' e \<and> mm_inv ext s'
    \<and> (if tables_needed (phys s) f n \<le> free_frames (mem_map s) then r = 0 \<and> q = n
       else r = - 1 \<and> q < n \<and> free_frames (mem_map s') = 0)
    \<and> tables_needed (phys s) f q + free_frames (mem_map s') = free_frames (mem_map s)
    \<and> (\<forall>j<q. copied s s' 1024 (f + j) (t + j))
    \<and> (\<forall>j. q \<le> j \<and> j < n \<longrightarrow> same_space s s' (f + j) \<and> same_space s s' (t + j))
    \<and> (\<forall>d. \<not> (f \<le> d \<and> d < f + n) \<longrightarrow> \<not> (t \<le> d \<and> d < t + n) \<longrightarrow> same_space s s' d)
    \<and> (\<forall>b. data_frame s b \<longrightarrow> phys s' b = phys s b)"
proof -
  obtain q s' where c: "copy_page_tables from to len s e = Ok (if tables_needed (phys s) f n \<le> free_frames (mem_map s) then 0 else - 1) s' e"
    "mm_inv ext s'" "copied_upto s s' f t n q"
    using copy_page_tables_run [OF assms(1-4), of e] assms(5-13) by auto
  then show ?thesis
    using copied_upto_all [OF c(3)] unfolding copied_upto_def
    by (intro exI [of _ "if tables_needed (phys s) f n \<le> free_frames (mem_map s) then 0 else - 1"] exI [of _ q] exI [of _ s']) auto
qed

lemma free_page_tables_run:
  assumes "mm_inv ext s" and "from AND 0x3fffff = 0" and "n = unat (drop_bit 22 (len + 0x3fffff))"
    and "2 \<le> dir_index from" "dir_index from + n \<le> 1024"
  shows "\<exists>s'. free_page_tables from len s e = Ok 0 s' e \<and> mm_inv ext s'
    \<and> (\<forall>d. dir_index from \<le> d \<and> d < dir_index from + n \<longrightarrow> \<not> present (phys s' 0 d))
    \<and> (\<forall>d. \<not> (dir_index from \<le> d \<and> d < dir_index from + n) \<longrightarrow> same_space s s' d)
    \<and> (\<forall>b. no_table (phys s) b \<longrightarrow> no_table (phys s') b \<and> phys s' b = phys s b)"
proof -
  have "from \<noteq> 0" using assms(4) by (auto simp: dir_index_def)
  moreover obtain s' where "forK [dir_index from..<dir_index from + n] free_dir s e = Ok () s' e" "mm_inv ext s'"
    "\<forall>d. dir_index from \<le> d \<and> d < dir_index from + n \<longrightarrow> \<not> present (phys s' 0 d)"
    "\<forall>d. \<not> (dir_index from \<le> d \<and> d < dir_index from + n) \<longrightarrow> same_space s s' d"
    "\<forall>b. no_table (phys s) b \<longrightarrow> no_table (phys s') b \<and> phys s' b = phys s b"
    using free_dirs_ok [OF assms(1,4,5), of e] by blast
  ultimately show ?thesis
    using assms(2,3) by (intro exI [of _ s']) (simp add: free_page_tables_def Let_def)
qed

text \<open>
  C14: \<^verbatim>\<open>free_page_tables\<close> on a user range never hits one of the panics of \<^verbatim>\<open>free_page\<close>: it returns 0, the
  counts stay exact, the range is unmapped and the rest of linear space is untouched.
\<close>

theorem free_page_tables_exact:
  assumes "mm_inv ext s" and "from AND 0x3fffff = 0" and "n = unat (drop_bit 22 (len + 0x3fffff))"
    and "2 \<le> dir_index from" "dir_index from + n \<le> 1024"
  shows "\<exists>s'. free_page_tables from len s e = Ok 0 s' e \<and> mm_inv ext s'
    \<and> (\<forall>d. dir_index from \<le> d \<and> d < dir_index from + n \<longrightarrow> \<not> present (phys s' 0 d))
    \<and> (\<forall>d. \<not> (dir_index from \<le> d \<and> d < dir_index from + n) \<longrightarrow> same_space s s' d)"
  using free_page_tables_run [OF assms, of e] by blast

end
