(* ===== verification/Memory_Fault.thy ===== *)
theory Memory_Fault
  imports Memory_Refs
begin

text \<open>
  Page allocation and page faults: what \<^verbatim>\<open>get_free_page\<close>, \<^verbatim>\<open>put_page\<close>, the write-protection handler
  \<^verbatim>\<open>un_wp_page\<close> and the missing-page handler \<^verbatim>\<open>do_no_page\<close> do to the reference counts, to the
  mapping and to the contents of the pages.
\<close>

lemma mm_ok_un_wp:
  assumes ok: "mm_ok ext M P" and d: "user_dir P d" and nr: "nr < 1024"
    and w: "w = P (tbl P d) nr" "present w" and k: "k < 1536" "M k = 0"
    and M': "M' = (if 0x200000 \<le> frame w then (M(k := 1))(MAP_NR (frame w) := M (MAP_NR (frame w)) - 1)
                   else M(k := 1))"
  shows "mm_ok ext M' (P(tbl P d := (P (tbl P d))(nr := page_addr k OR 7)))"
    and "frame w \<noteq> page_addr k" and "M' k = 1"
proof -
  show fw: "frame w \<noteq> page_addr k"
    using pte_count_pos [OF ok d nr] w k by blast
  have idx: "\<exists>j<1536. frame w = page_addr j \<and> MAP_NR (frame w) = j" if "0x200000 \<le> frame w"
    using frame_page_addr_ex [OF that] ok_pte [OF ok d nr] w by blast
  show "M' k = 1"
    using M' fw idx by auto
  show "mm_ok ext M' (P(tbl P d := (P (tbl P d))(nr := page_addr k OR 7)))"
  proof (rule mm_ok_set_pte [OF ok d nr])
    fix i :: nat assume i: "i < 1536"
    have hk: "hits i (page_addr k OR 7) = of_bool (i = k)"
      using hits_page [of "page_addr k OR 7" k i] i k by simp
    show "unat (M' i) + hits i (P (tbl P d) nr) = unat (M i) + hits i (page_addr k OR 7)"
    proof (cases "0x200000 \<le> frame w")
      case True
      then obtain j where j: "j < 1536" "frame w = page_addr j" "MAP_NR (frame w) = j"
        using idx by blast
      have nz: "M j \<noteq> 0" using pte_count_pos [OF ok d nr, of j] w j by blast
      then have "unat (M j - 1) = unat (M j) - 1" "0 < unat (M j)" by (simp_all add: unat_dec unat_gt_0)
      moreover have "hits i w = of_bool (i = j)" using hits_page w j i by blast
      moreover have "j \<noteq> k" using fw j by auto
      ultimately show ?thesis
        unfolding M' hk w(1) [symmetric] j(3) using True k(2) by simp
    next
      case False
      then have "hits i w = 0" using hits_low i by (simp add: not_le)
      then show ?thesis unfolding M' hk w(1) [symmetric] using False k(2) by simp
    qed
  next
    fix d' i assume a: "user_dir P d'" "i < (1536::nat)" "tbl P d' = page_addr i"
    have "i \<noteq> k" using ok_free_not_table [OF ok a(1) k(1)] a(3) k(2) by auto
    moreover have "frame w \<noteq> page_addr i"
      using ok_pte_not_table [OF ok d a(1) nr] w a(3) by simp
    ultimately show "M' i = M i"
      unfolding M' using idx by auto
  qed (use k in simp)
qed

lemma un_wp_sole:
  assumes "w = phys s t nr" "0x200000 \<le> frame w" "MAP_NR (frame w) < 1536" "mem_map s (MAP_NR (frame w)) = 1"
  shows "un_wp_page t nr s e = Ok () (set_phys t nr (w OR 2) s) e"
  using assms by (simp add: un_wp_page_def Let_def)

lemma un_wp_shared:
  assumes w: "w = phys s t nr" and r: "0x200000 \<le> frame w \<longrightarrow> MAP_NR (frame w) < 1536 \<and> mem_map s (MAP_NR (frame w)) \<noteq> 1"
    and g: "get_free_page s = (page, s1)" "page \<noteq> 0"
  shows "un_wp_page t nr s e = Ok () (copy_page (frame w) page (set_phys t nr (page OR 7)
     (if 0x200000 \<le> frame w then s1\<lparr>mem_map := (mem_map s1)(MAP_NR (frame w) := mem_map s1 (MAP_NR (frame w)) - 1)\<rparr> else s1))) e"
  using assms by (cases "0x200000 \<le> frame w") (simp_all add: un_wp_page_def Let_def)

lemma un_wp_full:
  assumes w: "w = phys s t nr" and r: "0x200000 \<le> frame w \<longrightarrow> MAP_NR (frame w) < 1536 \<and> mem_map s (MAP_NR (frame w)) \<noteq> 1"
    and g: "get_free_page s = (0, s)"
  shows "un_wp_page t nr s e = Exit SIGSEGV s"
  using assms by (cases "0x200000 \<le> frame w") (simp_all add: un_wp_page_def Let_def bnd_run)


text \<open>\<open>mapped s d nr w\<close>: entry \<open>nr\<close> of the page table of directory entry \<open>d\<close> is present and is \<open>w\<close>.\<close>

definition mapped :: "'z mm_scheme \<Rightarrow> nat \<Rightarrow> nat \<Rightarrow> u32 \<Rightarrow> bool" where
  "mapped s d nr w \<longleftrightarrow> user_dir (phys s) d \<and> nr < 1024 \<and> phys s (tbl (phys s) d) nr = w \<and> present w"

lemma mapped_sole_bounds:
  assumes "mm_inv ext s" "mapped s d nr w" "0x200000 \<le> frame w"
  shows "\<exists>j<1536. frame w = page_addr j \<and> MAP_NR (frame w) = j"
  using assms frame_page_addr_ex [of w] ok_pte [of ext "mem_map s" "phys s" d nr]
  unfolding mapped_def by blast

text \<open>
  The state after \<^verbatim>\<open>un_wp_page\<close> gave entry \<open>nr\<close> of table \<open>t\<close> the new frame number \<open>k\<close>.
\<close>

definition cow_state :: "'z mm_scheme \<Rightarrow> u32 \<Rightarrow> nat \<Rightarrow> u32 \<Rightarrow> nat \<Rightarrow> 'z mm_scheme" where
  "cow_state s t nr w k = s\<lparr>
     mem_map := (if 0x200000 \<le> frame w then ((mem_map s)(k := 1))(MAP_NR (frame w) := mem_map s (MAP_NR (frame w)) - 1)
                 else (mem_map s)(k := 1)),
     phys := ((phys s)(t := (phys s t)(nr := page_addr k OR 7)))(page_addr k := phys s (frame w))\<rparr>"

lemma un_wp_cow_run:
  assumes ok: "mm_inv ext s" and m: "mapped s d nr w" and t: "t = tbl (phys s) d"
    and shared: "0x200000 \<le> frame w \<Longrightarrow> mem_map s (MAP_NR (frame w)) \<noteq> 1"
    and k: "k < 1536" "mem_map s k = 0"
    and g: "get_free_page s = (page_addr k, s\<lparr>mem_map := (mem_map s)(k := 1), phys := (phys s)(page_addr k := (\<lambda>_. 0))\<rparr>)"
  shows "un_wp_page t nr s e = Ok () (cow_state s t nr w k) e" and "mm_inv ext (cow_state s t nr w k)"
    and "mem_map (cow_state s t nr w k) k = 1" and "frame w \<noteq> page_addr k" and "t \<noteq> page_addr k"
    and "t \<noteq> frame w"
proof -
  have d: "user_dir (phys s) d" and nr: "nr < 1024" and w: "w = phys s (tbl (phys s) d) nr" "present w"
    using m by (auto simp: mapped_def)
  note base = mm_ok_un_wp [OF ok d nr w k(1,2) refl]
  show fw: "frame w \<noteq> page_addr k" by (rule base(2))
  show tk: "t \<noteq> page_addr k"
    using ok_free_not_table [OF ok d k(1)] k(2) t by auto
  show tw: "t \<noteq> frame w"
    using ok_pte_not_table [OF ok d d nr] w t by auto
  have M: "mem_map (cow_state s t nr w k) = (if 0x200000 \<le> frame w then ((mem_map s)(k := 1))(MAP_NR (frame w) := mem_map s (MAP_NR (frame w)) - 1)
                 else (mem_map s)(k := 1))"
    by (simp add: cow_state_def)
  show "mem_map (cow_state s t nr w k) k = 1"
    unfolding M by (rule base(3))
  have P: "phys (cow_state s t nr w k) = ((phys s)(t := (phys s t)(nr := page_addr k OR 7)))(page_addr k := phys s (frame w))"
    by (simp add: cow_state_def)
  show "mm_inv ext (cow_state s t nr w k)"
    unfolding M P unfolding t
  proof (rule mm_ok_other_frame [OF base(1)])
    show "page_addr k \<noteq> 0" using k by simp
    fix d' assume "user_dir ((phys s)(tbl (phys s) d := (phys s (tbl (phys s) d))(nr := page_addr k OR 7))) d'"
    moreover have "tbl (phys s) d \<noteq> 0" by (rule ok_tbl_nz [OF ok d])
    ultimately have "user_dir (phys s) d'"
      and "tbl ((phys s)(tbl (phys s) d := (phys s (tbl (phys s) d))(nr := page_addr k OR 7))) d' = tbl (phys s) d'"
      by (simp_all add: user_dir_def tbl_def)
    then show "tbl ((phys s)(tbl (phys s) d := (phys s (tbl (phys s) d))(nr := page_addr k OR 7))) d' \<noteq> page_addr k"
      using ok_free_not_table [OF ok _ k(1), of d'] k(2) by auto
  qed
  have r: "0x200000 \<le> frame w \<longrightarrow> MAP_NR (frame w) < 1536 \<and> mem_map s (MAP_NR (frame w)) \<noteq> 1"
    using mapped_sole_bounds [OF ok m] shared by blast
  have wt: "w = phys s t nr" using w t by simp
  have nk: "MAP_NR (frame w) \<noteq> k" if "0x200000 \<le> frame w"
    using mapped_sole_bounds [OF ok m that] fw by auto
  show "un_wp_page t nr s e = Ok () (cow_state s t nr w k) e"
    unfolding un_wp_shared [OF wt r g page_addr_nz [OF k(1)]] res.inject cow_state_def copy_page_def set_phys_def
    using nk fw tk tw by (cases "0x200000 \<le> frame w") (simp_all add: fun_upd_twist fun_eq_iff)
qed

text \<open>What a write to a protected page must lead to: \<open>w'\<close> is the entry afterwards.\<close>

definition made_private :: "(nat \<Rightarrow> nat) \<Rightarrow> 'z mm_scheme \<Rightarrow> nat \<Rightarrow> nat \<Rightarrow> u32 \<Rightarrow> 'z mm_scheme \<Rightarrow> u32 \<Rightarrow> bool" where
  "made_private ext s d nr w s' w' \<longleftrightarrow> mm_inv ext s' \<and> mapped s' d nr w' \<and> bit w' 1 \<and>
     (\<exists>i<PAGING_PAGES. frame w' = page_addr i \<and> mem_map s' i = 1) \<and> phys s' (frame w') = phys s (frame w) \<and>
     (\<forall>b j. (b, j) \<noteq> (tbl (phys s) d, nr) \<longrightarrow> b = frame w' \<and> w' \<noteq> w OR 2 \<and> mem_map s (MAP_NR b) = 0 \<or> phys s' b j = phys s b j)"

lemma un_wp_sole_private:
  assumes ok: "mm_inv ext s" and m: "mapped s d nr w" and sole: "0x200000 \<le> frame w \<and> mem_map s (MAP_NR (frame w)) = 1"
  shows "\<exists>s'. un_wp_page (tbl (phys s) d) nr s e = Ok () s' e \<and> made_private ext s d nr w s' (w OR 2)"
proof -
  let ?t = "tbl (phys s) d" and ?s = "set_phys (tbl (phys s) d) nr (w OR 2) s"
  have d: "user_dir (phys s) d" and nr: "nr < 1024" and w: "w = phys s ?t nr" "present w" using m by (auto simp: mapped_def)
  have t0: "?t \<noteq> 0" by (rule ok_tbl_nz [OF ok d])
  have tw: "?t \<noteq> frame w" using ok_pte_not_table [OF ok d d nr] w by auto
  obtain j where j: "j < 1536" "frame w = page_addr j" "MAP_NR (frame w) = j" using mapped_sole_bounds [OF ok m] sole by blast
  have "un_wp_page ?t nr s e = Ok () ?s e" using un_wp_sole [OF w(1)] sole j by simp
  moreover have "mm_inv ext ?s"
    unfolding set_phys_def using mm_ok_set_pte [OF ok d nr, of "mem_map s" "w OR 2"] ok_pte [OF ok d nr] w by (simp add: hits_def)
  moreover have "mapped ?s d nr (w OR 2)" using d nr w t0 by (simp add: mapped_def set_phys_def user_dir_def tbl_def)
  moreover have "mem_map ?s j = 1" using sole j by (simp add: set_phys_def)
  moreover have "phys ?s (frame (w OR 2)) = phys s (frame w)" using tw by (simp add: set_phys_def)
  moreover have "phys ?s b i = phys s b i" if "(b, i) \<noteq> (?t, nr)" for b i using that by (simp add: set_phys_def)
  ultimately show ?thesis
    using j frame_or2 [of w] PAGING_PAGES_def by (intro exI [of _ ?s]) (auto simp: made_private_def bit_simps)
qed

lemma un_wp_shared_private:
  assumes ok: "mm_inv ext s" and m: "mapped s d nr w" and sh: "0x200000 \<le> frame w \<Longrightarrow> mem_map s (MAP_NR (frame w)) \<noteq> 1"
    and k: "k < 1536" "mem_map s k = 0"
    and g: "get_free_page s = (page_addr k, s\<lparr>mem_map := (mem_map s)(k := 1), phys := (phys s)(page_addr k := (\<lambda>_. 0))\<rparr>)"
  shows "\<exists>s'. un_wp_page (tbl (phys s) d) nr s e = Ok () s' e \<and> made_private ext s d nr w s' (page_addr k OR 7)"
proof -
  let ?t = "tbl (phys s) d" and ?s = "cow_state s (tbl (phys s) d) nr w k"
  have d: "user_dir (phys s) d" and nr: "nr < 1024" using m by (auto simp: mapped_def)
  have t0: "?t \<noteq> 0" by (rule ok_tbl_nz [OF ok d])
  note r = un_wp_cow_run [OF ok m refl sh k g]
  have P: "phys ?s = ((phys s)(?t := (phys s ?t)(nr := page_addr k OR 7)))(page_addr k := phys s (frame w))" by (simp add: cow_state_def)
  have P0: "phys ?s 0 = phys s 0" unfolding P using t0 k(1) by (simp add: page_addr_nz [symmetric])
  then have "user_dir (phys ?s) d" and tb: "tbl (phys ?s) d = ?t" using d by (simp_all add: user_dir_def tbl_def)
  moreover have "phys ?s ?t nr = page_addr k OR 7" unfolding P using r(5) by simp
  ultimately have "mapped ?s d nr (page_addr k OR 7)" using nr by (simp add: mapped_def)
  moreover have "frame (page_addr k OR 7) = page_addr k" using k(1) by simp
  moreover have "phys ?s (page_addr k) = phys s (frame w)" unfolding P by simp
  moreover have "b = page_addr k \<and> mem_map s (MAP_NR b) = 0 \<or> phys ?s b i = phys s b i" if "(b, i) \<noteq> (?t, nr)" for b i
    unfolding P using that MAP_NR_page_addr [OF k(1)] k(2) by simp
  moreover have "page_addr k OR 7 \<noteq> w OR 2"
    using r(4) frame_or2 [of w] frame_or7 [of "page_addr k"] frame_page_addr [OF k(1)] by metis
  ultimately show ?thesis using r(1,2,3) k(1) by (intro exI [of _ ?s]) (auto simp: made_private_def bit_simps)
qed

text \<open>
  C2: the copy-on-write fault. On a present entry of a user page table the handler either ends the
  process because no frame is free (only when the page is shared), or returns with exact counts and the entry present and
  writable, mapping a frame that nobody else references and whose contents are those of the old page. No other entry of any
  page table and no byte of any frame in use changes.
\<close>

theorem un_wp_page_cow:
  assumes ok: "mm_inv ext s" and m: "mapped s d nr w"
  shows "un_wp_page (tbl (phys s) d) nr s e = Exit SIGSEGV s \<and> (\<forall>j<PAGING_PAGES. mem_map s j \<noteq> 0) \<or>
    (\<exists>s' w'. un_wp_page (tbl (phys s) d) nr s e = Ok () s' e \<and> mm_inv ext s' \<and>
       mapped s' d nr w' \<and> bit w' 1 \<and>
       (\<exists>i<PAGING_PAGES. frame w' = page_addr i \<and> mem_map s' i = 1) \<and>
       phys s' (frame w') = phys s (frame w) \<and>
       (\<forall>b j. (b, j) \<noteq> (tbl (phys s) d, nr) \<longrightarrow> b = frame w' \<and> w' \<noteq> w OR 2 \<and> mem_map s (MAP_NR b) = 0
          \<or> phys s' b j = phys s b j))"
proof (cases "0x200000 \<le> frame w \<and> mem_map s (MAP_NR (frame w)) = 1")
  case True
  from un_wp_sole_private [OF ok m this] obtain s' where s': "un_wp_page (tbl (phys s) d) nr s e = Ok () s' e" "made_private ext s d nr w s' (w OR 2)"
    by blast
  then show ?thesis by (intro disjI2 exI [of _ s'] exI [of _ "w OR 2"]) (unfold made_private_def, intro conjI; elim conjE; assumption)
next
  case shared: False
  show ?thesis
  proof (cases rule: get_free_page_cases [of s])
    case full
    have "w = phys s (tbl (phys s) d) nr" using m by (simp add: mapped_def)
    from un_wp_full [OF this _ full(2)] show ?thesis using full(1) mapped_sole_bounds [OF ok m] shared by auto
  next
    case (found k)
    from un_wp_shared_private [OF ok m _ found(1,2,4)] shared obtain s' where
      s': "un_wp_page (tbl (phys s) d) nr s e = Ok () s' e" "made_private ext s d nr w s' (page_addr k OR 7)" by blast
    then show ?thesis by (intro disjI2 exI [of _ s'] exI [of _ "page_addr k OR 7"]) (unfold made_private_def, intro conjI; elim conjE; assumption)
  qed
qed


text \<open>
  C16: \<^verbatim>\<open>get_free_page\<close> returns 0 and changes nothing exactly when no frame of the map is free; otherwise it
  returns the address of the highest free frame, zeroed and counted once, and leaves every other
  count and frame alone. The address is a frame of user memory: page-aligned, from LOW_MEM to below HIGH_MEMORY.
\<close>

theorem get_free_page_spec:
  "get_free_page s = (0, s) \<and> (\<forall>j<PAGING_PAGES. mem_map s j \<noteq> 0) \<or>
   (\<exists>i page s'. get_free_page s = (page, s') \<and> i < PAGING_PAGES \<and> mem_map s i = 0 \<and>
      (\<forall>j. \<not> (i < j \<and> j < PAGING_PAGES \<and> mem_map s j = 0)) \<and>
      page AND 0xfff = 0 \<and> \<not> page < LOW_MEM \<and> page < HIGH_MEMORY \<and> MAP_NR page = i \<and>
      s' = s\<lparr>mem_map := (mem_map s)(i := 1), phys := (phys s)(page := (\<lambda>_. 0))\<rparr>)"
proof (cases rule: get_free_page_cases [of s])
  case full
  then show ?thesis by (simp add: PAGING_PAGES_def)
next
  case (found i)
  have "frame (page_addr i) AND 0xfff = 0"
    unfolding frame_def by (simp add: ac_simps flip: and.assoc)
  then have "page_addr i AND 0xfff = 0" using found(1) by simp
  then show ?thesis
    using found by (intro disjI2 exI [of _ i] exI [of _ "page_addr i"]) auto
qed

lemma mm_ok_put_pte:
  assumes ok: "mm_ok (ext(k := 1)) M P" and d: "user_dir P d" and nr: "nr < 1024"
    and k: "k < 1536" "ext k = 0" and np: "\<not> present (P (tbl P d) nr)"
  shows "mm_ok ext M (P(tbl P d := (P (tbl P d))(nr := page_addr k OR 7)))"
proof (rule mm_ok_set_pte_ext [OF ok d nr])
  fix i :: nat assume "i < 1536"
  then have "hits i (page_addr k OR 7) = of_bool (i = k)"
    using hits_page [of "page_addr k OR 7" k i] k by simp
  then show "unat (M i) + hits i (P (tbl P d) nr) + (ext(k := 1)) i = unat (M i) + hits i (page_addr k OR 7) + ext i"
    using np k by (simp add: hits_absent)
qed (use k in auto)

lemma table_index_less [simp]: "table_index a < 1024"
proof -
  have "table_index a = unat (take_bit 10 (drop_bit 12 a))"
    by (simp add: table_index_def take_bit_eq_mask mask_eq_exp_minus_1)
  also have "\<dots> < 1024" by (simp add: take_bit_eq_mod unat_mod)
  finally show ?thesis .
qed

lemma dir_index_less [simp]: "dir_index a < 1024"
proof -
  have "dir_index a = unat a div 2 ^ 22" by (simp add: dir_index_def drop_bit_eq_div unat_div)
  also have "\<dots> < 1024"
  proof -
    have "unat a < 2 ^ 32" using unsigned_less [of a] by simp
    then show ?thesis by simp
  qed
  finally show ?thesis .
qed


lemma put_page_mapped:
  assumes ok: "mm_inv (ext(k := 1)) s" and d: "user_dir (phys s) (dir_index a)"
    and np: "\<not> present (phys s (tbl (phys s) (dir_index a)) (table_index a))" and k: "k < 1536" "ext k = 0"
  shows "\<exists>s'. put_page (page_addr k) a s e = Ok (page_addr k) s' e \<and> mm_inv ext s' \<and> mem_map s' = mem_map s \<and>
     mapped s' (dir_index a) (table_index a) (page_addr k OR 7) \<and>
     (\<forall>b j. (b, j) \<noteq> (tbl (phys s) (dir_index a), table_index a) \<longrightarrow> phys s' b j = phys s b j)"
proof -
  let ?t = "tbl (phys s) (dir_index a)"
  let ?s = "set_phys ?t (table_index a) (page_addr k OR 7) s"
  have t0: "?t \<noteq> 0" by (rule ok_tbl_nz [OF ok d])
  have "put_page (page_addr k) a s e = Ok (page_addr k) ?s e"
    using d by (simp add: put_page_def user_dir_def tbl_def)
  moreover have "mm_inv ext ?s"
    using mm_ok_put_pte [OF ok d table_index_less k np] by (simp add: set_phys_def)
  moreover have "mapped ?s (dir_index a) (table_index a) (page_addr k OR 7)"
    using d t0 by (simp add: mapped_def set_phys_def user_dir_def tbl_def)
  ultimately show ?thesis by (intro exI [of _ ?s]) (simp add: set_phys_def)
qed

lemma put_page_full:
  "\<not> present (phys s 0 (dir_index a)) \<Longrightarrow> get_free_page s = (0, s) \<Longrightarrow> put_page page a s e = Ok 0 s e"
  by (simp add: put_page_def)

lemma put_page_new_table:
  assumes ok: "mm_inv (ext(k := 1)) s" and d: "2 \<le> dir_index a" "\<not> present (phys s 0 (dir_index a))"
    and k: "k < 1536" "ext k = 0" and g: "get_free_page s = (page_addr m, s1)" "m < 1536"
  shows "\<exists>s'. put_page (page_addr k) a s e = Ok (page_addr k) s' e \<and> mm_inv ext s' \<and>
     mem_map s' = (mem_map s)(m := 1) \<and> mem_map s m = 0 \<and>
     mapped s' (dir_index a) (table_index a) (page_addr k OR 7) \<and>
     (\<forall>b j. b \<noteq> page_addr m \<longrightarrow> (b, j) \<noteq> (0, dir_index a) \<longrightarrow> phys s' b j = phys s b j)"
proof -
  obtain m' where m': "m' < 1536" "page_addr m = page_addr m'" "mem_map s m' = 0" "(ext(k := 1)) m' = 0"
    "mm_inv ((ext(k := 1))(m' := 1)) s1"
    "s1 = s\<lparr>mem_map := (mem_map s)(m' := 1), phys := (phys s)(page_addr m' := (\<lambda>_. 0))\<rparr>"
    using get_free_page_ok [OF ok g(1)] g(2) by (metis page_addr_nz)
  have mm: "m' = m" using m'(1,2) g(2) page_addr_inj by simp
  have nk: "m \<noteq> k" using m'(4) mm by (auto split: if_splits)
  let ?d = "dir_index a"
  let ?s2 = "set_phys 0 ?d (page_addr m OR 7) s1"
  have m0: "page_addr m \<noteq> 0" using g(2) by simp
  have s1: "mem_map s1 m = 1" "phys s1 (page_addr m) = (\<lambda>_. 0)" "phys s1 0 = phys s 0"
    unfolding m'(6) using mm m0 by auto
  have "(ext(k := 1)) m = 0" using m'(4) mm by simp
  have "mm_ok (ext(k := 1)) (mem_map s1) ((phys s1)(0 := (phys s1 0)(?d := page_addr m OR 7)))"
  proof (rule mm_ok_set_dir [of "ext(k := 1)" m "mem_map s1" "phys s1" ?d, OF _ g(2) s1(1,2) \<open>(ext(k := 1)) m = 0\<close> d(1) dir_index_less])
    show "mm_ok ((ext(k := 1))(m := 1)) (mem_map s1) (phys s1)" using m'(5) by (simp only: mm)
    show "\<not> present (phys s1 0 ?d)" using d(2) s1(3) by simp
  qed
  then have ok2: "mm_inv (ext(k := 1)) ?s2" by (simp add: set_phys_def)
  have ud: "user_dir (phys ?s2) ?d" using d by (simp add: user_dir_def set_phys_def)
  have tb: "tbl (phys ?s2) ?d = page_addr m" using g(2) by (simp add: tbl_def set_phys_def)
  have np: "\<not> present (phys ?s2 (tbl (phys ?s2) ?d) (table_index a))"
    unfolding tb using s1(2) m0 by (simp add: set_phys_def)
  from put_page_mapped [OF ok2 ud np k, of e] obtain s' where
    s': "put_page (page_addr k) a ?s2 e = Ok (page_addr k) s' e" "mm_inv ext s'" "mem_map s' = mem_map ?s2"
    "mapped s' ?d (table_index a) (page_addr k OR 7)"
    "\<forall>b j. (b, j) \<noteq> (page_addr m, table_index a) \<longrightarrow> phys s' b j = phys ?s2 b j"
    unfolding tb by blast
  have "put_page (page_addr k) a s e = put_page (page_addr k) a ?s2 e"
    using d(2) g m0 by (simp add: put_page_def set_phys_def)
  moreover have "mem_map s' = (mem_map s)(m := 1)"
    unfolding s'(3) set_phys_def m'(6) using mm by simp
  moreover have "phys s' b j = phys s b j" if "b \<noteq> page_addr m" "(b, j) \<noteq> (0, ?d)" for b j
  proof -
    have "phys s' b j = phys ?s2 b j" using s'(5) that by blast
    also have "\<dots> = phys s1 b j" using that by (auto simp: set_phys_def)
    also have "\<dots> = phys s b j" unfolding m'(6) using that m'(2) by simp
    finally show ?thesis .
  qed
  ultimately show ?thesis using s'(1,2,4) m'(3) mm by (intro exI [of _ s']) auto
qed


text \<open>The states in which \<^verbatim>\<open>do_no_page\<close> calls \<^verbatim>\<open>put_page\<close>: frame \<open>k\<close> was free and is now zeroed and held by nobody's table.\<close>

definition page_taken :: "(nat \<Rightarrow> nat) \<Rightarrow> nat \<Rightarrow> 'z mm_scheme \<Rightarrow> bool" where
  "page_taken ext k s \<longleftrightarrow> k < 1536 \<and> ext k = 0 \<and> mm_inv (ext(k := 1)) s \<and> mem_map s k = 1 \<and> phys s (page_addr k) = (\<lambda>_. 0)"

lemma put_page_present:
  assumes s: "page_taken ext k s" and d: "2 \<le> dir_index a" "present (phys s 0 (dir_index a))" "tbl (phys s) (dir_index a) \<noteq> page_addr k"
    and np: "\<not> present (phys s (tbl (phys s) (dir_index a)) (table_index a))"
  shows "\<exists>s'. put_page (page_addr k) a s e = Ok (page_addr k) s' e \<and> mm_inv ext s' \<and> mem_map s' k = 1 \<and>
    mapped s' (dir_index a) (table_index a) (page_addr k OR 7) \<and> phys s' (page_addr k) = (\<lambda>_. 0)"
proof -
  have k: "k < 1536" "ext k = 0" "mm_inv (ext(k := 1)) s" "mem_map s k = 1" "phys s (page_addr k) = (\<lambda>_. 0)" using s by (simp_all add: page_taken_def)
  have ud: "user_dir (phys s) (dir_index a)" using d by (simp add: user_dir_def)
  from put_page_mapped [OF k(3) ud np k(1,2), of e] obtain s' where
    s': "put_page (page_addr k) a s e = Ok (page_addr k) s' e" "mm_inv ext s'" "mem_map s' = mem_map s"
    "mapped s' (dir_index a) (table_index a) (page_addr k OR 7)"
    "\<forall>b j. (b, j) \<noteq> (tbl (phys s) (dir_index a), table_index a) \<longrightarrow> phys s' b j = phys s b j" by blast
  then have "phys s' (page_addr k) = (\<lambda>_. 0)" using d(3) k(5) by auto
  then show ?thesis using s' k(4) by auto
qed

lemma put_page_absent:
  assumes s: "page_taken ext k s" and d: "2 \<le> dir_index a" "\<not> present (phys s 0 (dir_index a))"
  shows "put_page (page_addr k) a s e = Ok 0 s e \<and> (\<forall>j<1536. mem_map s j \<noteq> 0) \<or>
    (\<exists>s'. put_page (page_addr k) a s e = Ok (page_addr k) s' e \<and> mm_inv ext s' \<and> mem_map s' k = 1 \<and>
      mapped s' (dir_index a) (table_index a) (page_addr k OR 7) \<and> phys s' (page_addr k) = (\<lambda>_. 0))"
proof (cases rule: get_free_page_cases [of s])
  case full
  then show ?thesis using put_page_full [OF d(2) full(2)] by auto
next
  case (found m)
  have k: "k < 1536" "ext k = 0" "mm_inv (ext(k := 1)) s" "mem_map s k = 1" "phys s (page_addr k) = (\<lambda>_. 0)" using s by (simp_all add: page_taken_def)
  from put_page_new_table [OF k(3) d k(1,2) found(4,1), of e] obtain s' where
    s': "put_page (page_addr k) a s e = Ok (page_addr k) s' e" "mm_inv ext s'" "mem_map s' = (mem_map s)(m := 1)" "mem_map s m = 0"
    "mapped s' (dir_index a) (table_index a) (page_addr k OR 7)"
    "\<forall>b j. b \<noteq> page_addr m \<longrightarrow> (b, j) \<noteq> (0, dir_index a) \<longrightarrow> phys s' b j = phys s b j" by blast
  have "m \<noteq> k" using s'(4) k(4) by auto
  then have "mem_map s' k = 1" and "page_addr k \<noteq> page_addr m" using s'(3) k page_addr_inj [OF k(1) found(1)] by auto
  moreover from this have "phys s' (page_addr k) = (\<lambda>_. 0)" using s'(6) k page_addr_nz [OF k(1)] by (intro ext) auto
  ultimately show ?thesis using s' by blast
qed

text \<open>
  C15: the missing-page fault at a user address that is not mapped. The handler returns with exact counts and the address
  mapped to a zeroed frame referenced once; or it ends the process. It ends the process either with nothing changed, no frame being
  free, or after taking the only free frame and finding none for the page table: then that frame is counted
  but belongs to nobody (\<open>ext\<close> grows), so it is lost.
\<close>

theorem do_no_page_maps:
  assumes ok: "mm_inv ext s" and d: "2 \<le> dir_index a"
    and np: "present (phys s 0 (dir_index a)) \<Longrightarrow> \<not> present (phys s (frame (phys s 0 (dir_index a))) (table_index a))"
  shows "(\<exists>s' k. do_no_page c a s e = Ok () s' e \<and> mm_inv ext s' \<and> k < PAGING_PAGES \<and>
            mapped s' (dir_index a) (table_index a) (page_addr k OR 7) \<and> mem_map s' k = 1 \<and>
            phys s' (page_addr k) = (\<lambda>_. 0)) \<or>
         do_no_page c a s e = Exit SIGSEGV s \<and> (\<forall>j<PAGING_PAGES. mem_map s j \<noteq> 0) \<or>
         (\<exists>s' k. do_no_page c a s e = Exit SIGSEGV s' \<and> k < PAGING_PAGES \<and> mem_map s k = 0 \<and> mem_map s' k = 1 \<and>
            mm_inv (ext(k := 1)) s' \<and> (\<forall>j<PAGING_PAGES. mem_map s' j \<noteq> 0))"
proof (cases rule: get_free_page_cases [of s])
  case full
  then have "do_no_page c a s e = Exit SIGSEGV s" by (simp add: do_no_page_def)
  then show ?thesis using full by simp
next
  case (found k)
  define s1 where "s1 = s\<lparr>mem_map := (mem_map s)(k := 1), phys := (phys s)(page_addr k := (\<lambda>_. 0))\<rparr>"
  have k0: "page_addr k \<noteq> 0" using found(1) by simp
  have g: "get_free_page s = (page_addr k, s1)" using found(4) s1_def by simp
  then obtain k' where k': "k' < 1536" "page_addr k = page_addr k'" "ext k' = 0" "mm_inv (ext(k' := 1)) s1"
    by (rule get_free_page_ok [OF ok _ k0]) blast
  have kk: "k' = k" using k' found(1) page_addr_inj by simp
  have s1: "phys s1 0 = phys s 0" "mem_map s1 k = 1" unfolding s1_def using k0 by auto
  have taken: "page_taken ext k s1" unfolding page_taken_def using k' kk s1 by (simp add: s1_def)
  have run: "do_no_page c a s e = bnd (put_page (page_addr k) a) (\<lambda>r. if r \<noteq> 0 then ret () else exitK SIGSEGV) s1 e"
    using g k0 by (simp add: do_no_page_def)
  show ?thesis
  proof (cases "present (phys s1 0 (dir_index a))")
    case True
    then have "tbl (phys s1) (dir_index a) \<noteq> page_addr k"
      using ok_free_not_table [OF ok _ found(1), of "dir_index a"] d s1(1) found(2) by (auto simp: user_dir_def tbl_def)
    moreover have "\<not> present (phys s1 (tbl (phys s1) (dir_index a)) (table_index a))" using np True s1(1) by (simp add: tbl_def s1_def)
    ultimately show ?thesis unfolding run using put_page_present [OF taken d True, of e] k0 found(1) by auto
  next
    case False
    from put_page_absent [OF taken d False, of e] show ?thesis unfolding run using taken k0 found(1,2) by (auto simp: page_taken_def bnd_run)
  qed
qed

text \<open>
  \<^verbatim>\<open>free_page\<close> is meant to refuse addresses beyond physical memory, but its test lets the first such address
  through and then reaches past the end of \<^verbatim>\<open>mem_map\<close>.
\<close>

theorem free_page_HIGH_MEMORY: "free_page HIGH_MEMORY s e = Fault ''mem_map out of range'' s"
  by (simp add: free_page_def MAP_NR_unat)

end
