(* ===== verification/Memory_Examples.thy ===== *)
theory Memory_Examples
  imports Memory_Fault
begin

text \<open>
  A concrete memory to which the theorems on the memory manager apply: directory entry 2 points to the page table in frame 0 of the
  map, whose entry 0 maps frame 1 read-only; frame 1 has a second reference that the kernel holds.
\<close>

definition ex_ext :: "nat \<Rightarrow> nat" where
  "ex_ext i = of_bool (i = 1)"

definition ex_mm :: mm where
  "ex_mm = \<lparr>mem_map = (\<lambda>_. 0)(1 := 2, 0 := 1),
     phys = ((\<lambda>_ _. 0)(0 := (\<lambda>_. 0)(2 := 0x200007)))(0x200000 := (\<lambda>_. 0)(0 := 0x201005))\<rparr>"

lemma page_addr_0_1: "page_addr 0 = 0x200000" "page_addr 1 = 0x201000" "page_addr (Suc 0) = 0x201000"
  by (simp_all add: page_addr_def)

lemma mm_ok_empty: "mm_ok ext (\<lambda>i. of_nat (ext i)) (\<lambda>_ _. 0)" if "\<And>i. ext i < 65536"
  unfolding mm_ok_def user_dir_def refs_def dir_refs_def
  using that by (simp add: unat_of_nat take_bit_nat_eq_self)

lemma ex_mm_inv: "mm_inv ex_ext ex_mm"
proof -
  let ?M = "(\<lambda>i. of_nat (ex_ext i)) :: nat \<Rightarrow> u16"
  let ?P = "(\<lambda>_ _. 0)(0 := (\<lambda>_. 0)(2 := 0x200007)) :: u32 \<Rightarrow> nat \<Rightarrow> u32"
  have "mm_ok ex_ext ?M (\<lambda>_ _. 0)"
    by (rule mm_ok_empty) (simp add: ex_ext_def)
  then have "mm_ok (ex_ext(0 := 1)) (?M(0 := 1)) (\<lambda>_ _. 0)"
    by (rule mm_ok_take(3)) (simp_all add: ex_ext_def)
  then have "mm_ok ex_ext (?M(0 := 1)) ((\<lambda>_ _. 0)(0 := ((\<lambda>_ _. 0) 0)(2 := page_addr 0 OR 7)))"
    by (rule mm_ok_set_dir) (simp_all add: ex_ext_def)
  then have 1: "mm_ok ex_ext (?M(0 := 1)) ?P" by (simp add: page_addr_0_1)
  have ud: "user_dir ?P 2" by (simp add: user_dir_def present_def)
  have ud': "user_dir ?P d \<Longrightarrow> d = 2" for d by (simp add: user_dir_def split: if_splits)
  have t: "tbl ?P 2 = 0x200000" by (simp add: tbl_def frame_def)
  have fr: "frame 0x201005 = page_addr 1" "present 0x201005" by (simp_all add: frame_def present_def page_addr_0_1)
  have "mm_ok ex_ext ((?M(0 := 1))(1 := 2)) (?P(tbl ?P 2 := (?P (tbl ?P 2))(0 := 0x201005)))"
  proof (rule mm_ok_set_pte [OF 1 ud])
    show "unat (((?M(0 := 1))(1 := 2)) i) + hits i (?P (tbl ?P 2) 0) = unat ((?M(0 := 1)) i) + hits i 0x201005"
      if "i < 1536" for i
      unfolding t using hits_page [OF fr(2,1) that] by (simp add: ex_ext_def)
    show "((?M(0 := 1))(1 := 2)) i = (?M(0 := 1)) i" if "user_dir ?P d'" "i < 1536" "tbl ?P d' = page_addr i" for d' i
      using ud' [OF that(1)] that(2,3) t page_addr_inj [of 0 i] by (auto simp: page_addr_0_1)
  qed (simp_all add: frame_def)
  moreover have "(?M(0 := 1))(1 := 2) = (\<lambda>_. 0)(1 := 2, 0 := 1)"
    by (auto simp: ex_ext_def fun_eq_iff)
  ultimately show ?thesis
    unfolding t by (simp add: ex_mm_def)
qed

lemma ex_mapped: "mapped ex_mm 2 0 0x201005"
  by (simp add: mapped_def ex_mm_def user_dir_def tbl_def frame_def present_def)

theorem un_wp_page_cow_witness:
  "mm_inv ex_ext ex_mm \<and> mapped ex_mm 2 0 0x201005 \<and>
   (\<exists>s' w'. un_wp_page 0x200000 0 ex_mm [] = Ok () s' [] \<and> mm_inv ex_ext s' \<and> mapped s' 2 0 w' \<and> bit w' 1)"
proof -
  have t: "tbl (phys ex_mm) 2 = 0x200000" by (simp add: ex_mm_def tbl_def frame_def)
  have "mem_map ex_mm 5 = 0" by (simp add: ex_mm_def)
  then show ?thesis
    using un_wp_page_cow [OF ex_mm_inv ex_mapped, of "[]", unfolded t] ex_mm_inv ex_mapped by auto
qed

theorem do_no_page_maps_witness:
  "mm_inv ex_ext ex_mm \<and> (\<exists>s' k. do_no_page 0 0x803000 ex_mm [] = Ok () s' [] \<and> mm_inv ex_ext s' \<and>
     mapped s' 2 3 (page_addr k OR 7))"
proof -
  have a: "dir_index 0x803000 = 2" "table_index 0x803000 = 3" by (simp_all add: dir_index_def table_index_def)
  have np: "\<not> present (phys ex_mm (frame (phys ex_mm 0 (dir_index 0x803000))) (table_index 0x803000))"
    unfolding a by (simp add: ex_mm_def frame_def)
  have pr: "present (phys ex_mm 0 2)" "phys ex_mm 0 2 = 0x200007" by (simp_all add: ex_mm_def present_def)
  have "put_page p 0x803000 s e = Ok p (set_phys 0x200000 3 (p OR 7) s) e" if "phys s 0 2 = 0x200007" for p e and s :: mm
    using that by (simp add: put_page_def a present_def frame_def)
  moreover have "mem_map ex_mm 5 = 0" by (simp add: ex_mm_def)
  ultimately have "\<exists>s'. do_no_page 0 0x803000 ex_mm [] = Ok () s' []"
    by (cases rule: get_free_page_cases [of ex_mm]) (auto simp: do_no_page_def pr)
  then show ?thesis
    using do_no_page_maps [OF ex_mm_inv _ np, of 0 "[]"] ex_mm_inv by (auto simp: a)
qed

lemma ex_mm_tables: "tables_needed (phys ex_mm) 2 1 = 1" "1 \<le> free_frames (mem_map ex_mm)"
proof -
  show "tables_needed (phys ex_mm) 2 1 = 1" by (simp add: tables_needed_def ex_mm_def present_def)
  have "free_frames (mem_map ex_mm) \<noteq> 0" unfolding free_frames_0 by (auto simp: ex_mm_def intro!: exI [of _ 5])
  then show "1 \<le> free_frames (mem_map ex_mm)" by simp
qed

theorem copy_page_tables_cow_witness:
  "mm_inv ex_ext ex_mm \<and> (\<exists>s'. copy_page_tables 0x800000 0xc00000 0x400000 ex_mm [] = Ok 0 s' [] \<and> mm_inv ex_ext s' \<and>
     copied ex_mm s' 1024 2 3 \<and> Suc (free_frames (mem_map s')) = free_frames (mem_map ex_mm))"
proof -
  have "\<exists>r q s'. copy_page_tables 0x800000 0xc00000 0x400000 ex_mm [] = Ok r s' [] \<and> mm_inv ex_ext s'
    \<and> (if tables_needed (phys ex_mm) 2 1 \<le> free_frames (mem_map ex_mm) then r = 0 \<and> q = 1
       else r = - 1 \<and> q < 1 \<and> free_frames (mem_map s') = 0)
    \<and> tables_needed (phys ex_mm) 2 q + free_frames (mem_map s') = free_frames (mem_map ex_mm)
    \<and> (\<forall>j<q. copied ex_mm s' 1024 (2 + j) (3 + j))
    \<and> (\<forall>j. q \<le> j \<and> j < 1 \<longrightarrow> same_space ex_mm s' (2 + j) \<and> same_space ex_mm s' (3 + j))
    \<and> (\<forall>d. \<not> (2 \<le> d \<and> d < 2 + 1) \<longrightarrow> \<not> (3 \<le> d \<and> d < 3 + 1) \<longrightarrow> same_space ex_mm s' d)
    \<and> (\<forall>b. data_frame ex_mm b \<longrightarrow> phys s' b = phys ex_mm b)"
    by (rule copy_page_tables_cow [OF ex_mm_inv]) (simp_all add: dir_index_def ex_mm_def)
  then obtain s' where "copy_page_tables 0x800000 0xc00000 0x400000 ex_mm [] = Ok 0 s' []" "mm_inv ex_ext s'"
    "tables_needed (phys ex_mm) 2 1 + free_frames (mem_map s') = free_frames (mem_map ex_mm)" "\<forall>j<1. copied ex_mm s' 1024 (2 + j) (3 + j)"
    using ex_mm_tables by (auto simp: numeral_2_eq_2)
  then show ?thesis using ex_mm_inv ex_mm_tables(1) by (intro conjI exI [of _ s']) auto
qed

theorem free_page_tables_exact_witness:
  "mm_inv ex_ext ex_mm \<and> (\<exists>s'. free_page_tables 0x800000 0x400000 ex_mm [] = Ok 0 s' [] \<and> mm_inv ex_ext s' \<and>
     \<not> present (phys s' 0 2))"
proof -
  have "\<exists>s'. free_page_tables 0x800000 0x400000 ex_mm [] = Ok 0 s' [] \<and> mm_inv ex_ext s'
    \<and> (\<forall>d. dir_index 0x800000 \<le> d \<and> d < dir_index 0x800000 + 1 \<longrightarrow> \<not> present (phys s' 0 d))
    \<and> (\<forall>d. \<not> (dir_index 0x800000 \<le> d \<and> d < dir_index 0x800000 + 1) \<longrightarrow> same_space ex_mm s' d)"
    by (rule free_page_tables_exact [OF ex_mm_inv]) (simp_all add: dir_index_def)
  then show ?thesis using ex_mm_inv by (auto simp: dir_index_def)
qed


theorem get_free_page_spec_witness:
  "\<exists>i page s'. get_free_page ex_mm = (page, s') \<and> mem_map ex_mm i = 0 \<and> MAP_NR page = i \<and> i < PAGING_PAGES"
proof -
  have "\<not> (\<forall>j<PAGING_PAGES. mem_map ex_mm j \<noteq> 0)" by (auto simp: ex_mm_def intro!: exI [of _ 5])
  then show ?thesis using get_free_page_spec [of ex_mm] by blast
qed

end
