(* ===== verification/File_Blocks.thy ===== *)
theory File_Blocks
  imports Files
begin

text \<open>
  What the file system sees of the buffer cache: a block is read, looked at or changed, and released, while the tables of inodes and files and user memory
  may change in between; and the map from the blocks of a file to the blocks of its device.
\<close>

section \<open>State the cache does not depend on\<close>

lemmas cache_defs = calm_def cache_def store_def quiet_def parts_ok_def buf_ok_def queues_def hd_idle_def free_request_def hd_block_def dev_lba_def disk_block_def

lemma cache_fs_upd [simp]:
  "cache D (s\<lparr>fs_mem := m\<rparr>) = cache D s" "cache D (s\<lparr>inode_table := it\<rparr>) = cache D s" "cache D (s\<lparr>file_table := ft\<rparr>) = cache D s"
  by (simp_all add: cache_defs)

lemma calm_fs_upd [simp]:
  "calm D (s\<lparr>fs_mem := m\<rparr>) = calm D s" "calm D (s\<lparr>inode_table := it\<rparr>) = calm D s" "calm D (s\<lparr>file_table := ft\<rparr>) = calm D s"
  by (simp_all add: calm_def)

lemma hd_block_fs_upd [simp]:
  "hd_block (s\<lparr>fs_mem := m\<rparr>) = hd_block s" "hd_block (s\<lparr>inode_table := it\<rparr>) = hd_block s" "hd_block (s\<lparr>file_table := ft\<rparr>) = hd_block s"
  by (simp_all add: fun_eq_iff hd_block_def dev_lba_def)

lemma blockview_fs_upd [simp]:
  "blockview (s\<lparr>fs_mem := m\<rparr>) = blockview s" "blockview (s\<lparr>inode_table := it\<rparr>) = blockview s" "blockview (s\<lparr>file_table := ft\<rparr>) = blockview s"
  by (simp_all add: fun_eq_iff blockview_def disk_block_def dev_lba_def split: option.split)

section \<open>Using a block\<close>

abbreviation released :: "nat \<Rightarrow> 'z hdst_scheme \<Rightarrow> 'z hdst_scheme" where
  "released b s \<equiv> upd_buf b (\<lambda>h. h\<lparr>b_count := b_count h - 1\<rparr>) s"

text \<open>Nobody's buffers, blocks or use counts changed.\<close>

definition same_blocks :: "u16 set \<Rightarrow> 'z cache_scheme \<Rightarrow> 'z cache_scheme \<Rightarrow> bool" where
  "same_blocks D s s' \<longleftrightarrow> calm D s' \<and> same_users s s' \<and> (\<forall>d k. d \<in> D \<longrightarrow> hd_block s d k \<longrightarrow> blockview s' d k = blockview s d k)"

lemma bread_held:
  assumes c: "calm D s" and d: "d \<in> D" "hd_block s d k"
  obtains b s1 where "bread (ucast d) (ucast k) s [] = Ok b s1 []" "b \<noteq> 0" "cache D s1" "b_count (bufs s1 b) \<noteq> 0" "holds s1 d k b"
    "\<And>i. i < 1024 \<Longrightarrow> b_data (bufs s1 b) i = blockview s d k i" "cache_frame s s1" "same_blocks D s (released b s1)"
proof -
  have ch: "cache D s" and ex: "\<exists>x\<in>heads s. b_count (bufs s x) = 0"
    and un: "\<And>x. x \<in> heads s \<Longrightarrow> b_count (bufs s x) \<noteq> 0 \<Longrightarrow> b_uptodate (bufs s x) \<noteq> 0"
    using c by (auto simp: calm_def)
  obtain b s1 where b: "bread (ucast d) (ucast k) s [] = Ok b s1 []" "got D d k b s s1" "b_uptodate (bufs s1 b) \<noteq> 0"
    "\<And>i. i < 1024 \<Longrightarrow> b_data (bufs s1 b) i = blockview s d k i"
    by (rule bread_run [OF ch d ex un]) blast+
  note g = gotD [OF b(2)]
  have cnt: "b_count (bufs s1 b) = b_count (bufs s b) + 1" using b(2) by (simp add: got_def)
  have "b_count (bufs s b) \<noteq> 255" using c g(1) cache_frame_simps(3) [OF g(5)] by (force simp: calm_def)
  then have c0: "b_count (bufs s1 b) \<noteq> 0" using cnt u8_inc_nz by simp
  have "read_block_data (d, k) s [] = Ok (b_data (bufs s1 b)) (released b s1) []"
    using b(1) brelse_run(1) [OF g(3) g(2) c0] by (simp add: read_block_data_def)
  then have "same_blocks D s (released b s1)"
    using read_block_data_run [OF c d] by (auto simp: same_blocks_def)
  then show thesis using that b(1,3,4) g c0 by (simp add: holds_def)
qed

lemma bread_written:
  assumes c: "calm D s" and d: "d \<in> D" "hd_block s d k" and b: "bread (ucast d) (ucast k) s [] = Ok b s1 []" "b \<noteq> 0" "cache D s1"
    "b_count (bufs s1 b) \<noteq> 0" "holds s1 d k b"
  shows "cache D (put_data b v s1)" "calm D (released b (put_data b v s1))" "same_users s (released b (put_data b v s1))"
    "\<And>d' k' i. d' \<in> D \<Longrightarrow> hd_block s d' k' \<Longrightarrow> i < 1024 \<Longrightarrow>
      blockview (released b (put_data b v s1)) d' k' i = (if (d', k') = (d, k) then v i else blockview s d' k' i)"
proof -
  have w: "cache D (put_data b v s1)" by (rule put_data_run [OF b(3) d(1) b(5)])
  have n: "b_count (bufs (put_data b v s1) b) \<noteq> 0" using b(4) by (simp add: put_data_def upd_buf_def)
  have "write_block_data (d, k) v s [] = Ok () (released b (put_data b v s1)) []"
    using b(1) brelse_run(1) [OF w b(2) n] by (simp add: write_block_data_def)
  then obtain "calm D (released b (put_data b v s1))" "same_users s (released b (put_data b v s1))"
    "\<forall>d' k' i. d' \<in> D \<longrightarrow> hd_block s d' k' \<longrightarrow> i < 1024 \<longrightarrow>
      blockview (released b (put_data b v s1)) d' k' i = (if (d', k') = (d, k) then v i else blockview s d' k' i)"
    using write_block_data_run [OF c d, of v] by auto
  then show "cache D (put_data b v s1)" "calm D (released b (put_data b v s1))" "same_users s (released b (put_data b v s1))"
    "\<And>d' k' i. d' \<in> D \<Longrightarrow> hd_block s d' k' \<Longrightarrow> i < 1024 \<Longrightarrow>
      blockview (released b (put_data b v s1)) d' k' i = (if (d', k') = (d, k) then v i else blockview s d' k' i)"
    using w by blast+
qed

lemma same_blocks_refl: "calm D s \<Longrightarrow> same_blocks D s s"
  by (simp add: same_blocks_def same_users_def)

lemma same_blocks_trans: "same_blocks D s1 s2 \<Longrightarrow> same_blocks D s2 s3 \<Longrightarrow> same_blocks D s1 s3"
  unfolding same_blocks_def same_users_def
  by (metis (no_types, lifting) cache_frame_trans same_users_block same_users_def)

lemma cache_frame_fs:
  fixes s :: "'z fs_scheme"
  assumes "cache_frame s s'"
  shows "inode_table s' = inode_table s" "file_table s' = file_table s" "fs_mem s' = fs_mem s" "super_table s' = super_table s"
    "tstruct s' = tstruct s" "current s' = current s" "jiffies s' = jiffies s" "startup_time s' = startup_time s"
proof -
  have e: "s' = s\<lparr>bufs := bufs s', disk := disk s', request := request s', hw_drive := hw_drive s', hw_lba := hw_lba s',
     hw_buf := hw_buf s', hash_table := hash_table s', free_list := free_list s'\<rparr>"
    using assms by (simp add: cache_frame_def)
  show "inode_table s' = inode_table s" "file_table s' = file_table s" "fs_mem s' = fs_mem s" "super_table s' = super_table s"
    "tstruct s' = tstruct s" "current s' = current s" "jiffies s' = jiffies s" "startup_time s' = startup_time s"
    by (subst e, simp)+
qed

lemma same_blocksD:
  fixes s :: "'z fs_scheme"
  assumes "same_blocks D s s'"
  shows "inode_table s' = inode_table s" "file_table s' = file_table s" "fs_mem s' = fs_mem s" "super_table s' = super_table s"
    "now s' = now s" "hd_block s' = hd_block s" "calm D s'" "\<And>d k. d \<in> D \<Longrightarrow> hd_block s d k \<Longrightarrow> blockview s' d k = blockview s d k"
proof -
  have f: "cache_frame s s'" "same_users s s'" using assms by (simp_all add: same_blocks_def same_users_def)
  show "inode_table s' = inode_table s" "file_table s' = file_table s" "fs_mem s' = fs_mem s" "super_table s' = super_table s" "now s' = now s"
    using cache_frame_fs [OF f(1)] by (simp_all add: now_def CURRENT_TIME_def)
  show "hd_block s' = hd_block s" using same_users_block [OF f(2)] by (simp add: fun_eq_iff)
  show "calm D s'" "\<And>d k. d \<in> D \<Longrightarrow> hd_block s d k \<Longrightarrow> blockview s' d k = blockview s d k" using assms by (auto simp: same_blocks_def)
qed

section \<open>The blocks of a file\<close>

text \<open>
  The reference for \<^verbatim>\<open>_bmap\<close>: the zone of block \<open>b\<close> of an inode, direct, by the indirect block or by the two levels of the double indirect block, read off
  the contents \<open>V\<close> of the blocks.
\<close>

definition zone_of :: "(u16 \<Rightarrow> u16 \<Rightarrow> nat \<Rightarrow> u8) \<Rightarrow> m_inode \<Rightarrow> nat \<Rightarrow> u16" where
  "zone_of V m b =
     (if b < 7 then i_zone m b
      else if b < 7 + 512 then (if i_zone m 7 = 0 then 0 else get16 (V (i_dev m) (i_zone m 7)) (2 * (b - 7)))
      else if i_zone m 8 = 0 then 0
      else let z = get16 (V (i_dev m) (i_zone m 8)) (2 * ((b - 519) div 512)) in
        if z = 0 then 0 else get16 (V (i_dev m) z) (2 * ((b - 519) mod 512)))"

text \<open>The index blocks on the way to block \<open>b\<close>.\<close>

definition index_blocks :: "(u16 \<Rightarrow> u16 \<Rightarrow> nat \<Rightarrow> u8) \<Rightarrow> m_inode \<Rightarrow> nat \<Rightarrow> u16 list" where
  "index_blocks V m b = filter (\<lambda>z. z \<noteq> 0)
     (if b < 7 then [] else if b < 7 + 512 then [i_zone m 7]
      else if i_zone m 8 = 0 then [] else [i_zone m 8, get16 (V (i_dev m) (i_zone m 8)) (2 * ((b - 519) div 512))])"

definition MAX_BLOCKS :: nat where "MAX_BLOCKS = 7 + 512 + 512 * 512"

text \<open>Block \<open>b\<close> of the file lies, with its index blocks, on a device of \<open>D\<close>.\<close>

definition block_ok :: "u16 set \<Rightarrow> 'z fs_scheme \<Rightarrow> nat \<Rightarrow> nat \<Rightarrow> bool" where
  "block_ok D s p b \<longleftrightarrow> b < MAX_BLOCKS \<and> i_dev (inode_table s p) \<in> D \<and>
     (\<forall>z\<in>set (index_blocks (blockview s) (inode_table s p) b). hd_block s (i_dev (inode_table s p)) z) \<and>
     (zone_of (blockview s) (inode_table s p) b \<noteq> 0 \<longrightarrow> hd_block s (i_dev (inode_table s p)) (zone_of (blockview s) (inode_table s p) b))"

lemma get16_cong: "D i = D' i \<Longrightarrow> D (i + 1) = D' (i + 1) \<Longrightarrow> get16 D i = get16 D' i"
  by (simp add: get16_def)

lemma bmap_ind_run:
  assumes c: "calm D s" and d: "i_dev (inode_table s p) \<in> D" "hd_block s (i_dev (inode_table s p)) z" and k: "k < 512"
    and mk: "mk \<Longrightarrow> get16 (blockview s (i_dev (inode_table s p)) z) (2 * k) \<noteq> 0"
  shows "\<exists>s'. bmap_ind p (ucast z) k mk s [] = Ok (ucast (get16 (blockview s (i_dev (inode_table s p)) z) (2 * k))) s' [] \<and> same_blocks D s s'"
proof -
  obtain b s1 where b: "bread (ucast (i_dev (inode_table s p))) (ucast z) s [] = Ok b s1 []" "b \<noteq> 0" "cache D s1" "b_count (bufs s1 b) \<noteq> 0"
    "\<And>i. i < 1024 \<Longrightarrow> b_data (bufs s1 b) i = blockview s (i_dev (inode_table s p)) z i" "same_blocks D s (released b s1)"
    by (rule bread_held [OF c d]) blast
  have "zone_at b k s1 = get16 (blockview s (i_dev (inode_table s p)) z) (2 * k)"
    unfolding zone_at_def by (rule get16_cong) (use b(5) k in auto)
  then show ?thesis
    using b(1,2,6) brelse_run(1) [OF b(3,2,4)] mk by (auto simp: bmap_ind_def)
qed

lemma bmap_zone_run: "(mk \<Longrightarrow> i_zone (inode_table s p) k \<noteq> 0) \<Longrightarrow> bmap_zone p k mk s e = Ok (i_zone (inode_table s p) k) s e"
  by (auto simp: bmap_zone_def)

text \<open>\<^verbatim>\<open>_bmap\<close> computes the reference; asked to create a block that exists it does the same.\<close>

lemma bmap_create_run:
  assumes c: "calm D s" and ok: "block_ok D s p b" and mk: "mk \<Longrightarrow> zone_of (blockview s) (inode_table s p) b \<noteq> 0"
  shows "\<exists>s'. bmap_create p (int b) mk s [] = Ok (ucast (zone_of (blockview s) (inode_table s p) b)) s' [] \<and> same_blocks D s s'"
proof -
  let ?m = "inode_table s p"
  have d: "i_dev ?m \<in> D" and b: "b < 7 + 512 + 512 * 512" using ok by (auto simp: block_ok_def MAX_BLOCKS_def)
  show ?thesis
  proof (cases "b < 7 \<or> (b < 519 \<and> i_zone ?m 7 = 0) \<or> (519 \<le> b \<and> i_zone ?m 8 = 0)")
    case True
    then have z: "zone_of (blockview s) ?m b = (if b < 7 then i_zone ?m b else 0)" by (auto simp: zone_of_def)
    then have "7 \<le> b \<Longrightarrow> \<not> mk" "b < 7 \<Longrightarrow> mk \<Longrightarrow> i_zone ?m b \<noteq> 0" using mk by auto
    then have "bmap_create p (int b) mk s [] = Ok (ucast (zone_of (blockview s) ?m b)) s []"
      using True b unfolding z by (cases mk) (auto simp: bmap_create_def bmap_zone_run Let_def)
    then show ?thesis using same_blocks_refl [OF c] by blast
  next
    case direct: False
    show ?thesis
    proof (cases "b < 519")
      case True
      then have "hd_block s (i_dev ?m) (i_zone ?m 7)" using ok direct by (auto simp: block_ok_def index_blocks_def)
      from bmap_ind_run [OF c d this, of "b - 7" mk]
      show ?thesis using True direct mk by (auto simp: bmap_create_def bmap_zone_run zone_of_def nat_diff_distrib' ucast_up_inj)
    next
      case False
      let ?z = "get16 (blockview s (i_dev ?m) (i_zone ?m 8)) (2 * ((b - 519) div 512))"
      have h: "hd_block s (i_dev ?m) (i_zone ?m 8)" "?z \<noteq> 0 \<Longrightarrow> hd_block s (i_dev ?m) ?z"
        using ok direct False by (auto simp: block_ok_def index_blocks_def)
      have mkz: "mk \<Longrightarrow> ?z \<noteq> 0" using mk direct False by (auto simp: zone_of_def Let_def)
      obtain s1 where s1: "bmap_ind p (ucast (i_zone ?m 8)) ((b - 519) div 512) mk s [] = Ok (ucast ?z) s1 []" "same_blocks D s s1"
        using bmap_ind_run [OF c d h(1) _ mkz] less_mult_imp_div_less [of "b - 519" 512 512] b by auto
      note t = same_blocksD [OF s1(2)]
      have n: "nat (int b - 519) = b - 519" by simp
      show ?thesis
      proof (cases "?z = 0")
        case True
        then show ?thesis
          using direct False b s1 mkz by (auto simp: bmap_create_def bmap_zone_run zone_of_def Let_def n)
      next
        case nz: False
        have "hd_block s1 (i_dev (inode_table s1 p)) ?z" "i_dev (inode_table s1 p) \<in> D" using t h nz d by auto
        from bmap_ind_run [OF t(7) this(2,1), of "(b - 519) mod 512" mk]
        obtain s2 where s2: "bmap_ind p (ucast ?z) ((b - 519) mod 512) mk s1 [] =
            Ok (ucast (get16 (blockview s (i_dev ?m) ?z) (2 * ((b - 519) mod 512)))) s2 []" "same_blocks D s1 s2"
          using t d h nz mk direct False by (auto simp: zone_of_def Let_def)
        have "(ucast ?z :: u32) \<noteq> 0" using nz ucast_up_inj [of ?z 0] by simp
        then have "bmap_create p (int b) mk s [] = Ok (ucast (zone_of (blockview s) ?m b)) s2 []"
          using direct False b s1 s2 nz by (simp add: bmap_create_def bmap_zone_run zone_of_def Let_def n)
        then show ?thesis using same_blocks_trans [OF s1(2) s2(2)] by blast
      qed
    qed
  qed
qed

lemma bmap_run:
  "calm D s \<Longrightarrow> block_ok D s p b \<Longrightarrow>
   \<exists>s'. bmap p (int b) s [] = Ok (ucast (zone_of (blockview s) (inode_table s p) b)) s' [] \<and> same_blocks D s s'"
  unfolding bmap_def by (rule bmap_create_run) simp_all

text \<open>
  C13: \<^verbatim>\<open>bmap\<close> finds the disk block of every block of a file: it returns what following the file's index, through the direct zones, the indirect
  and the double indirect block, on the logical contents of the device gives, 0 for a hole; it changes no block and keeps no buffer.
\<close>

theorem bmap_finds_zone:
  assumes "calm D s" "block_ok D s p b"
  shows "\<exists>s'. bmap p (int b) s [] = Ok (ucast (zone_of (blockview s) (inode_table s p) b)) s' [] \<and> same_blocks D s s'"
  by (rule bmap_run [OF assms])

end
