(* ===== verification/File_Props.thy ===== *)
theory File_Props
  imports File_Blocks
begin

text \<open>
  Reading and writing regular files, \<^verbatim>\<open>src/fs/file_dev.c\<close>, against files as sequences of bytes.
\<close>

section \<open>The contents of a file\<close>

text \<open>Byte \<open>n\<close> of the file of inode \<open>p\<close>; a hole reads as zero.\<close>

definition file_byte :: "'z fs_scheme \<Rightarrow> nat \<Rightarrow> nat \<Rightarrow> u8" where
  "file_byte s p n =
     (let m = inode_table s p; z = zone_of (blockview s) m (n div 1024) in if z = 0 then 0 else blockview s (i_dev m) z (n mod 1024))"

lemma zone_of_cong:
  assumes "block_ok D s p b" and v: "\<And>d k. d \<in> D \<Longrightarrow> hd_block s d k \<Longrightarrow> blockview t d k = blockview s d k"
  shows "zone_of (blockview t) (inode_table s p) b = zone_of (blockview s) (inode_table s p) b"
    and "index_blocks (blockview t) (inode_table s p) b = index_blocks (blockview s) (inode_table s p) b"
proof -
  let ?m = "inode_table s p"
  have d: "i_dev ?m \<in> D" using assms by (simp add: block_ok_def)
  have e: "blockview t (i_dev ?m) z = blockview s (i_dev ?m) z" if "z \<in> set (index_blocks (blockview s) ?m b)" for z
    using that assms(1) v [OF d] by (simp add: block_ok_def)
  show "zone_of (blockview t) ?m b = zone_of (blockview s) ?m b" "index_blocks (blockview t) ?m b = index_blocks (blockview s) ?m b"
    using e by (auto simp: zone_of_def index_blocks_def Let_def)
qed

lemma block_ok_cong:
  assumes "block_ok D s p b" and v: "\<And>d k. d \<in> D \<Longrightarrow> hd_block s d k \<Longrightarrow> blockview t d k = blockview s d k"
    and "inode_table t p = inode_table s p" "hd_block t = hd_block s"
  shows "block_ok D t p b"
  using assms zone_of_cong [OF assms(1), of t] by (auto simp: block_ok_def)

lemma file_byte_cong:
  assumes "block_ok D s p (n div 1024)" and v: "\<And>d k. d \<in> D \<Longrightarrow> hd_block s d k \<Longrightarrow> blockview t d k = blockview s d k"
    and "inode_table t p = inode_table s p"
  shows "file_byte t p n = file_byte s p n"
  using assms zone_of_cong [OF assms(1), of t] by (auto simp: file_byte_def Let_def block_ok_def)

lemma zone_of_fields: "i_zone m' = i_zone m \<Longrightarrow> i_dev m' = i_dev m \<Longrightarrow> zone_of V m' b = zone_of V m b"
  by (simp add: zone_of_def Let_def)

lemma file_byte_fields:
  "i_zone (inode_table t p) = i_zone (inode_table s p) \<Longrightarrow> i_dev (inode_table t p) = i_dev (inode_table s p) \<Longrightarrow> blockview t = blockview s \<Longrightarrow>
   file_byte t p n = file_byte s p n"
  by (simp add: file_byte_def Let_def zone_of_fields [of "inode_table t p" "inode_table s p"])

section \<open>Copying\<close>

definition overlay :: "u32 \<Rightarrow> nat \<Rightarrow> (nat \<Rightarrow> u8) \<Rightarrow> (u32 \<Rightarrow> u8) \<Rightarrow> u32 \<Rightarrow> u8" where
  "overlay buf n f M = (\<lambda>a. if unat (a - buf) < n then f (unat (a - buf)) else M a)"

lemma overlay_0 [simp]: "overlay buf 0 f M = M"
  by (simp add: overlay_def)

lemma addr_offset: "n < 2 ^ 32 \<Longrightarrow> a = buf + of_nat n \<longleftrightarrow> unat (a - buf :: u32) = n"
proof -
  assume "n < 2 ^ 32"
  then have "unat (of_nat n :: u32) = n" by (simp add: unsigned_of_nat take_bit_nat_eq_self)
  moreover have "a = buf + of_nat n \<longleftrightarrow> a - buf = of_nat n" by (auto simp: algebra_simps)
  ultimately show ?thesis by (simp add: word_unat_eq_iff)
qed

lemma overlay_upd: "n < 2 ^ 32 \<Longrightarrow> (overlay buf n f M)(buf + of_nat n := f n) = overlay buf (Suc n) f M"
  by (auto simp: overlay_def fun_eq_iff less_Suc_eq addr_offset)

lemma overlay_append:
  assumes "n + k \<le> 2 ^ 32"
  shows "overlay (buf + of_nat n) k (\<lambda>i. f (n + i)) (overlay buf n f M) = overlay buf (n + k) f M"
proof (rule ext)
  fix a :: u32
  show "overlay (buf + of_nat n) k (\<lambda>i. f (n + i)) (overlay buf n f M) a = overlay buf (n + k) f M a"
  proof (cases "n = 2 ^ 32")
    case True
    then show ?thesis using assms by (simp add: overlay_def)
  next
    case False
    then have n: "unat (of_nat n :: u32) = n" using assms by (simp add: unsigned_of_nat take_bit_nat_eq_self)
    have b: "unat (a - buf) < 2 ^ 32" using unsigned_less [of "a - buf"] by simp
    have e: "a - (buf + of_nat n) = (a - buf) - of_nat n" by (simp add: algebra_simps)
    show ?thesis
    proof (cases "unat (a - buf) < n")
      case True
      define w where "w = a - (buf + of_nat n)"
      have aw: "a - buf = w + of_nat n" by (simp add: w_def)
      have "\<not> unat w < k"
      proof
        assume "unat w < k"
        then have "unat (w + of_nat n) = unat w + n"
          using assms n by (subst unat_word_ariths(1)) simp
        then show False using True by (simp add: aw)
      qed
      then have "\<not> unat (a - (buf + of_nat n)) < k" by (simp add: w_def)
      then show ?thesis using True by (simp add: overlay_def)
    next
      case False
      then have "unat (a - (buf + of_nat n)) = unat (a - buf) - n"
        unfolding e using n by (simp add: unat_sub word_le_nat_alt)
      then show ?thesis using False by (auto simp: overlay_def)
    qed
  qed
qed

lemma to_user_eq:
  "n \<le> 2 ^ 32 \<Longrightarrow> to_user B off n buf s = s\<lparr>fs_mem := overlay buf n (\<lambda>i. B (off + i)) (fs_mem s)\<rparr>"
proof (induction n)
  case (Suc n)
  then show ?case using overlay_upd [of n buf "\<lambda>i. B (off + i)" "fs_mem s"] by (simp add: to_user_def put_fs_byte_def)
qed (simp add: to_user_def)

section \<open>Reading\<close>

lemma same_blocks_upd:
  fixes s :: "'z fs_scheme"
  assumes "same_blocks D s t"
  shows "same_blocks D (s\<lparr>fs_mem := M\<rparr>) (t\<lparr>fs_mem := M\<rparr>)" "same_blocks D (s\<lparr>file_table := ft\<rparr>) (t\<lparr>file_table := ft\<rparr>)"
    "same_blocks D (s\<lparr>inode_table := it\<rparr>) (t\<lparr>inode_table := it\<rparr>)"
proof -
  have f: "cache_frame s t" using assms by (simp add: same_blocks_def same_users_def)
  have "cache_frame (s\<lparr>fs_mem := M\<rparr>) (t\<lparr>fs_mem := M\<rparr>)" "cache_frame (s\<lparr>file_table := ft\<rparr>) (t\<lparr>file_table := ft\<rparr>)"
    "cache_frame (s\<lparr>inode_table := it\<rparr>) (t\<lparr>inode_table := it\<rparr>)"
    using f unfolding cache_frame_def by (cases s; cases t; simp)+
  then show "same_blocks D (s\<lparr>fs_mem := M\<rparr>) (t\<lparr>fs_mem := M\<rparr>)" "same_blocks D (s\<lparr>file_table := ft\<rparr>) (t\<lparr>file_table := ft\<rparr>)"
    "same_blocks D (s\<lparr>inode_table := it\<rparr>) (t\<lparr>inode_table := it\<rparr>)"
    using assms by (simp_all add: same_blocks_def same_users_def)
qed

lemma same_blocks_tables:
  assumes "same_blocks D (s\<lparr>file_table := ft1, fs_mem := M1\<rparr>) t"
  shows "same_blocks D (s\<lparr>file_table := ft, fs_mem := M\<rparr>) (t\<lparr>file_table := ft, fs_mem := M\<rparr>)"
  using same_blocks_upd(1) [OF same_blocks_upd(2) [OF assms, of ft], of M] by simp

text \<open>One block of \<^verbatim>\<open>file_read\<close>: the block, if there is one, is read, its bytes are copied to the user, and it is released.\<close>

lemma file_read_step:
  assumes c: "calm D s" and pos: "f_pos (file_table s filp) = int pos" and b: "block_ok D s p (pos div 1024)"
    and left: "0 < left" "left \<le> 2 ^ 31" and bound: "pos + left < 2 ^ 31"
  defines "n \<equiv> min (1024 - pos mod 1024) left"
  shows "\<exists>s'. file_read_loop (Suc fuel) p filp buf left s [] = file_read_loop fuel p filp (buf + of_nat n) (left - n) s' [] \<and>
    same_blocks D (s\<lparr>file_table := (file_table s)(filp := (file_table s filp)\<lparr>f_pos := int (pos + n)\<rparr>),
      fs_mem := overlay buf n (\<lambda>i. file_byte s p (pos + i)) (fs_mem s)\<rparr>) s'"
proof -
  let ?m = "inode_table s p" and ?z = "zone_of (blockview s) (inode_table s p) (pos div 1024)"
  let ?ft = "(file_table s)(filp := (file_table s filp)\<lparr>f_pos := int (pos + n)\<rparr>)"
  have n: "n \<le> 1024" "n \<le> left" "0 < n" using left by (auto simp: n_def)
  have cd: "c_div (int pos) 1024 = int (pos div 1024)" "c_mod (int pos) 1024 = int (pos mod 1024)" by (simp_all add: zdiv_int zmod_int)
  have w: "wrap32 (int pos + int n) = int (pos + n)" using n bound by (simp add: in_range32_def)
  have idx: "(pos + i) div 1024 = pos div 1024 \<and> (pos + i) mod 1024 = pos mod 1024 + i" if "i < n" for i
  proof -
    have l: "pos mod 1024 + i < 1024" using that by (auto simp: n_def)
    have "(pos + i) mod 1024 = (pos mod 1024 + i) mod 1024" by (simp add: mod_add_left_eq)
    moreover have "(pos + i) div 1024 = pos div 1024 + i div 1024 + (pos mod 1024 + i mod 1024) div 1024" by (rule div_add1_eq)
    ultimately show ?thesis using l by simp
  qed
  obtain s1 where s1: "bmap p (int (pos div 1024)) s [] = Ok (ucast ?z) s1 []" "same_blocks D s s1" using bmap_run [OF c b] by auto
  note t1 = same_blocksD [OF s1(2)]
  have nz: "(ucast ?z :: u32) = 0 \<longleftrightarrow> ?z = 0" using ucast_up_inj [of ?z 0] by simp
  show ?thesis
  proof (cases "?z = 0")
    case True
    have ov: "overlay buf n (\<lambda>i. 0) (fs_mem s) = overlay buf n (\<lambda>i. file_byte s p (pos + i)) (fs_mem s)"
      using idx True by (auto simp: overlay_def fun_eq_iff file_byte_def Let_def)
    have "file_read_loop (Suc fuel) p filp buf left s [] =
        file_read_loop fuel p filp (buf + of_nat n) (left - n) (s1\<lparr>file_table := ?ft, fs_mem := overlay buf n (\<lambda>i. 0) (fs_mem s)\<rparr>) []"
      using left s1 True n t1 pos w
      by (simp add: cd n_def [symmetric] to_user_eq add_pos_def upd_file_def brelse_def)
    then show ?thesis
      unfolding ov by (intro exI conjI, assumption, intro same_blocks_upd s1(2))
  next
    case False
    then have h: "hd_block s1 (i_dev ?m) ?z" "i_dev ?m \<in> D" using b t1 by (auto simp: block_ok_def)
    obtain bh s2 where s2: "bread (ucast (i_dev ?m)) (ucast ?z) s1 [] = Ok bh s2 []" "bh \<noteq> 0" "cache D s2" "b_count (bufs s2 bh) \<noteq> 0"
      "\<And>i. i < 1024 \<Longrightarrow> b_data (bufs s2 bh) i = blockview s1 (i_dev ?m) ?z i" "cache_frame s1 s2" "same_blocks D s1 (released bh s2)"
      by (rule bread_held [OF t1(7) h(2,1)]) blast
    note f2 = cache_frame_fs [OF s2(6)]
    have ov: "overlay buf n (\<lambda>i. b_data (bufs s2 bh) (pos mod 1024 + i)) M = overlay buf n (\<lambda>i. file_byte s p (pos + i)) M" for M
      using idx False s2(5) t1(8) h b
      by (auto simp: overlay_def fun_eq_iff file_byte_def Let_def n_def block_ok_def)
    let ?s3 = "s2\<lparr>file_table := ?ft, fs_mem := overlay buf n (\<lambda>i. file_byte s p (pos + i)) (fs_mem s)\<rparr>"
    have r: "brelse bh ?s3 [] = Ok () (released bh ?s3) []"
      by (rule brelse_run(1) [where D = D]) (use s2 in simp_all)
    have "file_read_loop (Suc fuel) p filp buf left s [] = file_read_loop fuel p filp (buf + of_nat n) (left - n) (released bh ?s3) []"
      using left s1 s2 False n t1 f2 pos w nz r
      by (simp add: cd n_def [symmetric] to_user_eq add_pos_def upd_file_def i_dev_of_def ov)
    moreover have "released bh ?s3 = (released bh s2)\<lparr>file_table := ?ft, fs_mem := overlay buf n (\<lambda>i. file_byte s p (pos + i)) (fs_mem s)\<rparr>"
      by (simp add: upd_buf_def)
    ultimately have e: "file_read_loop (Suc fuel) p filp buf left s [] = file_read_loop fuel p filp (buf + of_nat n) (left - n)
        ((released bh s2)\<lparr>file_table := ?ft, fs_mem := overlay buf n (\<lambda>i. file_byte s p (pos + i)) (fs_mem s)\<rparr>) []" by (simp only:)
    show ?thesis
      by (intro exI conjI, rule e, intro same_blocks_upd same_blocks_trans [OF s1(2) s2(7)])
  qed
qed

lemma overlay_cong: "(\<And>i. i < n \<Longrightarrow> f i = g i) \<Longrightarrow> overlay buf n f M = overlay buf n g M"
  by (auto simp: overlay_def)

text \<open>All blocks of the \<open>n\<close> bytes from position \<open>pos\<close> on are on the device.\<close>

definition range_ok :: "u16 set \<Rightarrow> 'z fs_scheme \<Rightarrow> nat \<Rightarrow> nat \<Rightarrow> nat \<Rightarrow> bool" where
  "range_ok D s p pos n \<longleftrightarrow> (\<forall>i<n. block_ok D s p ((pos + i) div 1024))"

lemma range_okD: "range_ok D s p pos n \<Longrightarrow> i < n \<Longrightarrow> block_ok D s p ((pos + i) div 1024)"
  by (simp add: range_ok_def)

lemma range_ok_first: "range_ok D s p pos n \<Longrightarrow> 0 < n \<Longrightarrow> block_ok D s p (pos div 1024)"
  using range_okD [of D s p pos n 0] by simp

lemma range_ok_rest:
  assumes "range_ok D s p pos n" "k \<le> n" and "\<And>d k. d \<in> D \<Longrightarrow> hd_block s d k \<Longrightarrow> blockview t d k = blockview s d k"
    "inode_table t p = inode_table s p" "hd_block t = hd_block s"
  shows "range_ok D t p (pos + k) (n - k)"
  unfolding range_ok_def using block_ok_cong [OF range_okD [OF assms(1)] assms(3-5)] assms(2)
  by (metis add.assoc less_diff_conv add.commute)

lemma file_read_loop_run:
  "calm D s \<Longrightarrow> f_pos (file_table s filp) = int pos \<Longrightarrow> range_ok D s p pos left \<Longrightarrow> left \<le> fuel \<Longrightarrow> pos + left < 2 ^ 31 \<Longrightarrow>
   \<exists>s'. file_read_loop fuel p filp buf left s [] = Ok 0 s' [] \<and>
     same_blocks D (s\<lparr>file_table := (file_table s)(filp := (file_table s filp)\<lparr>f_pos := int (pos + left)\<rparr>),
       fs_mem := overlay buf left (\<lambda>i. file_byte s p (pos + i)) (fs_mem s)\<rparr>) s'"
proof (induction fuel arbitrary: s pos buf left)
  case 0
  have "(file_table s)(filp := (file_table s filp)\<lparr>f_pos := int pos\<rparr>) = file_table s" using 0(2) by (auto simp: fun_eq_iff)
  then show ?case using 0 same_blocks_refl [of D s] by simp
next
  case (Suc fuel)
  show ?case
  proof (cases "left = 0")
    case True
    have "(file_table s)(filp := (file_table s filp)\<lparr>f_pos := int pos\<rparr>) = file_table s" using Suc(3) by (auto simp: fun_eq_iff)
    then show ?thesis using True Suc.prems same_blocks_refl [of D s] by simp
  next
    case False
    define n where "n = min (1024 - pos mod 1024) left"
    have n: "n \<le> left" "0 < n" using False by (auto simp: n_def)
    let ?M = "overlay buf n (\<lambda>i. file_byte s p (pos + i)) (fs_mem s)"
    let ?ft = "\<lambda>q. (file_table s)(filp := (file_table s filp)\<lparr>f_pos := int q\<rparr>)"
    obtain s1 where s1: "file_read_loop (Suc fuel) p filp buf left s [] = file_read_loop fuel p filp (buf + of_nat n) (left - n) s1 []"
      "same_blocks D (s\<lparr>file_table := ?ft (pos + n), fs_mem := ?M\<rparr>) s1"
      using file_read_step [OF Suc.prems(1,2) range_ok_first [OF Suc.prems(3)], of left fuel buf] False Suc.prems(5) unfolding n_def by auto
    note t = same_blocksD [OF s1(2)]
    have v: "blockview s1 d k = blockview s d k" if "d \<in> D" "hd_block s d k" for d k using t(8) that by simp
    have pos1: "f_pos (file_table s1 filp) = int (pos + n)" using t(2) by simp
    have it: "inode_table s1 p = inode_table s p" "hd_block s1 = hd_block s" using t(1,6) by simp_all
    have ok1: "range_ok D s1 p (pos + n) (left - n)" by (rule range_ok_rest [OF Suc.prems(3) n(1) v it])
    have le: "left - n \<le> fuel" "pos + n + (left - n) < 2 ^ 31" using n Suc.prems(4,5) by auto
    obtain s' where s': "file_read_loop fuel p filp (buf + of_nat n) (left - n) s1 [] = Ok 0 s' []"
      "same_blocks D (s1\<lparr>file_table := (file_table s1)(filp := (file_table s1 filp)\<lparr>f_pos := int (pos + n + (left - n))\<rparr>),
         fs_mem := overlay (buf + of_nat n) (left - n) (\<lambda>i. file_byte s1 p (pos + n + i)) (fs_mem s1)\<rparr>) s'"
      using Suc.IH [OF t(7) pos1 ok1 le] by blast
    have ft: "(file_table s1)(filp := (file_table s1 filp)\<lparr>f_pos := int (pos + n + (left - n))\<rparr>) = ?ft (pos + left)"
      using t(2) n by simp
    have "overlay (buf + of_nat n) (left - n) (\<lambda>i. file_byte s1 p (pos + n + i)) (fs_mem s1) =
        overlay (buf + of_nat n) (left - n) (\<lambda>i. file_byte s p (pos + (n + i))) ?M"
    proof -
      have "file_byte s1 p (pos + n + i) = file_byte s p (pos + (n + i))" if "i < left - n" for i
        using file_byte_cong [OF range_okD [OF Suc.prems(3)] v it(1), of "n + i"] that by (simp add: add.assoc)
      moreover have "fs_mem s1 = ?M" using t(3) by simp
      ultimately show ?thesis by (simp only:) (rule overlay_cong)
    qed
    also have "\<dots> = overlay buf left (\<lambda>i. file_byte s p (pos + i)) (fs_mem s)"
      using overlay_append [of n "left - n" buf "\<lambda>i. file_byte s p (pos + i)"] n Suc.prems(5) by simp
    finally have M: "overlay (buf + of_nat n) (left - n) (\<lambda>i. file_byte s1 p (pos + n + i)) (fs_mem s1) =
        overlay buf left (\<lambda>i. file_byte s p (pos + i)) (fs_mem s)" .
    have "same_blocks D (s\<lparr>file_table := ?ft (pos + left), fs_mem := overlay buf left (\<lambda>i. file_byte s p (pos + i)) (fs_mem s)\<rparr>)
        (s1\<lparr>file_table := ?ft (pos + left), fs_mem := overlay buf left (\<lambda>i. file_byte s p (pos + i)) (fs_mem s)\<rparr>)"
      by (rule same_blocks_tables [OF s1(2)])
    then have sb: "same_blocks D (s\<lparr>file_table := ?ft (pos + left), fs_mem := overlay buf left (\<lambda>i. file_byte s p (pos + i)) (fs_mem s)\<rparr>) s'"
      by (rule same_blocks_trans [OF _ s'(2) [unfolded ft M]])
    have "file_read_loop (Suc fuel) p filp buf left s [] = Ok 0 s' []" using s1(1) s'(1) by (simp only:)
    then show ?thesis using sb by blast
  qed
qed

text \<open>
  C12: reading a regular file gives the user exactly the bytes of the file from the file position on, through direct, indirect and double indirect blocks and
  with zeros for holes; the position advances by the number of bytes read, and no other byte of user memory and no byte of the file changes.
\<close>

theorem file_read_bytes:
  assumes "calm D s" "f_pos (file_table s filp) = int pos" "range_ok D s p pos n" "0 < n" "pos + n < 2 ^ 31"
  shows "\<exists>s'. file_read p filp buf (int n) s [] = Ok (int n) s' [] \<and> calm D s' \<and> f_pos (file_table s' filp) = int (pos + n) \<and>
    fs_mem s' = overlay buf n (\<lambda>i. file_byte s p (pos + i)) (fs_mem s) \<and>
    (\<forall>k. block_ok D s p (k div 1024) \<longrightarrow> file_byte s' p k = file_byte s p k)"
proof -
  obtain s1 where s1: "file_read_loop n p filp buf n s [] = Ok 0 s1 []"
    "same_blocks D (s\<lparr>file_table := (file_table s)(filp := (file_table s filp)\<lparr>f_pos := int (pos + n)\<rparr>),
       fs_mem := overlay buf n (\<lambda>i. file_byte s p (pos + i)) (fs_mem s)\<rparr>) s1"
    using file_read_loop_run [OF assms(1-3) order_refl assms(5)] by blast
  note t = same_blocksD [OF s1(2)]
  let ?s = "s1\<lparr>inode_table := (inode_table s1)(p := (inode_table s1 p)\<lparr>i_atime := now s1\<rparr>)\<rparr>"
  have run: "file_read p filp buf (int n) s [] = Ok (int n) ?s []"
    using s1(1) assms(4) by (simp add: file_read_def modify_inode_def upd_inode_def)
  have "file_byte ?s p k = file_byte s1 p k" for k by (rule file_byte_fields) simp_all
  moreover have "file_byte s1 p k = file_byte s p k" if "block_ok D s p (k div 1024)" for k
    using file_byte_cong [OF that, of s1] t(1,8) by simp
  ultimately show ?thesis using run t by (intro exI [of _ ?s]) simp
qed

end
