(* ===== verification/File_Write.thy ===== *)
theory File_Write
  imports File_Props
begin

text \<open>
  Writing into the existing blocks of a regular file, \<^verbatim>\<open>file_write\<close> of \<^verbatim>\<open>src/fs/file_dev.c\<close>, and that what was written is read back.
\<close>

section \<open>Well-formed files\<close>

abbreviation zone :: "'z fs_scheme \<Rightarrow> nat \<Rightarrow> nat \<Rightarrow> u16" where
  "zone s p b \<equiv> zone_of (blockview s) (inode_table s p) b"

abbreviation index :: "'z fs_scheme \<Rightarrow> nat \<Rightarrow> nat \<Rightarrow> u16 list" where
  "index s p b \<equiv> index_blocks (blockview s) (inode_table s p) b"

text \<open>All blocks of the file are on the device, no two are the same, and none is an index block of the file.\<close>

definition file_wf :: "u16 set \<Rightarrow> 'z fs_scheme \<Rightarrow> nat \<Rightarrow> bool" where
  "file_wf D s p \<longleftrightarrow> (\<forall>b<MAX_BLOCKS. block_ok D s p b) \<and>
     (\<forall>b<MAX_BLOCKS. zone s p b \<noteq> 0 \<longrightarrow> (\<forall>b'<MAX_BLOCKS. (zone s p b' = zone s p b \<longrightarrow> b' = b) \<and> zone s p b \<notin> set (index s p b')))"

definition data_blocks :: "'z fs_scheme \<Rightarrow> nat \<Rightarrow> (u16 \<times> u16) set" where
  "data_blocks s p = {(i_dev (inode_table s p), zone s p b) | b. b < MAX_BLOCKS \<and> zone s p b \<noteq> 0}"

text \<open>
  From \<open>s\<close> to \<open>s'\<close> the \<open>n\<close> bytes of the file from \<open>pos\<close> on became those of \<open>f\<close>; the file has the same blocks, its other bytes and all blocks that are not
  data of the file are as before; of the inodes only attributes of this one changed, and its size covers the bytes written.
\<close>

definition wrote :: "u16 set \<Rightarrow> nat \<Rightarrow> nat \<Rightarrow> nat \<Rightarrow> (nat \<Rightarrow> u8) \<Rightarrow> 'z fs_scheme \<Rightarrow> 'z fs_scheme \<Rightarrow> bool" where
  "wrote D p pos n f s s' \<longleftrightarrow> calm D s' \<and> same_users (s\<lparr>inode_table := inode_table s'\<rparr>) s' \<and>
     (\<forall>q. q \<noteq> p \<longrightarrow> inode_table s' q = inode_table s q) \<and>
     i_zone (inode_table s' p) = i_zone (inode_table s p) \<and> i_dev (inode_table s' p) = i_dev (inode_table s p) \<and>
     unat (i_size (inode_table s' p)) = (if n = 0 then unat (i_size (inode_table s p)) else max (unat (i_size (inode_table s p))) (pos + n)) \<and>
     file_wf D s' p \<and> (\<forall>b<MAX_BLOCKS. zone s' p b = zone s p b) \<and>
     (\<forall>k. k div 1024 < MAX_BLOCKS \<longrightarrow> file_byte s' p k = (if pos \<le> k \<and> k < pos + n then f (k - pos) else file_byte s p k)) \<and>
     (\<forall>d k. d \<in> D \<longrightarrow> hd_block s d k \<longrightarrow> (d, k) \<notin> data_blocks s p \<longrightarrow> blockview s' d k = blockview s d k)"

lemma wroteD:
  assumes "wrote D p pos n f s s'"
  shows "calm D s'" "fs_mem s' = fs_mem s" "file_table s' = file_table s" "now s' = now s" "file_wf D s' p" "hd_block s' = hd_block s"
    "\<And>b. b < MAX_BLOCKS \<Longrightarrow> zone s' p b = zone s p b" "data_blocks s' p = data_blocks s p"
proof -
  have u: "same_users (s\<lparr>inode_table := inode_table s'\<rparr>) s'" using assms by (simp add: wrote_def)
  then have f: "cache_frame (s\<lparr>inode_table := inode_table s'\<rparr>) s'" by (simp add: same_users_def)
  show "fs_mem s' = fs_mem s" "file_table s' = file_table s" "now s' = now s"
    using cache_frame_fs [OF f] by (simp_all add: now_def CURRENT_TIME_def)
  show "hd_block s' = hd_block s" using same_users_block [OF u] by (simp add: fun_eq_iff)
  show "calm D s'" "file_wf D s' p" "\<And>b. b < MAX_BLOCKS \<Longrightarrow> zone s' p b = zone s p b" using assms by (auto simp: wrote_def)
  then show "data_blocks s' p = data_blocks s p" using assms by (auto simp: data_blocks_def wrote_def) metis
qed

lemma same_users_upd_inode:
  fixes s :: "'z fs_scheme"
  assumes "same_users s t"
  shows "same_users (s\<lparr>inode_table := it\<rparr>) (t\<lparr>inode_table := it\<rparr>)"
proof -
  have "cache_frame (s\<lparr>inode_table := it\<rparr>) (t\<lparr>inode_table := it\<rparr>)"
    using assms unfolding same_users_def cache_frame_def by (cases s; cases t; simp)
  then show ?thesis using assms by (simp add: same_users_def)
qed

lemma same_users_inode:
  assumes "same_users (s\<lparr>inode_table := it\<rparr>) s1" "same_users (s1\<lparr>inode_table := inode_table s2\<rparr>) s2"
  shows "same_users (s\<lparr>inode_table := inode_table s2\<rparr>) s2"
proof -
  have a: "cache_frame (s\<lparr>inode_table := it\<rparr>) s1" "cache_frame (s1\<lparr>inode_table := inode_table s2\<rparr>) s2"
    using assms by (simp_all add: same_users_def)
  have "cache_frame (s\<lparr>inode_table := inode_table s2\<rparr>) (s1\<lparr>inode_table := inode_table s2\<rparr>)"
    using a(1) unfolding cache_frame_def by (cases s; cases s1; simp)
  from cache_frame_trans [OF this a(2)] show ?thesis using assms by (simp add: same_users_def)
qed

lemma wrote_append:
  assumes a: "wrote D p pos n f s s1" and b: "wrote D p (pos + n) k g s1 s2"
  shows "wrote D p pos (n + k) (\<lambda>i. if i < n then f i else g (i - n)) s s2"
proof -
  note t = wroteD [OF a]
  have u: "same_users (s\<lparr>inode_table := inode_table s2\<rparr>) s2"
    by (rule same_users_inode [of "inode_table s1" s s1 s2]) (use a b in \<open>simp_all add: wrote_def\<close>)
  have "file_byte s2 p j = (if pos \<le> j \<and> j < pos + (n + k) then (if j - pos < n then f (j - pos) else g (j - pos - n)) else file_byte s p j)"
    if "j div 1024 < MAX_BLOCKS" for j
    using a b that by (auto simp: wrote_def)
  moreover have "blockview s2 d j = blockview s d j" if "d \<in> D" "hd_block s d j" "(d, j) \<notin> data_blocks s p" for d j
    using a b that t(6,8) by (auto simp: wrote_def)
  moreover have "unat (i_size (inode_table s2 p)) =
      (if n + k = 0 then unat (i_size (inode_table s p)) else max (unat (i_size (inode_table s p))) (pos + (n + k)))"
    using a b by (auto simp: wrote_def)
  ultimately show ?thesis using a b u t by (auto simp: wrote_def)
qed

section \<open>One block\<close>

lemma zone_of_index_cong:
  assumes "\<And>z. z \<in> set (index_blocks V m b) \<Longrightarrow> V' (i_dev m) z = V (i_dev m) z"
  shows "zone_of V' m b = zone_of V m b \<and> index_blocks V' m b = index_blocks V m b"
  using assms by (auto simp: zone_of_def index_blocks_def Let_def)

lemma index_fields: "i_zone m' = i_zone m \<Longrightarrow> i_dev m' = i_dev m \<Longrightarrow> index_blocks V m' b = index_blocks V m b"
  by (simp add: index_blocks_def)

lemma wrote_block:
  assumes wf: "file_wf D s p" and b: "b < MAX_BLOCKS" "zone s p b \<noteq> 0" and off: "off + n \<le> 1024"
    and s': "calm D s'" "same_users (s\<lparr>inode_table := inode_table s'\<rparr>) s'" "\<And>q. q \<noteq> p \<Longrightarrow> inode_table s' q = inode_table s q"
      "i_zone (inode_table s' p) = i_zone (inode_table s p)" "i_dev (inode_table s' p) = i_dev (inode_table s p)"
      "unat (i_size (inode_table s' p)) = (if n = 0 then unat (i_size (inode_table s p)) else max (unat (i_size (inode_table s p))) (1024 * b + off + n))"
    and v: "\<And>d k i. d \<in> D \<Longrightarrow> hd_block s d k \<Longrightarrow> i < 1024 \<Longrightarrow> blockview s' d k i =
      (if (d, k) = (i_dev (inode_table s p), zone s p b) \<and> off \<le> i \<and> i < off + n then f (i - off) else blockview s d k i)"
  shows "wrote D p (1024 * b + off) n f s s'"
proof -
  let ?d = "i_dev (inode_table s p)"
  have d: "?d \<in> D" using wf b by (auto simp: file_wf_def block_ok_def)
  have ok: "block_ok D s p b'" if "b' < MAX_BLOCKS" for b' using wf that by (simp add: file_wf_def)
  have same: "blockview s' e k = blockview s e k" if "e \<in> D" "hd_block s e k" "(e, k) \<noteq> (?d, zone s p b)" for e k
  proof (rule ext)
    fix i
    show "blockview s' e k i = blockview s e k i"
      using v [OF that(1,2)] that(3) by (cases "i < 1024") (auto simp: blockview_beyond)
  qed
  have hd: "hd_block s' = hd_block s" using same_users_block [OF s'(2)] by (simp add: fun_eq_iff)
  have zi: "zone s' p b' = zone s p b' \<and> index s' p b' = index s p b'" if b': "b' < MAX_BLOCKS" for b'
  proof -
    have "blockview s' ?d z = blockview s ?d z" if "z \<in> set (index s p b')" for z
    proof -
      have "z \<noteq> zone s p b" using wf b b' that by (auto simp: file_wf_def)
      moreover have "hd_block s ?d z" using ok [OF b'] that by (simp add: block_ok_def)
      ultimately show ?thesis using same d by simp
    qed
    then show ?thesis
      using zone_of_index_cong [of "blockview s" "inode_table s p" b' "blockview s'"] s'(4,5)
        zone_of_fields [of "inode_table s' p" "inode_table s p"] index_fields [of "inode_table s' p" "inode_table s p"] by metis
  qed
  have wf': "file_wf D s' p"
    using wf zi hd s'(5) by (auto simp: file_wf_def block_ok_def)
  have byte: "file_byte s' p k = (if 1024 * b + off \<le> k \<and> k < 1024 * b + off + n then f (k - (1024 * b + off)) else file_byte s p k)"
    if k: "k div 1024 < MAX_BLOCKS" for k
  proof (cases "k div 1024 = b")
    case True
    have k2: "k = 1024 * b + k mod 1024" using True by (metis mult_div_mod_eq)
    have hb: "hd_block s ?d (zone s p b)" using ok [OF b(1)] b(2) by (simp add: block_ok_def)
    have "file_byte s' p k = blockview s' ?d (zone s p b) (k mod 1024)"
      using zi [OF b(1)] True b(2) s'(5) by (simp add: file_byte_def Let_def)
    also have "\<dots> = (if off \<le> k mod 1024 \<and> k mod 1024 < off + n then f (k mod 1024 - off) else blockview s ?d (zone s p b) (k mod 1024))"
      using v [OF d hb] by simp
    also have "blockview s ?d (zone s p b) (k mod 1024) = file_byte s p k" using True b(2) by (simp add: file_byte_def Let_def)
    moreover have "off \<le> k mod 1024 \<longleftrightarrow> 1024 * b + off \<le> k" "k mod 1024 < off + n \<longleftrightarrow> k < 1024 * b + off + n"
      "k mod 1024 - off = k - (1024 * b + off)" using k2 by linarith+
    ultimately show ?thesis by simp
  next
    case False
    have out: "\<not> (1024 * b + off \<le> k \<and> k < 1024 * b + off + n)"
    proof
      assume "1024 * b + off \<le> k \<and> k < 1024 * b + off + n"
      then have "1024 * b \<le> k" "k < 1024 * b + 1024" using off by linarith+
      then show False using False by (metis div_nat_eqI mult.commute mult_Suc_right add.commute)
    qed
    have "blockview s' ?d (zone s p (k div 1024)) = blockview s ?d (zone s p (k div 1024))" if nz: "zone s p (k div 1024) \<noteq> 0"
    proof -
      have "zone s p (k div 1024) \<noteq> zone s p b" using wf b k False nz by (auto simp: file_wf_def)
      moreover have "hd_block s ?d (zone s p (k div 1024))" using ok [OF k] nz by (simp add: block_ok_def)
      ultimately show ?thesis using same d by simp
    qed
    then have "file_byte s' p k = file_byte s p k" using zi [OF k] s'(5) by (auto simp: file_byte_def Let_def)
    then show ?thesis using out by (simp only: if_False)
  qed
  have "(?d, zone s p b) \<in> data_blocks s p" using b by (auto simp: data_blocks_def)
  then have "blockview s' e k = blockview s e k" if "e \<in> D" "hd_block s e k" "(e, k) \<notin> data_blocks s p" for e k
    using same that by metis
  then show ?thesis using s' wf' zi byte by (simp add: wrote_def)
qed

section \<open>The loop\<close>

lemma from_user_mem: "fs_mem t = fs_mem s \<Longrightarrow> from_user off n buf t = from_user off n buf s"
  by (simp add: from_user_def get_fs_byte_def fun_eq_iff)

text \<open>The three assignments of a round together.\<close>

lemma write_state:
  fixes s :: "'z fs_scheme" and p bh :: nat and g :: "m_inode \<Rightarrow> m_inode"
  defines "t \<equiv> upd_inode p g (upd_buf bh (\<lambda>h. h\<lparr>b_dirt := 1\<rparr>) s)"
  shows "upd_buf bh (\<lambda>h. h\<lparr>b_data := from_user off n buf t (b_data h)\<rparr>) t =
    (put_data bh (from_user off n buf s (b_data (bufs s bh))) s)\<lparr>inode_table := (inode_table s)(p := g (inode_table s p))\<rparr>"
proof -
  have m: "fs_mem t = fs_mem s" by (simp add: t_def upd_inode_def upd_buf_def)
  have h: "h\<lparr>b_dirt := 1, b_data := v\<rparr> = h\<lparr>b_data := v, b_dirt := 1\<rparr>" for h :: buffer_head and v by (cases h) simp
  show ?thesis
    unfolding from_user_mem [OF m] by (cases s) (simp add: t_def upd_inode_def upd_buf_def put_data_def h)
qed

text \<open>One round of \<^verbatim>\<open>file_write\<close> on a block that exists.\<close>

lemma file_write_step:
  assumes c: "calm D s" and wf: "file_wf D s p" and b: "pos div 1024 < MAX_BLOCKS" "zone s p (pos div 1024) \<noteq> 0"
    and left: "0 < left" and bound: "pos + left < 2 ^ 31"
  defines "n \<equiv> min (1024 - pos mod 1024) left"
  shows "\<exists>s'. file_write_loop (Suc fuel) p (int pos) buf left s [] = file_write_loop fuel p (int (pos + n)) (buf + of_nat n) (left - n) s' [] \<and>
    wrote D p pos n (\<lambda>i. fs_mem s (buf + of_nat i)) s s'"
proof -
  let ?z = "zone s p (pos div 1024)" and ?d = "i_dev (inode_table s p)"
  have n: "n \<le> 1024" "n \<le> left" "0 < n" "pos mod 1024 + n \<le> 1024" using left by (auto simp: n_def)
  have cd: "c_div (int pos) 1024 = int (pos div 1024)" "c_mod (int pos) 1024 = int (pos mod 1024)" by (simp_all add: zdiv_int zmod_int)
  have w: "wrap32 (int pos + int n) = int (pos + n)" using n bound by (simp add: in_range32_def)
  have ok: "block_ok D s p (pos div 1024)" using wf b by (simp add: file_wf_def)
  obtain s1 where s1: "create_block p (int (pos div 1024)) s [] = Ok (ucast ?z) s1 []" "same_blocks D s s1"
    using bmap_create_run [OF c ok, of True] b(2) by (auto simp: create_block_def)
  note t1 = same_blocksD [OF s1(2)]
  have nz: "(ucast ?z :: u32) \<noteq> 0" using ucast_up_inj [of ?z 0] b(2) by simp
  have h: "hd_block s1 ?d ?z" "?d \<in> D" using ok t1 b(2) by (auto simp: block_ok_def)
  obtain bh s2 where s2: "bread (ucast ?d) (ucast ?z) s1 [] = Ok bh s2 []" "bh \<noteq> 0" "cache D s2" "b_count (bufs s2 bh) \<noteq> 0" "holds s2 ?d ?z bh"
    "\<And>i. i < 1024 \<Longrightarrow> b_data (bufs s2 bh) i = blockview s1 ?d ?z i" "cache_frame s1 s2"
    by (rule bread_held [OF t1(7) h(2,1)]) blast
  note f2 = cache_frame_fs [OF s2(7)]
  define v where "v = from_user (pos mod 1024) n buf s2 (b_data (bufs s2 bh))"
  note wr = bread_written [OF t1(7) h(2,1) s2(1-5), where v = v]
  define g where "g = (\<lambda>m :: m_inode. if i_size m < of_nat (pos + n) then m\<lparr>i_size := of_nat (pos + n), i_dirt := 1\<rparr> else m)"
  have gw: "(\<lambda>m. if i_size m < of_nat (pos + n) then m\<lparr>i_size := word_of_int (wrap32 (int pos + int n)), i_dirt := 1\<rparr> else m) = g"
    by (rule ext) (simp add: g_def w del: of_nat_add)
  define it where "it = (inode_table s)(p := g (inode_table s p))"
  let ?s3 = "(put_data bh v s2)\<lparr>inode_table := it\<rparr>"
  let ?s4 = "(released bh (put_data bh v s2))\<lparr>inode_table := it\<rparr>"
  have r: "brelse bh ?s3 [] = Ok () ?s4 []"
  proof -
    have "brelse bh ?s3 [] = Ok () (released bh ?s3) []"
      by (rule brelse_run(1) [where D = D]) (use s2 wr(1) in \<open>simp_all add: put_data_def upd_buf_def\<close>)
    then show ?thesis by (simp add: upd_buf_def)
  qed
  have it: "(inode_table s2)(p := g (inode_table s2 p)) = it" using f2(1) t1(1) by (simp add: it_def)
  note st = write_state [of bh "pos mod 1024" n buf p g s2, unfolded it v_def [symmetric]]
  have run: "file_write_loop (Suc fuel) p (int pos) buf left s [] = file_write_loop fuel p (int (pos + n)) (buf + of_nat n) (left - n) ?s4 []"
    using left s1(1) s2(1,2) nz t1(1) r st
    by (simp add: cd n_def [symmetric] w i_dev_of_def dirty_buf_def modify_inode_def Let_def gw del: of_nat_add)
  have gz: "i_zone (g m) = i_zone m" "i_dev (g m) = i_dev m" for m by (simp_all add: g_def)
  have "wrote D p (1024 * (pos div 1024) + pos mod 1024) n (\<lambda>i. fs_mem s (buf + of_nat i)) s ?s4"
  proof (rule wrote_block [OF wf b n(4)])
    have u1: "same_users s s1" using s1(2) by (simp add: same_blocks_def)
    have "same_users s (released bh (put_data bh v s2))"
      using u1 wr(3) cache_frame_trans by (auto simp: same_users_def)
    from same_users_upd_inode [OF this, of it] show "same_users (s\<lparr>inode_table := inode_table ?s4\<rparr>) ?s4" by simp
    show "calm D ?s4" using wr(2) by simp
    show "\<And>q. q \<noteq> p \<Longrightarrow> inode_table ?s4 q = inode_table s q" "i_zone (inode_table ?s4 p) = i_zone (inode_table s p)"
      "i_dev (inode_table ?s4 p) = i_dev (inode_table s p)" by (simp_all add: it_def gz)
    have "unat (of_nat (pos + n) :: u32) = pos + n"
      using bound n by (simp add: unsigned_of_nat take_bit_nat_eq_self del: of_nat_add)
    then show "unat (i_size (inode_table ?s4 p)) = (if n = 0 then unat (i_size (inode_table s p))
        else max (unat (i_size (inode_table s p))) (1024 * (pos div 1024) + pos mod 1024 + n))"
      using n by (auto simp: it_def g_def word_less_nat_alt simp del: of_nat_add)
    fix d k i
    assume dk: "d \<in> D" "hd_block s d k" "i < (1024 :: nat)"
    have "blockview ?s4 d k i = (if (d, k) = (?d, ?z) then v i else blockview s1 d k i)" using wr(4) [of d k i] dk t1(6) by simp
    moreover have "v i = (if pos mod 1024 \<le> i \<and> i < pos mod 1024 + n then fs_mem s (buf + of_nat (i - pos mod 1024)) else blockview s1 ?d ?z i)"
      using s2(6) dk(3) f2(3) t1(3) by (simp add: v_def from_user_def get_fs_byte_def)
    ultimately show "blockview ?s4 d k i =
        (if (d, k) = (?d, ?z) \<and> pos mod 1024 \<le> i \<and> i < pos mod 1024 + n then fs_mem s (buf + of_nat (i - pos mod 1024)) else blockview s d k i)"
      using t1(8) [OF dk(1,2)] by auto
  qed
  then show ?thesis using run by auto
qed

text \<open>The blocks of the \<open>n\<close> bytes from \<open>pos\<close> on exist.\<close>

definition allocated :: "'z fs_scheme \<Rightarrow> nat \<Rightarrow> nat \<Rightarrow> nat \<Rightarrow> bool" where
  "allocated s p pos n \<longleftrightarrow> (\<forall>i<n. (pos + i) div 1024 < MAX_BLOCKS \<and> zone s p ((pos + i) div 1024) \<noteq> 0)"

lemma wrote_cong: "wrote D p pos n f s s' \<Longrightarrow> (\<And>i. i < n \<Longrightarrow> f i = g i) \<Longrightarrow> wrote D p pos n g s s'"
  unfolding wrote_def by (smt (verit) add_diff_cancel_left' le_add_diff_inverse less_diff_conv2 nat_add_left_cancel_less)

lemma wrote_refl: "calm D s \<Longrightarrow> file_wf D s p \<Longrightarrow> wrote D p pos 0 f s s"
  by (auto simp: wrote_def same_users_def)

lemma file_write_loop_run:
  "calm D s \<Longrightarrow> file_wf D s p \<Longrightarrow> allocated s p pos left \<Longrightarrow> left \<le> fuel \<Longrightarrow> pos + left < 2 ^ 31 \<Longrightarrow>
   \<exists>s'. file_write_loop fuel p (int pos) buf left s [] = Ok (int (pos + left), 0) s' [] \<and> wrote D p pos left (\<lambda>i. fs_mem s (buf + of_nat i)) s s'"
proof (induction fuel arbitrary: s pos buf left)
  case 0
  then show ?case using wrote_refl [of D s p] by simp
next
  case (Suc fuel)
  show ?case
  proof (cases "left = 0")
    case True
    then show ?thesis using Suc.prems wrote_refl [of D s p] by simp
  next
    case False
    define n where "n = min (1024 - pos mod 1024) left"
    have n: "n \<le> left" "0 < n" using False by (auto simp: n_def)
    have b: "pos div 1024 < MAX_BLOCKS" "zone s p (pos div 1024) \<noteq> 0"
      using Suc.prems(3) False by (auto simp: allocated_def dest: spec [of _ 0])
    obtain s1 where s1: "file_write_loop (Suc fuel) p (int pos) buf left s [] = file_write_loop fuel p (int (pos + n)) (buf + of_nat n) (left - n) s1 []"
      "wrote D p pos n (\<lambda>i. fs_mem s (buf + of_nat i)) s s1"
      using file_write_step [OF Suc.prems(1,2) b, of left fuel buf] False Suc.prems(5) unfolding n_def by blast
    note t = wroteD [OF s1(2)]
    have al: "allocated s1 p (pos + n) (left - n)"
      unfolding allocated_def
    proof (intro allI impI)
      fix i assume "i < left - n"
      then have "(pos + (n + i)) div 1024 < MAX_BLOCKS \<and> zone s p ((pos + (n + i)) div 1024) \<noteq> 0"
        using Suc.prems(3) unfolding allocated_def by simp
      then show "(pos + n + i) div 1024 < MAX_BLOCKS \<and> zone s1 p ((pos + n + i) div 1024) \<noteq> 0" using t(7) by (simp add: add.assoc)
    qed
    have le: "left - n \<le> fuel" "pos + n + (left - n) < 2 ^ 31" using n Suc.prems(4,5) by auto
    obtain s' where s': "file_write_loop fuel p (int (pos + n)) (buf + of_nat n) (left - n) s1 [] = Ok (int (pos + n + (left - n)), 0) s' []"
      "wrote D p (pos + n) (left - n) (\<lambda>i. fs_mem s1 (buf + of_nat n + of_nat i)) s1 s'"
      using Suc.IH [OF t(1,5) al le] by blast
    have "wrote D p pos (n + (left - n)) (\<lambda>i. fs_mem s (buf + of_nat i)) s s'"
      by (rule wrote_cong [OF wrote_append [OF s1(2) s'(2)]]) (simp add: t(2) of_nat_diff algebra_simps)
    then show ?thesis using s1(1) s'(1) n by auto
  qed
qed

section \<open>The call\<close>

text \<open>The time stamps and the position \<^verbatim>\<open>file_write\<close> sets at the end.\<close>

definition stamped :: "nat \<Rightarrow> nat \<Rightarrow> int \<Rightarrow> 'z fs_scheme \<Rightarrow> 'z fs_scheme" where
  "stamped p filp pos s = upd_inode p (\<lambda>m. m\<lparr>i_ctime := now s\<rparr>)
     (upd_file filp (\<lambda>f. f\<lparr>f_pos := pos\<rparr>) (upd_inode p (\<lambda>m. m\<lparr>i_mtime := now s\<rparr>) s))"

lemma stamped_simps [simp]:
  "blockview (stamped p filp pos s) = blockview s" "hd_block (stamped p filp pos s) = hd_block s" "calm D (stamped p filp pos s) = calm D s"
  "fs_mem (stamped p filp pos s) = fs_mem s" "file_table (stamped p filp pos s) = (file_table s)(filp := (file_table s filp)\<lparr>f_pos := pos\<rparr>)"
  "i_zone (inode_table (stamped p filp pos s) q) = i_zone (inode_table s q)" "i_dev (inode_table (stamped p filp pos s) q) = i_dev (inode_table s q)"
  "i_size (inode_table (stamped p filp pos s) q) = i_size (inode_table s q)"
  by (simp_all add: stamped_def upd_inode_def upd_file_def)

lemma stamped_blocks [simp]:
  "zone_of V (inode_table (stamped p filp pos s) q) b = zone_of V (inode_table s q) b"
  "index_blocks V (inode_table (stamped p filp pos s) q) b = index_blocks V (inode_table s q) b"
  by (rule zone_of_fields index_fields; simp)+

lemma stamped_file [simp]: "file_byte (stamped p filp pos s) q k = file_byte s q k" "block_ok D (stamped p filp pos s) q b = block_ok D s q b"
  by (rule file_byte_fields; simp) (simp add: block_ok_def)

lemma file_write_end:
  assumes run: "file_write_loop (nat count) p (f_pos (file_table s filp)) buf (nat count) s w = Ok (pos', left) s1 w'"
    and append: "ucast (f_flags (file_table s filp)) AND O_APPEND = 0" and same: "file_table s1 = file_table s"
  shows "file_write p filp buf count s w = Ok (if left < nat count then int (nat count - left) else - 1) (stamped p filp pos' s1) w'"
proof -
  let ?s2 = "upd_inode p (\<lambda>m. m\<lparr>i_mtime := now s1\<rparr>) s1"
  let ?s3 = "upd_file filp (\<lambda>f. f\<lparr>f_pos := pos'\<rparr>) ?s2"
  have "file_table ?s2 = file_table s" by (simp add: upd_inode_def same)
  then have f: "(ucast (f_flags (file_table ?s2 filp)) AND O_APPEND \<noteq> 0) = False" "(ucast (f_flags (file_table s filp)) AND O_APPEND \<noteq> 0) = False"
    using append by simp_all
  have t: "now ?s3 = now s1" by (simp add: now_def CURRENT_TIME_def upd_file_def upd_inode_def)
  show ?thesis
    by (simp only: file_write_def km_simps whenK_def modify_inode_def f run stamped_def t if_True if_False not_False_eq_True res.case prod.case)
qed

lemma file_write_run:
  assumes "calm D s" "file_wf D s p" "allocated s p pos n" "0 < n" "pos + n < 2 ^ 31" "f_pos (file_table s filp) = int pos"
    and append: "ucast (f_flags (file_table s filp)) AND O_APPEND = 0"
  obtains s1 where "file_write p filp buf (int n) s [] = Ok (int n) (stamped p filp (int (pos + n)) s1) []"
    "wrote D p pos n (\<lambda>i. fs_mem s (buf + of_nat i)) s s1"
proof -
  obtain s1 where s1: "file_write_loop n p (int pos) buf n s [] = Ok (int (pos + n), 0) s1 []"
    "wrote D p pos n (\<lambda>i. fs_mem s (buf + of_nat i)) s s1"
    using file_write_loop_run [OF assms(1-3) order_refl assms(5)] by blast
  have "file_write p filp buf (int n) s [] = Ok (if 0 < nat (int n) then int (nat (int n) - 0) else - 1) (stamped p filp (int (pos + n)) s1) []"
    by (rule file_write_end [OF _ append wroteD(3) [OF s1(2)]]) (simp add: s1(1) assms(6) del: of_nat_add)
  then show thesis using that s1(2) assms(4) by (simp del: of_nat_add)
qed

text \<open>
  C5: writing into the existing blocks of a regular file replaces exactly the bytes of the file from the file position on by those of the user's buffer; the
  position advances, the size grows to cover them, the file keeps its blocks, and no block that is not data of this file changes.
\<close>

theorem file_write_bytes:
  assumes "calm D s" "file_wf D s p" "allocated s p pos n" "0 < n" "pos + n < 2 ^ 31" "f_pos (file_table s filp) = int pos"
    "ucast (f_flags (file_table s filp)) AND O_APPEND = 0"
  shows "\<exists>s'. file_write p filp buf (int n) s [] = Ok (int n) s' [] \<and> calm D s' \<and> f_pos (file_table s' filp) = int (pos + n) \<and>
    fs_mem s' = fs_mem s \<and> unat (i_size (inode_table s' p)) = max (unat (i_size (inode_table s p))) (pos + n) \<and>
    (\<forall>b<MAX_BLOCKS. zone s' p b = zone s p b) \<and>
    (\<forall>k. k div 1024 < MAX_BLOCKS \<longrightarrow>
      file_byte s' p k = (if pos \<le> k \<and> k < pos + n then fs_mem s (buf + of_nat (k - pos)) else file_byte s p k)) \<and>
    (\<forall>d k. d \<in> D \<longrightarrow> hd_block s d k \<longrightarrow> (d, k) \<notin> data_blocks s p \<longrightarrow> blockview s' d k = blockview s d k)"
proof -
  obtain s1 where s1: "file_write p filp buf (int n) s [] = Ok (int n) (stamped p filp (int (pos + n)) s1) []"
    "wrote D p pos n (\<lambda>i. fs_mem s (buf + of_nat i)) s s1"
    by (rule file_write_run [OF assms])
  then show ?thesis
    using wroteD [OF s1(2)] assms(4) by (intro exI [of _ "stamped p filp (int (pos + n)) s1"]) (simp add: wrote_def)
qed

text \<open>
  C11: what is written to a file is read back: after \<^verbatim>\<open>file_write\<close>, a \<^verbatim>\<open>file_read\<close> from the position where the write began gives the bytes written,
  into any buffer.
\<close>

theorem file_write_read_back:
  assumes "calm D s" "file_wf D s p" "allocated s p pos n" "0 < n" "pos + n < 2 ^ 31" "f_pos (file_table s filp) = int pos"
    "ucast (f_flags (file_table s filp)) AND O_APPEND = 0"
  shows "\<exists>s'. bnd (file_write p filp buf (int n)) (\<lambda>_. seqK (modify (upd_file filp (\<lambda>f. f\<lparr>f_pos := int pos\<rparr>))) (file_read p filp buf' (int n))) s [] =
      Ok (int n) s' [] \<and> (\<forall>i<n. fs_mem s' (buf' + of_nat i) = fs_mem s (buf + of_nat i))"
proof -
  obtain s1 where s1: "file_write p filp buf (int n) s [] = Ok (int n) (stamped p filp (int (pos + n)) s1) []"
    "wrote D p pos n (\<lambda>i. fs_mem s (buf + of_nat i)) s s1"
    by (rule file_write_run [OF assms])
  note t = wroteD [OF s1(2)]
  let ?s2 = "upd_file filp (\<lambda>f. f\<lparr>f_pos := int pos\<rparr>) (stamped p filp (int (pos + n)) s1)"
  have c2: "calm D ?s2" using t(1) by (simp add: upd_file_def)
  have p2: "f_pos (file_table ?s2 filp) = int pos" by (simp add: upd_file_def)
  have b2: "block_ok D ?s2 p b" if "b < MAX_BLOCKS" for b
    using t(5) that by (simp add: file_wf_def upd_file_def block_ok_def)
  have r2: "range_ok D ?s2 p pos n" using b2 assms(3) by (simp add: range_ok_def allocated_def)
  obtain s3 where s3: "file_read_loop n p filp buf' n ?s2 [] = Ok 0 s3 []"
    "same_blocks D (?s2\<lparr>file_table := (file_table ?s2)(filp := (file_table ?s2 filp)\<lparr>f_pos := int (pos + n)\<rparr>),
       fs_mem := overlay buf' n (\<lambda>i. file_byte ?s2 p (pos + i)) (fs_mem ?s2)\<rparr>) s3"
    using file_read_loop_run [OF c2 p2 r2 order_refl assms(5)] by blast
  have m: "fs_mem s3 = overlay buf' n (\<lambda>i. file_byte ?s2 p (pos + i)) (fs_mem ?s2)" using same_blocksD(3) [OF s3(2)] by simp
  have fb: "file_byte ?s2 p k = file_byte s1 p k" for k
    using file_byte_fields [of ?s2 p "stamped p filp (int (pos + n)) s1"] by (simp add: upd_file_def)
  have "fs_mem s3 (buf' + of_nat i) = fs_mem s (buf + of_nat i)" if "i < n" for i
  proof -
    have "unat (of_nat i :: u32) = i" using that assms(5) by (simp add: unsigned_of_nat take_bit_nat_eq_self)
    then show ?thesis using that s1(2) assms(3) by (simp add: m overlay_def fb wrote_def allocated_def del: of_nat_add)
  qed
  then show ?thesis
    using s1(1) s3(1) assms(4) by (simp add: file_read_def modify_inode_def upd_inode_def)
qed

end
