(* ===== verification/File_Examples.thy ===== *)
theory File_Examples
  imports File_Write
begin

text \<open>
  A concrete file system: the cache of \<open>ex_cache\<close> and one open file whose first block is block 3 of the device.
\<close>

definition ex_inode :: m_inode where
  "ex_inode = zero_inode\<lparr>i_mode := 0x81FF, i_size := 100, i_dev := 0x301, i_num := 2, i_count := 1, i_nlinks := 1, i_zone := (\<lambda>_. 0)(0 := 3)\<rparr>"

definition ex_super :: super_block where
  "ex_super = \<lparr>s_ninodes = 0, s_nzones = 0, s_imap_blocks = 0, s_zmap_blocks = 0, s_firstdatazone = 0, s_log_zone_size = 0, s_max_size = 0, s_magic = 0,
     s_imap = (\<lambda>_. 0), s_zmap = (\<lambda>_. 0), s_dev = 0, s_isup = 0, s_imount = 0, s_time = 0, s_rd_only = 0, s_dirt = 0\<rparr>"

definition ex_fs :: fs where
  "ex_fs = cache.extend ex_cache
     (fs.fields ((\<lambda>_. zero_inode)(1 := ex_inode)) 1 (\<lambda>_. ex_super) (\<lambda>_. \<lparr>f_mode = 3, f_flags = 2, f_count = 1, f_inode = 1, f_pos = 10\<rparr>))"

lemma calm_extend: "calm D (cache.extend (c :: cache) m) = calm D c" and block_extend: "hd_block (cache.extend c m) d k = hd_block c d k"
  and view_extend: "blockview (cache.extend c m) = blockview c"
proof -
  show "calm D (cache.extend c m) = calm D c" by (cases c; simp add: cache_defs cache.defs)
  show "hd_block (cache.extend c m) d k = hd_block c d k" by (cases c; simp add: cache_defs cache.defs)
  show "blockview (cache.extend c m) = blockview c"
    by (cases c; simp add: fun_eq_iff blockview_def disk_block_def dev_lba_def cache.defs split: option.split)
qed

lemma ex_fs_calm: "calm {0x301} ex_fs"
  unfolding ex_fs_def calm_extend by (rule ex_cache_calm)

lemma ex_fs_block: "k < 7 \<Longrightarrow> hd_block ex_fs 0x301 k"
  unfolding ex_fs_def block_extend by (rule ex_cache_block)

lemma ex_fs_tables:
  "inode_table ex_fs = (\<lambda>_. zero_inode)(1 := ex_inode)" "file_table ex_fs f = \<lparr>f_mode = 3, f_flags = 2, f_count = 1, f_inode = 1, f_pos = 10\<rparr>"
  by (simp_all add: ex_fs_def cache.defs fs.defs)

lemma ex_zone: "zone_of V ex_inode b = (if b = 0 then 3 else 0)" "index_blocks V ex_inode b = []"
  by (simp_all add: zone_of_def index_blocks_def ex_inode_def zero_inode_def)

lemma ex_block_ok: "b < MAX_BLOCKS \<Longrightarrow> block_ok {0x301} ex_fs 1 b"
  using ex_fs_block [of 3] by (simp add: block_ok_def ex_fs_tables ex_zone) (simp add: ex_inode_def)

lemma ex_file_wf: "file_wf {0x301} ex_fs 1"
  unfolding file_wf_def using ex_block_ok by (auto simp: ex_fs_tables ex_zone)

lemma ex_allocated: "allocated ex_fs 1 10 20"
  by (simp add: allocated_def ex_fs_tables ex_zone MAX_BLOCKS_def)

lemma ex_range: "range_ok {0x301} ex_fs 1 10 20"
  unfolding range_ok_def by (intro allI impI ex_block_ok) (simp add: MAX_BLOCKS_def)

lemma ex_append: "(ucast (f_flags (file_table ex_fs 1)) :: u32) AND O_APPEND = 0"
  by (simp add: ex_fs_tables O_APPEND_def)

lemmas ex_file_facts = ex_fs_calm ex_file_wf ex_allocated ex_range ex_append

theorem bmap_finds_zone_witness:
  "calm {0x301} ex_fs \<and> block_ok {0x301} ex_fs 1 0 \<and> (\<exists>s'. bmap 1 (int 0) ex_fs [] = Ok 3 s' [])"
  using bmap_finds_zone [OF ex_fs_calm ex_block_ok, of 0] ex_fs_calm ex_block_ok [of 0]
  by (auto simp: MAX_BLOCKS_def ex_fs_tables ex_zone)

theorem file_read_bytes_witness:
  "calm {0x301} ex_fs \<and> range_ok {0x301} ex_fs 1 10 20 \<and>
   (\<exists>s'. file_read 1 1 0x100 (int 20) ex_fs [] = Ok (int 20) s' [] \<and> fs_mem s' = overlay 0x100 20 (\<lambda>i. file_byte ex_fs 1 (10 + i)) (fs_mem ex_fs))"
  using file_read_bytes [OF ex_fs_calm, of 1 10 1 20 "0x100"] ex_fs_calm ex_range by (force simp: ex_fs_tables)

theorem file_write_bytes_witness:
  "calm {0x301} ex_fs \<and> file_wf {0x301} ex_fs 1 \<and> allocated ex_fs 1 10 20 \<and>
   (\<exists>s'. file_write 1 1 0x100 (int 20) ex_fs [] = Ok (int 20) s' [] \<and> file_byte s' 1 12 = fs_mem ex_fs (0x100 + of_nat (12 - 10)))"
proof -
  obtain s' where s': "file_write 1 1 0x100 (int 20) ex_fs [] = Ok (int 20) s' []"
    "\<forall>k. k div 1024 < MAX_BLOCKS \<longrightarrow> file_byte s' 1 k = (if 10 \<le> k \<and> k < 10 + 20 then fs_mem ex_fs (0x100 + of_nat (k - 10)) else file_byte ex_fs 1 k)"
    using file_write_bytes [OF ex_fs_calm ex_file_wf ex_allocated _ _ _ ex_append, of "0x100"] by (auto simp: ex_fs_tables)
  moreover have "(12 :: nat) div 1024 < MAX_BLOCKS" by (simp add: MAX_BLOCKS_def)
  ultimately show ?thesis using ex_file_facts by (intro conjI exI [of _ s']) simp_all
qed

theorem file_write_read_back_witness:
  "calm {0x301} ex_fs \<and> file_wf {0x301} ex_fs 1 \<and> allocated ex_fs 1 10 20 \<and>
   (\<exists>s'. bnd (file_write 1 1 0x100 (int 20)) (\<lambda>_. seqK (modify (upd_file 1 (\<lambda>f. f\<lparr>f_pos := int 10\<rparr>))) (file_read 1 1 0x200 (int 20))) ex_fs [] =
      Ok (int 20) s' [] \<and> fs_mem s' (0x200 + of_nat 5) = fs_mem ex_fs (0x100 + of_nat 5))"
proof -
  obtain s' where "bnd (file_write 1 1 0x100 (int 20)) (\<lambda>_. seqK (modify (upd_file 1 (\<lambda>f. f\<lparr>f_pos := int 10\<rparr>))) (file_read 1 1 0x200 (int 20))) ex_fs [] =
      Ok (int 20) s' []" "\<forall>i<20. fs_mem s' (0x200 + of_nat i) = fs_mem ex_fs (0x100 + of_nat i)"
    using file_write_read_back [OF ex_fs_calm ex_file_wf ex_allocated _ _ _ ex_append, of "0x100" "0x200"] by (auto simp: ex_fs_tables)
  moreover from this(2) have "fs_mem s' (0x200 + of_nat 5) = fs_mem ex_fs (0x100 + of_nat 5)" by (elim allE [of _ 5]) simp
  ultimately show ?thesis using ex_file_facts by blast
qed

end
