(* ===== verification/Fork_Props.thy ===== *)
theory Fork_Props
  imports Exec Memory_Examples File_Examples
begin

text \<open>
  Fork: the memory manager and the process table together. \<^verbatim>\<open>copy_process\<close> of \<^verbatim>\<open>src/kernel/fork.c\<close> makes a complete
  child exactly when there is memory for it, and otherwise gives everything back it took; what a failed attempt leaves behind, write protection in a part of the parent's
  page tables and a reset coprocessor, is part of the contract \<open>fork_undone\<close> below.
\<close>

section \<open>The memory manager changes its own state only\<close>

definition mm_only :: "('z mm_scheme, 'a) km \<Rightarrow> bool" where
  "mm_only m \<longleftrightarrow> (\<forall>s e r s' e'. m s e = Ok r s' e' \<longrightarrow> (\<exists>M P. s' = s\<lparr>mem_map := M, phys := P\<rparr>))"

named_theorems mm_only_intros \<open>computations that change physical memory and the map of pages only\<close>

lemma mm_only_basic [mm_only_intros]:
  "mm_only (ret r)" "mm_only (Ok r)" "mm_only (gets f)" "mm_only (panic msg)" "mm_only (fault msg)" "mm_only (modify (set_phys a i w))"
  "mm_only (modify (\<lambda>s. s\<lparr>mem_map := g s\<rparr>))" "mm_only (runst get_free_page)"
proof -
  have id: "\<exists>M P. s = s\<lparr>mem_map := M, phys := P\<rparr>" for s :: "'z mm_scheme"
    by (rule exI [of _ "mem_map s"], rule exI [of _ "phys s"]) simp
  have m: "\<exists>M P. s\<lparr>mem_map := N\<rparr> = s\<lparr>mem_map := M, phys := P\<rparr>" for s :: "'z mm_scheme" and N
    by (rule exI [of _ N], rule exI [of _ "phys s"]) simp
  have p: "\<exists>M P. s\<lparr>phys := Q\<rparr> = s\<lparr>mem_map := M, phys := P\<rparr>" for s :: "'z mm_scheme" and Q
    by (rule exI [of _ "mem_map s"], rule exI [of _ Q]) simp
  show "mm_only (ret r)" "mm_only (Ok r)" "mm_only (gets f)" "mm_only (panic msg)" "mm_only (fault msg)" using id by (auto simp: mm_only_def)
  show "mm_only (modify (set_phys a i w))" "mm_only (modify (\<lambda>s. s\<lparr>mem_map := g s\<rparr>))"
    using m p by (auto simp: mm_only_def set_phys_def)
  have "\<exists>M P. snd (get_free_page s) = s\<lparr>mem_map := M, phys := P\<rparr>" for s :: "'z mm_scheme"
    using id [of s] by (auto simp: get_free_page_def Let_def split: option.split)
  then show "mm_only (runst get_free_page)" by (auto simp: mm_only_def)
qed

lemma mm_only_bnd [mm_only_intros]:
  assumes "mm_only m" "\<And>r. mm_only (f r)"
  shows "mm_only (bnd m f)"
  unfolding mm_only_def
proof (intro allI impI)
  fix s e r s' e' assume "bnd m f s e = Ok r s' e'"
  then obtain a s1 e1 where "m s e = Ok a s1 e1" "f a s1 e1 = Ok r s' e'" by (auto simp: bnd_Ok_iff)
  then obtain M1 P1 M P where "s1 = s\<lparr>mem_map := M1, phys := P1\<rparr>" "s' = s1\<lparr>mem_map := M, phys := P\<rparr>"
    using assms unfolding mm_only_def by metis
  then show "\<exists>M P. s' = s\<lparr>mem_map := M, phys := P\<rparr>" by auto
qed

lemma mm_only_seqK [mm_only_intros]: "mm_only m \<Longrightarrow> mm_only n \<Longrightarrow> mm_only (seqK m n)"
  unfolding seqK_def by (rule mm_only_bnd)

lemma mm_only_forK [mm_only_intros]: "(\<And>x. mm_only (f x)) \<Longrightarrow> mm_only (forK xs f)"
  by (induction xs) (auto intro: mm_only_intros)

lemma mm_only_when [mm_only_intros]: "mm_only m \<Longrightarrow> mm_only (whenK b m)"
  by (simp add: whenK_def mm_only_intros)

lemma mm_only_free_page [mm_only_intros]: "mm_only (free_page a)"
  unfolding free_page_def Let_def by (auto intro!: mm_only_intros)

lemma mm_only_free_page_tables [mm_only_intros]: "mm_only (free_page_tables from len)"
  unfolding free_page_tables_def Let_def free_dir_def free_pte_def by (auto intro!: mm_only_intros)

lemma mm_only_copy_dirs [mm_only_intros]: "mm_only (copy_dirs b f t n)"
  by (induction b f t n rule: copy_dirs.induct) (auto simp: copy_pte_def Let_def intro!: mm_only_intros)

lemma mm_only_copy_page_tables [mm_only_intros]: "mm_only (copy_page_tables from to len)"
  unfolding copy_page_tables_def by (auto intro!: mm_only_intros)

lemma mm_onlyD: "mm_only m \<Longrightarrow> m s e = Ok r s' e' \<Longrightarrow> s' = s\<lparr>mem_map := mem_map s', phys := phys s'\<rparr>"
  unfolding mm_only_def by (metis (no_types, lifting) mm.surjective mm.update_convs(1,2) mm.select_convs(1,2))

section \<open>The child's memory\<close>

text \<open>Task \<open>m\<close> has the 64 megabytes of linear space from here on, 16 entries of the page directory.\<close>

abbreviation task_base :: "nat \<Rightarrow> u32" where
  "task_base m \<equiv> of_nat m * 0x4000000"

lemma task_base:
  assumes "m < 64"
  shows "task_base m AND 0x3fffff = 0" "dir_index (task_base m) = 16 * m"
proof -
  have "m * 0x4000000 < 2 ^ 32" using assms by simp
  moreover have "task_base m = of_nat (m * 0x4000000)" by simp
  ultimately have u: "unat (task_base m) = m * 0x4000000" by (simp only: unsigned_of_nat) (simp add: take_bit_nat_eq_self)
  have "task_base m AND 0x3fffff = take_bit 22 (task_base m)" by (simp add: take_bit_eq_mask mask_eq_exp_minus_1)
  moreover have "unat (take_bit 22 (task_base m)) = 0" unfolding unsigned_take_bit_eq u by (simp add: take_bit_eq_mod)
  ultimately show "task_base m AND 0x3fffff = 0" by (simp add: word_unat_eq_iff)
  show "dir_index (task_base m) = 16 * m" unfolding dir_index_def unsigned_drop_bit_eq u by (simp add: drop_bit_eq_div take_bit_nat_eq_self assms)
qed

lemma limit_dirs: "l \<le> 0x4000000 \<Longrightarrow> unat (drop_bit 22 (l + 0x3fffff :: u32)) \<le> 16"
proof -
  assume "l \<le> 0x4000000"
  then have "unat l \<le> 0x4000000" by (simp add: word_le_nat_alt)
  then have "unat (l + 0x3fffff) \<le> 0x43fffff" by (simp add: unat_word_ariths)
  then have "unat (l + 0x3fffff) div 2 ^ 22 \<le> 0x43fffff div 2 ^ 22" by (rule div_le_mono)
  then show ?thesis unfolding unsigned_drop_bit_eq by (simp add: drop_bit_eq_div take_bit_nat_eq_self)
qed

text \<open>
  The current process \<open>m\<close> has one segment of at most 64 megabytes for code and data; slot \<open>nr\<close> has nothing mapped. The bound on the counts of pages says
  that none can wrap when a process becomes one more user of each of its pages.
\<close>

definition fork_ready :: "(nat \<Rightarrow> nat) \<Rightarrow> nat \<Rightarrow> nat \<Rightarrow> 'z sched_scheme \<Rightarrow> bool" where
  "fork_ready ext m nr s \<longleftrightarrow> mm_inv ext s \<and> 0 < m \<and> m < 64 \<and> 0 < nr \<and> nr < 64 \<and> m \<noteq> nr \<and>
     get_base (t_ldt (cur s) 1) = task_base m \<and> get_base (t_ldt (cur s) 2) = task_base m \<and>
     get_limit (t_ldt (cur s) 1) \<le> get_limit (t_ldt (cur s) 2) \<and> get_limit (t_ldt (cur s) 2) \<le> 0x4000000 \<and>
     (\<forall>j<16. \<not> present (phys s 0 (16 * nr + j))) \<and> (\<forall>i<PAGING_PAGES. unat (mem_map s i) + 16 * 1025 < 65536)"

abbreviation data_dirs :: "'z sched_scheme \<Rightarrow> nat" where
  "data_dirs s \<equiv> unat (drop_bit 22 (get_limit (t_ldt (cur s) 2) + 0x3fffff))"

definition rebased :: "nat \<Rightarrow> u32 \<Rightarrow> 'z sched_scheme \<Rightarrow> 'z sched_scheme" where
  "rebased nr p s =
     upd_task p (\<lambda>t. upd_ldt 2 (set_base (t_ldt t 2) (task_base nr)) (upd_ldt 1 (set_base (t_ldt t 1) (task_base nr)) t)) s"

lemma rebased_mm [simp]: "phys (rebased nr p s) = phys s" "mem_map (rebased nr p s) = mem_map s"
  by (simp_all add: rebased_def upd_task_def)

lemma mm_upd_trans: "s1 = t\<lparr>mem_map := a, phys := b\<rparr> \<Longrightarrow> s2 = s1\<lparr>mem_map := M, phys := P\<rparr> \<Longrightarrow> s2 = t\<lparr>mem_map := M, phys := P\<rparr>"
  by simp

text \<open>
  What a copy leaves in the source, whether it is kept or undone: the directory entry \<open>d\<close> is the same, and so are its page table entries, but for the write
  permission on shared pages.
\<close>

definition write_protected :: "'z mm_scheme \<Rightarrow> 'z mm_scheme \<Rightarrow> nat \<Rightarrow> bool" where
  "write_protected s s' d \<longleftrightarrow> phys s' 0 d = phys s 0 d \<and>
     (present (phys s 0 d) \<longrightarrow> (\<forall>e<1024. phys s' (tbl (phys s) d) e = ro (phys s (tbl (phys s) d) e)))"

lemma copied_write_protected: "copied s s' 1024 f t \<Longrightarrow> write_protected s s' f"
  by (auto simp: copied_def write_protected_def)

lemma write_protected_same:
  assumes "write_protected s s1 d" "same_space s1 s2 d" "2 \<le> d" "d < 1024"
  shows "write_protected s s2 d"
  using assms by (auto simp: write_protected_def same_space_def user_dir_def tbl_def)

lemma same_write_protected:
  assumes "same_space s s1 d" "write_protected s1 s2 d" "2 \<le> d" "d < 1024"
  shows "write_protected s s2 d"
  using assms by (auto simp: write_protected_def same_space_def user_dir_def tbl_def)

lemma dir_refs_eq:
  assumes "2 \<le> d" "d < 1024" "same_space s s' d \<or> write_protected s s' d \<or> \<not> present (phys s 0 d) \<and> \<not> present (phys s' 0 d)"
  shows "dir_refs (phys s') i d = dir_refs (phys s) i d"
  using assms(3)
proof (elim disjE)
  assume "same_space s s' d"
  then show ?thesis using assms(1,2) by (simp add: same_space_def dir_refs_def table_refs_def tbl_def user_dir_def)
next
  assume "write_protected s s' d"
  then show ?thesis by (simp add: write_protected_def dir_refs_def table_refs_def tbl_def)
qed (simp add: dir_refs_def)

text \<open>So the counts of all frames are the same again.\<close>

lemma mem_map_eq:
  assumes "mm_inv ext s" "mm_inv ext s'" and i: "i < 1536"
    and d: "\<And>d. 2 \<le> d \<Longrightarrow> d < 1024 \<Longrightarrow> same_space s s' d \<or> write_protected s s' d \<or> \<not> present (phys s 0 d) \<and> \<not> present (phys s' 0 d)"
  shows "mem_map s' i = mem_map s i"
proof -
  have "Memory_Refs.refs (phys s') i = Memory_Refs.refs (phys s) i" by (rule refs_cong) (use dir_refs_eq d in blast)
  then show ?thesis using ok_count [OF assms(1) i] ok_count [OF assms(2) i] by (simp add: word_unat_eq_iff)
qed

lemma copy_mem_run:
  assumes r: "fork_ready ext m nr s"
  shows "\<exists>r s'. copy_mem nr p s e = Ok r s' e \<and> s' = (rebased nr p s)\<lparr>mem_map := mem_map s', phys := phys s'\<rparr> \<and> mm_inv ext s' \<and>
    (if tables_needed (phys s) (16 * m) (data_dirs s) \<le> free_frames (mem_map s)
     then r = 0 \<and> (\<forall>j<data_dirs s. copied s s' 1024 (16 * m + j) (16 * nr + j))
     else r = - ENOMEM \<and> (\<forall>j<16. \<not> present (phys s' 0 (16 * nr + j))) \<and>
       (\<exists>q<data_dirs s. (\<forall>j<q. write_protected s s' (16 * m + j)) \<and> (\<forall>j. q \<le> j \<and> j < data_dirs s \<longrightarrow> same_space s s' (16 * m + j)))) \<and>
    (\<forall>d. \<not> (16 * m \<le> d \<and> d < 16 * m + data_dirs s) \<longrightarrow> \<not> (16 * nr \<le> d \<and> d < 16 * nr + data_dirs s) \<longrightarrow> same_space s s' d) \<and>
    (\<forall>b. data_frame s b \<longrightarrow> phys s' b = phys s b)"
proof -
  let ?n = "data_dirs s" and ?l = "get_limit (t_ldt (cur s) 2)" and ?t = "rebased nr p s"
  let ?fits = "tables_needed (phys s) (16 * m) ?n \<le> free_frames (mem_map s)"
  have inv: "mm_inv ext s" and m: "0 < m" "m < 64" "0 < nr" "nr < 64" "m \<noteq> nr" and b: "get_base (t_ldt (cur s) 1) = task_base m" "get_base (t_ldt (cur s) 2) = task_base m"
    and l: "get_limit (t_ldt (cur s) 1) \<le> ?l" "?l \<le> 0x4000000" and np: "\<And>j. j < 16 \<Longrightarrow> \<not> present (phys s 0 (16 * nr + j))"
    and cnt: "\<And>i. i < PAGING_PAGES \<Longrightarrow> unat (mem_map s i) + 16 * 1025 < 65536"
    using r by (auto simp: fork_ready_def)
  have n: "?n \<le> 16" by (rule limit_dirs [OF l(2)])
  note bm = task_base [OF m(2)] and bn = task_base [OF m(4)]
  have cnt': "\<forall>i<PAGING_PAGES. unat (mem_map ?t i) + ?n * 1025 < 65536" using cnt n by fastforce
  have dis: "16 * m + ?n \<le> 16 * nr \<or> 16 * nr + ?n \<le> 16 * m" using m n by linarith
  obtain q s1 where c: "copy_page_tables (task_base m) (task_base nr) ?l ?t e = Ok (if ?fits then 0 else - 1) s1 e" "mm_inv ext s1"
    "copied_upto ?t s1 (16 * m) (16 * nr) ?n q"
    using copy_page_tables_run [OF _ bm(1) bn(1) refl _ _ _ _ _ _ cnt', of ext e] inv m n np dis unfolding bm(2) bn(2) by auto
  have f1: "s1 = ?t\<lparr>mem_map := mem_map s1, phys := phys s1\<rparr>" by (rule mm_onlyD [OF mm_only_copy_page_tables c(1)])
  have run: "copy_mem nr p s e = (if \<not> ?fits then seqK (free_page_tables (task_base nr) ?l) (ret (- ENOMEM)) else ret 0) s1 e"
    using b l(1) c(1) by (simp add: copy_mem_def Let_def rebased_def not_less)
  have ss: "same_space s s' d \<longleftrightarrow> same_space ?t s' d" "copied s s' N f g \<longleftrightarrow> copied ?t s' N f g"
    "write_protected s s' d \<longleftrightarrow> write_protected ?t s' d" "data_frame s b \<longleftrightarrow> data_frame ?t b" for s' d N f g b
    by (simp_all add: same_space_def copied_def write_protected_def data_frame_def)
  have q: "q \<le> ?n" "q = ?n \<longleftrightarrow> ?fits" "\<And>j. j < q \<Longrightarrow> copied ?t s1 1024 (16 * m + j) (16 * nr + j)"
    "\<And>j. q \<le> j \<Longrightarrow> j < ?n \<Longrightarrow> same_space ?t s1 (16 * m + j)"
    "\<And>d. \<not> (16 * m \<le> d \<and> d < 16 * m + ?n) \<Longrightarrow> \<not> (16 * nr \<le> d \<and> d < 16 * nr + ?n) \<Longrightarrow> same_space ?t s1 d"
    "\<And>b. data_frame ?t b \<Longrightarrow> data_frame s1 b \<and> phys s1 b = phys ?t b"
    using c(3) copied_upto_all [OF c(3)] by (auto simp: copied_upto_def)
  show ?thesis
  proof (cases ?fits)
    case True
    then have "copy_mem nr p s e = Ok 0 s1 e" "q = ?n" using run q(2) by auto
    then show ?thesis using True c(2) f1 q(3,5,6) unfolding ss by (intro exI [of _ 0] exI [of _ s1]) simp
  next
    case False
    have "16 * nr + ?n \<le> 1024" "2 \<le> 16 * nr" using m n by linarith+
    then obtain s2 where f: "free_page_tables (task_base nr) ?l s1 e = Ok 0 s2 e" "mm_inv ext s2"
      "\<And>d. 16 * nr \<le> d \<Longrightarrow> d < 16 * nr + ?n \<Longrightarrow> \<not> present (phys s2 0 d)" "\<And>d. \<not> (16 * nr \<le> d \<and> d < 16 * nr + ?n) \<Longrightarrow> same_space s1 s2 d"
      "\<And>b. no_table (phys s1) b \<Longrightarrow> phys s2 b = phys s1 b"
      using free_page_tables_run [OF c(2) bn(1) refl, of ?l e] unfolding bn(2) by blast
    have "s2 = s1\<lparr>mem_map := mem_map s2, phys := phys s2\<rparr>" by (rule mm_onlyD [OF mm_only_free_page_tables f(1)])
    from mm_upd_trans [OF f1 this] have f2: "s2 = ?t\<lparr>mem_map := mem_map s2, phys := phys s2\<rparr>" .
    have sp: "same_space ?t s2 d" if "\<not> (16 * m \<le> d \<and> d < 16 * m + ?n)" "\<not> (16 * nr \<le> d \<and> d < 16 * nr + ?n)" for d
      using same_space_trans [OF q(5) f(4)] that by blast
    have np2: "\<not> present (phys s2 0 (16 * nr + j))" if "j < 16" for j
    proof (cases "j < ?n")
      case False
      then have "same_space ?t s2 (16 * nr + j)" using sp [of "16 * nr + j"] m n that by linarith
      then show ?thesis using np [OF that] by (simp add: same_space_def)
    qed (use f(3) in auto)
    have par: "same_space s1 s2 (16 * m + j)" "2 \<le> 16 * m + j" "16 * m + j < 1024" if "j < ?n" for j
      using f(4) [of "16 * m + j"] that m n dis by linarith+
    have "write_protected ?t s2 (16 * m + j)" if "j < q" for j
      using write_protected_same [OF copied_write_protected [OF q(3) [OF that]]] par [of j] that q(1) by simp
    moreover have "same_space ?t s2 (16 * m + j)" if "q \<le> j" "j < ?n" for j
      using same_space_trans [OF q(4) [OF that]] par that by blast
    moreover have "q < ?n" using False q(1,2) by linarith
    ultimately have kept: "\<exists>q<?n. (\<forall>j<q. write_protected ?t s2 (16 * m + j)) \<and> (\<forall>j. q \<le> j \<and> j < ?n \<longrightarrow> same_space ?t s2 (16 * m + j))" by blast
    have dat: "phys s2 b = phys s b" if "data_frame ?t b" for b using q(6) [OF that] f(5) by (simp add: data_frame_def)
    have "copy_mem nr p s e = Ok (- ENOMEM) s2 e" using run False f(1) by simp
    then show ?thesis using False f2 f(2) sp np2 kept dat unfolding ss by (intro exI [of _ "- ENOMEM"] exI [of _ s2]) simp
  qed
qed

section \<open>What the child shares\<close>

lemma fold_share_file:
  fixes s :: "'z fs_scheme"
  shows "\<exists>ft. fold (\<lambda>i. share_file (F i)) is s = s\<lparr>file_table := ft\<rparr> \<and>
    (\<forall>f. f \<noteq> 0 \<longrightarrow> ft f = (file_table s f)\<lparr>f_count := f_count (file_table s f) + of_nat (length (filter (\<lambda>i. F i = f) is))\<rparr>)"
proof (induction "is" arbitrary: s)
  case (Cons i "is")
  show ?case
    using Cons.IH [of "share_file (F i) s"] by (auto simp: share_file_def upd_file_def algebra_simps)
next
  case Nil
  show ?case by (rule exI [of _ "file_table s"]) simp
qed

lemma share_inode_eq:
  fixes s :: "'z fs_scheme"
  shows "\<exists>it. share_inode p s = s\<lparr>inode_table := it\<rparr> \<and>
    (\<forall>i. i \<noteq> 0 \<longrightarrow> it i = (inode_table s i)\<lparr>i_count := i_count (inode_table s i) + (if i = p then 1 else 0)\<rparr>)"
proof (cases "p = 0")
  case True
  then show ?thesis by (intro exI [of _ "inode_table s"]) (simp add: share_inode_def)
qed (auto simp: share_inode_def upd_inode_def)

text \<open>The task structure of the child of \<open>t\<close> in slot \<open>nr\<close>.\<close>

definition child_of :: "int \<Rightarrow> nat \<Rightarrow> fork_regs \<Rightarrow> task_struct \<Rightarrow> task_struct \<Rightarrow> bool" where
  "child_of pid nr r t c \<longleftrightarrow> t_state c = TASK_RUNNING \<and> t_pid c = pid \<and> t_father c = t_pid t \<and> t_pgrp c = t_pgrp t \<and> t_counter c = t_priority t \<and>
     t_signal c = 0 \<and> t_leader c = 0 \<and> t_uid c = t_uid t \<and> t_euid c = t_euid t \<and> t_filp c = t_filp t \<and> t_pwd c = t_pwd t \<and> t_root c = t_root t \<and>
     get_base (t_ldt c 1) = task_base nr \<and> get_base (t_ldt c 2) = task_base nr \<and>
     get_limit (t_ldt c 1) = get_limit (t_ldt t 1) \<and> get_limit (t_ldt c 2) = get_limit (t_ldt t 2) \<and>
     tss_eax (t_tss c) = 0 \<and> tss_eip (t_tss c) = r_eip r \<and> tss_esp (t_tss c) = r_esp r"

lemma get_limit_set_base [simp]: "get_limit (set_base d b) = get_limit d"
  by (simp add: get_limit_def limit_field_set_base granularity_set_base)

lemma child_rebased:
  "child_of (last_pid s) nr r (cur s) (upd_ldt 2 (set_base (t_ldt (child_task nr p r s) 2) (task_base nr)) (upd_ldt 1 (set_base (t_ldt (child_task nr p r s) 1) (task_base nr)) (child_task nr p r s)))"
  by (simp add: child_of_def child_task_def child_tss_def upd_ldt_def get_set_base Let_def)

section \<open>Fork\<close>

text \<open>Nothing but physical memory, the map of pages, task structures, the coprocessor, and the tables of files and inodes is different.\<close>

definition fork_touches :: "'z procst_scheme \<Rightarrow> 'z procst_scheme \<Rightarrow> bool" where
  "fork_touches s s' \<longleftrightarrow> (\<exists>M P T F it ft. s' = s\<lparr>mem_map := M, phys := P, tstruct := T, fpu := F, inode_table := it, file_table := ft\<rparr>)"

lemma fork_touches_trans: "fork_touches s s1 \<Longrightarrow> fork_touches s1 s2 \<Longrightarrow> fork_touches s s2"
  unfolding fork_touches_def by (elim exE, simp) blast

lemma fork_touches_intros:
  fixes s :: "'z procst_scheme"
  shows "fork_touches s (s\<lparr>mem_map := M, phys := P\<rparr>)" "fork_touches s (s\<lparr>mem_map := M\<rparr>)" "fork_touches s (s\<lparr>tstruct := T\<rparr>)" "fork_touches s (s\<lparr>fpu := F\<rparr>)"
    "fork_touches s (s\<lparr>inode_table := it, file_table := ft\<rparr>)" "fork_touches s s"
proof -
  have t: "fork_touches s (s\<lparr>mem_map := M, phys := P, tstruct := T, fpu := F, inode_table := it, file_table := ft\<rparr>)" for M P T F it ft
    unfolding fork_touches_def by blast
  note same = t [where T = "tstruct s" and F = "fpu s" and it = "inode_table s" and ft = "file_table s"]
  show "fork_touches s (s\<lparr>mem_map := M, phys := P\<rparr>)" "fork_touches s (s\<lparr>mem_map := M\<rparr>)" "fork_touches s s"
    using same [where M = M and P = P] same [where M = M and P = "phys s"] same [where M = "mem_map s" and P = "phys s"] by simp_all
  note same = t [where M = "mem_map s" and P = "phys s"]
  show "fork_touches s (s\<lparr>tstruct := T\<rparr>)" "fork_touches s (s\<lparr>fpu := F\<rparr>)" "fork_touches s (s\<lparr>inode_table := it, file_table := ft\<rparr>)"
    using same [where T = T and F = "fpu s" and it = "inode_table s" and ft = "file_table s"]
      same [where T = "tstruct s" and F = F and it = "inode_table s" and ft = "file_table s"]
      same [where T = "tstruct s" and F = "fpu s" and it = it and ft = ft] by simp_all
qed

text \<open>What neither the memory manager nor the preparation of the child's task structure at \<open>p\<close> changes.\<close>

definition fork_frame :: "u32 \<Rightarrow> 'z procst_scheme \<Rightarrow> 'z procst_scheme \<Rightarrow> bool" where
  "fork_frame p s s' \<longleftrightarrow> fork_touches s s' \<and> task s' = task s \<and> current s' = current s \<and> last_pid s' = last_pid s \<and> gdt s' = gdt s \<and> file_table s' = file_table s \<and>
     inode_table s' = inode_table s \<and> (\<forall>q. q \<noteq> p \<longrightarrow> tstruct s' q = tstruct s q)"

text \<open>The state in which \<^verbatim>\<open>copy_process\<close> calls \<^verbatim>\<open>copy_mem\<close>.\<close>

definition child_prepared :: "nat \<Rightarrow> u32 \<Rightarrow> fork_regs \<Rightarrow> 'z procst_scheme \<Rightarrow> 'z procst_scheme" where
  "child_prepared nr p r s = fnsave_child p (upd_task p (\<lambda>_. child_task nr p r s) s)"

lemma child_prepared_touches: "fork_touches s (child_prepared nr p r s)"
proof -
  have t: "fork_touches s (s\<lparr>tstruct := T, fpu := F\<rparr>)" for T F
    using fork_touches_trans [OF fork_touches_intros(3) fork_touches_intros(4)] .
  show ?thesis
    by (simp add: child_prepared_def fnsave_child_def upd_task_def t fork_touches_intros)
qed

lemma child_prepared_frame:
  fixes s :: "'z procst_scheme"
  assumes "p \<noteq> current s"
  shows "fork_frame p s (child_prepared nr p r s)" "phys (child_prepared nr p r s) = phys s" "mem_map (child_prepared nr p r s) = mem_map s"
    "child_of (last_pid s) nr r (cur s) (tstruct (rebased nr p (child_prepared nr p r s)) p)"
    "fpu (child_prepared nr p r s) = (if last_task_used_math s = current s then fninit (fpu s) else fpu s)"
  using assms child_rebased [of s nr r p] child_prepared_touches [of s nr p r]
  by (auto simp: child_prepared_def fnsave_child_def fork_frame_def upd_task_def rebased_def child_of_def upd_ldt_def)

lemma fork_ready_prepared:
  fixes s :: "'z procst_scheme"
  assumes r: "fork_ready ext m nr s" and k: "k < 1536" "mem_map s k = 0" "page_addr k \<noteq> current s" and inv: "mm_inv (ext(k := 1)) s1"
    and s1: "s1 = s\<lparr>mem_map := (mem_map s)(k := 1), phys := (phys s)(page_addr k := (\<lambda>_. 0))\<rparr>"
  shows "fork_ready (ext(k := 1)) m nr (child_prepared nr (page_addr k) rg s1)" "fork_frame (page_addr k) s (child_prepared nr (page_addr k) rg s1)"
    "child_of (last_pid s) nr rg (cur s) (tstruct (rebased nr (page_addr k) (child_prepared nr (page_addr k) rg s1)) (page_addr k))"
    "\<And>d. same_space s (child_prepared nr (page_addr k) rg s1) d"
    "tables_needed (phys (child_prepared nr (page_addr k) rg s1)) f n = tables_needed (phys s) f n"
    "free_frames (mem_map s) = Suc (free_frames (mem_map (child_prepared nr (page_addr k) rg s1)))"
    "fpu (child_prepared nr (page_addr k) rg s1) = (if last_task_used_math s = current s then fninit (fpu s) else fpu s)"
    "\<And>b. data_frame s b \<Longrightarrow> data_frame (child_prepared nr (page_addr k) rg s1) b \<and> phys (child_prepared nr (page_addr k) rg s1) b = phys s b"
proof -
  let ?p = "page_addr k"
  let ?c = "child_prepared nr ?p rg s1"
  have p: "?p \<noteq> current s1" using k(3) by (simp add: s1)
  note f = child_prepared_frame [OF p, of nr rg]
  have P0: "phys s1 0 = phys s 0" using page_addr_nz [OF k(1)] by (simp add: s1)
  have fr: "fork_frame ?p s s1" by (simp add: s1 fork_frame_def fork_touches_intros)
  then show fr': "fork_frame ?p s ?c" using f(1) fork_touches_trans by (auto simp: fork_frame_def)
  have cur: "cur ?c = cur s" using fr' k(3) by (simp add: fork_frame_def)
  have "unat (mem_map s1 i) + 16 * 1025 < 65536" if "i < PAGING_PAGES" for i using r that by (auto simp: s1 fork_ready_def)
  then show "fork_ready (ext(k := 1)) m nr ?c" using r inv unfolding fork_ready_def cur f(2,3) P0 by blast
  show "child_of (last_pid s) nr rg (cur s) (tstruct (rebased nr ?p ?c) ?p)" using f(4) by (simp add: s1)
  show "same_space s ?c d" for d
    using ok_free_not_table [of ext "mem_map s" "phys s" d k] r k P0 f(2) by (auto simp: same_space_def s1 fork_ready_def)
  show "tables_needed (phys ?c) f n = tables_needed (phys s) f n" unfolding f(2) by (rule tables_needed_cong) (simp add: P0)
  show "free_frames (mem_map s) = Suc (free_frames (mem_map ?c))" unfolding f(3) using free_frames_take [of k "mem_map s" 1] k(1,2) by (simp add: s1)
  show "fpu ?c = (if last_task_used_math s = current s then fninit (fpu s) else fpu s)" using f(5) by (simp add: s1)
  show "data_frame ?c b \<and> phys ?c b = phys s b" if "data_frame s b" for b
    using that k(1,2) P0 unfolding data_frame_def no_table_def user_dir_def tbl_def f(2,3) by (auto simp: s1)
qed

text \<open>The end of \<^verbatim>\<open>copy_process\<close>, once the child has its memory.\<close>

lemma share_all:
  fixes s :: "'z procst_scheme"
  shows "\<exists>ft it. share_inode r (share_inode d (fold (\<lambda>i. share_file (F i)) [0..<NR_OPEN] s)) = s\<lparr>inode_table := it, file_table := ft\<rparr> \<and>
    (\<forall>f. f \<noteq> 0 \<longrightarrow> f_count (ft f) = f_count (file_table s f) + of_nat (length (filter (\<lambda>i. F i = f) [0..<NR_OPEN]))) \<and>
    (\<forall>i. i \<noteq> 0 \<longrightarrow> i_count (it i) = i_count (inode_table s i) + (if i = d then 1 else 0) + (if i = r then 1 else 0))"
proof -
  obtain ft where ft: "fold (\<lambda>i. share_file (F i)) [0..<NR_OPEN] s = s\<lparr>file_table := ft\<rparr>"
    "\<forall>f. f \<noteq> 0 \<longrightarrow> ft f = (file_table s f)\<lparr>f_count := f_count (file_table s f) + of_nat (length (filter (\<lambda>i. F i = f) [0..<NR_OPEN]))\<rparr>"
    using fold_share_file [of F "[0..<NR_OPEN]" s] by blast
  obtain it where it: "share_inode d (s\<lparr>file_table := ft\<rparr>) = s\<lparr>file_table := ft, inode_table := it\<rparr>"
    "\<forall>i. i \<noteq> 0 \<longrightarrow> it i = (inode_table s i)\<lparr>i_count := i_count (inode_table s i) + (if i = d then 1 else 0)\<rparr>"
    using share_inode_eq [of d "s\<lparr>file_table := ft\<rparr>"] by auto
  obtain it' where it': "share_inode r (s\<lparr>file_table := ft, inode_table := it\<rparr>) = s\<lparr>file_table := ft, inode_table := it'\<rparr>"
    "\<forall>i. i \<noteq> 0 \<longrightarrow> it' i = (it i)\<lparr>i_count := i_count (it i) + (if i = r then 1 else 0)\<rparr>"
    using share_inode_eq [of r "s\<lparr>file_table := ft, inode_table := it\<rparr>"] by auto
  show ?thesis using ft it it' by (intro exI [of _ ft] exI [of _ it']) (cases s, simp)
qed

lemma mm_ok_drop:
  assumes ok: "mm_ok (ext(k := 1)) M P" and k: "k < 1536" "ext k = 0"
  shows "M k \<noteq> 0" "mm_ok ext (M(k := M k - 1)) P"
proof -
  have c: "unat (M k) = refs P k + 1" using ok_count [OF ok k(1)] by simp
  then show nz: "M k \<noteq> 0" by auto
  have "tbl P d \<noteq> page_addr k" if "user_dir P d" for d
  proof
    assume t: "tbl P d = page_addr k"
    then have "M k = 1" using ok_table [OF ok that] page_addr_inj k(1) by metis
    then have "refs P k = 0" using c by simp
    moreover have "1 \<le> refs P k"
      using dir_refs_le [of d P k] user_dir_hit [OF that k(1) t] that by (simp add: dir_refs_def user_dir_def)
    ultimately show False by simp
  qed
  moreover have "unat ((M(k := M k - 1)) i) = refs P i + ext i" if "i < 1536" for i
    using ok_count [OF ok that] c nz k(2) by (auto simp: unat_minus_one)
  ultimately show "mm_ok ext (M(k := M k - 1)) P"
    using ok unfolding mm_ok_def by (metis fun_upd_other)
qed

definition child_shares :: "nat \<Rightarrow> u32 \<Rightarrow> ('z procst_scheme, int) km" where
  "child_shares nr p =
     seqK (modify (\<lambda>s. fold (\<lambda>i. share_file (t_filp (tstruct s p) i)) [0..<NR_OPEN] s))
       (seqK (modify (\<lambda>s. share_inode (t_pwd (cur s)) s)) (seqK (modify (\<lambda>s. share_inode (t_root (cur s)) s))
         (seqK (modify (set_descs nr p)) (seqK (modify (\<lambda>s. s\<lparr>task := (task s)(nr := p)\<rparr>)) (gets last_pid)))))"

lemma copy_process_steps:
  assumes "get_free_page s = (p, s1)" "p \<noteq> 0" "copy_mem nr p (child_prepared nr p r s1) e = Ok c s2 e"
  shows "copy_process nr r s e = (if c \<noteq> 0 then seqK (free_page p) (ret (- EAGAIN)) else child_shares nr p) s2 e"
  using assms by (simp add: copy_process_def child_shares_def child_prepared_def)

lemma copy_process_end:
  fixes s :: "'z procst_scheme"
  shows "\<exists>s'. child_shares nr p s e = Ok (last_pid s) s' e \<and>
    phys s' = phys s \<and> mem_map s' = mem_map s \<and> task s' = (task s)(nr := p) \<and> tstruct s' = tstruct s \<and>
    fork_touches (s\<lparr>gdt := gdt (set_descs nr p s), task := (task s)(nr := p)\<rparr>) s' \<and> fpu s' = fpu s \<and>
    (\<forall>f. f \<noteq> 0 \<longrightarrow> f_count (file_table s' f) = f_count (file_table s f) + of_nat (length (filter (\<lambda>i. t_filp (tstruct s p) i = f) [0..<NR_OPEN]))) \<and>
    (\<forall>i. i \<noteq> 0 \<longrightarrow> i_count (inode_table s' i) =
       i_count (inode_table s i) + (if i = t_pwd (cur s) then 1 else 0) + (if i = t_root (cur s) then 1 else 0))"
proof -
  let ?F = "t_filp (tstruct s p)"
  obtain ft it where sh: "share_inode (t_root (cur s)) (share_inode (t_pwd (cur s)) (fold (\<lambda>i. share_file (?F i)) [0..<NR_OPEN] s)) =
      s\<lparr>inode_table := it, file_table := ft\<rparr>"
    "\<forall>f. f \<noteq> 0 \<longrightarrow> f_count (ft f) = f_count (file_table s f) + of_nat (length (filter (\<lambda>i. ?F i = f) [0..<NR_OPEN]))"
    "\<forall>i. i \<noteq> 0 \<longrightarrow> i_count (it i) = i_count (inode_table s i) + (if i = t_pwd (cur s) then 1 else 0) + (if i = t_root (cur s) then 1 else 0)"
    using share_all [of "t_root (cur s)" "t_pwd (cur s)" ?F s] by blast
  have c: "cur (fold (\<lambda>i. share_file (?F i)) [0..<NR_OPEN] s) = cur s" "cur (share_inode d (fold (\<lambda>i. share_file (?F i)) [0..<NR_OPEN] s)) = cur s" for d
    using fold_share_file [of ?F "[0..<NR_OPEN]" s] by (auto simp: share_inode_def upd_inode_def)
  let ?s = "set_descs nr p (s\<lparr>inode_table := it, file_table := ft\<rparr>)"
  let ?b = "s\<lparr>gdt := gdt (set_descs nr p s), task := (task s)(nr := p)\<rparr>"
  have "?s\<lparr>task := (task ?s)(nr := p)\<rparr> = ?b\<lparr>inode_table := it, file_table := ft\<rparr>" by (cases s) (simp add: set_descs_def)
  then have t: "fork_touches ?b (?s\<lparr>task := (task ?s)(nr := p)\<rparr>)" using fork_touches_intros(5) [of ?b, where it = it and ft = ft] by simp
  show ?thesis
    by (rule exI [of _ "?s\<lparr>task := (task ?s)(nr := p)\<rparr>"]) (use sh t in \<open>simp add: c set_descs_def child_shares_def\<close>)
qed

text \<open>
  The contract of fork. \<open>forked\<close>: the child's structure is in the page \<open>k\<close>, which was free, and in its slot, with its two descriptors; its memory is the parent's, shared
  read-only, and the rest of linear space and the contents of all pages in use are as they were; every file and inode has one more user for each reference the child has; no other task changed.
  \<open>fork_undone\<close>: all frames have their counts back, the child has nothing mapped, and the parent's page tables map what they did, though a part of them, \<open>q\<close> entries of
  the directory, has lost the write permission on shared pages, which the next write to such a page gives back (\<^verbatim>\<open>un_wp_page\<close>); everything else of the state is as it was, but
  for what is in free pages and for the coprocessor. In both cases, if the parent was the last to use the coprocessor, its state has been saved in the child's structure
  alone and the coprocessor is reset: the source does not load it again, so that a parent that goes on computing finds its registers lost.
\<close>

definition fork_fpu :: "'z procst_scheme \<Rightarrow> i387_struct" where
  "fork_fpu s = (if last_task_used_math s = current s then fninit (fpu s) else fpu s)"

definition forked :: "(nat \<Rightarrow> nat) \<Rightarrow> nat \<Rightarrow> nat \<Rightarrow> fork_regs \<Rightarrow> nat \<Rightarrow> 'z procst_scheme \<Rightarrow> 'z procst_scheme \<Rightarrow> bool" where
  "forked ext m nr rg k s s' \<longleftrightarrow> k < PAGING_PAGES \<and> mem_map s k = 0 \<and> mm_inv (ext(k := 1)) s' \<and> task s' = (task s)(nr := page_addr k) \<and>
     child_of (last_pid s) nr rg (cur s) (tstruct s' (page_addr k)) \<and> (\<forall>q. q \<noteq> page_addr k \<longrightarrow> tstruct s' q = tstruct s q) \<and>
     (\<forall>j<data_dirs s. copied s s' 1024 (16 * m + j) (16 * nr + j)) \<and>
     (\<forall>d. \<not> (16 * m \<le> d \<and> d < 16 * m + data_dirs s) \<longrightarrow> \<not> (16 * nr \<le> d \<and> d < 16 * nr + data_dirs s) \<longrightarrow> same_space s s' d) \<and>
     (\<forall>f. f \<noteq> 0 \<longrightarrow> f_count (file_table s' f) = f_count (file_table s f) + of_nat (length (filter (\<lambda>i. t_filp (cur s) i = f) [0..<NR_OPEN]))) \<and>
     (\<forall>i. i \<noteq> 0 \<longrightarrow> i_count (inode_table s' i) =
        i_count (inode_table s i) + (if i = t_pwd (cur s) then 1 else 0) + (if i = t_root (cur s) then 1 else 0)) \<and>
     (\<forall>b. data_frame s b \<longrightarrow> phys s' b = phys s b) \<and>
     fpu s' = fork_fpu s \<and> fork_touches (s\<lparr>gdt := gdt (set_descs nr (page_addr k) s), task := (task s)(nr := page_addr k)\<rparr>) s'"

definition fork_undone :: "(nat \<Rightarrow> nat) \<Rightarrow> nat \<Rightarrow> nat \<Rightarrow> 'z procst_scheme \<Rightarrow> 'z procst_scheme \<Rightarrow> bool" where
  "fork_undone ext m nr s s' \<longleftrightarrow> mm_inv ext s' \<and> (\<forall>i<PAGING_PAGES. mem_map s' i = mem_map s i) \<and>
     (\<forall>j<16. \<not> present (phys s' 0 (16 * nr + j))) \<and>
     (\<exists>q\<le>data_dirs s. (\<forall>j<q. write_protected s s' (16 * m + j)) \<and> (\<forall>j. q \<le> j \<and> j < 16 \<longrightarrow> same_space s s' (16 * m + j))) \<and>
     (\<forall>d. \<not> (16 * m \<le> d \<and> d < 16 * m + 16) \<longrightarrow> \<not> (16 * nr \<le> d \<and> d < 16 * nr + 16) \<longrightarrow> same_space s s' d) \<and>
     (\<forall>b. data_frame s b \<longrightarrow> phys s' b = phys s b) \<and>
     (\<forall>q. (\<forall>k<PAGING_PAGES. mem_map s k = 0 \<longrightarrow> q \<noteq> page_addr k) \<longrightarrow> tstruct s' q = tstruct s q) \<and>
     fpu s' = (if free_frames (mem_map s) = 0 then fpu s else fork_fpu s) \<and>
     task s' = task s \<and> file_table s' = file_table s \<and> inode_table s' = inode_table s \<and> fork_touches s s'"

lemma copy_process_child:
  fixes s :: "'z procst_scheme"
  assumes ready: "fork_ready ext m nr s" and k: "k < PAGING_PAGES" "mem_map s k = 0" "page_addr k \<noteq> current s"
    and s3: "fork_frame (page_addr k) s s3" "\<And>d. same_space s s3 d"
      "child_of (last_pid s) nr rg (cur s) (tstruct (rebased nr (page_addr k) s3) (page_addr k))" "fpu s3 = fork_fpu s"
    and s4: "s4 = (rebased nr (page_addr k) s3)\<lparr>mem_map := mem_map s4, phys := phys s4\<rparr>" "mm_inv (ext(k := 1)) s4"
      "\<And>j. j < data_dirs s3 \<Longrightarrow> copied s3 s4 1024 (16 * m + j) (16 * nr + j)"
      "\<And>d. \<not> (16 * m \<le> d \<and> d < 16 * m + data_dirs s3) \<Longrightarrow> \<not> (16 * nr \<le> d \<and> d < 16 * nr + data_dirs s3) \<Longrightarrow> same_space s3 s4 d"
      "\<And>b. data_frame s b \<Longrightarrow> phys s4 b = phys s b"
    and s': "phys s' = phys s4" "mem_map s' = mem_map s4" "task s' = (task s4)(nr := page_addr k)" "tstruct s' = tstruct s4"
      "fork_touches (s4\<lparr>gdt := gdt (set_descs nr (page_addr k) s4), task := (task s4)(nr := page_addr k)\<rparr>) s'" "fpu s' = fpu s4"
      "\<And>f. f \<noteq> 0 \<Longrightarrow> f_count (file_table s' f) = f_count (file_table s4 f) + of_nat (length (filter (\<lambda>i. t_filp (tstruct s4 (page_addr k)) i = f) [0..<NR_OPEN]))"
      "\<And>i. i \<noteq> 0 \<Longrightarrow> i_count (inode_table s' i) =
         i_count (inode_table s4 i) + (if i = t_pwd (cur s4) then 1 else 0) + (if i = t_root (cur s4) then 1 else 0)"
  shows "forked ext m nr rg k s s'"
proof -
  let ?p = "page_addr k"
  have ts: "tstruct s4 = tstruct (rebased nr ?p s3)" by (subst s4(1)) simp
  have fr: "task s4 = task s" "current s4 = current s" "file_table s4 = file_table s" "inode_table s4 = inode_table s" "gdt s4 = gdt s" "fpu s4 = fork_fpu s"
    using s3(1,4) by (subst s4(1), simp add: rebased_def upd_task_def fork_frame_def)+
  have oth: "tstruct s4 q = tstruct s q" if "q \<noteq> ?p" for q using s3(1) that by (simp add: ts rebased_def upd_task_def fork_frame_def)
  have me: "cur s4 = cur s" "cur s3 = cur s" using oth s3(1) k(3) fr(2) by (auto simp: fork_frame_def)
  have ch: "child_of (last_pid s) nr rg (cur s) (tstruct s' ?p)" using s3(3) by (simp add: ts s'(4))
  then have fl: "t_filp (tstruct s4 ?p) = t_filp (cur s)" by (simp add: child_of_def s'(4))
  have cp: "copied s s' 1024 (16 * m + j) (16 * nr + j)" if "j < data_dirs s" for j
  proof (rule copied_pre [of s3])
    show "copied s3 s' 1024 (16 * m + j) (16 * nr + j)" using s4(3) [of j] that me(2) s'(1) by (simp add: copied_def)
    show l: "2 \<le> 16 * m + j" "16 * m + j < 1024" using ready that limit_dirs [of "get_limit (t_ldt (cur s) 2)"] by (auto simp: fork_ready_def)
    show "same_space s s3 (16 * m + j)" by (rule s3(2))
  qed
  have sp: "same_space s s' d" if "\<not> (16 * m \<le> d \<and> d < 16 * m + data_dirs s)" "\<not> (16 * nr \<le> d \<and> d < 16 * nr + data_dirs s)" for d
  proof (rule same_space_trans [OF s3(2)])
    have "same_space s3 s4 d" using s4(4) [of d] that me(2) by simp
    then show "same_space s3 s' d" using s'(1) by (simp add: same_space_def)
  qed
  have "fork_touches s s4"
  proof -
    have "fork_touches s3 (rebased nr ?p s3)" by (simp add: rebased_def upd_task_def fork_touches_intros)
    moreover have "fork_touches (rebased nr ?p s3) s4" by (subst s4(1)) (rule fork_touches_intros)
    ultimately show ?thesis using s3(1) fork_touches_trans unfolding fork_frame_def by blast
  qed
  then have up: "fork_touches (s\<lparr>gdt := g, task := t\<rparr>) (s4\<lparr>gdt := g, task := t\<rparr>)" for g t
    unfolding fork_touches_def by (elim exE, cases s) auto
  have "gdt (set_descs nr ?p s4) = gdt (set_descs nr ?p s)" by (simp add: set_descs_def fr)
  then have "fork_touches (s\<lparr>gdt := gdt (set_descs nr ?p s), task := (task s)(nr := ?p)\<rparr>) s'"
    using fork_touches_trans [OF up s'(5)] by (simp add: fr(1))
  moreover have "mm_inv (ext(k := 1)) s'" using s4(2) by (simp add: s'(1,2))
  ultimately show ?thesis unfolding forked_def using k cp ch oth sp s4(5) by (simp add: s' fr me fl)
qed

text \<open>What a failed attempt leaves, when the page of the child's structure has been given back.\<close>

lemma fork_given_back:
  fixes s :: "'z procst_scheme"
  assumes ready: "fork_ready ext m nr s" and k: "k < PAGING_PAGES" "mem_map s k = 0" "page_addr k \<noteq> current s"
    and s3: "fork_frame (page_addr k) s s3" "\<And>d. same_space s s3 d" "fpu s3 = fork_fpu s"
    and s4: "s4 = (rebased nr (page_addr k) s3)\<lparr>mem_map := mem_map s4, phys := phys s4\<rparr>"
      "\<forall>j<16. \<not> present (phys s4 0 (16 * nr + j))" "q < data_dirs s3" "\<forall>j<q. write_protected s3 s4 (16 * m + j)"
      "\<forall>j. q \<le> j \<and> j < data_dirs s3 \<longrightarrow> same_space s3 s4 (16 * m + j)"
      "\<And>d. \<not> (16 * m \<le> d \<and> d < 16 * m + data_dirs s3) \<Longrightarrow> \<not> (16 * nr \<le> d \<and> d < 16 * nr + data_dirs s3) \<Longrightarrow> same_space s3 s4 d"
      "\<And>b. data_frame s b \<Longrightarrow> phys s4 b = phys s b"
    and s': "s' = s4\<lparr>mem_map := M\<rparr>" "mm_inv ext s'"
  shows "fork_undone ext m nr s s'"
proof -
  let ?p = "page_addr k"
  have rd: "mm_inv ext s" "0 < m" "m < 64" "0 < nr" "nr < 64" "m \<noteq> nr" "\<forall>j<16. \<not> present (phys s 0 (16 * nr + j))" and l: "data_dirs s \<le> 16"
    using ready limit_dirs by (auto simp: fork_ready_def)
  have fr: "task s' = task s" "current s' = current s" "file_table s' = file_table s" "inode_table s' = inode_table s" "fpu s' = fork_fpu s"
    unfolding s'(1) using s3(1,3) by (subst s4(1), simp add: rebased_def upd_task_def fork_frame_def)+
  have oth: "tstruct s' q = tstruct s q" if "q \<noteq> ?p" for q
    unfolding s'(1) using s3(1) that by (subst s4(1)) (simp add: rebased_def upd_task_def fork_frame_def)
  have me: "data_dirs s3 = data_dirs s" using s3(1) k(3) by (auto simp: fork_frame_def)
  have eq: "same_space s3 s' d = same_space s3 s4 d" "write_protected s3 s' d = write_protected s3 s4 d" "phys s' = phys s4" for d
    unfolding s'(1) by (simp_all add: same_space_def write_protected_def)
  have sp: "same_space s s' d" if "\<not> (16 * m \<le> d \<and> d < 16 * m + data_dirs s)" "\<not> (16 * nr \<le> d \<and> d < 16 * nr + data_dirs s)" for d
    using same_space_trans [OF s3(2)] s4(6) [of d] that me eq(1) by simp
  have wp: "write_protected s s' (16 * m + j)" if "j < q" for j
    using same_write_protected [OF s3(2)] s4(3,4) that l me rd(2,3) eq(2) by simp
  have "same_space s s' (16 * m + j)" if "q \<le> j" "j < 16" for j
  proof (cases "j < data_dirs s")
    case True
    then show ?thesis using same_space_trans [OF s3(2)] s4(5) that me eq(1) by simp
  next
    case False
    then show ?thesis using sp [of "16 * m + j"] that rd(6) l by linarith
  qed
  then have par: "\<exists>q\<le>data_dirs s. (\<forall>j<q. write_protected s s' (16 * m + j)) \<and> (\<forall>j. q \<le> j \<and> j < 16 \<longrightarrow> same_space s s' (16 * m + j))"
    using wp s4(3) me by (intro exI [of _ q] conjI allI impI) auto
  have out: "same_space s s' d" if "\<not> (16 * m \<le> d \<and> d < 16 * m + 16)" "\<not> (16 * nr \<le> d \<and> d < 16 * nr + 16)" for d
    using sp [of d] that l by linarith
  have np: "\<forall>j<16. \<not> present (phys s' 0 (16 * nr + j))" using s4(2) eq(3) by simp
  have "same_space s s' d \<or> write_protected s s' d \<or> \<not> present (phys s 0 d) \<and> \<not> present (phys s' 0 d)" for d
  proof -
    consider (m) "16 * m \<le> d" "d < 16 * m + 16" | (nr) "16 * nr \<le> d" "d < 16 * nr + 16"
      | (o) "\<not> (16 * m \<le> d \<and> d < 16 * m + 16)" "\<not> (16 * nr \<le> d \<and> d < 16 * nr + 16)" by blast
    then show ?thesis
    proof cases
      case m
      then obtain j where "d = 16 * m + j" "j < 16" using le_Suc_ex by auto
      then show ?thesis using par by (meson not_less)
    next
      case nr
      then obtain j where "d = 16 * nr + j" "j < 16" using le_Suc_ex by auto
      then show ?thesis using rd(7) np by blast
    qed (use out in blast)
  qed
  then have mm: "mem_map s' i = mem_map s i" if "i < PAGING_PAGES" for i using mem_map_eq [OF rd(1) s'(2)] that by simp
  have "fork_touches s s'"
  proof -
    have "fork_touches s3 (rebased nr ?p s3)" by (simp add: rebased_def upd_task_def fork_touches_intros)
    moreover have "fork_touches (rebased nr ?p s3) s4" by (subst s4(1)) (rule fork_touches_intros)
    moreover have "fork_touches s4 s'" unfolding s'(1) by (rule fork_touches_intros)
    ultimately show ?thesis using s3(1) fork_touches_trans unfolding fork_frame_def by blast
  qed
  moreover have "free_frames (mem_map s) \<noteq> 0" unfolding free_frames_0 using k(1,2) by auto
  ultimately show ?thesis unfolding fork_undone_def using s'(2) np par out mm oth fr k(1,2) s4(7) eq(3) by auto
qed

lemma copy_process_run:
  fixes s :: "'z procst_scheme"
  assumes ready: "fork_ready ext m nr s" and cur: "\<And>k. k < PAGING_PAGES \<Longrightarrow> mem_map s k = 0 \<Longrightarrow> page_addr k \<noteq> current s"
  shows "if tables_needed (phys s) (16 * m) (data_dirs s) < free_frames (mem_map s)
    then \<exists>s' k. copy_process nr rg s e = Ok (last_pid s) s' e \<and> forked ext m nr rg k s s'
    else \<exists>s'. copy_process nr rg s e = Ok (- EAGAIN) s' e \<and> fork_undone ext m nr s s'"
proof (cases rule: get_free_page_cases [of s])
  case full
  then have "copy_process nr rg s e = Ok (- EAGAIN) s e" "free_frames (mem_map s) = 0" by (simp_all add: copy_process_def free_frames_0)
  moreover have "fork_undone ext m nr s s" if "free_frames (mem_map s) = 0"
    using ready that by (auto simp: fork_ready_def fork_undone_def same_space_def fork_touches_intros intro: exI [of _ 0])
  ultimately show ?thesis by auto
next
  case (found k)
  let ?p = "page_addr k"
  define s1 where "s1 = s\<lparr>mem_map := (mem_map s)(k := 1), phys := (phys s)(?p := (\<lambda>_. 0))\<rparr>"
  define s3 where "s3 = child_prepared nr ?p rg s1"
  have g: "get_free_page s = (?p, s1)" and p0: "?p \<noteq> 0" and kp: "k < PAGING_PAGES" using found by (simp_all add: s1_def)
  have inv: "mm_inv ext s" using ready by (simp add: fork_ready_def)
  have inv1: "mm_inv (ext(k := 1)) s1" using get_free_page_ok [OF inv g p0] page_addr_inj found(1) by metis
  note ck = cur [OF kp found(2)]
  note pr = fork_ready_prepared [OF ready found(1,2) ck inv1 s1_def, where rg = rg, folded s3_def fork_fpu_def]
  have me: "data_dirs s3 = data_dirs s" using pr(2) ck by (simp add: fork_frame_def)
  obtain r s4 where c: "copy_mem nr ?p s3 e = Ok r s4 e" "s4 = (rebased nr ?p s3)\<lparr>mem_map := mem_map s4, phys := phys s4\<rparr>"
    "mm_inv (ext(k := 1)) s4"
    "if tables_needed (phys s3) (16 * m) (data_dirs s3) \<le> free_frames (mem_map s3)
     then r = 0 \<and> (\<forall>j<data_dirs s3. copied s3 s4 1024 (16 * m + j) (16 * nr + j))
     else r = - ENOMEM \<and> (\<forall>j<16. \<not> present (phys s4 0 (16 * nr + j))) \<and>
       (\<exists>q<data_dirs s3. (\<forall>j<q. write_protected s3 s4 (16 * m + j)) \<and> (\<forall>j. q \<le> j \<and> j < data_dirs s3 \<longrightarrow> same_space s3 s4 (16 * m + j)))"
    "\<And>d. \<not> (16 * m \<le> d \<and> d < 16 * m + data_dirs s3) \<Longrightarrow> \<not> (16 * nr \<le> d \<and> d < 16 * nr + data_dirs s3) \<Longrightarrow> same_space s3 s4 d"
    "\<And>b. data_frame s3 b \<Longrightarrow> phys s4 b = phys s3 b"
    using copy_mem_run [OF pr(1), of ?p e] by blast
  have dat: "phys s4 b = phys s b" if "data_frame s b" for b using pr(8) [OF that] c(6) by simp
  let ?fits = "tables_needed (phys s) (16 * m) (data_dirs s) < free_frames (mem_map s)"
  have fits: "tables_needed (phys s3) (16 * m) (data_dirs s3) \<le> free_frames (mem_map s3) \<longleftrightarrow> ?fits"
    unfolding pr(5) me pr(6) by (rule less_Suc_eq_le [symmetric])
  note run = copy_process_steps [OF g p0 c(1) [unfolded s3_def]]
  show ?thesis
  proof (cases ?fits)
    case True
    then have r: "r = 0" and cd: "\<And>j. j < data_dirs s3 \<Longrightarrow> copied s3 s4 1024 (16 * m + j) (16 * nr + j)" using c(4) fits by auto
    note child = copy_process_child [OF ready kp found(2) ck pr(2,4,3,7) c(2,3) cd c(5) dat]
    from copy_process_end [of nr ?p s4 e] obtain s' where "child_shares nr ?p s4 e = Ok (last_pid s4) s' e" "forked ext m nr rg k s s'"
      using child by blast
    moreover have "last_pid s4 = last_pid s" using pr(2) by (subst c(2)) (simp add: rebased_def upd_task_def fork_frame_def)
    ultimately show ?thesis using run r True by auto
  next
    case False
    then obtain q where r: "r = - ENOMEM" and np: "\<forall>j<16. \<not> present (phys s4 0 (16 * nr + j))" and q: "q < data_dirs s3"
      "\<forall>j<q. write_protected s3 s4 (16 * m + j)" "\<forall>j. q \<le> j \<and> j < data_dirs s3 \<longrightarrow> same_space s3 s4 (16 * m + j)"
      using c(4) fits by auto
    note d = mm_ok_drop [OF c(3) found(1) mm_ok_take(1) [OF inv found(1,2)]]
    let ?s = "s4\<lparr>mem_map := (mem_map s4)(k := mem_map s4 k - 1)\<rparr>"
    have "copy_process nr rg s e = Ok (- EAGAIN) ?s e"
      using run r free_page_run [OF found(1) d(1)] by (simp add: ENOMEM_def)
    moreover have "fork_undone ext m nr s ?s"
      by (rule fork_given_back [OF ready kp found(2) ck pr(2,4,7) c(2) np q c(5) dat refl]) (use d(2) in simp_all)
    ultimately show ?thesis using False by auto
  qed
qed


section \<open>A concrete process\<close>

text \<open>A process in slot 1 with one page for its task structure, frame 5, nothing mapped yet, and the tables of \<open>ex_fs\<close>.\<close>

definition ex_frames :: "nat \<Rightarrow> nat" where
  "ex_frames i = of_bool (i = 5)"

definition ex_parent :: task_struct where
  "ex_parent = INIT_TASK\<lparr>t_pid := 1, t_pwd := 1, t_root := 1, t_filp := (\<lambda>_. 0)(0 := 1, 1 := 1),
     t_ldt := (\<lambda>_. set_base \<lparr>desc_a = 0, desc_b = 0\<rparr> (task_base 1))\<rparr>"

definition ex_proc :: procst where
  "ex_proc = (ttyst.extend (fs.extend ex_fs (ttyst.fields init_tty_table (con_static (\<lambda>_. 0)) False)) (procst.fields 7))
     \<lparr>mem_map := (\<lambda>i. of_nat (ex_frames i)), phys := (\<lambda>_ _. 0), task := (\<lambda>_. 0)(1 := page_addr 5), current := page_addr 5,
      tstruct := (\<lambda>_. ex_parent)\<rparr>"

lemma ex_proc_sel:
  "mem_map ex_proc = (\<lambda>i. of_nat (ex_frames i))" "phys ex_proc = (\<lambda>_ _. 0)" "current ex_proc = page_addr 5" "tstruct ex_proc = (\<lambda>_. ex_parent)"
  "task ex_proc = (\<lambda>_. 0)(1 := page_addr 5)" "last_pid ex_proc = 7"
  by (simp_all add: ex_proc_def fs.defs ttyst.defs procst.defs)

lemma ex_fork_ready: "fork_ready ex_frames 1 2 ex_proc"
proof -
  have l: "get_limit (t_ldt ex_parent i) = 1" "get_base (t_ldt ex_parent i) = task_base 1" for i
  proof -
    have "get_limit \<lparr>desc_a = 0, desc_b = 0\<rparr> = 1" by (simp add: get_limit_def limit_field_def)
    then show "get_limit (t_ldt ex_parent i) = 1" "get_base (t_ldt ex_parent i) = task_base 1"
      by (simp_all add: ex_parent_def get_set_base del: mult_numeral_1)
  qed
  have "mm_inv ex_frames ex_proc" unfolding ex_proc_sel by (rule mm_ok_empty) (simp add: ex_frames_def)
  then show ?thesis unfolding fork_ready_def ex_proc_sel l by (simp add: ex_frames_def not_present_0)
qed

definition ex_regs :: fork_regs where
  "ex_regs = \<lparr>r_ebp = 0, r_edi = 0, r_esi = 0, r_gs = 0x17, r_ebx = 0, r_ecx = 0, r_edx = 0, r_fs = 0x17, r_es = 0x17, r_ds = 0x17, r_eip = 0x1000,
     r_cs = 0x0f, r_eflags = 0x200, r_esp = 0x3fffff0, r_ss = 0x17\<rparr>"


end
