(* ===== verification/Process_Props.thy ===== *)
theory Process_Props
  imports Fork_Props
begin

text \<open>
  Process numbers, signals, the reaping of children and the user identity: the rest of \<^verbatim>\<open>src/kernel/fork.c\<close>, \<^verbatim>\<open>exit.c\<close> and \<^verbatim>\<open>sys.c\<close>.
\<close>

section \<open>Process numbers\<close>

text \<open>The numbers \<^verbatim>\<open>find_empty_process\<close> tries, in order.\<close>

definition succ_pid :: "int \<Rightarrow> int" where
  "succ_pid pid = (if wrap32 (pid + 1) < 0 then 1 else wrap32 (pid + 1))"

lemma succ_pid_range: "0 \<le> succ_pid pid" "succ_pid pid < 2 ^ 31"
  using wrap32_range [of "pid + 1"] by (auto simp: succ_pid_def in_range32_def)

lemma succ_pid_next: "0 \<le> pid \<Longrightarrow> pid < 2 ^ 31 \<Longrightarrow> succ_pid pid = (if pid = 2 ^ 31 - 1 then 1 else pid + 1)"
proof -
  assume p: "0 \<le> pid" "pid < 2 ^ 31"
  have "wrap32 (2 ^ 31) < 0" by (simp add: wrap32_def)
  moreover have "wrap32 (pid + 1) = pid + 1" if "pid \<noteq> 2 ^ 31 - 1" using p that by (intro wrap32_id) (simp add: in_range32_def)
  ultimately show ?thesis using p by (auto simp: succ_pid_def)
qed

lemma next_pid_step: "next_pid used pid = (if used (succ_pid pid) then next_pid used (succ_pid pid) else Some (succ_pid pid))"
  by (subst next_pid.simps) (simp add: succ_pid_def Let_def)

lemma succ_pid_iter:
  assumes "0 \<le> q" "q < 2 ^ 31" "i \<le> 64"
  shows "(succ_pid ^^ i) q = (if q + int i < 2 ^ 31 then q + int i else q + int i - (2 ^ 31 - 1))"
  using assms(3)
proof (induction i)
  case (Suc i)
  then show ?case using assms(1,2) by (auto simp: succ_pid_next split: if_splits)
qed (use assms in simp)

lemma next_pid_found:
  "\<not> used ((succ_pid ^^ Suc k) pid) \<Longrightarrow> \<exists>p. next_pid used pid = Some p \<and> \<not> used p \<and> 0 \<le> p \<and> p < 2 ^ 31"
proof (induction k arbitrary: pid)
  case 0
  then show ?case using succ_pid_range by (subst next_pid_step) auto
next
  case (Suc k)
  show ?case
  proof (cases "used (succ_pid pid)")
    case True
    then show ?thesis using Suc.IH [of "succ_pid pid"] Suc.prems by (subst next_pid_step) (simp add: funpow_swap1)
  qed (use succ_pid_range in \<open>subst next_pid_step, auto\<close>)
qed

text \<open>Of 65 numbers that are all different at most 64 are in use.\<close>

lemma next_pid_returns:
  assumes "finite {p. used p}" "card {p. used p} \<le> 64"
  shows "\<exists>p. next_pid used pid = Some p \<and> \<not> used p \<and> 0 \<le> p \<and> p < 2 ^ 31"
proof -
  let ?q = "succ_pid pid"
  have q: "0 \<le> ?q" "?q < 2 ^ 31" by (rule succ_pid_range)+
  have "inj_on (\<lambda>i. (succ_pid ^^ i) ?q) {..64}" using q by (auto simp: inj_on_def succ_pid_iter split: if_splits)
  then have "card ((\<lambda>i. (succ_pid ^^ i) ?q) ` {..64}) = 65" by (simp add: card_image)
  then have "\<not> (\<lambda>i. (succ_pid ^^ i) ?q) ` {..64} \<subseteq> {p. used p}"
    using card_mono [OF assms(1), of "(\<lambda>i. (succ_pid ^^ i) ?q) ` {..64}"] assms(2) by linarith
  then obtain i where "\<not> used ((succ_pid ^^ i) ?q)" by auto
  then show ?thesis using next_pid_found [of used i pid] by (simp add: funpow_swap1)
qed

lemma pid_used_few: "finite {p. pid_used s p}" "card {p. pid_used s p} \<le> 64"
proof -
  have "{p. pid_used s p} \<subseteq> (\<lambda>i. t_pid (tstruct s (task s i))) ` {0..<64}"
    by (auto simp: pid_used_def list_ex_iff NR_TASKS_def)
  moreover have "card ((\<lambda>i. t_pid (tstruct s (task s i))) ` {0..<64}) \<le> 64" using card_image_le [of "{0..<64 :: nat}" "\<lambda>i. t_pid (tstruct s (task s i))"] by simp
  ultimately show "finite {p. pid_used s p}" "card {p. pid_used s p} \<le> 64"
    by (auto intro: finite_subset) (meson card_mono finite_atLeastLessThan finite_imageI order_trans)
qed

text \<open>
  C24: \<^verbatim>\<open>find_empty_process\<close> always returns, however the process numbers in use are spread and also when \<^verbatim>\<open>last_pid\<close> overflows. The new \<^verbatim>\<open>last_pid\<close> is a
  non-negative number that no task has; the result is the first free slot above 0, or -EAGAIN if there is none, and nothing else changes.
\<close>

theorem find_empty_process_returns:
  fixes s :: "'z procst_scheme"
  shows "\<exists>r pid. find_empty_process s e = Ok r (s\<lparr>last_pid := pid\<rparr>) e \<and> 0 \<le> pid \<and> pid < 2 ^ 31 \<and> \<not> pid_used s pid \<and>
    (r = - EAGAIN \<and> (\<forall>i. 1 \<le> i \<and> i < NR_TASKS \<longrightarrow> task s i \<noteq> 0) \<or>
     (\<exists>i. r = int i \<and> 1 \<le> i \<and> i < NR_TASKS \<and> task s i = 0 \<and> (\<forall>j. 1 \<le> j \<and> j < i \<longrightarrow> task s j \<noteq> 0)))"
proof -
  obtain pid where p: "next_pid (pid_used s) (last_pid s) = Some pid" "\<not> pid_used s pid" "0 \<le> pid" "pid < 2 ^ 31"
    using next_pid_returns [OF pid_used_few] by blast
  show ?thesis
  proof (cases "find (\<lambda>i. task s i = 0) [1..<NR_TASKS]")
    case None
    then have "\<forall>i. 1 \<le> i \<and> i < NR_TASKS \<longrightarrow> task s i \<noteq> 0" by (auto simp: find_None_iff)
    then show ?thesis using p None by (intro exI [of _ "- EAGAIN"] exI [of _ pid]) (simp add: find_empty_process_def)
  next
    case (Some i)
    then obtain k where k: "k < length [1..<NR_TASKS]" "task s i = 0" "i = [1..<NR_TASKS] ! k" "\<And>j. j < k \<Longrightarrow> task s ([1..<NR_TASKS] ! j) \<noteq> 0"
      unfolding find_Some_iff by blast
    then have i: "i = Suc k" "1 \<le> i" "i < NR_TASKS" by simp_all
    have "task s j \<noteq> 0" if "1 \<le> j" "j < i" for j using k(4) [of "j - 1"] k(1) i that by simp
    then have "\<exists>i'. int i = int i' \<and> 1 \<le> i' \<and> i' < NR_TASKS \<and> task s i' = 0 \<and> (\<forall>j. 1 \<le> j \<and> j < i' \<longrightarrow> task s j \<noteq> 0)"
      using i k(2) by blast
    moreover have "find_empty_process s e = Ok (int i) (s\<lparr>last_pid := pid\<rparr>) e" using p Some by (simp add: find_empty_process_def)
    ultimately show ?thesis using p by blast
  qed
qed

theorem find_empty_process_returns_witness:
  "\<exists>r pid. find_empty_process ex_proc [] = Ok r (ex_proc\<lparr>last_pid := pid\<rparr>) [] \<and> \<not> pid_used ex_proc pid"
  using find_empty_process_returns [of ex_proc "[]"] by blast

end
