(* ===== verification/Pipe_Props.thy ===== *)
theory Pipe_Props
  imports File_Examples
begin

text \<open>
  Pipes as first-in first-out queues: the ring of \<^verbatim>\<open>src/fs/pipe.c\<close> meets the contract of \<open>Ring\<close>, and \<^verbatim>\<open>write_pipe\<close> and \<^verbatim>\<open>read_pipe\<close>
  append to and take from the list of bytes in it.
\<close>

section \<open>The ring in the page\<close>

lemma halves: "(ucast (ucast v :: u16) :: u32) OR push_bit 16 (ucast (ucast (drop_bit 16 v) :: u16)) = v"
  by (rule bit_eqI) (auto simp: bit_simps)

lemma pipe_ends [simp]:
  "PIPE_HEAD (set_PIPE_HEAD v m) = v" "PIPE_TAIL (set_PIPE_HEAD v m) = PIPE_TAIL m" "PIPE_TAIL (set_PIPE_TAIL v m) = v"
  "PIPE_HEAD (set_PIPE_TAIL v m) = PIPE_HEAD m"
  by (simp_all add: PIPE_HEAD_def PIPE_TAIL_def set_PIPE_HEAD_def set_PIPE_TAIL_def halves)

lemma pipe_other [simp]:
  "i_size (set_PIPE_HEAD v m) = i_size m" "i_size (set_PIPE_TAIL v m) = i_size m" "i_count (set_PIPE_HEAD v m) = i_count m"
  "i_count (set_PIPE_TAIL v m) = i_count m" "i_wait (set_PIPE_HEAD v m) = i_wait m" "i_wait (set_PIPE_TAIL v m) = i_wait m"
  by (simp_all add: set_PIPE_HEAD_def set_PIPE_TAIL_def)

lemma word_byte_put:
  assumes b: "j < 4" "k < 4"
  shows "word_byte k (put_word_byte j c w) = (if k = j then c else word_byte k w)"
proof (rule bit_word_eqI)
  fix n assume "n < LENGTH(8)"
  then have n: "n < 8" by simp
  have m: "put_word_byte j c w = (w AND NOT (push_bit (8 * j) (mask 8))) OR push_bit (8 * j) (ucast c)"
    by (simp add: put_word_byte_def mask_eq_exp_minus_1)
  have l: "8 * k + n < 32" using b n by simp
  show "bit (word_byte k (put_word_byte j c w)) n = bit (if k = j then c else word_byte k w) n"
  proof (cases "k = j")
    case True
    then show ?thesis using n l by (simp add: word_byte_def m bit_simps)
  next
    case False
    then consider "8 * k + n < 8 * j" | "8 * j \<le> 8 * k + n" "8 \<le> 8 * k + n - 8 * j" using n by linarith
    then show ?thesis
    proof cases
      case 1
      then show ?thesis using n l False by (simp add: word_byte_def m bit_simps)
    next
      case 2
      then show ?thesis using n l False bit_imp_le_length [of c "8 * k + n - 8 * j"] by (auto simp: word_byte_def m bit_simps)
    qed
  qed
qed

lemma page_byte_put: "page_byte (put_page_byte i c P) = (page_byte P)(i := c)"
proof (rule ext)
  fix j
  have "j = i \<longleftrightarrow> j div 4 = i div 4 \<and> j mod 4 = i mod 4" by (metis div_mult_mod_eq)
  then show "page_byte (put_page_byte i c P) j = ((page_byte P)(i := c)) j"
    by (auto simp: page_byte_def put_page_byte_def word_byte_put)
qed

interpretation pipe_ring: ring_buffer 12 "\<lambda>p :: pipe. PIPE_HEAD (fst p)" "\<lambda>p. PIPE_TAIL (fst p)" "\<lambda>p. page_byte (snd p)" pipe_put pipe_get
  by unfold_locales (simp_all add: pipe_put_def pipe_get_def INC_PIPE_def page_byte_put mask_eq_exp_minus_1)

section \<open>The bytes in a pipe\<close>

definition pipe_wf :: "nat \<Rightarrow> 'z fs_scheme \<Rightarrow> bool" where
  "pipe_wf p s \<longleftrightarrow> PIPE_HEAD (inode_table s p) < 4096 \<and> PIPE_TAIL (inode_table s p) < 4096"

definition pipe_list :: "nat \<Rightarrow> 'z fs_scheme \<Rightarrow> u8 list" where
  "pipe_list p s = (let m = inode_table s p; n = unat (PIPE_SIZE m) in
     map (\<lambda>i. page_byte (phys s (i_size m)) ((unat (PIPE_TAIL m) + i) mod 4096)) [0..<n])"

lemma pipe_wf_ring: "pipe_wf p s \<longleftrightarrow> pipe_ring.ring_wf (the_pipe p s)"
  by (simp add: pipe_wf_def pipe_ring.ring_wf_def the_pipe_def word_less_nat_alt)

lemma pipe_size_ring: "pipe_wf p s \<Longrightarrow> unat (PIPE_SIZE (inode_table s p)) = pipe_ring.ring_count (the_pipe p s)"
  using pipe_ring.ring_chars [of "the_pipe p s"] by (simp add: pipe_wf_ring PIPE_SIZE_def the_pipe_def mask_eq_exp_minus_1)

lemma pipe_list_ring: "pipe_wf p s \<Longrightarrow> pipe_list p s = pipe_ring.ring_list (the_pipe p s)"
  by (simp add: pipe_list_def pipe_ring.ring_list_def Let_def pipe_size_ring) (simp add: the_pipe_def)

lemma length_pipe: "pipe_wf p s \<Longrightarrow> length (pipe_list p s) = unat (PIPE_SIZE (inode_table s p))"
  by (simp add: pipe_list_def Let_def)

lemma pipe_empty: "pipe_wf p s \<Longrightarrow> PIPE_EMPTY (inode_table s p) \<longleftrightarrow> pipe_list p s = []"
  using pipe_ring.ring_empty [of "the_pipe p s"] pipe_list_ring [of p s] by (auto simp: pipe_wf_ring PIPE_EMPTY_def) (simp_all add: the_pipe_def)

lemma pipe_full: "pipe_wf p s \<Longrightarrow> PIPE_FULL (inode_table s p) \<longleftrightarrow> length (pipe_list p s) = 4095"
  by (simp add: length_pipe PIPE_FULL_def word_unat_eq_iff)

text \<open>The parts of the state a pipe and its users see.\<close>

definition pipe_view :: "nat \<Rightarrow> 'z fs_scheme \<Rightarrow> u32 \<times> u32 \<times> u32 \<times> (nat \<Rightarrow> u32) \<times> u16 \<times> (u32 \<Rightarrow> u8)" where
  "pipe_view p s = (let m = inode_table s p in (PIPE_HEAD m, PIPE_TAIL m, i_size m, phys s (i_size m), i_count m, fs_mem s))"

lemma pipe_viewD:
  assumes "pipe_view p t = pipe_view p s"
  shows "pipe_wf p t = pipe_wf p s" "pipe_list p t = pipe_list p s" "i_count (inode_table t p) = i_count (inode_table s p)" "fs_mem t = fs_mem s"
    "PIPE_EMPTY (inode_table t p) = PIPE_EMPTY (inode_table s p)" "PIPE_FULL (inode_table t p) = PIPE_FULL (inode_table s p)"
proof -
  have e: "PIPE_HEAD (inode_table t p) = PIPE_HEAD (inode_table s p)" "PIPE_TAIL (inode_table t p) = PIPE_TAIL (inode_table s p)"
    "phys t (i_size (inode_table t p)) = phys s (i_size (inode_table s p))"
    using assms unfolding pipe_view_def Let_def prod.inject by blast+
  then show "pipe_wf p t = pipe_wf p s" "pipe_list p t = pipe_list p s" "PIPE_EMPTY (inode_table t p) = PIPE_EMPTY (inode_table s p)"
    "PIPE_FULL (inode_table t p) = PIPE_FULL (inode_table s p)"
    by (simp_all only: pipe_wf_def pipe_list_def PIPE_EMPTY_def PIPE_FULL_def PIPE_SIZE_def Let_def)
  show "i_count (inode_table t p) = i_count (inode_table s p)" "fs_mem t = fs_mem s" using assms by (simp_all add: pipe_view_def Let_def)
qed

lemma wake_view [simp]: "pipe_view p (wake_up (Some (i_waitq q)) s) = pipe_view p s"
  by (simp add: pipe_view_def Let_def wake_up_def i_waitq_def upd_inode_def wake_task_def upd_task_def PIPE_HEAD_def PIPE_TAIL_def)

lemmas wake_simps [simp] = pipe_viewD [OF wake_view]

lemma put_pipe:
  assumes w: "pipe_wf p s" and f: "length (pipe_list p s) < 4095"
  shows "pipe_wf p (set_pipe p (pipe_put c (the_pipe p s)) s)" "pipe_list p (set_pipe p (pipe_put c (the_pipe p s)) s) = pipe_list p s @ [c]"
    "i_count (inode_table (set_pipe p (pipe_put c (the_pipe p s)) s) p) = i_count (inode_table s p)"
    "fs_mem (set_pipe p (pipe_put c (the_pipe p s)) s) = fs_mem s"
proof -
  let ?t = "set_pipe p (pipe_put c (the_pipe p s)) s"
  have e: "the_pipe p ?t = pipe_put c (the_pipe p s)" by (simp add: the_pipe_def set_pipe_def pipe_put_def)
  then show wf: "pipe_wf p ?t" using w by (simp add: pipe_wf_ring pipe_ring.put_wf)
  have "pipe_ring.ring_count (the_pipe p s) < 2 ^ 12 - 1" using f by (simp add: pipe_list_ring [OF w])
  then show "pipe_list p ?t = pipe_list p s @ [c]"
    using pipe_ring.put_list w by (simp add: pipe_list_ring [OF w] pipe_list_ring [OF wf] e pipe_wf_ring)
  show "i_count (inode_table ?t p) = i_count (inode_table s p)" "fs_mem ?t = fs_mem s"
    by (simp_all add: set_pipe_def pipe_put_def the_pipe_def)
qed

lemma get_pipe:
  assumes w: "pipe_wf p s" and ne: "pipe_list p s \<noteq> []"
  obtains t where "pipe_get (the_pipe p s) = (hd (pipe_list p s), t)" "\<And>v a. pipe_wf p (set_pipe p t (put_fs_byte v a s))"
    "\<And>v a. pipe_list p (set_pipe p t (put_fs_byte v a s)) = tl (pipe_list p s)"
    "\<And>v a. fs_mem (set_pipe p t (put_fs_byte v a s)) = (fs_mem s)(a := v)"
    "\<And>v a. i_count (inode_table (set_pipe p t (put_fs_byte v a s)) p) = i_count (inode_table s p)"
proof -
  let ?g = "pipe_get (the_pipe p s)"
  have r: "pipe_ring.ring_wf (the_pipe p s)" "pipe_ring.ring_list (the_pipe p s) \<noteq> []" using w ne by (simp_all add: pipe_wf_ring pipe_list_ring)
  have e: "the_pipe p (set_pipe p (snd ?g) (put_fs_byte v a s)) = snd ?g" for v a
    by (simp add: the_pipe_def set_pipe_def pipe_get_def put_fs_byte_def)
  have wf: "pipe_wf p (set_pipe p (snd ?g) (put_fs_byte v a s))" for v a using r(1) by (simp add: pipe_wf_ring e pipe_ring.get_wf)
  have l: "pipe_list p s = fst ?g # pipe_list p (set_pipe p (snd ?g) (put_fs_byte v a s))" for v a
    using pipe_ring.get_list [OF r] by (simp add: pipe_list_ring [OF w] pipe_list_ring [OF wf] e)
  show thesis
  proof (rule that [of "snd ?g"])
    show "?g = (hd (pipe_list p s), snd ?g)" using l by (metis list.sel(1) prod.collapse)
    show "pipe_list p (set_pipe p (snd ?g) (put_fs_byte v a s)) = tl (pipe_list p s)" for v a using l by (metis list.sel(3))
  qed (use wf in \<open>simp_all add: set_pipe_def put_fs_byte_def pipe_get_def the_pipe_def\<close>)
qed

section \<open>Writing and reading\<close>

lemma write_pipe_loop_run:
  assumes "b \<le> n" "pipe_wf p s" "length (pipe_list p s) + (n - b) < 4096"
  shows "\<exists>s'. loopX (\<lambda>b. n - b) (write_pipe_round p buf n) b s e = Ok n s' e \<and> pipe_wf p s' \<and> fs_mem s' = fs_mem s \<and>
    i_count (inode_table s' p) = i_count (inode_table s p) \<and> pipe_list p s' = pipe_list p s @ map (\<lambda>i. fs_mem s (buf + of_nat i)) [b..<n]"
  using assms
proof (induction "n - b" arbitrary: b s)
  case 0
  then have "b = n" by simp
  then have "write_pipe_round p buf n b s e = Ok (Inr n) (wake_up (Some (i_waitq p)) s) e" by (simp add: write_pipe_round_def)
  from loopX_done [of "write_pipe_round p buf n", OF this] show ?case using 0 \<open>b = n\<close> by simp
next
  case (Suc k)
  then have b: "b < n" and nf: "\<not> PIPE_FULL (inode_table s p)" by (auto simp: pipe_full)
  let ?s = "wake_up (Some (i_waitq p)) (set_pipe p (pipe_put (get_fs_byte (buf + of_nat b) s) (the_pipe p s)) s)"
  have l: "length (pipe_list p s) < 4095" using Suc.prems b by simp
  note t = put_pipe [OF Suc.prems(2) l]
  have s: "pipe_wf p ?s" "pipe_list p ?s = pipe_list p s @ [fs_mem s (buf + of_nat b)]" "fs_mem ?s = fs_mem s"
    "i_count (inode_table ?s p) = i_count (inode_table s p)"
    by (simp_all add: t get_fs_byte_def)
  have run: "write_pipe_round p buf n b s e = Ok (Inl (b + 1)) ?s e" using b nf by (simp add: write_pipe_round_def)
  have "length (pipe_list p ?s) + (n - (b + 1)) < 4096" using s(2) Suc.prems b by simp
  from Suc.hyps(1) [OF _ _ s(1) this] Suc.hyps(2) b
  obtain s' where s': "loopX (\<lambda>b. n - b) (write_pipe_round p buf n) (b + 1) ?s e = Ok n s' e" "pipe_wf p s'" "fs_mem s' = fs_mem s"
    "i_count (inode_table s' p) = i_count (inode_table s p)" "pipe_list p s' = (pipe_list p s @ [fs_mem s (buf + of_nat b)]) @ map (\<lambda>i. fs_mem s (buf + of_nat i)) [b + 1..<n]"
    unfolding s by fastforce
  have "loopX (\<lambda>b. n - b) (write_pipe_round p buf n) b s e = Ok n s' e" using loopX_again [of "write_pipe_round p buf n", OF run] b s'(1) by simp
  moreover have "pipe_list p s' = pipe_list p s @ map (\<lambda>i. fs_mem s (buf + of_nat i)) [b..<n]"
    using s'(5) s b by (simp add: upt_conv_Cons)
  ultimately show ?case using s'(2-4) s by auto
qed

lemma read_pipe_loop_run:
  assumes "pipe_wf p s" "b + length (pipe_list p s) < 2 ^ 32"
  shows "\<exists>s'. read_pipe_loop n p buf b s = (b + min n (length (pipe_list p s)), s') \<and> pipe_wf p s' \<and>
    i_count (inode_table s' p) = i_count (inode_table s p) \<and> pipe_list p s' = drop n (pipe_list p s) \<and>
    fs_mem s' = overlay (buf + of_nat b) (min n (length (pipe_list p s))) (\<lambda>i. pipe_list p s ! i) (fs_mem s)"
  using assms
proof (induction n arbitrary: b s)
  case (Suc n)
  show ?case
  proof (cases "pipe_list p s")
    case Nil
    then show ?thesis using pipe_empty [OF Suc.prems(1)] Suc.prems by simp
  next
    case (Cons c cs)
    then have ne: "\<not> PIPE_EMPTY (inode_table s p)" using pipe_empty [OF Suc.prems(1)] by simp
    have "pipe_list p s \<noteq> []" using Cons by simp
    from get_pipe [OF Suc.prems(1) this] obtain t where
      t: "pipe_get (the_pipe p s) = (c, t)" and u: "\<And>v a. pipe_wf p (set_pipe p t (put_fs_byte v a s))"
        "\<And>v a. pipe_list p (set_pipe p t (put_fs_byte v a s)) = cs" "\<And>v a. fs_mem (set_pipe p t (put_fs_byte v a s)) = (fs_mem s)(a := v)"
        "\<And>v a. i_count (inode_table (set_pipe p t (put_fs_byte v a s)) p) = i_count (inode_table s p)"
      using Cons by (metis list.sel)
    let ?s = "set_pipe p t (put_fs_byte c (buf + of_nat b) s)"
    have "b + 1 + length (pipe_list p ?s) < 2 ^ 32" using Suc.prems(2) u(2) Cons by simp
    from Suc.IH [OF u(1) this] obtain s' where s': "read_pipe_loop n p buf (b + 1) ?s = (b + 1 + min n (length cs), s')" "pipe_wf p s'"
      "i_count (inode_table s' p) = i_count (inode_table s p)" "pipe_list p s' = drop n cs"
      "fs_mem s' = overlay (buf + of_nat (b + 1)) (min n (length cs)) (\<lambda>i. cs ! i) ((fs_mem s)(buf + of_nat b := c))"
      unfolding u by blast
    have "(fs_mem s)(buf + of_nat b := c) = overlay (buf + of_nat b) 1 (\<lambda>i. (c # cs) ! i) (fs_mem s)"
      using overlay_upd [of 0 "buf + of_nat b" "\<lambda>i. (c # cs) ! i" "fs_mem s"] by simp
    moreover have "1 + min n (length cs) \<le> 2 ^ 32" using Suc.prems(2) Cons by simp
    ultimately have "fs_mem s' = overlay (buf + of_nat b) (1 + min n (length cs)) (\<lambda>i. (c # cs) ! i) (fs_mem s)"
      using s'(5) overlay_append [of 1 "min n (length cs)" "buf + of_nat b" "\<lambda>i. (c # cs) ! i" "fs_mem s"] by (simp add: algebra_simps)
    then show ?thesis using ne t s'(1-4) Cons by simp
  qed
qed simp

text \<open>
  C19: while a reader is there and the bytes fit, \<^verbatim>\<open>write_pipe\<close> returns without sleeping, having appended the user's bytes, in order, to those in the
  pipe.
\<close>

theorem write_pipe_appends:
  assumes "pipe_wf p s" "i_count (inode_table s p) = 2" "length (pipe_list p s) + n < 4096"
  shows "\<exists>s'. write_pipe p buf (int n) s e = Ok (int n) s' e \<and> pipe_wf p s' \<and> fs_mem s' = fs_mem s \<and>
    pipe_list p s' = pipe_list p s @ map (\<lambda>i. fs_mem s (buf + of_nat i)) [0..<n]"
  using write_pipe_loop_run [of 0 n p "wake_up (Some (i_waitq p)) s" buf e] assms by (auto simp: write_pipe_def)

text \<open>
  C20: \<^verbatim>\<open>read_pipe\<close> on a pipe that holds bytes returns without sleeping: it takes as many as asked for or as there are from the front, gives them to the
  user in order, and changes no other byte of the user's memory.
\<close>

theorem read_pipe_takes:
  assumes "pipe_wf p s" "pipe_list p s \<noteq> []"
  shows "\<exists>s'. read_pipe p buf (int n) s e = Ok (int (min n (length (pipe_list p s)))) s' e \<and> pipe_wf p s' \<and> pipe_list p s' = drop n (pipe_list p s) \<and>
    fs_mem s' = overlay buf (min n (length (pipe_list p s))) (\<lambda>i. pipe_list p s ! i) (fs_mem s)"
proof -
  have ne: "\<not> PIPE_EMPTY (inode_table s p)" using pipe_empty [OF assms(1)] assms(2) by simp
  then have w: "wait_pipe p s e = Ok True s e" unfolding wait_pipe_def by (intro loopX_done) simp
  have "0 + length (pipe_list p s) < 2 ^ 32" using unsigned_less [of "PIPE_SIZE (inode_table s p)"] by (simp add: length_pipe [OF assms(1)])
  from read_pipe_loop_run [OF assms(1) this, of n buf] show ?thesis using w by (auto simp: read_pipe_def)
qed

section \<open>A concrete pipe\<close>

text \<open>Inode 2 of \<open>ex_fs\<close> made a pipe with the byte 7 in it.\<close>

definition ex_pipe :: fs where
  "ex_pipe = (let s = upd_inode 2 (\<lambda>m. m\<lparr>i_count := 2, i_pipe := 1, i_size := 0x20000\<rparr>) ex_fs in set_pipe 2 (pipe_put 7 (the_pipe 2 s)) s)"

lemma ex_pipe_wf: "pipe_wf 2 ex_pipe" "i_count (inode_table ex_pipe 2) = 2" "pipe_list 2 ex_pipe = [7]"
proof -
  let ?s = "upd_inode 2 (\<lambda>m. m\<lparr>i_count := 2, i_pipe := 1, i_size := 0x20000\<rparr>) ex_fs"
  have m: "inode_table ?s 2 = zero_inode\<lparr>i_count := 2, i_pipe := 1, i_size := 0x20000\<rparr>" by (simp add: upd_inode_def ex_fs_tables)
  have w: "pipe_wf 2 ?s" "pipe_list 2 ?s = []" "i_count (inode_table ?s 2) = 2"
    by (simp_all add: pipe_wf_def pipe_list_def PIPE_HEAD_def PIPE_TAIL_def PIPE_SIZE_def m Let_def) (simp_all add: zero_inode_def)
  then show "pipe_wf 2 ex_pipe" "i_count (inode_table ex_pipe 2) = 2" "pipe_list 2 ex_pipe = [7]"
    using put_pipe [OF w(1), of 7] by (simp_all add: ex_pipe_def Let_def)
qed

theorem write_pipe_appends_witness:
  "pipe_wf 2 ex_pipe \<and> (\<exists>s'. write_pipe 2 0x100 (int 3) ex_pipe [] = Ok (int 3) s' [] \<and>
     pipe_list 2 s' = [7] @ map (\<lambda>i. fs_mem ex_pipe (0x100 + of_nat i)) [0..<3])"
  using write_pipe_appends [of 2 ex_pipe 3 "0x100" "[]"] by (auto simp: ex_pipe_wf)

theorem read_pipe_takes_witness:
  "pipe_wf 2 ex_pipe \<and> (\<exists>s'. read_pipe 2 0x100 (int 3) ex_pipe [] = Ok 1 s' [] \<and> pipe_list 2 s' = [])"
  using read_pipe_takes [of 2 ex_pipe "0x100" 3 "[]"] by (auto simp: ex_pipe_wf)

end
