(* ===== verification/Vsprintf.thy ===== *)
theory Vsprintf
  imports Kernel_Prelude
begin

text \<open>
  The formatting of kernel messages, \<^verbatim>\<open>src/kernel/vsprintf.c\<close>. The output buffer is the list of characters written so far. The variable arguments are the
  list of 32-bit words on the stack; \<open>S\<close> gives the string at an address. A read past the arguments is an error, the value \<open>None\<close>.
\<close>

section \<open>Numbers\<close>

definition is_digit :: "char \<Rightarrow> bool" where
  "is_digit c \<longleftrightarrow> 48 \<le> (of_char c :: nat) \<and> (of_char c :: nat) \<le> 57"

text \<open>\<^verbatim>\<open>skip_atoi\<close>: the value of the digits at the front, and what follows them.\<close>

fun atoi_loop :: "int \<Rightarrow> string \<Rightarrow> int \<times> string" where
  "atoi_loop i [] = (i, [])"
| "atoi_loop i (c # cs) = (if is_digit c then atoi_loop (wrap32 (i * 10 + of_char c - 48)) cs else (i, c # cs))"

definition skip_atoi :: "string \<Rightarrow> int \<times> string" where
  "skip_atoi cs = atoi_loop 0 cs"

definition ZEROPAD :: u32 where "ZEROPAD = 1"
definition SIGN :: u32 where "SIGN = 2"
definition PLUS :: u32 where "PLUS = 4"
definition SPACE :: u32 where "SPACE = 8"
definition LEFT_JUST :: u32 where "LEFT_JUST = 16"
definition SPECIAL :: u32 where "SPECIAL = 32"
definition SMALL :: u32 where "SMALL = 64"

abbreviation on :: "u32 \<Rightarrow> u32 \<Rightarrow> bool" where
  "on fl b \<equiv> fl AND b \<noteq> 0"

text \<open>The digits of \<open>n\<close>, the lowest first: the loop with \<^verbatim>\<open>do_div\<close>, which divides unsigned.\<close>

function num_digits :: "nat \<Rightarrow> nat \<Rightarrow> nat list" where
  "num_digits base n = (if base < 2 \<or> n = 0 then [] else (n mod base) # num_digits base (n div base))"
  by pat_completeness auto
termination
  by (relation "measure snd") auto

declare num_digits.simps [simp del]

definition upper_digits :: string where "upper_digits = ''0123456789ABCDEFGHIJKLMNOPQRSTUVWXYZ''"
definition lower_digits :: string where "lower_digits = ''0123456789abcdefghijklmnopqrstuvwxyz''"

text \<open>What is left of \<^verbatim>\<open>size\<close> after a loop \<^verbatim>\<open>while(size-->0)\<close>.\<close>

definition drained :: "int \<Rightarrow> int" where
  "drained sz = (if 0 < sz then - 1 else wrap32 (sz - 1))"

definition spaces :: "int \<Rightarrow> char \<Rightarrow> string" where
  "spaces n c = replicate (nat n) c"

text \<open>\<^verbatim>\<open>number\<close>: the characters written, \<open>None\<close> for the null pointer it returns when the base is out of range.\<close>

definition number :: "u32 \<Rightarrow> nat \<Rightarrow> int \<Rightarrow> int \<Rightarrow> u32 \<Rightarrow> string option" where
  "number num0 base size0 precision0 type0 =
     (let digits = (if on type0 SMALL then lower_digits else upper_digits);
          type = (if on type0 LEFT_JUST then type0 AND NOT ZEROPAD else type0) in
      if base < 2 \<or> base > 36 then None
      else let c = (if on type ZEROPAD then CHR ''0'' else CHR '' '');
               neg = (on type SIGN \<and> sint num0 < 0);
               num = (if neg then - num0 else num0);
               sgn = (if neg then ''-'' else if on type PLUS then ''+'' else if on type SPACE then '' '' else '''');
               size1 = (if sgn \<noteq> '''' then wrap32 (size0 - 1) else size0);
               size2 = (if on type SPECIAL then (if base = 16 then wrap32 (size1 - 2) else if base = 8 then wrap32 (size1 - 1) else size1) else size1);
               tmp = (if num = 0 then ''0'' else map (\<lambda>d. digits ! d) (num_digits base (unat num)));
               precision = max precision0 (int (length tmp));
               size3 = wrap32 (size2 - precision);
               fst_pad = \<not> on type (ZEROPAD + LEFT_JUST);
               size4 = (if fst_pad then drained size3 else size3);
               snd_pad = \<not> on type LEFT_JUST;
               size5 = (if snd_pad then drained size4 else size4)
           in Some ((if fst_pad then spaces size3 CHR '' '' else '''') @ sgn @
                (if on type SPECIAL then (if base = 8 then ''0'' else if base = 16 then [CHR ''0'', digits ! 33] else '''') else '''') @
                (if snd_pad then spaces size4 c else '''') @
                spaces (precision - int (length tmp)) CHR ''0'' @ rev tmp @ spaces size5 CHR '' ''))"

section \<open>Format strings\<close>

text \<open>The state of \<^verbatim>\<open>vsprintf\<close>: the output, the arguments left, and the values stored through \<^verbatim>\<open>%n\<close>.\<close>

record vs =
  out :: string
  args :: "u32 list"
  stores :: "(u32 \<times> int) list"

definition emit :: "string \<Rightarrow> vs \<Rightarrow> vs" where
  "emit cs v = v\<lparr>out := out v @ cs\<rparr>"

definition va_arg :: "vs \<Rightarrow> (u32 \<times> vs) option" where
  "va_arg v = (case args v of [] \<Rightarrow> None | a # as \<Rightarrow> Some (a, v\<lparr>args := as\<rparr>))"

text \<open>The flags after the \<^verbatim>\<open>%\<close>.\<close>

fun parse_flags :: "u32 \<Rightarrow> string \<Rightarrow> u32 \<times> string" where
  "parse_flags fl [] = (fl, [])"
| "parse_flags fl (c # cs) =
     (if c = CHR ''-'' then parse_flags (fl OR LEFT_JUST) cs
      else if c = CHR ''+'' then parse_flags (fl OR PLUS) cs
      else if c = CHR '' '' then parse_flags (fl OR SPACE) cs
      else if c = CHR ''#'' then parse_flags (fl OR SPECIAL) cs
      else if c = CHR ''0'' then parse_flags (fl OR ZEROPAD) cs
      else (fl, c # cs))"

text \<open>The field width: its value, the flags, the rest of the format and the state.\<close>

definition parse_width :: "u32 \<Rightarrow> string \<Rightarrow> vs \<Rightarrow> (int \<times> u32 \<times> string \<times> vs) option" where
  "parse_width fl cs v = (case cs of
     [] \<Rightarrow> Some (- 1, fl, cs, v)
   | c # cs' \<Rightarrow>
       if is_digit c then let (w, rest) = skip_atoi cs in Some (w, fl, rest, v)
       else if c = CHR ''*'' then
         (case va_arg v of None \<Rightarrow> None
          | Some (a, v') \<Rightarrow> Some (if sint a < 0 then (wrap32 (- sint a), fl OR LEFT_JUST, cs, v') else (sint a, fl, cs, v')))
       else Some (- 1, fl, cs, v))"

definition parse_precision :: "string \<Rightarrow> vs \<Rightarrow> (int \<times> string \<times> vs) option" where
  "parse_precision cs v = (case cs of
     c # cs' \<Rightarrow>
       if c = CHR ''.'' then
         (case cs' of
            d # cs'' \<Rightarrow>
              if is_digit d then let (p, rest) = skip_atoi cs' in Some (max p 0, rest, v)
              else if d = CHR ''*'' then (case va_arg v of None \<Rightarrow> None | Some (a, v') \<Rightarrow> Some (max (sint a) 0, cs', v'))
              else Some (0, cs', v)
          | [] \<Rightarrow> Some (0, [], v))
       else Some (- 1, cs, v)
   | [] \<Rightarrow> Some (- 1, [], v))"

definition skip_qualifier :: "string \<Rightarrow> string" where
  "skip_qualifier cs = (case cs of c # cs' \<Rightarrow> if c \<in> {CHR ''h'', CHR ''l'', CHR ''L''} then cs' else cs | [] \<Rightarrow> [])"

definition put_number :: "nat \<Rightarrow> int \<Rightarrow> int \<Rightarrow> u32 \<Rightarrow> vs \<Rightarrow> vs option" where
  "put_number base width precision fl v =
     (case va_arg v of None \<Rightarrow> None
      | Some (a, v') \<Rightarrow> map_option (\<lambda>cs. emit cs v') (number a base width precision fl))"

text \<open>The conversion characters that take an argument.\<close>

definition convert :: "(u32 \<Rightarrow> string) \<Rightarrow> char \<Rightarrow> u32 \<Rightarrow> int \<Rightarrow> int \<Rightarrow> vs \<Rightarrow> vs option" where
  "convert S c fl width precision v =
     (if c = CHR ''c'' then
        (case va_arg v of None \<Rightarrow> None
         | Some (a, v') \<Rightarrow>
             Some (if on fl LEFT_JUST then emit ([char_of (unat a)] @ spaces (wrap32 (width - 1)) CHR '' '') v'
                   else emit (spaces (wrap32 (width - 1)) CHR '' '' @ [char_of (unat a)]) v'))
      else if c = CHR ''s'' then
        (case va_arg v of None \<Rightarrow> None
         | Some (a, v') \<Rightarrow>
             let len = (if precision < 0 then int (length (S a)) else min (int (length (S a))) precision)
             in Some (if on fl LEFT_JUST then emit (take (nat len) (S a) @ spaces (width - len) CHR '' '') v'
                      else emit (spaces (width - len) CHR '' '' @ take (nat len) (S a)) v'))
      else if c = CHR ''o'' then put_number 8 width precision fl v
      else if c = CHR ''p'' then
        (if width = - 1 then put_number 16 8 precision (fl OR ZEROPAD) v else put_number 16 width precision fl v)
      else if c = CHR ''x'' then put_number 16 width precision (fl OR SMALL) v
      else if c = CHR ''X'' then put_number 16 width precision fl v
      else if c = CHR ''d'' \<or> c = CHR ''i'' then put_number 10 width precision (fl OR SIGN) v
      else if c = CHR ''u'' then put_number 10 width precision fl v
      else if c = CHR ''n'' then
        (case va_arg v of None \<Rightarrow> None | Some (a, v') \<Rightarrow> Some (v'\<lparr>stores := stores v' @ [(a, int (length (out v)))]\<rparr>))
      else Some (emit (if c = CHR ''%'' then ''%'' else [CHR ''%'', c]) v))"

text \<open>
  A conversion specification from behind its \<^verbatim>\<open>%\<close>: the rest of the format and the state. A \<^verbatim>\<open>*\<close> is not skipped: it is then taken for the conversion character.
\<close>

definition vspec :: "(u32 \<Rightarrow> string) \<Rightarrow> string \<Rightarrow> vs \<Rightarrow> (string \<times> vs) option" where
  "vspec S cs v =
     (let (fl, cs1) = parse_flags 0 cs in
      case parse_width fl cs1 v of None \<Rightarrow> None
      | Some (width, fl, cs2, v2) \<Rightarrow>
          (case parse_precision cs2 v2 of None \<Rightarrow> None
           | Some (precision, cs3, v3) \<Rightarrow>
               (case skip_qualifier cs3 of
                  [] \<Rightarrow> Some ([], emit ''%'' v3)
                | c # cs4 \<Rightarrow> map_option (\<lambda>v4. (cs4, v4)) (convert S c fl width precision v3))))"

lemma length_flags: "length (snd (parse_flags fl cs)) \<le> length cs"
  by (induction fl cs rule: parse_flags.induct) auto

lemma length_atoi: "length (snd (atoi_loop i cs)) \<le> length cs"
  by (induction i cs rule: atoi_loop.induct) auto

lemma length_width: "parse_width fl cs v = Some (w, fl', cs', v') \<Longrightarrow> length cs' \<le> length cs"
  using length_atoi [of 0 cs]
  by (auto simp: parse_width_def skip_atoi_def split: list.splits if_splits option.splits prod.splits)

lemma length_precision: "parse_precision cs v = Some (p, cs', v') \<Longrightarrow> length cs' \<le> length cs"
  using length_atoi [of 0 "tl cs"]
  by (auto simp: parse_precision_def skip_atoi_def split: list.splits if_splits option.splits prod.splits)

lemma length_vspec: "vspec S cs v = Some (cs', v') \<Longrightarrow> length cs' \<le> length cs"
proof -
  assume a: "vspec S cs v = Some (cs', v')"
  obtain fl cs1 where 1: "parse_flags 0 cs = (fl, cs1)" by fastforce
  obtain w fl2 cs2 v2 where 2: "parse_width fl cs1 v = Some (w, fl2, cs2, v2)"
    using a 1 by (auto simp: vspec_def split: option.splits)
  obtain p cs3 v3 where 3: "parse_precision cs2 v2 = Some (p, cs3, v3)"
    using a 1 2 by (auto simp: vspec_def split: option.splits)
  have "length cs' \<le> length cs3"
    using a 1 2 3 by (auto simp: vspec_def skip_qualifier_def split: list.splits if_splits)
  then show ?thesis
    using length_flags [of 0 cs] length_width [OF 2] length_precision [OF 3] 1 by simp
qed

function vformat :: "(u32 \<Rightarrow> string) \<Rightarrow> string \<Rightarrow> vs \<Rightarrow> vs option" where
  "vformat S [] v = Some v"
| "vformat S (c # cs) v =
     (if c \<noteq> CHR ''%'' then vformat S cs (emit [c] v)
      else case vspec S cs v of None \<Rightarrow> None | Some (cs', v') \<Rightarrow> vformat S cs' v')"
  by pat_completeness auto
termination
  by (relation "measure (\<lambda>(S, cs, v). length cs)") (auto dest: length_vspec)

text \<open>\<^verbatim>\<open>vsprintf\<close>: its result, the buffer, and what \<^verbatim>\<open>%n\<close> stored.\<close>

definition vsprintf :: "(u32 \<Rightarrow> string) \<Rightarrow> string \<Rightarrow> u32 list \<Rightarrow> (int \<times> string \<times> (u32 \<times> int) list) option" where
  "vsprintf S fmt as =
     map_option (\<lambda>v. (int (length (out v)), out v, stores v)) (vformat S fmt \<lparr>out = [], args = as, stores = []\<rparr>)"

end
