(* ===== verification/Vsprintf_Props.thy ===== *)
theory Vsprintf_Props
  imports Vsprintf
begin

text \<open>
  The numbers \<^verbatim>\<open>vsprintf\<close> prints: in every base and with every flag they read back as the value printed, the field has the width asked for, and the buffer for the
  digits never overflows.
\<close>

section \<open>Digits\<close>

fun digits_value :: "nat \<Rightarrow> nat list \<Rightarrow> nat" where
  "digits_value base [] = 0"
| "digits_value base (d # ds) = d + base * digits_value base ds"

lemma num_digits_value: "2 \<le> base \<Longrightarrow> digits_value base (num_digits base n) = n"
  by (induction base n rule: num_digits.induct) (subst num_digits.simps, simp)

lemma num_digits_less: "2 \<le> base \<Longrightarrow> d \<in> set (num_digits base n) \<Longrightarrow> d < base"
proof (induction base n rule: num_digits.induct)
  case (1 base n)
  then show ?case by (subst (asm) (2) num_digits.simps) (auto split: if_splits)
qed

text \<open>The last digit is not 0, and the number of digits is the one that the value needs in the base.\<close>

lemma num_digits_last: "2 \<le> base \<Longrightarrow> n \<noteq> 0 \<Longrightarrow> num_digits base n \<noteq> [] \<and> last (num_digits base n) \<noteq> 0"
proof (induction base n rule: num_digits.induct)
  case (1 base n)
  have e: "num_digits base n = n mod base # num_digits base (n div base)" using 1(2,3) by (subst num_digits.simps) simp
  show ?case
  proof (cases "n div base = 0")
    case True
    then have "num_digits base (n div base) = []" by (subst num_digits.simps) simp
    moreover have "n mod base = n" using True 1(2) by (simp add: div_eq_0_iff)
    ultimately show ?thesis using e 1(3) by simp
  next
    case False
    then show ?thesis using 1 e by simp
  qed
qed

lemma num_digits_length:
  assumes "2 \<le> base" "n < base ^ k" "0 < k" "k = 1 \<or> base ^ (k - 1) \<le> n" "n \<noteq> 0"
  shows "length (num_digits base n) = k"
  using assms
proof (induction k arbitrary: n)
  case (Suc k)
  have e: "num_digits base n = n mod base # num_digits base (n div base)" using Suc.prems(1,5) by (subst num_digits.simps) simp
  show ?case
  proof (cases "k = 0")
    case True
    then have "n div base = 0" using Suc.prems(1,2) by simp
    then have "num_digits base (n div base) = []" by (subst num_digits.simps) simp
    then show ?thesis using e True by simp
  next
    case False
    have b: "0 < base" using Suc.prems(1) by simp
    have low: "base ^ k \<le> n" using Suc.prems(4) False by simp
    have "n div base < base ^ k" using Suc.prems(2) b by (simp add: div_less_iff_less_mult mult.commute)
    moreover have p: "base ^ (k - 1) \<le> n div base"
    proof -
      have "base ^ (k - 1) * base = base ^ k" using False by (cases k) simp_all
      then show ?thesis using low b by (simp add: less_eq_div_iff_mult_less_eq)
    qed
    moreover have "n div base \<noteq> 0" using p b by (metis le_zero_eq power_not_zero neq0_conv)
    ultimately show ?thesis using Suc.IH [of "n div base"] Suc.prems(1) False e by simp
  qed
qed simp

lemma num_digits_fit:
  assumes "2 \<le> base" "base ^ (k - 1) \<le> unat (n :: u32)"
  shows "k \<le> 32"
proof (rule ccontr)
  assume "\<not> k \<le> 32"
  then have "(2 :: nat) ^ 32 \<le> 2 ^ (k - 1)" by (intro power_increasing) auto
  also have "\<dots> \<le> base ^ (k - 1)" using assms(1) by (rule power_mono) simp
  also have "\<dots> < 2 ^ 32" using order_le_less_trans [OF assms(2) unsigned_less] by simp
  finally show False by simp
qed

section \<open>The parts of a printed number\<close>

text \<open>
  What the flags ask for: the sign, the prefix, and the value whose digits are printed, which for a signed conversion is the absolute value and otherwise the number
  read as unsigned.
\<close>

definition sign_of :: "u32 \<Rightarrow> u32 \<Rightarrow> string" where
  "sign_of n ty = (if on ty SIGN \<and> sint n < 0 then ''-'' else if on ty PLUS then ''+'' else if on ty SPACE then '' '' else [])"

definition prefix_of :: "nat \<Rightarrow> u32 \<Rightarrow> string" where
  "prefix_of base ty =
     (if \<not> on ty SPECIAL then [] else if base = 8 then ''0'' else if base = 16 then (if on ty SMALL then ''0x'' else ''0X'') else [])"

definition value_of :: "u32 \<Rightarrow> u32 \<Rightarrow> nat" where
  "value_of n ty = (if on ty SIGN \<and> sint n < 0 then nat (- sint n) else unat n)"

abbreviation digit_chars :: "u32 \<Rightarrow> string" where
  "digit_chars ty \<equiv> (if on ty SMALL then lower_digits else upper_digits)"

definition tmp_of :: "nat \<Rightarrow> nat \<Rightarrow> string \<Rightarrow> string" where
  "tmp_of base v digits = (if v = 0 then ''0'' else map (\<lambda>d. digits ! d) (num_digits base v))"

lemma length_spaces [simp]: "length (spaces n c) = nat n"
  by (simp add: spaces_def)

lemma on_both: "on w (ZEROPAD + LEFT_JUST) \<longleftrightarrow> on w ZEROPAD \<or> on w LEFT_JUST"
proof -
  have "w AND 17 = (w AND 1) OR (w AND 16)" by (simp flip: bit.conj_disj_distrib)
  then show ?thesis by (simp add: ZEROPAD_def LEFT_JUST_def or_eq_0_iff)
qed

lemma on_not_zeropad: "on (w AND NOT ZEROPAD) b \<longleftrightarrow> on w b" if "NOT ZEROPAD AND b = b"
  using that by (simp add: and.assoc)

lemma flags_not_zeropad:
  "NOT ZEROPAD AND SIGN = SIGN" "NOT ZEROPAD AND PLUS = PLUS" "NOT ZEROPAD AND SPACE = SPACE" "NOT ZEROPAD AND LEFT_JUST = LEFT_JUST"
  "NOT ZEROPAD AND SPECIAL = SPECIAL" "NOT ZEROPAD AND SMALL = SMALL"
  by (simp_all add: ZEROPAD_def SIGN_def PLUS_def SPACE_def LEFT_JUST_def SPECIAL_def SMALL_def)

lemma value_of_unat: "unat (if on ty SIGN \<and> sint n < 0 then - n else n) = value_of n ty"
proof (cases "on ty SIGN \<and> sint n < 0")
  case True
  have r: "- (2 ^ 31) \<le> sint n" using sint_range_size [of n] by (simp add: word_size)
  have "- n = word_of_int (- sint n)" by simp
  then have "uint (- n) = - sint n mod 2 ^ 32" by (simp only: uint_word_of_int) simp
  then have "uint (- n) = - sint n" using True r by simp
  then have "unat (- n) = nat (- sint n)" by (simp flip: nat_uint_eq)
  then show ?thesis using True by (simp add: value_of_def)
qed (auto simp: value_of_def)

lemma length_parts: "length (sign_of n ty) \<le> 1" "length (prefix_of base ty) \<le> 2"
  by (simp_all add: sign_of_def prefix_of_def)

lemma digit_33: "digit_chars ty ! 33 = (if on ty SMALL then CHR ''x'' else CHR ''X'')"
  by (simp add: upper_digits_def lower_digits_def)

text \<open>A width and a precision for which the arithmetic of \<^verbatim>\<open>number\<close> on them stays in range.\<close>

definition field_ok :: "int \<Rightarrow> int \<Rightarrow> bool" where
  "field_ok width precision \<longleftrightarrow> in_range32 width \<and> in_range32 precision \<and> in_range32 (width - max precision 32 - 5)"

text \<open>The three loops that pad a field put out, together, what is missing to its width, and each of them where it should.\<close>

lemma number_shape:
  assumes "2 \<le> base" "base \<le> 36" and ok: "field_ok width precision"
    and tmp: "tmp = tmp_of base (value_of n type) (digit_chars type)" "length tmp \<le> 32"
    and P: "P = max precision (int (length tmp))" and z: "z = width - int (length (sign_of n type)) - int (length (prefix_of base type)) - P"
  shows "number n base width precision type = Some
    ((if on type LEFT_JUST \<or> on type ZEROPAD then [] else spaces z CHR '' '') @ sign_of n type @ prefix_of base type @
     (if on type ZEROPAD \<and> \<not> on type LEFT_JUST then spaces z CHR ''0'' else []) @ spaces (P - int (length tmp)) CHR ''0'' @ rev tmp @
     (if on type LEFT_JUST then spaces z CHR '' '' else []))"
proof -
  define ty where "ty = (if on type LEFT_JUST then type AND NOT ZEROPAD else type)"
  have fl: "on ty SIGN = on type SIGN" "on ty PLUS = on type PLUS" "on ty SPACE = on type SPACE" "on ty LEFT_JUST = on type LEFT_JUST"
    "on ty SPECIAL = on type SPECIAL" "on ty ZEROPAD \<longleftrightarrow> on type ZEROPAD \<and> \<not> on type LEFT_JUST"
    by (simp_all add: ty_def on_not_zeropad flags_not_zeropad and.assoc)
  define sg pf where "sg = sign_of n type" and "pf = prefix_of base type"
  have len: "length sg \<le> 1" "length pf \<le> 2" using length_parts by (simp_all add: sg_def pf_def)
  have rng: "- (2 ^ 31) \<le> width - max precision 32 - 5" "width < 2 ^ 31" "precision < 2 ^ 31" using ok by (auto simp: field_ok_def in_range32_def)
  then have w: "in_range32 (width - 1)" "in_range32 (width - i - 2)" "in_range32 (width - i - 1)" if "0 \<le> i" "i \<le> 1" for i
    using that by (auto simp: in_range32_def)
  have s1: "(if sg \<noteq> [] then wrap32 (width - 1) else width) = width - int (length sg)" using w(1) [of 0] by (simp add: sg_def sign_of_def)
  have s2: "(if on type SPECIAL then (if base = 16 then wrap32 (width - int (length sg) - 2) else if base = 8 then wrap32 (width - int (length sg) - 1)
      else width - int (length sg)) else width - int (length sg)) = width - int (length sg) - int (length pf)"
    using w(2,3) [of "int (length sg)"] len(1) by (simp add: pf_def prefix_of_def)
  have pm: "0 \<le> P" "P \<le> max precision 32" using tmp(2) by (auto simp: P)
  then have zr: "in_range32 z" "in_range32 (z - 1)" "in_range32 (z - 1 - 1)"
    using rng len unfolding z sg_def [symmetric] pf_def [symmetric] by (auto simp: in_range32_def)
  have s3: "wrap32 (width - int (length sg) - int (length pf) - P) = z" using zr(1) by (simp add: z sg_def pf_def)
  have w2: "wrap32 (- 2) = - 2" by (simp add: in_range32_def)
  have d: "spaces (drained z) c = []" "spaces (drained (drained z)) c = []" for c
    using zr w2 by (simp_all add: drained_def spaces_def)
  have u: "(if m = 0 then ''0'' else map (\<lambda>d. digits ! d) (num_digits base (unat m))) = tmp_of base (unat m) digits" for m :: u32 and digits
    by (simp add: tmp_of_def unat_eq_zero)
  have vt: "value_of n ty = value_of n type" by (simp add: value_of_def fl)
  have sgn: "(if on type SIGN \<and> sint n < 0 then ''-'' else if on type PLUS then ''+'' else if on type SPACE then '' '' else '''') = sg"
    by (simp add: sg_def sign_of_def)
  have pre: "(if on type SPECIAL then (if base = 8 then ''0'' else if base = 16 then [CHR ''0'', digit_chars type ! 33] else '''') else '''') = pf"
    unfolding digit_33 by (simp add: pf_def prefix_of_def)
  show ?thesis
    unfolding number_def Let_def ty_def [symmetric] fl on_both sgn u value_of_unat vt tmp(1) [symmetric] P [symmetric] s1 s2 s3 pre
      sg_def [symmetric] pf_def [symmetric]
    using assms(1,2) d by (auto simp: spaces_def)
qed

section \<open>Reading back\<close>

text \<open>A reader that knows nothing of the printer: the value of a string of digits of a base, with letters of one case from ten on.\<close>

definition digit_of :: "bool \<Rightarrow> char \<Rightarrow> nat option" where
  "digit_of small c = (let a = of_char c :: nat in
     if 48 \<le> a \<and> a \<le> 57 then Some (a - 48)
     else if small \<and> 97 \<le> a \<and> a \<le> 122 then Some (a - 97 + 10)
     else if \<not> small \<and> 65 \<le> a \<and> a \<le> 90 then Some (a - 65 + 10) else None)"

fun read_digits :: "bool \<Rightarrow> nat \<Rightarrow> nat \<Rightarrow> string \<Rightarrow> nat option" where
  "read_digits small base v [] = Some v"
| "read_digits small base v (c # cs) =
     (case digit_of small c of None \<Rightarrow> None | Some d \<Rightarrow> if d < base then read_digits small base (v * base + d) cs else None)"

lemma read_digits_append:
  "read_digits small base v (cs @ ds) = (case read_digits small base v cs of None \<Rightarrow> None | Some w \<Rightarrow> read_digits small base w ds)"
  by (induction cs arbitrary: v) (auto split: option.split)

lemma digit_of_char: "d < 36 \<Longrightarrow> digit_of True (lower_digits ! d) = Some d" "d < 36 \<Longrightarrow> digit_of False (upper_digits ! d) = Some d"
proof -
  have m: "map (digit_of True) lower_digits = map Some [0..<36]" "map (digit_of False) upper_digits = map Some [0..<36]"
    by (simp_all add: lower_digits_def upper_digits_def digit_of_def upt_conv_Cons)
  have l: "length lower_digits = 36" "length upper_digits = 36" by (simp_all add: lower_digits_def upper_digits_def)
  show "digit_of True (lower_digits ! d) = Some d" if "d < 36"
    using arg_cong [OF m(1), of "\<lambda>xs. xs ! d"] that l by simp
  show "digit_of False (upper_digits ! d) = Some d" if "d < 36"
    using arg_cong [OF m(2), of "\<lambda>xs. xs ! d"] that l by simp
qed

lemma digit_of_chars: "d < 36 \<Longrightarrow> digit_of (on ty SMALL) (digit_chars ty ! d) = Some d"
  using digit_of_char by simp

lemma read_num_digits:
  assumes "list_all (\<lambda>d. d < base) ds" "base \<le> 36"
  shows "read_digits (on ty SMALL) base 0 (rev (map (\<lambda>d. digit_chars ty ! d) ds)) = Some (digits_value base ds)"
  using assms(1)
proof (induction ds)
  case (Cons d ds)
  then show ?case using digit_of_chars [of d ty] assms(2) by (simp add: read_digits_append mult.commute add.commute)
qed simp

lemma digit_0: "d < 36 \<Longrightarrow> digit_chars ty ! d = CHR ''0'' \<longleftrightarrow> d = 0"
proof
  assume "d < 36" "digit_chars ty ! d = CHR ''0''"
  then have "digit_of (on ty SMALL) CHR ''0'' = Some d" using digit_of_chars [of d ty] by simp
  then show "d = 0" by (simp add: digit_of_def)
qed (simp add: upper_digits_def lower_digits_def)

lemma tmp_reads_back:
  assumes "2 \<le> base" "base \<le> 36"
  shows "read_digits (on ty SMALL) base 0 (rev (tmp_of base v (digit_chars ty))) = Some v"
    and "rev (tmp_of base v (digit_chars ty)) = ''0'' \<or> hd (rev (tmp_of base v (digit_chars ty))) \<noteq> CHR ''0''"
proof -
  have all: "list_all (\<lambda>d. d < base) (num_digits base v)" using num_digits_less [OF assms(1)] by (auto simp: list_all_iff)
  show "read_digits (on ty SMALL) base 0 (rev (tmp_of base v (digit_chars ty))) = Some v"
    using read_num_digits [OF all assms(2), of ty] num_digits_value [OF assms(1), of v] assms(1)
    by (simp add: tmp_of_def digit_of_def)
  show "rev (tmp_of base v (digit_chars ty)) = ''0'' \<or> hd (rev (tmp_of base v (digit_chars ty))) \<noteq> CHR ''0''"
  proof (cases "v = 0")
    case False
    then have l: "num_digits base v \<noteq> []" "last (num_digits base v) \<noteq> 0" using num_digits_last [OF assms(1)] by auto
    then have "last (num_digits base v) < 36" using num_digits_less [OF assms(1), of _ v] assms(2) last_in_set by fastforce
    then have "last (map (\<lambda>d. digit_chars ty ! d) (num_digits base v)) \<noteq> CHR ''0''" using digit_0 l by (simp add: last_map)
    then show ?thesis using False l(1) by (simp add: tmp_of_def hd_rev)
  qed (simp add: tmp_of_def)
qed

lemma tmp_length:
  assumes "2 \<le> base" "v = value_of n ty" "0 < k" "v < base ^ k" "k = 1 \<or> base ^ (k - 1) \<le> v"
  shows "length (tmp_of base v digits) = k" "k \<le> 32"
proof -
  have "base ^ (k - 1) \<le> unat (if on ty SIGN \<and> sint n < 0 then - n else n) \<or> k = 1" using assms(2,5) value_of_unat [of ty n] by auto
  then show "k \<le> 32" using num_digits_fit [OF assms(1)] by auto
  show "length (tmp_of base v digits) = k"
  proof (cases "v = 0")
    case True
    then have "k = 1" using assms(1,5) by auto
    then show ?thesis using True by (simp add: tmp_of_def)
  qed (use num_digits_length [OF assms(1,4,3,5)] in \<open>simp add: tmp_of_def\<close>)
qed

text \<open>Every value has such a number of digits.\<close>

lemma digit_count_ex:
  assumes "2 \<le> (base :: nat)"
  shows "\<exists>k. 0 < k \<and> v < base ^ k \<and> (k = 1 \<or> base ^ (k - 1) \<le> v)"
proof -
  have "v < 2 ^ v" by (rule less_exp)
  also have "(2 :: nat) ^ v \<le> base ^ v" using assms by (rule power_mono) simp
  also have "base ^ v \<le> base ^ Suc v" using assms by simp
  finally have "v < base ^ Suc v" .
  then obtain k where k: "v < base ^ Suc k" "\<forall>j<k. \<not> v < base ^ Suc j" using exists_least_iff [of "\<lambda>k. v < base ^ Suc k"] by blast
  then have "Suc k = 1 \<or> base ^ (Suc k - 1) \<le> v" using k(2) by (cases k) auto
  then show ?thesis using k(1) by blast
qed

text \<open>
  C37: whatever the base from 2 to 36, the flags, the width and the precision, \<^verbatim>\<open>number\<close> prints the number it was given: blanks, the sign and the prefix the
  flags ask for, zeros, the digits, and blanks again. The digits, of the case asked for and without a leading zero, read back in that base as the value: the
  absolute value for a signed conversion, the most negative number included, and the unsigned one otherwise. Without zero padding the zeros are those the precision
  asks for; a field that is left-justified has its blanks at the end, one padded with zeros has none, and any other has them at the beginning.
\<close>

theorem number_reads_back:
  assumes "2 \<le> base" "base \<le> 36" "field_ok width precision"
  shows "\<exists>l zs ds r. number n base width precision type = Some (l @ sign_of n type @ prefix_of base type @ zs @ ds @ r) \<and>
    read_digits (on type SMALL) base 0 ds = Some (value_of n type) \<and> (ds = ''0'' \<or> hd ds \<noteq> CHR ''0'') \<and>
    set l \<subseteq> {CHR '' ''} \<and> set r \<subseteq> {CHR '' ''} \<and> set zs \<subseteq> {CHR ''0''} \<and>
    (if on type LEFT_JUST then l = [] else r = []) \<and> (on type ZEROPAD \<longrightarrow> l = []) \<and>
    (if on type ZEROPAD \<and> \<not> on type LEFT_JUST then precision \<le> int (length (zs @ ds)) else int (length (zs @ ds)) = max precision (int (length ds)))"
proof -
  let ?v = "value_of n type" and ?c = "digit_chars type"
  define tmp where "tmp = tmp_of base ?v ?c"
  obtain k where k: "0 < k" "?v < base ^ k" "k = 1 \<or> base ^ (k - 1) \<le> ?v" using digit_count_ex [OF assms(1), of ?v] by (elim exE conjE)
  have l: "length tmp \<le> 32" using tmp_length [OF assms(1) refl k] by (simp add: tmp_def)
  define P where "P = max precision (int (length tmp))"
  define z where "z = width - int (length (sign_of n type)) - int (length (prefix_of base type)) - P"
  note shape = number_shape [OF assms tmp_def l P_def z_def]
  define l zs r where "l = (if on type LEFT_JUST \<or> on type ZEROPAD then [] else spaces z CHR '' '')"
    and "zs = (if on type ZEROPAD \<and> \<not> on type LEFT_JUST then spaces z CHR ''0'' else []) @ spaces (P - int (length tmp)) CHR ''0''"
    and "r = (if on type LEFT_JUST then spaces z CHR '' '' else [])"
  have "number n base width precision type = Some (l @ sign_of n type @ prefix_of base type @ zs @ rev tmp @ r)"
    using shape by (simp only: l_def zs_def r_def append_assoc)
  moreover have "set (spaces m c) \<subseteq> {c}" for m c by (auto simp: spaces_def)
  then have "set l \<subseteq> {CHR '' ''}" "set r \<subseteq> {CHR '' ''}" "set zs \<subseteq> {CHR ''0''}" by (auto simp: l_def r_def zs_def)
  moreover have "if on type LEFT_JUST then l = [] else r = []" "on type ZEROPAD \<longrightarrow> l = []" by (simp_all add: l_def r_def)
  moreover have "if on type ZEROPAD \<and> \<not> on type LEFT_JUST then precision \<le> int (length (zs @ rev tmp))
      else int (length (zs @ rev tmp)) = max precision (int (length (rev tmp)))"
    by (simp add: zs_def P_def) linarith
  ultimately show ?thesis
    using tmp_reads_back [OF assms(1,2), where ty = type and v = ?v, folded tmp_def] by blast
qed

text \<open>\<^verbatim>\<open>%+d\<close> of the most negative number, and \<^verbatim>\<open>%#8x\<close> of 48879.\<close>

theorem number_reads_back_witness:
  "(\<exists>l ds. number 0x80000000 10 (- 1) (- 1) (SIGN OR PLUS) = Some (l @ ''-'' @ ds) \<and> set l \<subseteq> {CHR '' ''} \<and> read_digits False 10 0 ds = Some 2147483648) \<and>
   (\<exists>l ds. number 48879 16 8 (- 1) (SMALL OR SPECIAL) = Some (l @ ''0x'' @ ds) \<and> set l \<subseteq> {CHR '' ''} \<and> read_digits True 16 0 ds = Some 48879)"
proof -
  note defs = SIGN_def PLUS_def SMALL_def SPECIAL_def LEFT_JUST_def ZEROPAD_def SPACE_def sign_of_def prefix_of_def value_of_def
  have f: "field_ok (- 1) (- 1)" "field_ok 8 (- 1)" by (simp_all add: field_ok_def in_range32_def)
  have s: "sint (0x80000000 :: u32) = - 2147483648" by simp
  have "\<exists>l ds. number 0x80000000 10 (- 1) (- 1) (SIGN OR PLUS) = Some (l @ ''-'' @ ds) \<and> set l \<subseteq> {CHR '' ''} \<and> read_digits False 10 0 ds = Some 2147483648"
    using number_reads_back [of 10 "- 1" "- 1" "0x80000000" "SIGN OR PLUS"] f s by (auto simp: defs)
  moreover have "\<exists>l ds. number 48879 16 8 (- 1) (SMALL OR SPECIAL) = Some (l @ ''0x'' @ ds) \<and> set l \<subseteq> {CHR '' ''} \<and> read_digits True 16 0 ds = Some 48879"
    using number_reads_back [of 16 8 "- 1" 48879 "SMALL OR SPECIAL"] f by (auto simp: defs)
  ultimately show ?thesis by simp
qed

section \<open>Widths\<close>

text \<open>
  C38: \<^verbatim>\<open>number\<close> fills its field exactly: the length of what it writes is the width, or, when that is more, the length of the sign, the prefix and the digits, of
  which there are as many as the value needs in the base and at least as many as the precision says. The digits of a 32-bit number always fit into the local array
  of 36 characters.
\<close>

theorem number_width:
  assumes "2 \<le> base" "base \<le> 36" "field_ok width precision"
    and "v = value_of n type" "0 < k" "v < base ^ k" "k = 1 \<or> base ^ (k - 1) \<le> v"
  shows "\<exists>cs. number n base width precision type = Some cs \<and> k \<le> 36 \<and>
    int (length cs) = max width (int (length (sign_of n type) + length (prefix_of base type)) + max precision (int k))"
proof -
  define tmp where "tmp = tmp_of base (value_of n type) (digit_chars type)"
  have l: "length tmp = k" "k \<le> 32" using tmp_length [OF assms(1,4-7)] assms(4) by (simp_all add: tmp_def)
  define P where "P = max precision (int (length tmp))"
  define z where "z = width - int (length (sign_of n type)) - int (length (prefix_of base type)) - P"
  have "length tmp \<le> 32" using l by simp
  note shape = number_shape [OF assms(1-3) tmp_def this P_def z_def]
  let ?cs = "(if on type LEFT_JUST \<or> on type ZEROPAD then [] else spaces z CHR '' '') @ sign_of n type @ prefix_of base type @
     (if on type ZEROPAD \<and> \<not> on type LEFT_JUST then spaces z CHR ''0'' else []) @ spaces (P - int (length tmp)) CHR ''0'' @ rev tmp @
     (if on type LEFT_JUST then spaces z CHR '' '' else [])"
  have len: "length ?cs = nat z + length (sign_of n type) + length (prefix_of base type) + nat (P - int (length tmp)) + length tmp"
    by (cases "on type LEFT_JUST"; cases "on type ZEROPAD") simp_all
  have "int (nat z + length (sign_of n type) + length (prefix_of base type) + nat (P - int (length tmp)) + length tmp) =
      max width (int (length (sign_of n type) + length (prefix_of base type)) + max precision (int k))"
    unfolding z_def P_def l(1) by linarith
  then have "int (length ?cs) = max width (int (length (sign_of n type) + length (prefix_of base type)) + max precision (int k))" by (simp only: len)
  moreover have "k \<le> 36" using l(2) by simp
  ultimately show ?thesis using shape by blast
qed

text \<open>\<^verbatim>\<open>%#08x\<close> of 255 has a width of 8, \<^verbatim>\<open>%1.5d\<close> of -42 one of 6.\<close>

theorem number_width_witness:
  "(\<exists>cs. number 255 16 8 (- 1) (ZEROPAD OR SPECIAL) = Some cs \<and> length cs = 8) \<and> (\<exists>cs. number (- 42) 10 1 5 SIGN = Some cs \<and> length cs = 6)"
proof -
  note defs = SIGN_def PLUS_def SPECIAL_def SPACE_def SMALL_def ZEROPAD_def sign_of_def prefix_of_def value_of_def
  have f: "field_ok 8 (- 1)" "field_ok 1 5" by (simp_all add: field_ok_def in_range32_def)
  have "\<exists>cs. number 255 16 8 (- 1) (ZEROPAD OR SPECIAL) = Some cs \<and> length cs = 8"
    using number_width [of 16 8 "- 1" 255 255 "ZEROPAD OR SPECIAL" 2] f by (auto simp: defs)
  moreover have "\<exists>cs. number (- 42) 10 1 5 SIGN = Some cs \<and> length cs = 6"
    using number_width [of 10 1 5 42 "- 42" SIGN 2] f by (auto simp: defs)
  ultimately show ?thesis by simp
qed

section \<open>A field width from the arguments\<close>

text \<open>
  The width \<^verbatim>\<open>*\<close>, which means that the width is the next argument, does not work: the star is not skipped and is then taken for an unknown
  conversion, so \<^verbatim>\<open>%*d\<close> prints itself and the number is not printed.
\<close>

theorem vsprintf_star:
  "vsprintf S ''%*d'' (w # n # as) = Some (3, ''%*d'', [])"
  by (simp add: vsprintf_def vspec_def parse_width_def is_digit_def va_arg_def parse_precision_def skip_qualifier_def convert_def emit_def
      split: option.splits prod.splits)

end
