(* ===== verification/Sched_Live.thy ===== *)
theory Sched_Live
  imports Sched_Props
begin

text \<open>
  Progress of the scheduler: processes that compute in user mode are interrupted by the timer only, and each of them gets the processor again and again.
\<close>

section \<open>The machine under load\<close>

text \<open>
  A step of the whole machine: a timer interrupt in user mode. \<^verbatim>\<open>_timer_interrupt\<close> counts \<^verbatim>\<open>jiffies\<close> and calls \<^verbatim>\<open>do_timer\<close> with the privilege level
  of the interrupted code, other than 0. If it ends in \<^verbatim>\<open>switch_to\<close> another task,
  the machine goes on in the state in which that task is the current one.
\<close>

definition jiffy :: "'z sched_scheme \<Rightarrow> 'z sched_scheme" where
  "jiffy s = s\<lparr>jiffies := wrap32 (jiffies s + 1)\<rparr>"

inductive user_tick :: "'z sched_scheme \<Rightarrow> 'z sched_scheme \<Rightarrow> bool" where
  same: "do_timer 3 (jiffy s) [] = Ok () s' [] \<Longrightarrow> user_tick s s'"
| switched: "do_timer 3 (jiffy s) [] = Asleep s' \<Longrightarrow> user_tick s s'"

inductive_cases user_tickE: "user_tick s s'"

lemma user_tick_det: "user_tick s t \<Longrightarrow> user_tick s u \<Longrightarrow> t = u"
  by (elim user_tickE) simp_all

text \<open>Process \<open>p\<close> could run; another one has the processor.\<close>

definition waits :: "u32 \<Rightarrow> 'z sched_scheme \<Rightarrow> bool" where
  "waits p s \<longleftrightarrow> sched_ok s \<and> in_slot s (current s) \<and> in_slot s p \<and> t_state (tstruct s p) = TASK_RUNNING"

definition others :: "u32 \<Rightarrow> 'z sched_scheme \<Rightarrow> nat" where
  "others p s = (\<Sum>q\<in>{q. in_slot s q} - {p}. nat (t_counter (tstruct s q)))"

text \<open>Until \<open>p\<close> runs, a tick uses up a slice of another process, or refills the slice of \<open>p\<close>, or ends a slice of length 0.\<close>

definition patience :: "u32 \<Rightarrow> 'z sched_scheme \<Rightarrow> nat \<times> nat \<times> nat" where
  "patience p s = (of_bool (t_counter (tstruct s p) = 0), others p s, of_bool (t_counter (cur s) = 0))"

abbreviation sooner :: "((nat \<times> nat \<times> nat) \<times> nat \<times> nat \<times> nat) set" where
  "sooner \<equiv> less_than <*lex*> less_than <*lex*> less_than"

lemma finite_slots [simp]: "finite {q. in_slot s q}"
  by (rule finite_subset [of _ "task s ` {1..<64}"]) (auto simp: in_slot_def)

lemma others_cong:
  "task s' = task s \<Longrightarrow> (\<And>q. in_slot s q \<Longrightarrow> q \<noteq> p \<Longrightarrow> t_counter (tstruct s' q) = t_counter (tstruct s q)) \<Longrightarrow> others p s' = others p s"
  unfolding others_def by (rule sum.cong) (auto simp: in_slot_def)

lemma others_less:
  assumes "task s' = task s" "\<And>q. in_slot s q \<Longrightarrow> q \<noteq> p \<Longrightarrow> t_counter (tstruct s' q) \<le> t_counter (tstruct s q)"
    and c: "in_slot s c" "c \<noteq> p" "t_counter (tstruct s' c) < t_counter (tstruct s c)" "0 < t_counter (tstruct s c)"
  shows "others p s' < others p s"
proof -
  have "{q. in_slot s' q} = {q. in_slot s q}" using assms(1) by (simp add: in_slot_def)
  then show ?thesis
    unfolding others_def using assms by (simp, intro sum_strict_mono_ex1) (auto intro!: nat_mono bexI [of _ c])
qed

section \<open>One tick\<close>

text \<open>The tick before it calls \<^verbatim>\<open>schedule\<close>.\<close>

definition charged :: "'z sched_scheme \<Rightarrow> 'z sched_scheme" where
  "charged s = upd_cur (\<lambda>t. t\<lparr>t_utime := wrap32 (t_utime t + 1), t_counter := max 0 (t_counter t - 1)\<rparr>) (jiffy s)"

lemma charged_simps [simp]:
  "task (charged s) = task s" "current (charged s) = current s" "in_slot (charged s) = in_slot s" "q \<noteq> current s \<Longrightarrow> tstruct (charged s) q = tstruct s q"
  "t_state (tstruct (charged s) q) = t_state (tstruct s q)" "t_counter (tstruct (charged s) (current s)) = max 0 (t_counter (cur s) - 1)"
  by (auto simp: charged_def jiffy_def upd_cur_def upd_task_def in_slot_def)

lemma tick_charged:
  assumes ok: "sched_ok s" and me: "in_slot s (current s)"
  shows "sched_ok (charged s)" "do_timer 3 (jiffy s) e = (if 1 < t_counter (cur s) then Ok () (charged s) e else schedule (charged s) e)"
proof -
  have b: "0 \<le> t_counter (cur s)" "t_counter (cur s) \<le> 2 * t_priority (cur s)" "t_priority (cur s) < 2 ^ 30"
    using ok me by (auto simp: sched_ok_def)
  have w: "wrap32 (t_counter (cur s) - 1) = t_counter (cur s) - 1" using b by (intro wrap32_id) (auto simp: in_range32_def)
  show "sched_ok (charged s)"
    by (rule sched_ok_frame [OF ok]) (use b ok in \<open>auto simp: charged_def jiffy_def upd_cur_def upd_task_def sched_ok_def\<close>)
  show "do_timer 3 (jiffy s) e = (if 1 < t_counter (cur s) then Ok () (charged s) e else schedule (charged s) e)"
    using b(1) by (simp add: do_timer_def charged_def jiffy_def upd_cur_def upd_task_def w)
qed

text \<open>\<^verbatim>\<open>schedule\<close> refills the slices only if nobody who can run has any left.\<close>

lemma schedule_refills:
  assumes ok: "sched_ok s"
  obtains n s' where "\<And>e. schedule s e = switch_to n s' e" "sched_ok s'" "best s' n"
    "s' = check_alarms s \<or> s' = refill (check_alarms s) \<and> (\<forall>i. 1 \<le> i \<longrightarrow> i < 64 \<longrightarrow> runnable (check_alarms s) i \<longrightarrow> slice (check_alarms s) i \<le> 0)"
proof (cases "fst (pick_next (check_alarms s)) = 0")
  case False
  let ?c = "check_alarms s"
  have "schedule_loop ?c = Some (snd (pick_next ?c), ?c)" using False by (subst schedule_loop.simps) simp
  then show ?thesis using that [of "snd (pick_next ?c)" ?c] pick_done [OF sched_ok_check [OF ok] False] sched_ok_check [OF ok] by (simp add: schedule_def)
next
  case True
  then have z: "slice (check_alarms s) i \<le> 0" if "1 \<le> i" "i < 64" "runnable (check_alarms s) i" for i
    using that by (cases rule: pick_next_spec [of "check_alarms s"]) fastforce+
  show ?thesis by (rule schedule_run [OF ok]) (use that z in blast)
qed

lemma chosen_waits:
  assumes w: "in_slot s p" "t_state (tstruct s p) = TASK_RUNNING" and ok: "sched_ok s" and b: "best s n"
  shows "waits p (s\<lparr>current := task s n\<rparr>)" "0 < t_counter (tstruct s (task s n))"
proof -
  obtain i where i: "1 \<le> i" "i < 64" "task s i = p" "p \<noteq> 0" using w(1) by (auto simp: in_slot_def)
  then have "runnable s i" using w(2) by (simp add: runnable_def)
  then have n: "1 \<le> n" "n < 64" "runnable s n" "0 < slice s n" using b i by (auto simp: best_def)
  show "0 < t_counter (tstruct s (task s n))" using n(4) by (simp add: slice_def)
  have "in_slot s (task s n)" by (rule runnable_in_slot [OF n(3,1,2)])
  moreover have "in_slot (s\<lparr>current := c\<rparr>) = in_slot s" "slots_inj (s\<lparr>current := c\<rparr>) = slots_inj s" for c
    by (simp_all add: fun_eq_iff in_slot_def slots_inj_def)
  ultimately show "waits p (s\<lparr>current := task s n\<rparr>)" using w ok by (simp add: waits_def sched_ok_def)
qed

lemma running_kept:
  assumes "sched_ok s" "in_slot s p" "t_state (tstruct s p) = TASK_RUNNING"
  shows "t_state (tstruct (check_alarms s) p) = TASK_RUNNING" "t_state (tstruct (refill (check_alarms s)) p) = TASK_RUNNING"
    "\<And>q. t_counter (tstruct (check_alarms s) q) = t_counter (tstruct s q)" "task (check_alarms s) = task s" "task (refill (check_alarms s)) = task s"
    "current (check_alarms s) = current s"
proof -
  have i: "slots_inj s" "slots_inj (check_alarms s)" using assms(1) sched_ok_check [OF assms(1)] by (simp_all add: sched_ok_def)
  have c: "t_state (checked j t) = TASK_RUNNING" if "t_state t = TASK_RUNNING" for j t using that by (simp add: checked_def Let_def)
  show r: "t_state (tstruct (check_alarms s) p) = TASK_RUNNING" using assms(3) c by (simp add: check_alarms_state [OF i(1)])
  then show "t_state (tstruct (refill (check_alarms s)) p) = TASK_RUNNING" by (simp add: refill_state [OF i(2)])
  show "\<And>q. t_counter (tstruct (check_alarms s) q) = t_counter (tstruct s q)" "current (check_alarms s) = current s"
    and t: "task (check_alarms s) = task s"
    by (simp_all add: check_alarms_state [OF i(1)])
  show "task (refill (check_alarms s)) = task s" by (simp add: refill_state [OF i(2)] t)
qed

lemma patience_used:
  assumes w: "waits p s" and p: "current s \<noteq> p" and c: "t_counter (cur s) \<le> 1" and ts: "task s' = task s"
    and cn: "\<And>q. t_counter (tstruct s' q) = t_counter (tstruct (charged s) q)" and cur: "0 < t_counter (cur s')"
  shows "(patience p s', patience p s) \<in> sooner"
proof -
  have me: "in_slot s (current s)" and c0: "0 \<le> t_counter (cur s)" using w by (auto simp: waits_def sched_ok_def)
  have cp: "t_counter (tstruct s' p) = t_counter (tstruct s p)" using cn p by simp
  show ?thesis
  proof (cases "t_counter (cur s) = 1")
    case True
    have "others p s' < others p s"
    proof (rule others_less [OF ts _ me p])
      show "t_counter (tstruct s' q) \<le> t_counter (tstruct s q)" for q using True cn by (cases "q = current s") simp_all
    qed (use True cn in simp_all)
    then show ?thesis using cp by (simp add: patience_def)
  next
    case False
    then have z: "t_counter (cur s) = 0" using c c0 by linarith
    have "t_counter (tstruct s' q) = t_counter (tstruct s q)" for q using cn z by (cases "q = current s") simp_all
    then have "others p s' = others p s" by (intro others_cong [OF ts]) simp
    then show ?thesis using cp cur z by (simp add: patience_def)
  qed
qed

lemma refill_waiting:
  assumes ok: "sched_ok s" and p: "in_slot s p" "t_state (tstruct s p) = TASK_RUNNING"
    and z: "\<forall>i. 1 \<le> i \<longrightarrow> i < 64 \<longrightarrow> runnable (check_alarms s) i \<longrightarrow> slice (check_alarms s) i \<le> 0"
  shows "t_counter (tstruct s p) = 0" "0 < t_counter (tstruct (refill (check_alarms s)) p)"
proof -
  note k = running_kept [OF ok p]
  obtain i where i: "1 \<le> i" "i < 64" "task s i = p" "p \<noteq> 0" using p(1) by (auto simp: in_slot_def)
  then have "slice (check_alarms s) i \<le> 0" using z k by (simp add: runnable_def)
  moreover have "0 \<le> t_counter (tstruct s p)" using ok p(1) by (auto simp: sched_ok_def)
  ultimately show "t_counter (tstruct s p) = 0" using i k by (simp add: slice_def)
  have ok': "sched_ok (check_alarms s)" and ip: "in_slot (check_alarms s) p" using sched_ok_check [OF ok] p(1) k(4) by (simp_all add: in_slot_def)
  then have b: "0 < t_priority (tstruct (check_alarms s) p)" "t_priority (tstruct (check_alarms s) p) < 2 ^ 30"
    "0 \<le> t_counter (tstruct (check_alarms s) p)" "t_counter (tstruct (check_alarms s) p) \<le> 2 * t_priority (tstruct (check_alarms s) p)" "slots_inj (check_alarms s)"
    by (auto simp: sched_ok_def)
  show "0 < t_counter (tstruct (refill (check_alarms s)) p)" using refilled_bounds(2) [OF b(1-4)] ip by (simp add: refill_state [OF b(5)])
qed

text \<open>A tick at the end of the slice: the next process is chosen.\<close>

lemma tick_end:
  assumes w: "waits p s" and p: "current s \<noteq> p" and c: "t_counter (cur s) \<le> 1"
  obtains s' where "user_tick s s'" "waits p s'" "(patience p s', patience p s) \<in> sooner"
proof -
  have ok: "sched_ok s" and me: "in_slot s (current s)" and ip: "in_slot s p" and rp: "t_state (tstruct s p) = TASK_RUNNING" using w by (auto simp: waits_def)
  have c0: "0 \<le> t_counter (cur s)" "0 \<le> t_counter (tstruct s p)" using ok me ip by (auto simp: sched_ok_def)
  note t = tick_charged [OF ok me]
  have ip1: "in_slot (charged s) p" "t_state (tstruct (charged s) p) = TASK_RUNNING" using ip rp by simp_all
  note k = running_kept [OF t(1) ip1]
  have pc: "t_counter (tstruct (charged s) p) = t_counter (tstruct s p)" using p by simp
  obtain n s1 where sch: "\<And>e. schedule (charged s) e = switch_to n s1 e" "sched_ok s1" "best s1 n"
    "s1 = check_alarms (charged s) \<or> s1 = refill (check_alarms (charged s)) \<and>
       (\<forall>i. 1 \<le> i \<longrightarrow> i < 64 \<longrightarrow> runnable (check_alarms (charged s)) i \<longrightarrow> slice (check_alarms (charged s)) i \<le> 0)"
    by (rule schedule_refills [OF t(1)]) blast
  have ts: "task s1 = task s" using sch(4) k(4,5) by auto
  have ip2: "in_slot s1 p" "t_state (tstruct s1 p) = TASK_RUNNING" using sch(4) k ip ts by (auto simp: in_slot_def)
  let ?s = "s1\<lparr>current := task s1 n\<rparr>"
  note ch = chosen_waits [OF ip2 sch(2,3)]
  have "user_tick s ?s"
  proof (cases "task s1 n = current s1")
    case True
    then have "do_timer 3 (jiffy s) [] = Ok () s1 []" using t(2) [of "[]"] c sch(1) [of "[]"] by (simp add: switch_to_def)
    then show ?thesis using True by (intro user_tick.same) simp
  next
    case False
    then have "do_timer 3 (jiffy s) [] = Asleep ?s" using t(2) [of "[]"] c sch(1) [of "[]"] by (simp add: switch_to_def)
    then show ?thesis by (rule user_tick.switched)
  qed
  moreover have "(patience p ?s, patience p s) \<in> sooner"
    using sch(4)
  proof
    assume s1: "s1 = check_alarms (charged s)"
    have cn: "t_counter (tstruct ?s q) = t_counter (tstruct (charged s) q)" for q by (simp add: s1 k(3))
    show ?thesis by (rule patience_used [OF w p c _ cn]) (use ch(2) ts in simp_all)
  next
    assume "s1 = refill (check_alarms (charged s)) \<and>
       (\<forall>i. 1 \<le> i \<longrightarrow> i < 64 \<longrightarrow> runnable (check_alarms (charged s)) i \<longrightarrow> slice (check_alarms (charged s)) i \<le> 0)"
    then have r: "t_counter (tstruct s p) = 0 \<and> 0 < t_counter (tstruct s1 p)" using refill_waiting [OF t(1) ip1] pc by simp
    then show ?thesis by (simp add: patience_def)
  qed
  ultimately show thesis using that ch(1) by blast
qed

lemma tick_progress:
  assumes w: "waits p s" and p: "current s \<noteq> p"
  obtains s' where "user_tick s s'" "waits p s'" "(patience p s', patience p s) \<in> sooner"
proof (cases "t_counter (cur s) \<le> 1")
  case True
  then show ?thesis using that by (rule tick_end [OF w p])
next
  case False
  have ok: "sched_ok s" and me: "in_slot s (current s)" using w by (auto simp: waits_def)
  note t = tick_charged [OF ok me]
  have "user_tick s (charged s)" using False t(2) [of "[]"] by (intro user_tick.same) simp
  moreover have "waits p (charged s)" using w t(1) by (simp add: waits_def)
  moreover have "others p (charged s) < others p s"
  proof (rule others_less [OF _ _ me p])
    show "t_counter (tstruct (charged s) q) \<le> t_counter (tstruct s q)" for q using False by (cases "q = current s") simp_all
  qed (use False in simp_all)
  then have "(patience p (charged s), patience p s) \<in> sooner" using p by (simp add: patience_def)
  ultimately show ?thesis by (rule that)
qed

text \<open>
  C7: no process starves. However the slices are distributed, a process that could run, while all processes compute in user mode, becomes the current one after
  finitely many timer ticks.
\<close>

theorem no_starvation:
  assumes "sched_ok s" "in_slot s (current s)" "in_slot s p" "t_state (tstruct s p) = TASK_RUNNING"
  shows "\<exists>s'. user_tick\<^sup>*\<^sup>* s s' \<and> current s' = p"
proof -
  have wf: "wf (inv_image sooner (patience p))" by (intro wf_inv_image wf_lex_prod wf_less_than)
  have "waits p s \<Longrightarrow> \<exists>s'. user_tick\<^sup>*\<^sup>* s s' \<and> current s' = p" for s :: "'a sched_scheme"
  proof (induction s rule: wf_induct_rule [OF wf])
    case (1 s)
    show ?case
    proof (cases "current s = p")
      case False
      obtain s1 where s1: "user_tick s s1" "waits p s1" "(patience p s1, patience p s) \<in> sooner" by (rule tick_progress [OF 1(2) False])
      then obtain s' where "user_tick\<^sup>*\<^sup>* s1 s'" "current s' = p" using 1(1) [of s1] by auto
      then show ?thesis using s1(1) by (intro exI [of _ s'] conjI converse_rtranclp_into_rtranclp [of user_tick s s1 s'])
    qed auto
  qed
  then show ?thesis using assms by (simp add: waits_def)
qed

text \<open>Two processes that can run; the second is current, the first waits without a slice.\<close>

definition ex_load :: sched where
  "ex_load = ex_sched\<lparr>task := (\<lambda>_. 0)(0 := INIT_TASK_PTR, 1 := ex_ptr, 2 := 0x7fe000),
     tstruct := (\<lambda>_. INIT_TASK\<lparr>t_counter := 3\<rparr>)(ex_ptr := INIT_TASK\<lparr>t_counter := 0\<rparr>), current := 0x7fe000\<rparr>"

theorem no_starvation_witness:
  "sched_ok ex_load \<and> current ex_load \<noteq> ex_ptr \<and> (\<exists>s'. user_tick\<^sup>*\<^sup>* ex_load s' \<and> current s' = ex_ptr)"
proof -
  have t: "task ex_load i = (if i = 0 then INIT_TASK_PTR else if i = 1 then ex_ptr else if i = 2 then 0x7fe000 else 0)" for i by (simp add: ex_load_def)
  have sl: "in_slot ex_load ex_ptr" "in_slot ex_load (current ex_load)" "current ex_load \<noteq> ex_ptr"
    unfolding in_slot_def t by (auto simp: ex_load_def ex_ptr_def intro: exI [of _ 1] exI [of _ 2])
  have "slots_inj ex_load" unfolding slots_inj_def t by (auto simp: ex_ptr_def)
  moreover have "t_priority (tstruct ex_load q) = 15" "0 \<le> t_counter (tstruct ex_load q)" "t_counter (tstruct ex_load q) \<le> 3" for q
    by (simp_all add: ex_load_def INIT_TASK_def)
  ultimately have ok: "sched_ok ex_load" unfolding sched_ok_def by (simp add: order_trans [of _ 3])
  have "t_state (tstruct ex_load ex_ptr) = TASK_RUNNING" by (simp add: ex_load_def INIT_TASK_def TASK_RUNNING_def)
  from no_starvation [OF ok sl(2,1) this] show ?thesis using ok sl(3) by blast
qed

end
