(* ===== verification/Cstring.thy ===== *)
theory Cstring
  imports Kernel_Prelude
begin

text \<open>
  The string functions of \<^verbatim>\<open>src/include/string.h\<close>, written with the string instructions of the processor. Memory is a function from addresses to
  bytes; each loop of the assembler text is a function of the registers it uses. A loop that need not end gives \<open>None\<close> if it does not.
\<close>

type_synonym bytes = "u32 \<Rightarrow> u8"

section \<open>The string instructions\<close>

text \<open>The flags after comparing two bytes: zero, and less in signed arithmetic.\<close>

record flags =
  ZF :: bool
  LT :: bool

definition cmpb :: "u8 \<Rightarrow> u8 \<Rightarrow> flags" where
  "cmpb a b = \<lparr>ZF = (a = b), LT = (sint a < sint b)\<rparr>"

text \<open>\<^verbatim>\<open>rep ; movsb\<close> with the direction \<open>d\<close>, 1 or -1, and \<^verbatim>\<open>rep ; stosb\<close>; the count is that of \<^verbatim>\<open>ecx\<close>.\<close>

fun rep_movsb :: "nat \<Rightarrow> u32 \<Rightarrow> u32 \<Rightarrow> u32 \<Rightarrow> bytes \<Rightarrow> bytes" where
  "rep_movsb 0 d si di M = M"
| "rep_movsb (Suc cx) d si di M = rep_movsb cx d (si + d) (di + d) (M(di := M si))"

fun rep_stosb :: "nat \<Rightarrow> u32 \<Rightarrow> u8 \<Rightarrow> bytes \<Rightarrow> bytes" where
  "rep_stosb 0 di al M = M"
| "rep_stosb (Suc cx) di al M = rep_stosb cx (di + 1) al (M(di := al))"

lemma unat_pred: "(cx :: u32) \<noteq> 0 \<Longrightarrow> unat (cx - 1) < unat cx"
  by (metis unat_minus_one unat_gt_0 diff_less zero_less_one)

text \<open>
  \<^verbatim>\<open>repne ; scasb\<close> and \<^verbatim>\<open>repe ; cmpsb\<close>: they stop when \<^verbatim>\<open>ecx\<close> is 0 or when the comparison ends them, and leave the flags of the last
  comparison, or the flags as they were when \<^verbatim>\<open>ecx\<close> was 0 at once.
\<close>

function repne_scasb :: "bytes \<Rightarrow> u8 \<Rightarrow> u32 \<Rightarrow> u32 \<Rightarrow> bool \<Rightarrow> u32 \<times> u32 \<times> bool" where
  "repne_scasb M al cx di zf =
     (if cx = 0 then (cx, di, zf)
      else if M di = al then (cx - 1, di + 1, True)
      else repne_scasb M al (cx - 1) (di + 1) False)"
  by pat_completeness auto
termination
  by (relation "measure (\<lambda>(M, al, cx, di, zf). unat cx)") (auto simp: unat_pred)

function repe_cmpsb :: "bytes \<Rightarrow> u32 \<Rightarrow> u32 \<Rightarrow> u32 \<Rightarrow> flags \<Rightarrow> u32 \<times> u32 \<times> flags" where
  "repe_cmpsb M cx si di f =
     (if cx = 0 then (si, di, f)
      else let f' = cmpb (M si) (M di) in
        if ZF f' then repe_cmpsb M (cx - 1) (si + 1) (di + 1) f' else (si + 1, di + 1, f'))"
  by pat_completeness auto
termination
  by (relation "measure (\<lambda>(M, cx, si, di, f). unat cx)") (auto simp: unat_pred)

declare repne_scasb.simps [simp del] repe_cmpsb.simps [simp del]

section \<open>Copying strings\<close>

partial_function (option) strcpy_loop :: "u32 \<Rightarrow> u32 \<Rightarrow> bytes \<Rightarrow> bytes option" where
  "strcpy_loop si di M =
     (let al = M si; M' = M(di := al)
      in if al \<noteq> 0 then strcpy_loop (si + 1) (di + 1) M' else Some M')"

definition strcpy :: "u32 \<Rightarrow> u32 \<Rightarrow> bytes \<Rightarrow> (u32 \<times> bytes) option" where
  "strcpy dest src M = map_option (Pair dest) (strcpy_loop src dest M)"

function strncpy_loop :: "u32 \<Rightarrow> u32 \<Rightarrow> u32 \<Rightarrow> bytes \<Rightarrow> bytes" where
  "strncpy_loop cx si di M =
     (if sint (cx - 1) < 0 then M
      else let al = M si; M' = M(di := al)
           in if al \<noteq> 0 then strncpy_loop (cx - 1) (si + 1) (di + 1) M' else rep_stosb (unat (cx - 1)) (di + 1) 0 M')"
  by pat_completeness auto
termination
  by (relation "measure (\<lambda>(cx, si, di, M). unat cx)") (auto intro!: unat_pred)

declare strncpy_loop.simps [simp del]

definition strncpy :: "u32 \<Rightarrow> u32 \<Rightarrow> u32 \<Rightarrow> bytes \<Rightarrow> u32 \<times> bytes" where
  "strncpy dest src count M = (dest, strncpy_loop count src dest M)"

text \<open>The address of the byte that ended a scan for 0: \<^verbatim>\<open>repne ; scasb ; decl %edi\<close>.\<close>

definition scan_end :: "bytes \<Rightarrow> u32 \<Rightarrow> u32" where
  "scan_end M di = fst (snd (repne_scasb M 0 0xffffffff di False)) - 1"

definition strcat :: "u32 \<Rightarrow> u32 \<Rightarrow> bytes \<Rightarrow> (u32 \<times> bytes) option" where
  "strcat dest src M = map_option (Pair dest) (strcpy_loop src (scan_end M dest) M)"

text \<open>The loop of \<^verbatim>\<open>strncat\<close> up to the label 2; the result is \<^verbatim>\<open>edi\<close> there and the memory.\<close>

function strncat_loop :: "u32 \<Rightarrow> u32 \<Rightarrow> u32 \<Rightarrow> bytes \<Rightarrow> u32 \<times> bytes" where
  "strncat_loop cx si di M =
     (if sint (cx - 1) < 0 then (di, M)
      else let al = M si; M' = M(di := al)
           in if al \<noteq> 0 then strncat_loop (cx - 1) (si + 1) (di + 1) M' else (di + 1, M'))"
  by pat_completeness auto
termination
  by (relation "measure (\<lambda>(cx, si, di, M). unat cx)") (auto intro!: unat_pred)

declare strncat_loop.simps [simp del]

definition strncat :: "u32 \<Rightarrow> u32 \<Rightarrow> u32 \<Rightarrow> bytes \<Rightarrow> u32 \<times> bytes" where
  "strncat dest src count M = (let (di, M') = strncat_loop count src (scan_end M dest) M in (dest, M'(di := 0)))"

section \<open>Comparing strings\<close>

text \<open>\<^verbatim>\<open>movl $1,%eax ; jl ; negl %eax\<close>.\<close>

definition cmp_result :: "flags \<Rightarrow> int" where
  "cmp_result f = (if LT f then 1 else - 1)"

text \<open>\<^verbatim>\<open>lodsb\<close> takes the byte of \<^verbatim>\<open>ct\<close>, \<^verbatim>\<open>scasb\<close> compares it with that of \<^verbatim>\<open>cs\<close>.\<close>

partial_function (option) strcmp_loop :: "bytes \<Rightarrow> u32 \<Rightarrow> u32 \<Rightarrow> int option" where
  "strcmp_loop M si di =
     (let al = M si; f = cmpb al (M di)
      in if \<not> ZF f then Some (cmp_result f) else if al \<noteq> 0 then strcmp_loop M (si + 1) (di + 1) else Some 0)"

definition strcmp :: "u32 \<Rightarrow> u32 \<Rightarrow> bytes \<Rightarrow> int option" where
  "strcmp cs ct M = strcmp_loop M ct cs"

function strncmp_loop :: "bytes \<Rightarrow> u32 \<Rightarrow> u32 \<Rightarrow> u32 \<Rightarrow> int" where
  "strncmp_loop M cx si di =
     (if sint (cx - 1) < 0 then 0
      else let al = M si; f = cmpb al (M di)
           in if \<not> ZF f then cmp_result f else if al \<noteq> 0 then strncmp_loop M (cx - 1) (si + 1) (di + 1) else 0)"
  by pat_completeness auto
termination
  by (relation "measure (\<lambda>(M, cx, si, di). unat cx)") (auto intro!: unat_pred)

declare strncmp_loop.simps [simp del]

definition strncmp :: "u32 \<Rightarrow> u32 \<Rightarrow> u32 \<Rightarrow> bytes \<Rightarrow> int" where
  "strncmp cs ct count M = strncmp_loop M count ct cs"

section \<open>Searching strings\<close>

partial_function (option) strchr_loop :: "bytes \<Rightarrow> u8 \<Rightarrow> u32 \<Rightarrow> u32 option" where
  "strchr_loop M c si =
     (let al = M si
      in if al = c then Some (si + 1 - 1) else if al \<noteq> 0 then strchr_loop M c (si + 1) else Some (1 - 1))"

definition strchr :: "u32 \<Rightarrow> u8 \<Rightarrow> bytes \<Rightarrow> u32 option" where
  "strchr s c M = strchr_loop M c s"

partial_function (option) strrchr_loop :: "bytes \<Rightarrow> u8 \<Rightarrow> u32 \<Rightarrow> u32 \<Rightarrow> u32 option" where
  "strrchr_loop M c si res =
     (let al = M si; res' = (if al = c then si + 1 - 1 else res)
      in if al \<noteq> 0 then strrchr_loop M c (si + 1) res' else Some res')"

definition strrchr :: "u32 \<Rightarrow> u8 \<Rightarrow> bytes \<Rightarrow> u32 option" where
  "strrchr s c M = strrchr_loop M c s 0"

text \<open>\<^verbatim>\<open>repne ; scasb ; notl %ecx ; decl %ecx\<close> from \<^verbatim>\<open>ecx\<close> = -1: the length of a string.\<close>

definition strlen :: "u32 \<Rightarrow> bytes \<Rightarrow> u32" where
  "strlen s M = NOT (fst (repne_scasb M 0 0xffffffff s False)) - 1"

text \<open>Whether \<^verbatim>\<open>al\<close>, which is not 0, is among the \<open>dx\<close> bytes at \<^verbatim>\<open>ct\<close>.\<close>

definition among :: "bytes \<Rightarrow> u32 \<Rightarrow> u32 \<Rightarrow> u8 \<Rightarrow> bool" where
  "among M ct dx al = snd (snd (repne_scasb M al dx ct False))"

text \<open>The loops of \<^verbatim>\<open>strspn\<close> and \<^verbatim>\<open>strcspn\<close>: on while membership is \<open>want\<close>. The result is \<^verbatim>\<open>esi\<close> at the label 2.\<close>

partial_function (option) span_loop :: "bool \<Rightarrow> bytes \<Rightarrow> u32 \<Rightarrow> u32 \<Rightarrow> u32 \<Rightarrow> u32 option" where
  "span_loop want M ct dx si =
     (let al = M si
      in if al = 0 then Some (si + 1) else if among M ct dx al = want then span_loop want M ct dx (si + 1) else Some (si + 1))"

definition strspn :: "u32 \<Rightarrow> u32 \<Rightarrow> bytes \<Rightarrow> int option" where
  "strspn cs ct M = map_option (\<lambda>si. sint (si - 1 - cs)) (span_loop True M ct (strlen ct M) cs)"

definition strcspn :: "u32 \<Rightarrow> u32 \<Rightarrow> bytes \<Rightarrow> int option" where
  "strcspn cs ct M = map_option (\<lambda>si. sint (si - 1 - cs)) (span_loop False M ct (strlen ct M) cs)"

partial_function (option) strpbrk_loop :: "bytes \<Rightarrow> u32 \<Rightarrow> u32 \<Rightarrow> u32 \<Rightarrow> u32 option" where
  "strpbrk_loop M ct dx si =
     (let al = M si
      in if al = 0 then Some 0 else if \<not> among M ct dx al then strpbrk_loop M ct dx (si + 1) else Some (si + 1 - 1))"

definition strpbrk :: "u32 \<Rightarrow> u32 \<Rightarrow> bytes \<Rightarrow> u32 option" where
  "strpbrk cs ct M = strpbrk_loop M ct (strlen ct M) cs"

text \<open>
  \<^verbatim>\<open>strstr\<close>: the zero flag at the first comparison is that of \<^verbatim>\<open>decl %ecx\<close>, and clear at the later ones. After a mismatch \<^verbatim>\<open>-1(%eax)\<close> is the byte
  of \<^verbatim>\<open>cs\<close> that differed.
\<close>

partial_function (option) strstr_loop :: "bytes \<Rightarrow> u32 \<Rightarrow> u32 \<Rightarrow> bool \<Rightarrow> u32 \<Rightarrow> u32 option" where
  "strstr_loop M ct dx zf si =
     (let (ax, di, f) = repe_cmpsb M dx si ct \<lparr>ZF = zf, LT = False\<rparr>
      in if ZF f then Some si else if M (ax - 1) \<noteq> 0 then strstr_loop M ct dx False (si + 1) else Some 0)"

definition strstr :: "u32 \<Rightarrow> u32 \<Rightarrow> bytes \<Rightarrow> u32 option" where
  "strstr cs ct M = strstr_loop M ct (strlen ct M) (strlen ct M = 0) cs"

section \<open>Tokens\<close>

text \<open>
  The loops at the labels 2 and 3 of \<^verbatim>\<open>strtok\<close>: skip the delimiters, and skip to the next delimiter. The result is the address of the byte that ended the
  loop, or \<open>None\<close> inside for the end of the string.
\<close>

partial_function (option) tok_loop :: "bool \<Rightarrow> bytes \<Rightarrow> u32 \<Rightarrow> u32 \<Rightarrow> u32 \<Rightarrow> u32 option option" where
  "tok_loop want M ct dx si =
     (let al = M si
      in if al = 0 then Some None else if among M ct dx al = want then tok_loop want M ct dx (si + 1) else Some (Some (si + 1 - 1)))"

text \<open>\<open>st\<close> is the variable \<^verbatim>\<open>___strtok\<close>; the result is the token, the new value of the variable and the memory.\<close>

definition strtok :: "u32 \<Rightarrow> u32 \<Rightarrow> u32 \<Rightarrow> bytes \<Rightarrow> (u32 \<times> u32 \<times> bytes) option" where
  "strtok s ct st M =
     (if s = 0 \<and> st = 0 then Some (st, s, M)
      else let si = (if s \<noteq> 0 then s else st); dx = strlen ct M in
        if dx = 0 then Some (0, 0, M)
        else case tok_loop True M ct dx si of None \<Rightarrow> None
          | Some None \<Rightarrow> Some (0, 0, M)
          | Some (Some res) \<Rightarrow>
              if M res = 0 then Some (0, 0, M)
              else case tok_loop False M ct dx res of None \<Rightarrow> None
                | Some r \<Rightarrow>
                    let (si', M') = (case r of Some e \<Rightarrow> if M e = 0 then (0, M) else (e + 1, M(e := 0)) | None \<Rightarrow> (0, M));
                        res' = (if M' res \<noteq> 0 then res else 0)
                    in Some (res', if res' \<noteq> 0 then si' else res', M'))"

section \<open>Memory blocks\<close>

definition memcpy :: "u32 \<Rightarrow> u32 \<Rightarrow> u32 \<Rightarrow> bytes \<Rightarrow> u32 \<times> bytes" where
  "memcpy dest src n M = (dest, rep_movsb (unat n) 1 src dest M)"

definition memmove :: "u32 \<Rightarrow> u32 \<Rightarrow> u32 \<Rightarrow> bytes \<Rightarrow> u32 \<times> bytes" where
  "memmove dest src n M =
     (dest, if dest < src then rep_movsb (unat n) 1 src dest M else rep_movsb (unat n) (- 1) (src + n - 1) (dest + n - 1) M)"

text \<open>\<^verbatim>\<open>memcmp\<close>: \<open>f\<close> are the flags before, which decide the result when the count is 0.\<close>

definition memcmp :: "u32 \<Rightarrow> u32 \<Rightarrow> u32 \<Rightarrow> flags \<Rightarrow> bytes \<Rightarrow> int" where
  "memcmp cs ct count f M = (let f' = snd (snd (repe_cmpsb M count ct cs f)) in if ZF f' then 0 else cmp_result f')"

definition memchr :: "u32 \<Rightarrow> u8 \<Rightarrow> u32 \<Rightarrow> bytes \<Rightarrow> u32" where
  "memchr cs c count M =
     (if count = 0 then 0
      else let (cx, di, zf) = repne_scasb M c count cs False in (if zf then di else 1) - 1)"

definition memset :: "u32 \<Rightarrow> u8 \<Rightarrow> u32 \<Rightarrow> bytes \<Rightarrow> u32 \<times> bytes" where
  "memset s c count M = (s, rep_stosb (unat count) s c M)"

end
