(* ===== verification/Cstring_Props.thy ===== *)
theory Cstring_Props
  imports Cstring
begin

text \<open>
  What the string functions compute, over strings as lists of bytes: moving of overlapping blocks, lengths, searching, and a byte too many in
  \<^verbatim>\<open>strncat\<close>.
\<close>

section \<open>Moving blocks\<close>

lemma unat_succ: "unat (a :: u32) + 1 < 2 ^ 32 \<Longrightarrow> unat (a + 1) = unat a + 1"
  using unat_add_lem [of a 1] by simp

lemma unat_minus_1: "unat (- 1 :: u32) = 2 ^ 32 - 1"
  by (simp add: unsigned_minus_1_eq_mask mask_eq_exp_minus_1)

lemma block_end: "n \<noteq> 0 \<Longrightarrow> unat a + unat n \<le> 2 ^ 32 \<Longrightarrow> unat (a + n - 1 :: u32) = unat a + unat n - 1"
proof -
  assume n: "n \<noteq> 0" "unat a + unat n \<le> 2 ^ 32"
  then have u: "unat (n - 1) = unat n - 1" "0 < unat n" by (simp_all add: unat_minus_one unat_gt_0)
  then have "unat (a + (n - 1)) = unat a + unat (n - 1)" using n(2) by (intro unat_add_lem [THEN iffD1]) simp
  then show ?thesis using u by (simp add: add_diff_eq)
qed

text \<open>An address is in a block whether one counts from its start or from its end.\<close>

lemma block_mirror:
  assumes "unat dest + unat n \<le> 2 ^ 32" "n \<noteq> 0"
  shows "unat (dest + n - 1 - a :: u32) < unat n \<longleftrightarrow> unat (a - dest) < unat n"
proof -
  let ?x = "a - dest"
  have e: "dest + n - 1 - a = n - 1 - ?x" by (simp add: algebra_simps)
  have u: "unat (n - 1) = unat n - 1" "0 < unat n" using assms(2) by (simp_all add: unat_minus_one unat_gt_0)
  show ?thesis
  proof (cases "unat ?x < unat n")
    case True
    then have "unat (n - 1 - ?x) = unat (n - 1) - unat ?x" using u by (simp add: unat_sub word_le_nat_alt)
    then show ?thesis unfolding e using True u by simp
  next
    case False
    have "unat (n - 1 - ?x) = 2 ^ 32 + unat (n - 1) - unat ?x"
      using unat_sub_if' [of "n - 1" ?x] False u by simp
    moreover have "unat ?x < 2 ^ 32" using unsigned_less [of ?x] by simp
    ultimately show ?thesis unfolding e using False u by simp
  qed
qed

lemma movsb_up:
  assumes "k = 0 \<or> di < si" "unat si + k \<le> 2 ^ 32"
  shows "rep_movsb k 1 si di M = (\<lambda>a. if unat (a - di) < k then M (si + (a - di)) else M a)"
  using assms
proof (induction k arbitrary: si di M)
  case (Suc k)
  let ?M = "M(di := M si)"
  have d: "di < si" using Suc.prems by simp
  have k: "k = 0 \<or> di + 1 < si + 1 \<and> unat (si + 1) + k \<le> 2 ^ 32"
    using Suc.prems d unat_succ [of si] unat_succ [of di] by (cases "k = 0") (auto simp: word_less_nat_alt)
  then have IH: "rep_movsb k 1 (si + 1) (di + 1) ?M = (\<lambda>a. if unat (a - (di + 1)) < k then ?M (si + 1 + (a - (di + 1))) else ?M a)"
    by (cases "k = 0") (simp_all add: Suc.IH fun_eq_iff)
  show ?case
  proof (rule ext)
    fix a :: u32
    show "rep_movsb (Suc k) 1 si di M a = (if unat (a - di) < Suc k then M (si + (a - di)) else M a)"
    proof (cases "a = di")
      case True
      have "\<not> unat (di - (di + 1)) < k"
      proof -
        have "0 < unat si" using d by (simp add: word_less_nat_alt)
        then show ?thesis using Suc.prems(2) unat_minus_1 by simp
      qed
      then show ?thesis using True by (simp add: IH)
    next
      case False
      then have nz: "a - di \<noteq> 0" by simp
      have e: "a - (di + 1) = a - di - 1" "si + 1 + (a - di - 1) = si + (a - di)" by (simp_all add: algebra_simps)
      have u: "unat (a - di - 1) = unat (a - di) - 1" "0 < unat (a - di)" using nz by (simp_all add: unat_minus_one unat_gt_0)
      have "si + (a - di) \<noteq> di" if "unat (a - di) < Suc k"
      proof
        assume w: "si + (a - di) = di"
        have "unat (si + (a - di)) = unat si + unat (a - di)" using Suc.prems(2) that by (intro unat_add_lem [THEN iffD1]) simp
        then show False using d unfolding w by (simp add: word_less_nat_alt)
      qed
      then show ?thesis using False u by (simp add: IH e) linarith
    qed
  qed
qed simp

lemma movsb_down:
  assumes "k = 0 \<or> si \<le> di" "k \<le> unat si + 1"
  shows "rep_movsb k (- 1) si di M = (\<lambda>a. if unat (di - a) < k then M (si - (di - a)) else M a)"
  using assms
proof (induction k arbitrary: si di M)
  case (Suc k)
  let ?M = "M(di := M si)"
  have d: "unat si \<le> unat di" using Suc.prems by (simp add: word_le_nat_alt)
  have k: "k = 0 \<or> si - 1 \<le> di - 1 \<and> k \<le> unat (si - 1) + 1"
  proof (cases "k = 0")
    case False
    then have "si \<noteq> 0" "di \<noteq> 0" using Suc.prems(2) d by auto
    then have "unat (si - 1) = unat si - 1" "unat (di - 1) = unat di - 1" by (simp_all add: unat_minus_one)
    then show ?thesis using Suc.prems(2) d by (simp add: word_le_nat_alt) linarith
  qed simp
  then have IH: "rep_movsb k (- 1) (si - 1) (di - 1) ?M = (\<lambda>a. if unat (di - 1 - a) < k then ?M (si - 1 - (di - 1 - a)) else ?M a)"
    by (cases "k = 0") (simp_all add: Suc.IH fun_eq_iff)
  show ?case
  proof (rule ext)
    fix a :: u32
    show "rep_movsb (Suc k) (- 1) si di M a = (if unat (di - a) < Suc k then M (si - (di - a)) else M a)"
    proof (cases "a = di")
      case True
      have "\<not> unat (di - 1 - di) < k" using Suc.prems(2) unat_minus_1 unsigned_less [of si, where ?'a = nat] by simp
      then show ?thesis using True IH by simp
    next
      case False
      then have u: "unat (di - a - 1) = unat (di - a) - 1" "0 < unat (di - a)" by (simp_all add: unat_minus_one unat_gt_0)
      have e: "di - 1 - a = di - a - 1" "si - 1 - (di - a - 1) = si - (di - a)" by (simp_all add: algebra_simps)
      have "si - (di - a) \<noteq> di" if "unat (di - a) < Suc k"
      proof
        assume w: "si - (di - a) = di"
        have "unat (si - (di - a)) = unat si - unat (di - a)" using Suc.prems(2) that by (simp add: unat_sub word_le_nat_alt)
        then show False using d u(2) Suc.prems(2) that unfolding w by simp
      qed
      then show ?thesis using False u IH by (simp add: e) linarith
    qed
  qed
qed simp

text \<open>
  C35: \<^verbatim>\<open>memmove\<close> moves a block correctly whether or not source and destination overlap, in either direction: afterwards the destination holds what the source
  held before, and no other byte has changed. Neither block wraps around the end of the address space.
\<close>

theorem memmove_moves:
  assumes "unat src + unat n \<le> 2 ^ 32" "unat dest + unat n \<le> 2 ^ 32"
  shows "memmove dest src n M = (dest, \<lambda>a. if unat (a - dest) < unat n then M (src + (a - dest)) else M a)"
proof (cases "dest < src")
  case True
  then show ?thesis using movsb_up [of "unat n" dest src M] assms by (simp add: memmove_def)
next
  case False
  show ?thesis
  proof (cases "n = 0")
    case n: False
    have s: "unat (src + n - 1) = unat src + unat n - 1" and d: "unat (dest + n - 1) = unat dest + unat n - 1"
      using assms n by (auto simp: block_end)
    have "rep_movsb (unat n) (- 1) (src + n - 1) (dest + n - 1) M =
        (\<lambda>a. if unat (dest + n - 1 - a) < unat n then M (src + n - 1 - (dest + n - 1 - a)) else M a)"
      using s d False n by (intro movsb_down) (auto simp: word_le_nat_alt word_less_nat_alt unat_gt_0)
    moreover have "unat (dest + n - 1 - a) < unat n \<longleftrightarrow> unat (a - dest) < unat n" for a by (rule block_mirror [OF assms(2) n])
    moreover have e: "src + n - 1 - (dest + n - 1 - a) = src + (a - dest)" for a by (simp add: algebra_simps)
    ultimately show ?thesis using False by (simp only: memmove_def e if_False)
  qed (use False in \<open>simp add: memmove_def\<close>)
qed

theorem memmove_moves_witness: "snd (memmove 0x102 0x100 5 (\<lambda>a. ucast a)) 0x106 = 4"
  by (subst memmove_moves) simp_all

section \<open>Scanning and comparing\<close>

lemma scasb_finds:
  assumes "n < unat cx" "\<And>i. i < n \<Longrightarrow> M (di + of_nat i) \<noteq> al" "M (di + of_nat n) = al"
  shows "repne_scasb M al cx di zf = (cx - of_nat (Suc n), di + of_nat (Suc n), True)"
  using assms
proof (induction n arbitrary: cx di zf)
  case 0
  then have "cx \<noteq> 0" by auto
  then show ?case using 0 by (subst repne_scasb.simps) simp
next
  case (Suc n)
  have cx: "cx \<noteq> 0" using Suc.prems(1) by auto
  have "M di \<noteq> al" using Suc.prems(2) [of 0] by simp
  moreover have "repne_scasb M al (cx - 1) (di + 1) False = (cx - 1 - of_nat (Suc n), di + 1 + of_nat (Suc n), True)"
  proof (rule Suc.IH)
    show "n < unat (cx - 1)" using Suc.prems(1) cx by (simp add: unat_minus_one)
    show "M (di + 1 + of_nat i) \<noteq> al" if "i < n" for i using Suc.prems(2) [of "Suc i"] that by (simp add: add.assoc)
    show "M (di + 1 + of_nat n) = al" using Suc.prems(3) by (simp add: add.assoc)
  qed
  ultimately show ?case using cx by (subst repne_scasb.simps) (simp add: algebra_simps)
qed

lemma cmpsb_equal:
  assumes "\<And>i. i < n \<Longrightarrow> M (si + of_nat i) = M (di + of_nat i)" "n = unat cx"
  shows "repe_cmpsb M cx si di f = (si + of_nat n, di + of_nat n, if n = 0 then f else \<lparr>ZF = True, LT = False\<rparr>)"
  using assms
proof (induction n arbitrary: cx si di f)
  case 0
  then have "cx = 0" by (metis unat_0 word_unat_eq_iff)
  then show ?case by (subst repe_cmpsb.simps) simp
next
  case (Suc n)
  then have cx: "cx \<noteq> 0" by auto
  have e: "M si = M di" using Suc.prems(1) [of 0] by simp
  have "repe_cmpsb M (cx - 1) (si + 1) (di + 1) \<lparr>ZF = True, LT = False\<rparr> = (si + 1 + of_nat n, di + 1 + of_nat n, if n = 0 then \<lparr>ZF = True, LT = False\<rparr> else \<lparr>ZF = True, LT = False\<rparr>)"
  proof (rule Suc.IH)
    show "M (si + 1 + of_nat i) = M (di + 1 + of_nat i)" if "i < n" for i using Suc.prems(1) [of "Suc i"] that by (simp add: add.assoc)
    show "n = unat (cx - 1)" using Suc.prems(2) cx by (simp add: unat_minus_one)
  qed
  then show ?case using cx e by (subst repe_cmpsb.simps) (simp add: cmpb_def Let_def algebra_simps)
qed

lemma cmpsb_differ:
  assumes "n < unat cx" "\<And>i. i < n \<Longrightarrow> M (si + of_nat i) = M (di + of_nat i)" "M (si + of_nat n) \<noteq> M (di + of_nat n)"
  shows "repe_cmpsb M cx si di f = (si + of_nat (Suc n), di + of_nat (Suc n), cmpb (M (si + of_nat n)) (M (di + of_nat n)))"
  using assms
proof (induction n arbitrary: cx si di f)
  case 0
  then have "cx \<noteq> 0" by auto
  then show ?case using 0 by (subst repe_cmpsb.simps) (simp add: cmpb_def)
next
  case (Suc n)
  then have cx: "cx \<noteq> 0" by auto
  have e: "M si = M di" using Suc.prems(2) [of 0] by simp
  have "repe_cmpsb M (cx - 1) (si + 1) (di + 1) (cmpb (M si) (M di)) =
      (si + 1 + of_nat (Suc n), di + 1 + of_nat (Suc n), cmpb (M (si + 1 + of_nat n)) (M (di + 1 + of_nat n)))"
  proof (rule Suc.IH)
    show "n < unat (cx - 1)" using Suc.prems(1) cx by (simp add: unat_minus_one)
    show "M (si + 1 + of_nat i) = M (di + 1 + of_nat i)" if "i < n" for i using Suc.prems(2) [of "Suc i"] that by (simp add: add.assoc)
    show "M (si + 1 + of_nat n) \<noteq> M (di + 1 + of_nat n)" using Suc.prems(3) by (simp add: add.assoc)
  qed
  then show ?case using cx e by (subst repe_cmpsb.simps) (simp add: cmpb_def Let_def algebra_simps)
qed

section \<open>Strings\<close>

text \<open>The bytes \<open>cs\<close>, none of them 0, and then a 0 are at \<open>a\<close>.\<close>

definition string_at :: "bytes \<Rightarrow> u32 \<Rightarrow> u8 list \<Rightarrow> bool" where
  "string_at M a cs \<longleftrightarrow> length cs < 2 ^ 32 - 1 \<and> 0 \<notin> set cs \<and> (\<forall>i<length cs. M (a + of_nat i) = cs ! i) \<and> M (a + of_nat (length cs)) = 0"

lemma string_byte: "string_at M a cs \<Longrightarrow> i \<le> length cs \<Longrightarrow> M (a + of_nat i) = (cs @ [0]) ! i"
  by (auto simp: string_at_def nth_append)

lemma string_nz: "string_at M a cs \<Longrightarrow> i < length cs \<Longrightarrow> M (a + of_nat i) \<noteq> 0"
  by (metis string_at_def nth_mem)

lemma scan_string:
  assumes "string_at M a cs"
  shows "repne_scasb M 0 0xffffffff a zf = (0xffffffff - of_nat (Suc (length cs)), a + of_nat (Suc (length cs)), True)"
  by (rule scasb_finds) (use assms string_nz in \<open>auto simp: string_at_def\<close>)

lemma strlen_string: "string_at M a cs \<Longrightarrow> strlen a M = of_nat (length cs)"
proof -
  assume "string_at M a cs"
  then have "strlen a M = NOT (0xffffffff - of_nat (Suc (length cs))) - 1" by (simp only: strlen_def scan_string fst_conv)
  also have "(0xffffffff :: u32) = - 1" by simp
  finally show ?thesis by (simp add: not_eq_complement)
qed

lemma scan_end_string: "string_at M a cs \<Longrightarrow> scan_end M a = a + of_nat (length cs)"
  by (simp add: scan_end_def scan_string)

text \<open>Comparing \<open>needle\<close> with the rest of \<open>hay\<close>: equal, or a first byte that differs, the end of \<open>hay\<close> counting as 0.\<close>

lemma first_difference:
  assumes "take (length needle) hay \<noteq> needle" "0 \<notin> set needle"
  obtains j where "j < length needle" "j \<le> length hay" "\<And>i. i < j \<Longrightarrow> (hay @ [0]) ! i = needle ! i" "(hay @ [0]) ! j \<noteq> needle ! j"
  using assms
proof (induction needle arbitrary: hay thesis)
  case (Cons c cs)
  show ?case
  proof (cases "hay \<noteq> [] \<and> hd hay = c")
    case True
    then obtain hs where h: "hay = c # hs" by (cases hay) auto
    obtain j where j: "j < length cs" "j \<le> length hs" "\<And>i. i < j \<Longrightarrow> (hs @ [0]) ! i = cs ! i" "(hs @ [0]) ! j \<noteq> cs ! j"
      by (rule Cons.IH [of hs]) (use Cons.prems h in auto)
    show ?thesis by (rule Cons.prems(1) [of "Suc j"]) (use j h in \<open>auto simp: nth_Cons split: nat.split\<close>)
  next
    case False
    show ?thesis by (rule Cons.prems(1) [of 0]) (use False Cons.prems(3) in \<open>cases hay; auto\<close>)+
  qed
qed simp

definition occurs :: "u8 list \<Rightarrow> u8 list \<Rightarrow> nat \<Rightarrow> bool" where
  "occurs needle hay i \<longleftrightarrow> take (length needle) (drop i hay) = needle"

lemma unat_length: "string_at M a cs \<Longrightarrow> unat (of_nat (length cs) :: u32) = length cs"
  by (simp add: string_at_def unsigned_of_nat take_bit_nat_eq_self)

lemma strstr_here:
  assumes h: "string_at M cs hay" and n: "string_at M ct needle" and i: "i \<le> length hay" and zf: "needle = [] \<Longrightarrow> zf"
  shows "strstr_loop M ct (of_nat (length needle)) zf (cs + of_nat i) =
    (if occurs needle hay i then Some (cs + of_nat i)
     else if \<exists>j. j < length needle \<and> i + j = length hay \<and> (\<forall>l<j. hay ! (i + l) = needle ! l) then Some 0
     else strstr_loop M ct (of_nat (length needle)) False (cs + of_nat (Suc i)))"
proof (cases "occurs needle hay i")
  case True
  have "M (cs + of_nat i + of_nat k) = M (ct + of_nat k)" if "k < length needle" for k
  proof -
    have "length needle \<le> length hay - i" using True i unfolding occurs_def by (metis length_drop length_take min.cobounded1 min.absorb_iff2)
    then have "i + k < length hay" using that i by linarith
    then have "hay ! (i + k) = needle ! k" using True that i unfolding occurs_def by (metis nth_take nth_drop)
    then show ?thesis using string_byte [OF h, of "i + k"] string_byte [OF n, of k] that \<open>i + k < length hay\<close> by (simp add: nth_append add.assoc)
  qed
  from cmpsb_equal [of "length needle" M "cs + of_nat i" ct "of_nat (length needle)" "\<lparr>ZF = zf, LT = False\<rparr>", OF this]
  show ?thesis using True zf unat_length [OF n] by (subst strstr_loop.simps) auto
next
  case False
  have nz: "0 \<notin> set needle" using n by (simp add: string_at_def)
  obtain j where j: "j < length needle" "j \<le> length (drop i hay)" "\<And>l. l < j \<Longrightarrow> (drop i hay @ [0]) ! l = needle ! l"
    "(drop i hay @ [0]) ! j \<noteq> needle ! j"
    by (rule first_difference [of needle "drop i hay"]) (use False nz in \<open>auto simp: occurs_def\<close>)
  have hb: "M (cs + of_nat i + of_nat l) = (drop i hay @ [0]) ! l" if "l \<le> j" for l
    using string_byte [OF h, of "i + l"] that i j(2) by (auto simp: nth_append add.assoc)
  have nb: "M (ct + of_nat l) = needle ! l" if "l \<le> j" for l using string_byte [OF n, of l] that j(1) by (simp add: nth_append)
  have "repe_cmpsb M (of_nat (length needle)) (cs + of_nat i) ct \<lparr>ZF = zf, LT = False\<rparr> =
      (cs + of_nat i + of_nat (Suc j), ct + of_nat (Suc j), cmpb (M (cs + of_nat i + of_nat j)) (M (ct + of_nat j)))"
    by (rule cmpsb_differ) (use j hb nb unat_length [OF n] in auto)
  then have run: "strstr_loop M ct (of_nat (length needle)) zf (cs + of_nat i) =
      (if M (cs + of_nat i + of_nat j) \<noteq> 0 then strstr_loop M ct (of_nat (length needle)) False (cs + of_nat i + 1) else Some 0)"
    using j(4) hb [of j] nb [of j] by (subst strstr_loop.simps) (simp add: cmpb_def algebra_simps)
  have z: "M (cs + of_nat i + of_nat j) = 0 \<longleftrightarrow> i + j = length hay"
  proof (cases "i + j < length hay")
    case True
    then show ?thesis using string_nz [OF h True] by (simp add: add.assoc)
  next
    case False
    then have "i + j = length hay" using j(2) i by simp
    then show ?thesis using h by (simp add: string_at_def add.assoc flip: of_nat_add)
  qed
  have u: "j' = j" if "j' < length needle" "i + j' = length hay" "\<forall>l<j'. hay ! (i + l) = needle ! l" for j'
  proof (rule ccontr)
    assume "j' \<noteq> j"
    then have "j < j'" using that(2) j(2) i by auto
    then have "j < length hay - i" using that(2) by simp
    then have "(drop i hay @ [0]) ! j = hay ! (i + j)" using i by (simp add: nth_append)
    then show False using that(3) j(4) \<open>j < j'\<close> by simp
  qed
  have "(\<exists>j. j < length needle \<and> i + j = length hay \<and> (\<forall>l<j. hay ! (i + l) = needle ! l)) \<longleftrightarrow> i + j = length hay"
    using u j(1,2,3) i by (auto simp: nth_append)
  then show ?thesis using False run z by (simp add: add.commute add.left_commute)
qed

text \<open>No occurrence can begin at or after \<open>i\<close> if the rest from \<open>i\<close> is too short.\<close>

lemma no_room: "j < length needle \<Longrightarrow> i + j = length hay \<Longrightarrow> i \<le> k \<Longrightarrow> \<not> occurs needle hay k"
proof
  assume a: "j < length needle" "i + j = length hay" "i \<le> k" and "occurs needle hay k"
  then have "length (take (length needle) (drop k hay)) = length needle" by (simp add: occurs_def)
  then show False using a by simp
qed

lemma strstr_from:
  assumes h: "string_at M cs hay" and n: "string_at M ct needle" and i: "i \<le> length hay" and zf: "needle = [] \<Longrightarrow> zf"
  shows "strstr_loop M ct (of_nat (length needle)) zf (cs + of_nat i) =
    Some (case find (occurs needle hay) [i..<length hay + 1] of None \<Rightarrow> 0 | Some k \<Rightarrow> cs + of_nat k)"
  using i zf
proof (induction "length hay - i" arbitrary: i zf rule: less_induct)
  case less
  note here = strstr_here [OF h n less.prems]
  have up: "[i..<length hay + 1] = i # [Suc i..<length hay + 1]" using less.prems(1) by (simp add: upt_conv_Cons)
  show ?case
  proof (cases "occurs needle hay i")
    case True
    then show ?thesis using here by (simp only: up find.simps if_True option.case)
  next
    case False
    show ?thesis
    proof (cases "\<exists>j. j < length needle \<and> i + j = length hay \<and> (\<forall>l<j. hay ! (i + l) = needle ! l)")
      case True
      then have "\<not> occurs needle hay k" if "i \<le> k" for k using no_room that by blast
      then have "find (occurs needle hay) [i..<length hay + 1] = None" by (auto simp: find_None_iff)
      then show ?thesis using here False True by simp
    next
      case no: False
      have "needle \<noteq> []" using False by (auto simp: occurs_def)
      then have "i < length hay" using no less.prems(1) by (cases "i = length hay") auto
      then have "strstr_loop M ct (of_nat (length needle)) False (cs + of_nat (Suc i)) =
          Some (case find (occurs needle hay) [Suc i..<length hay + 1] of None \<Rightarrow> 0 | Some k \<Rightarrow> cs + of_nat k)"
        using \<open>needle \<noteq> []\<close> by (intro less.hyps) auto
      then show ?thesis using here False no by (simp only: up find.simps if_False)
    qed
  qed
qed

text \<open>
  C36: \<^verbatim>\<open>strstr\<close>, for all its tricks with flags, returns, for any two strings, the address of the first occurrence of the one in the other, and the null pointer
  if there is none; the empty string occurs at the beginning.
\<close>

theorem strstr_first:
  assumes "string_at M cs hay" "string_at M ct needle"
  shows "strstr cs ct M = Some (case find (\<lambda>i. take (length needle) (drop i hay) = needle) [0..<length hay + 1] of None \<Rightarrow> 0 | Some k \<Rightarrow> cs + of_nat k)"
proof -
  have z: "strlen ct M = 0 \<longleftrightarrow> needle = []"
    unfolding strlen_string [OF assms(2)] using unat_length [OF assms(2)] by (auto simp: word_unat_eq_iff)
  have "strstr_loop M ct (of_nat (length needle)) (needle = []) (cs + of_nat 0) =
      Some (case find (occurs needle hay) [0..<length hay + 1] of None \<Rightarrow> 0 | Some k \<Rightarrow> cs + of_nat k)"
    by (rule strstr_from [OF assms]) simp_all
  moreover have "occurs needle hay = (\<lambda>i. take (length needle) (drop i hay) = needle)" by (simp add: fun_eq_iff occurs_def)
  ultimately show ?thesis using z unfolding strstr_def strlen_string [OF assms(2)] by simp
qed

text \<open>The text "abcab" and the word "ab" one after the other in memory.\<close>

definition ex_text :: bytes where
  "ex_text = (\<lambda>_. 0)(0x100 := 97, 0x101 := 98, 0x102 := 99, 0x103 := 97, 0x104 := 98, 0x200 := 99, 0x201 := 97)"

lemma ex_strings: "string_at ex_text 0x100 [97, 98, 99, 97, 98]" "string_at ex_text 0x200 [99, 97]"
  by (simp_all add: string_at_def ex_text_def All_less_Suc)

theorem strstr_first_witness:
  "string_at ex_text 0x100 [97, 98, 99, 97, 98] \<and> string_at ex_text 0x200 [99, 97] \<and> strstr 0x100 0x200 ex_text = Some 0x102"
  using strstr_first [OF ex_strings] ex_strings by (simp add: upt_conv_Cons)

section \<open>A byte too many\<close>

lemma sint_pred: "0 < sint (cx :: u32) \<Longrightarrow> sint (cx - 1) = sint cx - 1"
proof -
  assume p: "0 < sint cx"
  have "sint (cx - 1) = signed_take_bit 31 (sint cx - 1)" by (simp add: sint_word_ariths)
  moreover have "sint cx < 2 ^ 31" using sint_lt [of cx] by simp
  ultimately show ?thesis using p by (simp add: signed_take_bit_int_eq_self)
qed

lemma strncat_loop_run:
  assumes "string_at M si cs" "int (length cs) < sint cx" "\<And>i j. i \<le> length cs \<Longrightarrow> j \<le> length cs \<Longrightarrow> si + of_nat i \<noteq> di + of_nat j"
  shows "\<exists>M'. strncat_loop cx si di M = (di + of_nat (length cs) + 1, M') \<and> (\<forall>i\<le>length cs. M' (di + of_nat i) = (cs @ [0]) ! i) \<and>
    (\<forall>a. (\<forall>j\<le>length cs. a \<noteq> di + of_nat j) \<longrightarrow> M' a = M a)"
  using assms
proof (induction cs arbitrary: cx si di M)
  case Nil
  then have "0 \<le> sint (cx - 1)" using sint_pred [of cx] by simp
  then show ?case using Nil by (subst strncat_loop.simps) (auto simp: string_at_def)
next
  case (Cons c cs)
  let ?M = "M(di := c)"
  have cx: "int (length cs) < sint (cx - 1)" using sint_pred [of cx] Cons.prems(2) by simp
  have c: "M si = c" "c \<noteq> 0" using string_byte [OF Cons.prems(1), of 0] Cons.prems(1) by (auto simp: string_at_def)
  have len: "Suc (length cs) < 2 ^ 32 - 1" using Cons.prems(1) by (simp add: string_at_def)
  have byte: "?M (si + 1 + of_nat i) = (cs @ [0]) ! i" if "i \<le> length cs" for i
  proof -
    have e: "si + 1 + of_nat i = si + of_nat (Suc i)" by simp
    have "si + of_nat (Suc i) \<noteq> di" using Cons.prems(3) [of "Suc i" 0] that by simp
    then show ?thesis unfolding e using string_byte [OF Cons.prems(1), of "Suc i"] that by (simp del: of_nat_Suc)
  qed
  have "string_at ?M (si + 1) cs"
    unfolding string_at_def using byte Cons.prems(1) len by (auto simp: string_at_def nth_append)
  moreover have "si + 1 + of_nat i \<noteq> di + 1 + of_nat j" if "i \<le> length cs" "j \<le> length cs" for i j
    using Cons.prems(3) [of "Suc i" "Suc j"] that by (simp add: add.commute add.left_commute)
  ultimately obtain M' where M': "strncat_loop (cx - 1) (si + 1) (di + 1) ?M = (di + 1 + of_nat (length cs) + 1, M')"
    "\<And>i. i \<le> length cs \<Longrightarrow> M' (di + 1 + of_nat i) = (cs @ [0]) ! i" "\<And>a. (\<forall>j\<le>length cs. a \<noteq> di + 1 + of_nat j) \<Longrightarrow> M' a = ?M a"
    using Cons.IH [of ?M "si + 1" "cx - 1" "di + 1"] cx by blast
  have "di \<noteq> di + 1 + of_nat j" if "j \<le> length cs" for j
  proof
    assume "di = di + 1 + of_nat j"
    then have "(of_nat (Suc j) :: u32) = 0" by (simp add: add.assoc)
    then have "unat (of_nat (Suc j) :: u32) = 0" by simp
    then show False using that len by (simp add: unsigned_of_nat take_bit_nat_eq_self del: of_nat_Suc)
  qed
  then have d: "M' di = c" using M'(3) [of di] by simp
  have "M' (di + of_nat i) = ((c # cs) @ [0]) ! i" if "i \<le> Suc (length cs)" for i
    using M'(2) [of "i - 1"] d that by (cases i) (simp_all add: add.assoc)
  moreover have "M' a = M a" if "\<forall>j\<le>Suc (length cs). a \<noteq> di + of_nat j" for a
  proof -
    have "a \<noteq> di" "\<forall>j\<le>length cs. a \<noteq> di + 1 + of_nat j" using that [rule_format, of 0] that [rule_format, of "Suc _"] by (auto simp: add.assoc)
    then show ?thesis using M'(3) by simp
  qed
  moreover have "strncat_loop cx si di M = (di + of_nat (length (c # cs)) + 1, M')"
    using M'(1) c cx by (subst strncat_loop.simps) (simp add: algebra_simps)
  ultimately show ?case by auto
qed

text \<open>
  When the whole string fits, \<^verbatim>\<open>strncat\<close> appends it with its 0, but then writes a second 0 behind it, outside the resulting string.
\<close>

theorem strncat_extra_nul:
  assumes d: "string_at M dest ds" and s: "string_at M src cs" and n: "int (length cs) < sint count"
    and dis: "\<And>i j. i \<le> length cs \<Longrightarrow> j \<le> length cs \<Longrightarrow> src + of_nat i \<noteq> dest + of_nat (length ds) + of_nat j"
  shows "\<exists>M'. strncat dest src count M = (dest, M'(dest + of_nat (length ds) + of_nat (length cs) + 1 := 0)) \<and>
    (\<forall>i\<le>length cs. M' (dest + of_nat (length ds) + of_nat i) = (cs @ [0]) ! i)"
  using strncat_loop_run [OF s n dis] scan_end_string [OF d] by (auto simp: strncat_def)

theorem strncat_extra_nul_witness:
  "string_at ex_text 0x100 [97, 98, 99, 97, 98] \<and> string_at ex_text 0x200 [99, 97] \<and>
   (\<exists>M'. strncat 0x100 0x200 10 (ex_text) = (0x100, M'(0x108 := 0)) \<and> M' 0x107 = 0)"
proof -
  have "(0x200 :: u32) + of_nat i \<noteq> 0x100 + of_nat (length [97, 98, 99, 97, 98 :: u8]) + of_nat j" if "i \<le> length [99, 97 :: u8]" "j \<le> length [99, 97 :: u8]" for i j
    using that by (auto simp: le_Suc_eq)
  from strncat_extra_nul [OF ex_strings _ this, of 10] obtain M' where
    m: "strncat 0x100 0x200 10 ex_text = (0x100, M'(0x108 := 0))" "\<forall>i\<le>2. M' (0x105 + of_nat i) = ([99, 97] @ [0]) ! i"
    by (auto simp: numeral_2_eq_2)
  from m(2) have "M' 0x107 = 0" by (elim allE [of _ 2]) simp
  then show ?thesis using m(1) ex_strings by blast
qed

end
