(* ===== verification/Ports.thy ===== *)
theory Ports
  imports Hd Tty Segments
begin

text \<open>
  Programs over the input and output ports: \<^verbatim>\<open>src/include/asm/io.h\<close>, the polling loops and the command sequence of
  \<^verbatim>\<open>src/kernel/hd.c\<close>, the port writes of \<^verbatim>\<open>src/kernel/serial.c\<close>, \<^verbatim>\<open>src/kernel/console.c\<close> and \<^verbatim>\<open>sched_init\<close>.

  A port program is a tree: it ends, writes a byte and goes on, or reads a byte and goes on depending on it. It is played against the
  sequence of bytes the devices answer; the \<open>n\<close>-th read of the machine gives \<open>d n\<close>, whatever \<open>d\<close> is. The play yields the result, the
  number of the next read and the writes in their order.
\<close>

section \<open>Port programs\<close>

datatype 'a io = Done 'a | Out u16 u8 "'a io" | In u16 "u8 \<Rightarrow> 'a io"

primrec thenI :: "'a io \<Rightarrow> ('a \<Rightarrow> 'b io) \<Rightarrow> 'b io" where
  "thenI (Done r) f = f r"
| "thenI (Out p v m) f = Out p v (thenI m f)"
| "thenI (In p k) f = In p (\<lambda>b. thenI (k b) f)"

primrec play :: "'a io \<Rightarrow> (nat \<Rightarrow> u8) \<Rightarrow> nat \<Rightarrow> 'a \<times> nat \<times> (u16 \<times> u8) list" where
  "play (Done r) = (\<lambda>d n. (r, n, []))"
| "play (Out p v m) = (\<lambda>d n. case play m d n of (r, n', w) \<Rightarrow> (r, n', (p, v) # w))"
| "play (In p k) = (\<lambda>d n. play (k (d n)) d (n + 1))"

definition outb :: "u8 \<Rightarrow> u16 \<Rightarrow> unit io" where
  "outb v port = Out port v (Done ())"

definition inb :: "u16 \<Rightarrow> u8 io" where
  "inb port = In port Done"

primrec outs :: "(u8 \<times> u16) list \<Rightarrow> unit io" where
  "outs [] = Done ()"
| "outs (x # xs) = thenI (outb (fst x) (snd x)) (\<lambda>_. outs xs)"

lemma play_thenI:
  "play (thenI m f) d n = (case play m d n of (r, n', w) \<Rightarrow> case play (f r) d n' of (r', n'', w') \<Rightarrow> (r', n'', w @ w'))"
  by (induction m arbitrary: n) (auto split: prod.splits)

lemma play_outb [simp]: "play (outb v port) d n = ((), n, [(port, v)])"
  by (simp add: outb_def)

lemma play_inb [simp]: "play (inb port) d n = (d n, n + 1, [])"
  by (simp add: inb_def)

lemma play_outs [simp]: "play (outs xs) d n = ((), n, map prod.swap xs)"
  by (induction xs) (auto simp: play_thenI split: prod.splits)

text \<open>What the registers behind the ports hold after writes: the last value written to each.\<close>

primrec latch :: "(u16 \<times> u8) list \<Rightarrow> (u16 \<Rightarrow> u8) \<Rightarrow> u16 \<Rightarrow> u8" where
  "latch [] R = R"
| "latch (x # xs) R = latch xs (R(fst x := snd x))"

section \<open>The hard disk controller\<close>

definition HD_DATA :: u16 where "HD_DATA = 0x1f0"
definition HD_ERROR :: u16 where "HD_ERROR = 0x1f1"
definition HD_NSECTOR :: u16 where "HD_NSECTOR = 0x1f2"
definition HD_SECTOR :: u16 where "HD_SECTOR = 0x1f3"
definition HD_LCYL :: u16 where "HD_LCYL = 0x1f4"
definition HD_HCYL :: u16 where "HD_HCYL = 0x1f5"
definition HD_CURRENT :: u16 where "HD_CURRENT = 0x1f6"
definition HD_STATUS :: u16 where "HD_STATUS = 0x1f7"
definition HD_COMMAND :: u16 where "HD_COMMAND = HD_STATUS"
definition HD_CMD :: u16 where "HD_CMD = 0x3f6"

definition ERR_STAT :: u8 where "ERR_STAT = 0x01"
definition DRQ_STAT :: u8 where "DRQ_STAT = 0x08"
definition SEEK_STAT :: u8 where "SEEK_STAT = 0x10"
definition WRERR_STAT :: u8 where "WRERR_STAT = 0x20"
definition READY_STAT :: u8 where "READY_STAT = 0x40"
definition BUSY_STAT :: u8 where "BUSY_STAT = 0x80"
definition WIN_SPECIFY :: u8 where "WIN_SPECIFY = 0x91"

lemmas hdreg_defs = HD_DATA_def HD_ERROR_def HD_NSECTOR_def HD_SECTOR_def HD_LCYL_def HD_HCYL_def HD_CURRENT_def HD_STATUS_def
  HD_COMMAND_def HD_CMD_def ERR_STAT_def DRQ_STAT_def SEEK_STAT_def WRERR_STAT_def READY_STAT_def BUSY_STAT_def

text \<open>The loop of \<^verbatim>\<open>controller_ready\<close>; the argument is \<^verbatim>\<open>retries\<close> after the decrement.\<close>

primrec ready_loop :: "nat \<Rightarrow> nat io" where
  "ready_loop 0 = Done 0"
| "ready_loop (Suc n) = In HD_STATUS (\<lambda>b. if b AND 0xc0 \<noteq> 0x40 then ready_loop n else Done (Suc n))"

definition controller_ready :: "nat io" where
  "controller_ready = ready_loop 999"

definition win_result :: "nat io" where
  "win_result = thenI (inb HD_STATUS) (\<lambda>i.
     if i AND (BUSY_STAT OR READY_STAT OR WRERR_STAT OR SEEK_STAT OR ERR_STAT) = READY_STAT OR SEEK_STAT then Done 0
     else if i AND 1 \<noteq> 0 then thenI (inb HD_ERROR) (\<lambda>_. Done 1) else Done 1)"

text \<open>\<^verbatim>\<open>hd_out\<close>; a value \<open>Inl\<close> is a panic with its message. \<^verbatim>\<open>_CTL\<close> is 0, \<^verbatim>\<open>_WPCOM\<close> is 300 divided by 4.\<close>

definition hd_out_io :: "u32 \<Rightarrow> u32 \<Rightarrow> u32 \<Rightarrow> u32 \<Rightarrow> u32 \<Rightarrow> u8 \<Rightarrow> (string + unit) io" where
  "hd_out_io drive nsect sect head cyl cmd =
     (if drive > 1 \<or> head > 15 then Done (Inl ''Trying to write bad sector'')
      else thenI controller_ready (\<lambda>r.
        if r = 0 then Done (Inl ''HD controller not ready'')
        else thenI (outs [(0, HD_CMD), (ucast (drop_bit 2 (300 :: u32)), HD_DATA + 1), (ucast nsect, HD_DATA + 2), (ucast sect, HD_DATA + 3),
               (ucast cyl, HD_DATA + 4), (ucast (drop_bit 8 cyl), HD_DATA + 5), (ucast (0xA0 OR push_bit 4 drive OR head), HD_DATA + 6),
               (cmd, HD_DATA + 7)]) (\<lambda>_. Done (Inr ()))))"


text \<open>\<^verbatim>\<open>drive_busy\<close>. The comparison binds tighter than the bitwise or, as in C: its value, 0 or 1, is combined with \<^verbatim>\<open>SEEK_STAT\<close>.\<close>

primrec busy_loop :: "nat \<Rightarrow> unit io" where
  "busy_loop 0 = Done ()"
| "busy_loop (Suc n) = In HD_STATUS (\<lambda>b. if READY_STAT = b AND (BUSY_STAT OR READY_STAT) then Done () else busy_loop n)"

definition drive_busy :: "nat io" where
  "drive_busy = thenI (busy_loop 100000) (\<lambda>_. thenI (inb HD_STATUS) (\<lambda>b.
     let i = b AND (BUSY_STAT OR READY_STAT OR SEEK_STAT) in
     if (if i = READY_STAT then 1 else 0) OR SEEK_STAT \<noteq> 0 then Done 0 else Done 1))"

text \<open>\<^verbatim>\<open>reset_controller\<close>; the messages are not part of the result. The last read is from the port with the number \<^verbatim>\<open>ERR_STAT\<close>.\<close>

primrec reset_loop :: "nat \<Rightarrow> unit io" where
  "reset_loop 0 = Done ()"
| "reset_loop (Suc n) = thenI drive_busy (\<lambda>b. if b \<noteq> 0 then reset_loop n else Done ())"

definition reset_controller :: "unit io" where
  "reset_controller =
     thenI (outb 4 HD_CMD) (\<lambda>_. thenI (outb 0 HD_CMD) (\<lambda>_. thenI (reset_loop 10000) (\<lambda>_.
       thenI drive_busy (\<lambda>_. thenI (inb (ucast ERR_STAT)) (\<lambda>_. Done ())))))"

definition reset_hd_io :: "u32 \<Rightarrow> (string + unit) io" where
  "reset_hd_io nr = thenI reset_controller (\<lambda>_. hd_out_io nr 17 17 (5 - 1) 977 WIN_SPECIFY)"

text \<open>The wait for the data request bit in \<^verbatim>\<open>do_request\<close>: whether it came within 3000 reads.\<close>

primrec drq_loop :: "nat \<Rightarrow> bool io" where
  "drq_loop 0 = Done False"
| "drq_loop (Suc n) = In HD_STATUS (\<lambda>b. if b AND DRQ_STAT = 0 then drq_loop n else Done True)"

text \<open>The write branch of \<^verbatim>\<open>do_request\<close> up to the transfer of the data: whether the data is sent.\<close>

definition write_start_io :: "hd_request \<Rightarrow> (string + bool) io" where
  "write_start_io q =
     thenI (hd_out_io (word_of_int (r_hd q)) (word_of_int (r_nsector q)) (word_of_int (r_sector q)) (word_of_int (r_head q)) (word_of_int (r_cyl q))
        (word_of_int (r_cmd q))) (\<lambda>x. case x of
       Inl msg \<Rightarrow> Done (Inl msg)
     | Inr _ \<Rightarrow> thenI (drq_loop 3000) (\<lambda>r.
         if \<not> r then thenI (reset_hd_io (word_of_int (r_hd q))) (\<lambda>y. case y of Inl msg \<Rightarrow> Done (Inl msg) | Inr _ \<Rightarrow> Done (Inr False))
         else Done (Inr True)))"

section \<open>Interrupt controller, timer, serial lines and the video chip\<close>

text \<open>Clearing bits of the mask of an interrupt controller: \<^verbatim>\<open>outb(inb_p(port)&m,port)\<close>.\<close>

definition unmask :: "u8 \<Rightarrow> u16 \<Rightarrow> unit io" where
  "unmask m port = thenI (inb port) (\<lambda>v. outb (v AND m) port)"

definition LATCH :: u32 where "LATCH = 1193180 div 100"

definition sched_init_io :: "unit io" where
  "sched_init_io = thenI (outs [(0x36, 0x43), (ucast (LATCH AND 0xff), 0x40), (ucast (drop_bit 8 LATCH), 0x40)]) (\<lambda>_. unmask (NOT 0x01) 0x21)"

definition hd_init_io :: "unit io" where
  "hd_init_io = thenI (unmask 0xfb 0x21) (\<lambda>_. unmask 0xbf 0xA1)"

definition serial_init :: "u16 \<Rightarrow> unit io" where
  "serial_init port =
     thenI (outs [(0x80, port + 3), (0x30, port), (0x00, port + 1), (0x03, port + 3), (0x0b, port + 4), (0x0d, port + 1)])
       (\<lambda>_. thenI (inb port) (\<lambda>_. Done ()))"

definition rs_init_io :: "'z ttyst_scheme \<Rightarrow> unit io" where
  "rs_init_io s =
     thenI (serial_init (ucast (q_data (read_q (tty_table s 1))))) (\<lambda>_.
       thenI (serial_init (ucast (q_data (read_q (tty_table s 2))))) (\<lambda>_. unmask 0xE7 0x21))"

definition rs_write_io :: "nat \<Rightarrow> 'z ttyst_scheme \<Rightarrow> unit io" where
  "rs_write_io t s =
     (let q = write_q (tty_table s t); port = ucast (q_data q) + 1 in
      if \<not> EMPTY q then thenI (inb port) (\<lambda>v. outb (v OR 0x02) port) else Done ())"

definition con_init_io :: "unit io" where
  "con_init_io = thenI (unmask 0xfd 0x21) (\<lambda>_. thenI (inb 0x61) (\<lambda>a. outs [(a OR 0x80, 0x61), (a, 0x61)]))"

definition set_origin :: "con \<Rightarrow> unit io" where
  "set_origin v = outs [(12, 0x3d4), (ucast (0xff AND drop_bit 9 (v_origin v - SCREEN_START)), 0x3d5),
     (13, 0x3d4), (ucast (0xff AND drop_bit 1 (v_origin v - SCREEN_START)), 0x3d5)]"

definition set_cursor :: "con \<Rightarrow> unit io" where
  "set_cursor v = outs [(14, 0x3d4), (ucast (0xff AND drop_bit 9 (v_pos v - SCREEN_START)), 0x3d5),
     (15, 0x3d4), (ucast (0xff AND drop_bit 1 (v_pos v - SCREEN_START)), 0x3d5)]"

end
