(* ===== verification/Port_Props.thy ===== *)
theory Port_Props
  imports Ports Hd_Props
begin

text \<open>
  What the port programs tell the devices: the command block of the hard disk controller addresses the sector the driver means, the
  polling loops end, and the registers of the video chip follow the cursor.
\<close>

section \<open>Polling\<close>

definition answers_ready :: "(nat \<Rightarrow> u8) \<Rightarrow> nat \<Rightarrow> nat \<Rightarrow> bool" where
  "answers_ready d n m \<longleftrightarrow> (\<exists>k < m. d (n + k) AND 0xc0 = 0x40)"

lemma answers_ready_Suc: "answers_ready d n (Suc m) \<longleftrightarrow> d n AND 0xc0 = 0x40 \<or> answers_ready d (Suc n) m"
  by (auto simp: answers_ready_def less_Suc_eq_0_disj)

lemma play_ready_loop:
  "\<exists>r n'. play (ready_loop m) d n = (r, n', []) \<and> (r \<noteq> 0 \<longleftrightarrow> answers_ready d n m)"
proof (induction m arbitrary: n)
  case 0
  then show ?case by (simp add: answers_ready_def)
next
  case (Suc m)
  show ?case
  proof (cases "d n AND 0xc0 = 0x40")
    case True
    then show ?thesis by (simp add: answers_ready_Suc)
  next
    case False
    then show ?thesis using Suc [of "Suc n"] by (simp add: answers_ready_Suc)
  qed
qed

lemma play_busy_loop: "\<exists>n'. play (busy_loop m) d n = ((), n', [])"
  by (induction m arbitrary: n) auto

lemma play_drive_busy: "\<exists>n'. play drive_busy d n = (0, n', [])"
proof -
  obtain n' where "play (busy_loop 100000) d n = ((), n', [])" using play_busy_loop by blast
  then show ?thesis by (simp add: drive_busy_def play_thenI SEEK_STAT_def Let_def)
qed

lemma play_reset_controller: "\<exists>n'. play reset_controller d n = ((), n', [(HD_CMD, 4), (HD_CMD, 0)])"
proof -
  obtain n1 where 1: "play drive_busy d n = (0, n1, [])" using play_drive_busy by blast
  have "reset_loop 10000 = thenI drive_busy (\<lambda>b. if b \<noteq> 0 then reset_loop 9999 else Done ())"
    using reset_loop.simps(2) [of 9999] by simp
  then have l: "play (reset_loop 10000) d n = ((), n1, [])" using 1 by (simp add: play_thenI)
  obtain n2 where "play drive_busy d n1 = (0, n2, [])" using play_drive_busy by blast
  then show ?thesis using l by (simp add: reset_controller_def play_thenI)
qed

text \<open>
  Because \<^verbatim>\<open>i == READY_STAT | SEEK_STAT\<close> is never 0, \<^verbatim>\<open>drive_busy\<close> reports a drive that is not busy whatever status the controller
  gives, even one that stays busy for all of the polling; so \<^verbatim>\<open>reset_controller\<close> sends the two bytes of the reset and never repeats the wait.
\<close>

theorem drive_busy_never_busy:
  "fst (play drive_busy d n) = 0 \<and> snd (snd (play reset_controller d n)) = [(HD_CMD, 4), (HD_CMD, 0)] \<and>
   fst (snd (play drive_busy (\<lambda>_. BUSY_STAT) 0)) = 100001"
proof -
  have "play (busy_loop m) (\<lambda>_. BUSY_STAT) k = ((), k + m, [])" for m k
    by (induction m arbitrary: k) (simp_all add: READY_STAT_def BUSY_STAT_def)
  from this [of 100000 0] have "fst (snd (play drive_busy (\<lambda>_. BUSY_STAT) 0)) = 100001"
    by (simp add: drive_busy_def play_thenI SEEK_STAT_def Let_def)
  then show ?thesis
    using play_drive_busy [of d n] play_reset_controller [of d n] by auto
qed

section \<open>The command block\<close>

text \<open>How the controller reads its registers: drive and head from \<^verbatim>\<open>101dhhhh\<close>, the cylinder from two bytes.\<close>

definition reg_drive :: "(u16 \<Rightarrow> u8) \<Rightarrow> nat" where
  "reg_drive R = (if bit (R HD_CURRENT) 4 then 1 else 0)"

definition reg_head :: "(u16 \<Rightarrow> u8) \<Rightarrow> nat" where
  "reg_head R = unat (take_bit 4 (R HD_CURRENT))"

definition reg_cyl :: "(u16 \<Rightarrow> u8) \<Rightarrow> nat" where
  "reg_cyl R = unat (R HD_LCYL) + 256 * unat (R HD_HCYL)"

definition reg_lba :: "(u16 \<Rightarrow> u8) \<Rightarrow> nat" where
  "reg_lba R = chs_lba (reg_drive R) (reg_cyl R) (reg_head R) (unat (R HD_SECTOR))"

lemma head_bits: "head \<le> (15 :: u32) \<Longrightarrow> take_bit 4 head = head"
  by (simp add: take_bit_eq_mod word_le_nat_alt word_unat_eq_iff unat_mod)

lemma take_4_ucast: "take_bit 4 (ucast (w :: u32) :: u8) = ucast (take_bit 4 w)"
  by (rule bit_word_eqI) (auto simp: bit_simps)

lemma current_byte:
  assumes dr: "drive = 0 \<or> drive = (1 :: u32)" and hd: "head \<le> 15"
  shows "bit (ucast (0xA0 OR push_bit 4 drive OR head) :: u8) 4 \<longleftrightarrow> drive = 1"
    and "unat (take_bit 4 (ucast (0xA0 OR push_bit 4 drive OR head) :: u8)) = unat head"
proof -
  have "\<not> bit (take_bit 4 head) 4" by (simp add: bit_simps)
  then have h4: "\<not> bit head 4" using head_bits [OF hd] by simp
  have "bit (0xA0 :: u32) 4 = False" by simp
  then show "bit (ucast (0xA0 OR push_bit 4 drive OR head) :: u8) 4 \<longleftrightarrow> drive = 1"
    using dr h4 by (auto simp: bit_simps)
  have "take_bit 4 (0xA0 OR push_bit 4 drive OR head) = head"
    using dr head_bits [OF hd] by (auto simp: take_bit_or)
  then have "take_bit 4 (ucast (0xA0 OR push_bit 4 drive OR head) :: u8) = ucast head"
    by (simp only: take_4_ucast)
  then show "unat (take_bit 4 (ucast (0xA0 OR push_bit 4 drive OR head) :: u8)) = unat head"
    using hd by (simp add: unsigned_ucast_eq take_bit_eq_mod word_le_nat_alt)
qed


lemma cylinder_bytes:
  assumes "cyl < (65536 :: u32)"
  shows "unat (ucast cyl :: u8) + 256 * unat (ucast (drop_bit 8 cyl) :: u8) = unat cyl"
proof -
  have "unat cyl < 65536" using assms by (simp add: word_less_nat_alt)
  then have "unat cyl div 256 mod 256 = unat cyl div 256" by simp
  then show ?thesis by (simp add: unsigned_ucast_eq take_bit_eq_mod drop_bit_eq_div unat_div)
qed

lemma hd_out_io_ready:
  assumes "drive \<le> 1" "head \<le> 15" "answers_ready d n 999"
  shows "\<exists>n'. play (hd_out_io drive nsect sect head cyl cmd) d n = (Inr (), n',
    [(HD_CMD, 0), (HD_ERROR, 75), (HD_NSECTOR, ucast nsect), (HD_SECTOR, ucast sect), (HD_LCYL, ucast cyl), (HD_HCYL, ucast (drop_bit 8 cyl)),
     (HD_CURRENT, ucast (0xA0 OR push_bit 4 drive OR head)), (HD_COMMAND, cmd)])"
proof -
  obtain r n' where "play (ready_loop 999) d n = (r, n', [])" "r \<noteq> 0"
    using play_ready_loop [of 999 d n] assms(3) by blast
  then show ?thesis
    using assms(1,2) by (simp add: hd_out_io_def controller_ready_def play_thenI HD_DATA_def HD_ERROR_def HD_NSECTOR_def HD_SECTOR_def
        HD_LCYL_def HD_HCYL_def HD_CURRENT_def HD_COMMAND_def HD_STATUS_def not_less [symmetric])
qed

lemma hd_out_io_not_ready:
  assumes "drive \<le> 1" "head \<le> 15" "\<not> answers_ready d n 999"
  shows "\<exists>n'. play (hd_out_io drive nsect sect head cyl cmd) d n = (Inl ''HD controller not ready'', n', [])"
proof -
  obtain n' where "play (ready_loop 999) d n = (0, n', [])"
    using play_ready_loop [of 999 d n] assms(3) by auto
  then show ?thesis
    using assms(1,2) by (simp add: hd_out_io_def controller_ready_def play_thenI not_less [symmetric])
qed

text \<open>
  C32: the bytes \<^verbatim>\<open>hd_out\<close> sends make the controller address the sector the driver means. If one of the 999 status reads says ready, the
  command is the last byte written and the registers then hold the drive, the head, the cylinder and the sector of the effect the driver model
  gives \<^verbatim>\<open>hd_out\<close>; otherwise the kernel panics without having written anything.
\<close>

theorem hd_out_registers:
  fixes s :: "'z hdst_scheme"
  assumes "drive \<le> 1" "head \<le> 15" "cyl < 65536" "sect < 256"
  shows "case play (hd_out_io drive nsect sect head cyl cmd) d n of (r, _, w) \<Rightarrow>
    if answers_ready d n 999 then
      r = Inr () \<and> last w = (HD_COMMAND, cmd) \<and> latch w R HD_NSECTOR = ucast nsect \<and>
      hd_out (uint drive) (uint sect) (uint head) (uint cyl) h s e =
        Ok () (s\<lparr>do_hd := h, hw_drive := reg_drive (latch w R), hw_lba := reg_lba (latch w R)\<rparr>) e
    else r = Inl ''HD controller not ready'' \<and> w = []"
proof (cases "answers_ready d n 999")
  case False
  then show ?thesis using hd_out_io_not_ready [OF assms(1,2) False, of nsect sect cyl cmd] by auto
next
  case True
  let ?c = "ucast (0xA0 OR push_bit 4 drive OR head) :: u8"
  let ?w = "[(HD_CMD, 0), (HD_ERROR, 75), (HD_NSECTOR, ucast nsect), (HD_SECTOR, ucast sect), (HD_LCYL, ucast cyl),
    (HD_HCYL, ucast (drop_bit 8 cyl)), (HD_CURRENT, ?c), (HD_COMMAND, cmd)]"
  obtain n' where play: "play (hd_out_io drive nsect sect head cyl cmd) d n = (Inr (), n', ?w)"
    using hd_out_io_ready [OF assms(1,2) True, of nsect sect cyl cmd] by blast
  have dr: "drive = 0 \<or> drive = 1" using assms(1) by (auto simp: word_le_nat_alt word_unat_eq_iff)
  have R: "latch ?w R HD_NSECTOR = ucast nsect" "latch ?w R HD_SECTOR = ucast sect" "latch ?w R HD_LCYL = ucast cyl"
    "latch ?w R HD_HCYL = ucast (drop_bit 8 cyl)" "latch ?w R HD_CURRENT = ?c"
    by (simp_all add: hdreg_defs)
  have drive: "reg_drive (latch ?w R) = unat drive"
    using current_byte(1) [OF dr assms(2)] dr unfolding reg_drive_def R by auto
  have "reg_head (latch ?w R) = unat head" unfolding reg_head_def R by (rule current_byte(2) [OF dr assms(2)])
  moreover have "reg_cyl (latch ?w R) = unat cyl" unfolding reg_cyl_def R by (rule cylinder_bytes [OF assms(3)])
  moreover have "unat (ucast sect :: u8) = unat sect" using assms(4) by (simp add: unsigned_ucast_eq take_bit_eq_mod word_less_nat_alt)
  ultimately have lba: "reg_lba (latch ?w R) = chs_lba (unat drive) (unat cyl) (unat head) (unat sect)"
    by (simp only: reg_lba_def drive R)
  have "uint drive \<le> 1" "uint head \<le> 15" using assms(1,2) by (simp_all add: word_le_def)
  then have "hd_out (uint drive) (uint sect) (uint head) (uint cyl) h s e =
      Ok () (s\<lparr>do_hd := h, hw_drive := unat drive, hw_lba := chs_lba (unat drive) (unat cyl) (unat head) (unat sect)\<rparr>) e"
    by (simp add: hd_out_def modify_def)
  then show ?thesis unfolding play using True R(1) by (simp add: drive lba del: latch.simps)
qed

theorem hd_out_registers_witness:
  "case play (hd_out_io 1 2 6 3 300 0x20) (\<lambda>n. if n < 10 then 0x80 else 0x50) 0 of (r, _, w) \<Rightarrow>
     r = Inr () \<and> last w = (HD_COMMAND, 0x20)"
proof -
  let ?d = "\<lambda>n. if n < 10 then 0x80 else 0x50 :: u8"
  have ready: "answers_ready ?d 0 999"
    unfolding answers_ready_def by (rule exI [of _ 10]) simp
  obtain r n' w where p: "play (hd_out_io 1 2 6 3 300 0x20) ?d 0 = (r, n', w)" by (metis prod_cases3)
  have "r = Inr () \<and> last w = (HD_COMMAND, 0x20)"
    using hd_out_registers [where drive = 1 and head = 3 and cyl = 300 and sect = 6 and nsect = 2 and cmd = "0x20" and d = ?d and n = 0 and
        s = ex_hd and e = "[]" and h = Read_intr and R = "\<lambda>_. 0"] ready
    by (simp add: p)
  then show ?thesis by (simp add: p)
qed

end
