(* ===== verification/Hd_Setup.thy ===== *)
theory Hd_Setup
  imports Super
begin

text \<open>
  \<^verbatim>\<open>sys_setup\<close> of \<^verbatim>\<open>src/kernel/hd.c\<close>: it reads the partition tables into the first buffer and mounts the root file system. The variable \<^verbatim>\<open>callable\<close> lets it
  run once.
\<close>

text \<open>The fields of entry \<open>i\<close>, from 0, of the partition table in the first sector: \<^verbatim>\<open>struct partition\<close> has 16 bytes.\<close>

definition partition_of :: "(nat \<Rightarrow> u8) \<Rightarrow> nat \<Rightarrow> hd_struct" where
  "partition_of D i = \<lparr>start_sect = get32 D (0x1BE + 16 * i + 8), nr_sects = get32 D (0x1BE + 16 * i + 12)\<rparr>"

definition set_partitions :: "nat \<Rightarrow> (nat \<Rightarrow> u8) \<Rightarrow> (nat \<Rightarrow> hd_struct) \<Rightarrow> nat \<Rightarrow> hd_struct" where
  "set_partitions drive D P = fold (\<lambda>i P. P(i + 5 * drive := partition_of D (i - 1))) [1..<5] P"

definition read_partitions :: "nat \<Rightarrow> ('z hdst_scheme, unit) km" where
  "read_partitions drive =
     seqK (rw_abs_hd READ drive 1 0 0 1)
       (bnd (gets (\<lambda>s. bufs s 1)) (\<lambda>bh.
          if b_uptodate bh = 0 then panic ''Unable to read partition table''
          else if b_data bh 510 \<noteq> 0x55 \<or> b_data bh 511 \<noteq> 0xAA then panic ''Bad partition table''
          else modify (\<lambda>s. s\<lparr>hd_parts := set_partitions drive (b_data bh) (hd_parts s)\<rparr>)))"

definition sys_setup :: "('z fs_scheme, int) km" where
  "sys_setup =
     bnd (gets callable) (\<lambda>c.
       if \<not> c then ret (- 1)
       else seqK (modify (\<lambda>s. s\<lparr>callable := False\<rparr>))
         (seqK (forK [0..<NR_HD] read_partitions) (seqK mount_root (ret 0))))"

end
