(* ===== verification/Syscall.thy ===== *)
theory Syscall
  imports Exec Hd_Setup
begin

text \<open>
  The system call interface: the numbers and stubs of \<^verbatim>\<open>src/include/unistd.h\<close>, the table of \<^verbatim>\<open>src/include/linux/sys.h\<close>, and the entry code of
  \<^verbatim>\<open>src/kernel/system_call.s\<close> that dispatches a call, reschedules, and delivers signals on the way back to the process.
\<close>

section \<open>Numbers\<close>

datatype (plugins only: size) syscall = S_setup | S_exit | S_fork | S_read | S_write | S_open | S_close | S_waitpid | S_creat | S_link | S_unlink | S_execve | S_chdir | S_time |
  S_mknod | S_chmod | S_chown | S_break | S_stat | S_lseek | S_getpid | S_mount | S_umount | S_setuid | S_getuid | S_stime | S_ptrace |
  S_alarm | S_fstat | S_pause | S_utime | S_stty | S_gtty | S_access | S_nice | S_ftime | S_sync | S_kill | S_rename | S_mkdir | S_rmdir |
  S_dup | S_pipe | S_times | S_prof | S_brk | S_setgid | S_getgid | S_signal | S_geteuid | S_getegid | S_acct | S_phys | S_lock | S_ioctl |
  S_fcntl | S_mpx | S_setpgid | S_ulimit | S_uname | S_umask | S_chroot | S_ustat | S_dup2 | S_getppid | S_getpgrp | S_setsid

text \<open>The table of the kernel and the numbers of the library.\<close>

definition sys_call_table :: "syscall list" where
  "sys_call_table = [S_setup, S_exit, S_fork, S_read, S_write, S_open, S_close, S_waitpid, S_creat, S_link, S_unlink, S_execve, S_chdir, S_time, S_mknod,
     S_chmod, S_chown, S_break, S_stat, S_lseek, S_getpid, S_mount, S_umount, S_setuid, S_getuid, S_stime, S_ptrace, S_alarm, S_fstat, S_pause,
     S_utime, S_stty, S_gtty, S_access, S_nice, S_ftime, S_sync, S_kill, S_rename, S_mkdir, S_rmdir, S_dup, S_pipe, S_times, S_prof, S_brk,
     S_setgid, S_getgid, S_signal, S_geteuid, S_getegid, S_acct, S_phys, S_lock, S_ioctl, S_fcntl, S_mpx, S_setpgid, S_ulimit, S_uname, S_umask,
     S_chroot, S_ustat, S_dup2, S_getppid, S_getpgrp, S_setsid]"

primrec NR :: "syscall \<Rightarrow> u32" where
  "NR S_setup = 0"
| "NR S_exit = 1"
| "NR S_fork = 2"
| "NR S_read = 3"
| "NR S_write = 4"
| "NR S_open = 5"
| "NR S_close = 6"
| "NR S_waitpid = 7"
| "NR S_creat = 8"
| "NR S_link = 9"
| "NR S_unlink = 10"
| "NR S_execve = 11"
| "NR S_chdir = 12"
| "NR S_time = 13"
| "NR S_mknod = 14"
| "NR S_chmod = 15"
| "NR S_chown = 16"
| "NR S_break = 17"
| "NR S_stat = 18"
| "NR S_lseek = 19"
| "NR S_getpid = 20"
| "NR S_mount = 21"
| "NR S_umount = 22"
| "NR S_setuid = 23"
| "NR S_getuid = 24"
| "NR S_stime = 25"
| "NR S_ptrace = 26"
| "NR S_alarm = 27"
| "NR S_fstat = 28"
| "NR S_pause = 29"
| "NR S_utime = 30"
| "NR S_stty = 31"
| "NR S_gtty = 32"
| "NR S_access = 33"
| "NR S_nice = 34"
| "NR S_ftime = 35"
| "NR S_sync = 36"
| "NR S_kill = 37"
| "NR S_rename = 38"
| "NR S_mkdir = 39"
| "NR S_rmdir = 40"
| "NR S_dup = 41"
| "NR S_pipe = 42"
| "NR S_times = 43"
| "NR S_prof = 44"
| "NR S_brk = 45"
| "NR S_setgid = 46"
| "NR S_getgid = 47"
| "NR S_signal = 48"
| "NR S_geteuid = 49"
| "NR S_getegid = 50"
| "NR S_acct = 51"
| "NR S_phys = 52"
| "NR S_lock = 53"
| "NR S_ioctl = 54"
| "NR S_fcntl = 55"
| "NR S_mpx = 56"
| "NR S_setpgid = 57"
| "NR S_ulimit = 58"
| "NR S_uname = 59"
| "NR S_umask = 60"
| "NR S_chroot = 61"
| "NR S_ustat = 62"
| "NR S_dup2 = 63"
| "NR S_getppid = 64"
| "NR S_getpgrp = 65"
| "NR S_setsid = 66"

section \<open>Dispatch\<close>

text \<open>The registers saved on the kernel stack. The process continues with them when the call returns.\<close>

record frame = fork_regs +
  r_eax :: int

text \<open>
  The functions of the table, called with the registers \<^verbatim>\<open>ebx\<close>, \<^verbatim>\<open>ecx\<close> and \<^verbatim>\<open>edx\<close>. \<^verbatim>\<open>sys_fork\<close> and \<^verbatim>\<open>sys_execve\<close> reach the rest of the frame on the
  stack.
\<close>

definition returns :: "frame \<Rightarrow> ('s, int) km \<Rightarrow> ('s, frame) km" where
  "returns f m = bnd m (\<lambda>r. ret (f\<lparr>r_eax := r\<rparr>))"

definition sys_execve :: "frame \<Rightarrow> ('z ttyst_scheme, frame) km" where
  "sys_execve f =
     bnd (do_execve (word_of_int (r_cs f)) (word_of_int (r_ebx f)) (word_of_int (r_ecx f)) (word_of_int (r_edx f))) (\<lambda>(r, new).
       ret (case new of None \<Rightarrow> f\<lparr>r_eax := r\<rparr> | Some (entry, sp) \<Rightarrow> f\<lparr>r_eax := r, r_eip := sint entry, r_esp := sint sp\<rparr>))"

primrec call_table :: "syscall \<Rightarrow> frame \<Rightarrow> ('z procst_scheme, frame) km" where
  "call_table S_setup f = returns f (sys_setup)"
| "call_table S_exit f = returns f (sys_exit (r_ebx f))"
| "call_table S_fork f = returns f (sys_fork (fork_regs.truncate f))"
| "call_table S_read f = returns f (sys_read (word_of_int (r_ebx f)) (word_of_int (r_ecx f)) (r_edx f))"
| "call_table S_write f = returns f (sys_write (word_of_int (r_ebx f)) (word_of_int (r_ecx f)) (r_edx f))"
| "call_table S_open f = returns f (sys_open (word_of_int (r_ebx f)) (word_of_int (r_ecx f)) (word_of_int (r_edx f)))"
| "call_table S_close f = returns f (sys_close (word_of_int (r_ebx f)))"
| "call_table S_waitpid f = returns f (sys_waitpid (r_ebx f) (word_of_int (r_ecx f)) (word_of_int (r_edx f)))"
| "call_table S_creat f = returns f (sys_creat (word_of_int (r_ebx f)) (word_of_int (r_ecx f)))"
| "call_table S_link f = returns f (sys_link (word_of_int (r_ebx f)) (word_of_int (r_ecx f)))"
| "call_table S_unlink f = returns f (sys_unlink (word_of_int (r_ebx f)))"
| "call_table S_execve f = sys_execve f"
| "call_table S_chdir f = returns f (sys_chdir (word_of_int (r_ebx f)))"
| "call_table S_time f = returns f (sys_time (word_of_int (r_ebx f)))"
| "call_table S_mknod f = returns f (ret sys_mknod)"
| "call_table S_chmod f = returns f (sys_chmod (word_of_int (r_ebx f)) (word_of_int (r_ecx f)))"
| "call_table S_chown f = returns f (sys_chown (word_of_int (r_ebx f)) (word_of_int (r_ecx f)) (word_of_int (r_edx f)))"
| "call_table S_break f = returns f (ret sys_break)"
| "call_table S_stat f = returns f (sys_stat (word_of_int (r_ebx f)) (word_of_int (r_ecx f)))"
| "call_table S_lseek f = returns f (sys_lseek (word_of_int (r_ebx f)) (r_ecx f) (r_edx f))"
| "call_table S_getpid f = returns f (gets sys_getpid)"
| "call_table S_mount f = returns f (ret sys_mount)"
| "call_table S_umount f = returns f (ret sys_umount)"
| "call_table S_setuid f = returns f (runst (sys_setuid (r_ebx f)))"
| "call_table S_getuid f = returns f (gets sys_getuid)"
| "call_table S_stime f = returns f (runst (sys_stime (word_of_int (r_ebx f))))"
| "call_table S_ptrace f = returns f (ret sys_ptrace)"
| "call_table S_alarm f = returns f (runst (sys_alarm (r_ebx f)))"
| "call_table S_fstat f = returns f (sys_fstat (word_of_int (r_ebx f)) (word_of_int (r_ecx f)))"
| "call_table S_pause f = returns f (sys_pause)"
| "call_table S_utime f = returns f (sys_utime (word_of_int (r_ebx f)) (word_of_int (r_ecx f)))"
| "call_table S_stty f = returns f (ret sys_stty)"
| "call_table S_gtty f = returns f (ret sys_gtty)"
| "call_table S_access f = returns f (sys_access (word_of_int (r_ebx f)) (word_of_int (r_ecx f)))"
| "call_table S_nice f = returns f (runst (sys_nice (r_ebx f)))"
| "call_table S_ftime f = returns f (ret sys_ftime)"
| "call_table S_sync f = returns f (sys_sync)"
| "call_table S_kill f = returns f (sys_kill (r_ebx f) (r_ecx f))"
| "call_table S_rename f = returns f (ret sys_rename)"
| "call_table S_mkdir f = returns f (sys_mkdir (word_of_int (r_ebx f)) (word_of_int (r_ecx f)))"
| "call_table S_rmdir f = returns f (sys_rmdir (word_of_int (r_ebx f)))"
| "call_table S_dup f = returns f (sys_dup (word_of_int (r_ebx f)))"
| "call_table S_pipe f = returns f (sys_pipe (word_of_int (r_ebx f)))"
| "call_table S_times f = returns f (sys_times (word_of_int (r_ebx f)))"
| "call_table S_prof f = returns f (ret sys_prof)"
| "call_table S_brk f = returns f (runst (sys_brk (word_of_int (r_ebx f))))"
| "call_table S_setgid f = returns f (runst (sys_setgid (r_ebx f)))"
| "call_table S_getgid f = returns f (gets sys_getgid)"
| "call_table S_signal f = returns f (runst (sys_signal (r_ebx f) (r_ecx f) (r_edx f)))"
| "call_table S_geteuid f = returns f (gets sys_geteuid)"
| "call_table S_getegid f = returns f (gets sys_getegid)"
| "call_table S_acct f = returns f (ret sys_acct)"
| "call_table S_phys f = returns f (ret sys_phys)"
| "call_table S_lock f = returns f (ret sys_lock)"
| "call_table S_ioctl f = returns f (sys_ioctl (word_of_int (r_ebx f)) (word_of_int (r_ecx f)) (word_of_int (r_edx f)))"
| "call_table S_fcntl f = returns f (runst (sys_fcntl (word_of_int (r_ebx f)) (word_of_int (r_ecx f)) (word_of_int (r_edx f))))"
| "call_table S_mpx f = returns f (ret sys_mpx)"
| "call_table S_setpgid f = returns f (runst (sys_setpgid (r_ebx f) (r_ecx f)))"
| "call_table S_ulimit f = returns f (ret sys_ulimit)"
| "call_table S_uname f = returns f (sys_uname (word_of_int (r_ebx f)))"
| "call_table S_umask f = returns f (runst (sys_umask (word_of_int (r_ebx f))))"
| "call_table S_chroot f = returns f (sys_chroot (word_of_int (r_ebx f)))"
| "call_table S_ustat f = returns f (ret sys_ustat)"
| "call_table S_dup2 f = returns f (sys_dup2 (word_of_int (r_ebx f)) (word_of_int (r_ecx f)))"
| "call_table S_getppid f = returns f (gets sys_getppid)"
| "call_table S_getpgrp f = returns f (gets sys_getpgrp)"
| "call_table S_setsid f = returns f (runst sys_setsid)"


section \<open>Return to the process\<close>

text \<open>
  The search of \<^verbatim>\<open>ret_from_sys_call\<close>: signals are taken in ascending order, an ignored one and a \<^verbatim>\<open>SIGCHLD\<close> without a handler are dropped. The
  result is the index of the first signal to act upon and the pending signals without those taken.
\<close>

definition SIG_CHLD :: nat where "SIG_CHLD = 17"

definition bsf :: "u32 \<Rightarrow> nat option" where
  "bsf w = find (bit w) [0..<32]"

function take_signal :: "(nat \<Rightarrow> int) \<Rightarrow> u32 \<Rightarrow> nat option \<times> u32" where
  "take_signal h w = (case bsf w of
     None \<Rightarrow> (None, w)
   | Some i \<Rightarrow> if h i = 1 \<or> h i = 0 \<and> i + 1 = SIG_CHLD then take_signal h (unset_bit i w) else (Some i, unset_bit i w))"
  by pat_completeness auto

lemma bsf_bit: "bsf w = Some i \<Longrightarrow> bit w i \<and> i < 32 \<and> (\<forall>j < i. \<not> bit w j)"
  by (auto simp: bsf_def find_Some_iff)

lemma unset_bit_less: "bit w i \<Longrightarrow> unat (unset_bit i (w :: u32)) < unat w"
proof -
  assume b: "bit w i"
  have "unset_bit i w = w AND NOT (push_bit i 1)" by (rule bit_word_eqI) (auto simp: bit_simps)
  then have "unset_bit i w \<le> w" by (simp add: word_and_le2)
  moreover have "unset_bit i w \<noteq> w" using b by (metis bit_unset_bit_iff)
  ultimately show ?thesis by (simp add: word_less_nat_alt [symmetric] order_le_neq_trans)
qed

termination take_signal
  by (relation "measure (\<lambda>(h, w). unat w)") (auto dest: bsf_bit intro: unset_bit_less)

text \<open>The frame a handler is given: its return address on the user stack is the restorer, below the registers it restores.\<close>

definition push_signal :: "int \<Rightarrow> nat \<Rightarrow> int \<Rightarrow> frame \<Rightarrow> ('z sched_scheme, frame) km" where
  "push_signal handler i restorer f =
     (let esp = word_of_int (r_esp f) - 28 :: u32 in
      seqK (verify_area esp 28)
       (seqK (modify (put_fs_long (word_of_int restorer) esp))
       (seqK (modify (put_fs_long (of_nat (i + 1)) (esp + 4)))
       (seqK (modify (put_fs_long (word_of_int (r_eax f)) (esp + 8)))
       (seqK (modify (put_fs_long (word_of_int (r_ecx f)) (esp + 12)))
       (seqK (modify (put_fs_long (word_of_int (r_edx f)) (esp + 16)))
       (seqK (modify (put_fs_long (word_of_int (r_eflags f)) (esp + 20)))
       (seqK (modify (put_fs_long (word_of_int (r_eip f)) (esp + 24)))
         (ret (f\<lparr>r_eip := handler, r_esp := sint esp\<rparr>))))))))))"

definition deliver :: "frame \<Rightarrow> ('z ttyst_scheme, frame) km" where
  "deliver f =
     bnd (gets cur) (\<lambda>t.
       case take_signal (t_sig_fn t) (t_signal t) of (r, w) \<Rightarrow>
         seqK (modify (upd_cur (\<lambda>t. t\<lparr>t_signal := w\<rparr>)))
           (case r of
              None \<Rightarrow> ret f
            | Some i \<Rightarrow>
                if t_sig_fn t i = 0 then seqK (do_exit (int (i + 1))) (ret f)
                else seqK (modify (upd_cur (\<lambda>t. t\<lparr>t_sig_fn := (t_sig_fn t)(i := 0)\<rparr>)))
                       (push_signal (t_sig_fn t i) i (t_sig_restorer t) f)))"

definition ret_from_sys_call :: "frame \<Rightarrow> ('z ttyst_scheme, frame) km" where
  "ret_from_sys_call f =
     bnd (gets (\<lambda>s. current s = task s 0)) (\<lambda>idle.
       if idle \<or> r_cs f AND 3 = 0 \<or> r_ss f AND 0xffff \<noteq> 0x17 then ret f else deliver f)"

definition system_call :: "frame \<Rightarrow> ('z procst_scheme, frame) km" where
  "system_call f =
     (if word_of_int (r_eax f) > (66 :: u32) then ret (f\<lparr>r_eax := - 1\<rparr>)
      else bnd (call_table (sys_call_table ! unat (word_of_int (r_eax f) :: u32)) f) (\<lambda>f.
        bnd (gets (\<lambda>s. t_state (cur s) \<noteq> 0 \<or> t_counter (cur s) = 0)) (\<lambda>b.
          seqK (whenK b schedule) (ret_from_sys_call f))))"

text \<open>\<^verbatim>\<open>timer_interrupt\<close>: the tick of the clock, then \<^verbatim>\<open>do_timer\<close> with the privilege level of the interrupted code.\<close>

definition timer_interrupt :: "frame \<Rightarrow> ('z ttyst_scheme, frame) km" where
  "timer_interrupt f =
     seqK (modify (\<lambda>s. s\<lparr>jiffies := wrap32 (jiffies s + 1)\<rparr>))
       (seqK (do_timer (r_cs f AND 3)) (ret_from_sys_call f))"

section \<open>The library\<close>

text \<open>
  The stubs of the library put the number and the arguments into registers and turn a negative result into \<^verbatim>\<open>errno\<close>; the result is the
  value returned, the new \<^verbatim>\<open>errno\<close> and the frame. The four macros differ in the registers they load.
\<close>

definition stub_result :: "int \<Rightarrow> frame \<Rightarrow> int \<times> int \<times> frame" where
  "stub_result errno f = (if r_eax f \<ge> 0 then (r_eax f, errno, f) else (- 1, wrap32 (- r_eax f), f))"

definition syscall0 :: "syscall \<Rightarrow> int \<Rightarrow> frame \<Rightarrow> ('z procst_scheme, int \<times> int \<times> frame) km" where
  "syscall0 c errno f = bnd (system_call (f\<lparr>r_eax := sint (NR c)\<rparr>)) (\<lambda>f'. ret (stub_result errno f'))"

definition syscall1 :: "syscall \<Rightarrow> int \<Rightarrow> int \<Rightarrow> frame \<Rightarrow> ('z procst_scheme, int \<times> int \<times> frame) km" where
  "syscall1 c a errno f = bnd (system_call (f\<lparr>r_eax := sint (NR c), r_ebx := a\<rparr>)) (\<lambda>f'. ret (stub_result errno f'))"

definition syscall2 :: "syscall \<Rightarrow> int \<Rightarrow> int \<Rightarrow> int \<Rightarrow> frame \<Rightarrow> ('z procst_scheme, int \<times> int \<times> frame) km" where
  "syscall2 c a b errno f = bnd (system_call (f\<lparr>r_eax := sint (NR c), r_ebx := a, r_ecx := b\<rparr>)) (\<lambda>f'. ret (stub_result errno f'))"

definition syscall3 :: "syscall \<Rightarrow> int \<Rightarrow> int \<Rightarrow> int \<Rightarrow> int \<Rightarrow> frame \<Rightarrow> ('z procst_scheme, int \<times> int \<times> frame) km" where
  "syscall3 c a b d errno f =
     bnd (system_call (f\<lparr>r_eax := sint (NR c), r_ebx := a, r_ecx := b, r_edx := d\<rparr>)) (\<lambda>f'. ret (stub_result errno f'))"


text \<open>The functions of \<^verbatim>\<open>src/lib\<close>. \<^verbatim>\<open>open\<close> has its own code for a third argument; \<^verbatim>\<open>_exit\<close> does not look at the result.\<close>

definition lib_open :: "int \<Rightarrow> int \<Rightarrow> int \<Rightarrow> int \<Rightarrow> frame \<Rightarrow> ('z procst_scheme, int \<times> int \<times> frame) km" where
  "lib_open filename flag arg errno f =
     bnd (system_call (f\<lparr>r_eax := sint (NR S_open), r_ebx := filename, r_ecx := flag, r_edx := arg\<rparr>)) (\<lambda>f'. ret (stub_result errno f'))"

definition lib_close :: "int \<Rightarrow> int \<Rightarrow> frame \<Rightarrow> ('z procst_scheme, int \<times> int \<times> frame) km" where
  "lib_close fd = syscall1 S_close fd"

definition lib_dup :: "int \<Rightarrow> int \<Rightarrow> frame \<Rightarrow> ('z procst_scheme, int \<times> int \<times> frame) km" where
  "lib_dup fd = syscall1 S_dup fd"

definition lib_execve :: "int \<Rightarrow> int \<Rightarrow> int \<Rightarrow> int \<Rightarrow> frame \<Rightarrow> ('z procst_scheme, int \<times> int \<times> frame) km" where
  "lib_execve name argv envp = syscall3 S_execve name argv envp"

definition lib_setsid :: "int \<Rightarrow> frame \<Rightarrow> ('z procst_scheme, int \<times> int \<times> frame) km" where
  "lib_setsid = syscall0 S_setsid"

definition lib_write :: "int \<Rightarrow> int \<Rightarrow> int \<Rightarrow> int \<Rightarrow> frame \<Rightarrow> ('z procst_scheme, int \<times> int \<times> frame) km" where
  "lib_write fd buf n = syscall3 S_write fd buf n"

definition lib_waitpid :: "int \<Rightarrow> int \<Rightarrow> int \<Rightarrow> int \<Rightarrow> frame \<Rightarrow> ('z procst_scheme, int \<times> int \<times> frame) km" where
  "lib_waitpid pid wait_stat options = syscall3 S_waitpid pid wait_stat options"

definition lib_wait :: "int \<Rightarrow> int \<Rightarrow> frame \<Rightarrow> ('z procst_scheme, int \<times> int \<times> frame) km" where
  "lib_wait wait_stat = lib_waitpid (- 1) wait_stat 0"

definition lib_exit :: "int \<Rightarrow> frame \<Rightarrow> ('z procst_scheme, frame) km" where
  "lib_exit exit_code f = system_call (f\<lparr>r_eax := sint (NR S_exit), r_ebx := exit_code\<rparr>)"

end
