(* ===== verification/Syscall_Props.thy ===== *)
theory Syscall_Props
  imports Syscall Fork_Props
begin

text \<open>
  The system call interface: the library and the kernel agree on the numbers, a number outside the table changes nothing, and signals are delivered in order with
  a frame from which the interrupted program can be resumed.
\<close>

section \<open>Dispatch\<close>

lemma bnd_assoc: "bnd (bnd m f) g = bnd m (\<lambda>x. bnd (f x) g)"
  by (intro ext) (simp add: bnd_run split: res.splits)

lemma table_at_NR: "sys_call_table ! unat (NR c) = c"
  by (cases c) (simp_all add: sys_call_table_def)

lemma NR_bound: "NR c \<le> 66"
  by (cases c) simp_all

text \<open>A process that the kernel lets go on after a call: ready, with time left and without a pending signal.\<close>

definition undisturbed :: "'z sched_scheme \<Rightarrow> bool" where
  "undisturbed s \<longleftrightarrow> t_state (cur s) = 0 \<and> t_counter (cur s) \<noteq> 0 \<and> t_signal (cur s) = 0"

text \<open>
  The contract of a function of the library, called with the value of \<^verbatim>\<open>errno\<close> and the registers: it does what the function \<open>k\<close> of the kernel does, returns its result, or -1 and
  the error in \<^verbatim>\<open>errno\<close>, and the process goes on behind the call, with its registers as they were but for the result and those that the stub loads. If the function of the
  kernel does not return, neither does the function of the library, and the outcome is the same.
\<close>

definition lib_returns :: "(int \<Rightarrow> frame \<Rightarrow> ('z procst_scheme, int \<times> int \<times> frame) km) \<Rightarrow> (frame \<Rightarrow> ('z procst_scheme, int) km) \<Rightarrow> bool" where
  "lib_returns call k \<longleftrightarrow> (\<forall>errno f s e.
     (\<forall>r s1 e1. k f s e = Ok r s1 e1 \<longrightarrow> undisturbed s1 \<longrightarrow>
        (\<exists>b c d. call errno f s e =
           Ok (if 0 \<le> r then r else - 1, if 0 \<le> r then errno else wrap32 (- r), f\<lparr>r_ebx := b, r_ecx := c, r_edx := d, r_eax := r\<rparr>) s1 e1)) \<and>
     ((\<forall>r s1 e1. k f s e \<noteq> Ok r s1 e1) \<longrightarrow> (\<forall>g. call errno f s e = bnd (k f) g s e)))"

lemma lib_returnsD:
  assumes "lib_returns call k" "k f s e = Ok r s1 e1" "undisturbed s1"
  shows "\<exists>b c d. call errno f s e =
    Ok (if 0 \<le> r then r else - 1, if 0 \<le> r then errno else wrap32 (- r), f\<lparr>r_ebx := b, r_ecx := c, r_edx := d, r_eax := r\<rparr>) s1 e1"
  using assms unfolding lib_returns_def by blast

lemma bnd_not_Ok: "\<forall>r s1 e1. m s e \<noteq> Ok r s1 e1 \<Longrightarrow> bnd m g s e = bnd m h s e"
  by (cases "m s e") (simp_all add: bnd_run)

lemma ret_undisturbed:
  assumes "undisturbed s"
  shows "ret_from_sys_call f s e = Ok f s e"
proof -
  have "bsf (0 :: u32) = None" by (simp add: bsf_def find_None_iff)
  then have "take_signal h 0 = (None, 0)" for h by (subst take_signal.simps) simp
  moreover have "(cur s)\<lparr>t_signal := 0\<rparr> = cur s" using assms by (cases "cur s") (simp add: undisturbed_def)
  then have "upd_cur (\<lambda>t. t\<lparr>t_signal := 0\<rparr>) s = s" by (simp add: upd_cur_def upd_task_def)
  ultimately show ?thesis using assms by (simp add: ret_from_sys_call_def deliver_def undisturbed_def del: take_signal.simps)
qed

lemma system_call_number:
  assumes "r_eax f = sint (NR c)"
  shows "system_call f = bnd (call_table c f) (\<lambda>f1. bnd (gets (\<lambda>s. t_state (cur s) \<noteq> 0 \<or> t_counter (cur s) = 0)) (\<lambda>b. seqK (whenK b schedule) (ret_from_sys_call f1)))"
proof -
  have "\<not> NR c > 66" using NR_bound [of c] by simp
  then show ?thesis using assms by (simp add: system_call_def table_at_NR)
qed

lemma system_call_back:
  assumes "r_eax f = sint (NR c)" "call_table c f s e = Ok f1 s1 e1" "undisturbed s1"
  shows "system_call f s e = Ok f1 s1 e1"
  using assms by (simp add: system_call_number bnd_run seqK_run ret_undisturbed) (simp add: undisturbed_def)

text \<open>So a stub that loads its registers by \<open>ld\<close> keeps the contract, if \<open>k\<close> is the function in the table.\<close>

lemma stub_returns:
  assumes k: "\<And>f. call_table c (ld f) = returns (ld f) (k f)" and n: "\<And>f. r_eax (ld f) = sint (NR c)"
    and r: "\<And>f v. \<exists>a b d. (ld f)\<lparr>r_eax := v\<rparr> = f\<lparr>r_ebx := a, r_ecx := b, r_edx := d, r_eax := v\<rparr>"
  shows "lib_returns (\<lambda>errno f. bnd (system_call (ld f)) (\<lambda>f'. ret (stub_result errno f'))) k"
  unfolding lib_returns_def
proof (intro allI conjI impI)
  fix errno f s e r s1 e1
  assume o: "k f s e = Ok r s1 e1" and u: "undisturbed s1"
  obtain a b d where f': "(ld f)\<lparr>r_eax := r\<rparr> = f\<lparr>r_ebx := a, r_ecx := b, r_edx := d, r_eax := r\<rparr>" using r by blast
  have "call_table c (ld f) s e = Ok ((ld f)\<lparr>r_eax := r\<rparr>) s1 e1" using o by (simp add: k returns_def bnd_run)
  then have "system_call (ld f) s e = Ok ((ld f)\<lparr>r_eax := r\<rparr>) s1 e1" using system_call_back [OF n] u by blast
  then show "\<exists>b c d. bnd (system_call (ld f)) (\<lambda>f'. ret (stub_result errno f')) s e =
      Ok (if 0 \<le> r then r else - 1, if 0 \<le> r then errno else wrap32 (- r), f\<lparr>r_ebx := b, r_ecx := c, r_edx := d, r_eax := r\<rparr>) s1 e1"
    using f' by (auto simp: bnd_run stub_result_def)
next
  fix errno f s e and g :: "int \<Rightarrow> ('a procst_scheme, int \<times> int \<times> frame) km"
  assume "\<forall>r s1 e1. k f s e \<noteq> Ok r s1 e1"
  then show "bnd (system_call (ld f)) (\<lambda>f'. ret (stub_result errno f')) s e = bnd (k f) g s e"
    unfolding system_call_number [OF n] k returns_def bnd_assoc by (rule bnd_not_Ok)
qed

text \<open>The functions of the library and the four calls of \<^verbatim>\<open>init/main.c\<close>.\<close>

lemma lib_contracts:
  "lib_returns (lib_open name flag mode) (\<lambda>_. sys_open (word_of_int name) (word_of_int flag) (word_of_int mode))"
  "lib_returns (lib_close fd) (\<lambda>_. sys_close (word_of_int fd))"
  "lib_returns (lib_dup fd) (\<lambda>_. sys_dup (word_of_int fd))"
  "lib_returns (lib_write fd buf n) (\<lambda>_. sys_write (word_of_int fd) (word_of_int buf) n)"
  "lib_returns (lib_waitpid pid stat opts) (\<lambda>_. sys_waitpid pid (word_of_int stat) (word_of_int opts))"
  "lib_returns (lib_wait stat) (\<lambda>_. sys_waitpid (- 1) (word_of_int stat) 0)"
  "lib_returns lib_setsid (\<lambda>_. runst sys_setsid)"
  "lib_returns (syscall0 S_fork) (\<lambda>f. sys_fork (fork_regs.truncate f))"
  "lib_returns (syscall0 S_pause) (\<lambda>_. sys_pause)"
  "lib_returns (syscall0 S_setup) (\<lambda>_. sys_setup)"
  "lib_returns (syscall0 S_sync) (\<lambda>_. sys_sync)"
proof -
  let ?l0 = "\<lambda>c f. f\<lparr>r_eax := sint (NR c)\<rparr>" and ?l1 = "\<lambda>c a f. f\<lparr>r_eax := sint (NR c), r_ebx := a\<rparr>"
  let ?l3 = "\<lambda>c x y z f. f\<lparr>r_eax := sint (NR c), r_ebx := x, r_ecx := y, r_edx := z\<rparr>"
  have l: "\<exists>x y z. (?l0 c f)\<lparr>r_eax := v\<rparr> = f\<lparr>r_ebx := x, r_ecx := y, r_edx := z, r_eax := v\<rparr>"
    "\<exists>x y z. (?l1 c a f)\<lparr>r_eax := v\<rparr> = f\<lparr>r_ebx := x, r_ecx := y, r_edx := z, r_eax := v\<rparr>"
    "\<exists>x y z. (?l3 c a b d f)\<lparr>r_eax := v\<rparr> = f\<lparr>r_ebx := x, r_ecx := y, r_edx := z, r_eax := v\<rparr>" for c f v a b d
    by (cases f; auto)+
  note libs = lib_open_def [abs_def] lib_close_def [abs_def] lib_dup_def [abs_def] lib_write_def [abs_def] lib_waitpid_def [abs_def] lib_wait_def [abs_def]
    lib_setsid_def [abs_def] syscall0_def [abs_def] syscall1_def [abs_def] syscall3_def [abs_def]
  show "lib_returns (lib_open name flag mode) (\<lambda>_. sys_open (word_of_int name) (word_of_int flag) (word_of_int mode))"
    unfolding libs by (rule stub_returns [where c = S_open and ld = "?l3 S_open name flag mode"]) (use l(3) in simp_all)
  show "lib_returns (lib_close fd) (\<lambda>_. sys_close (word_of_int fd))"
    unfolding libs by (rule stub_returns [where c = S_close and ld = "?l1 S_close fd"]) (use l(2) in simp_all)
  show "lib_returns (lib_dup fd) (\<lambda>_. sys_dup (word_of_int fd))"
    unfolding libs by (rule stub_returns [where c = S_dup and ld = "?l1 S_dup fd"]) (use l(2) in simp_all)
  show "lib_returns (lib_write fd buf n) (\<lambda>_. sys_write (word_of_int fd) (word_of_int buf) n)"
    unfolding libs by (rule stub_returns [where c = S_write and ld = "?l3 S_write fd buf n"]) (use l(3) in simp_all)
  show "lib_returns (lib_waitpid pid stat opts) (\<lambda>_. sys_waitpid pid (word_of_int stat) (word_of_int opts))"
    unfolding libs by (rule stub_returns [where c = S_waitpid and ld = "?l3 S_waitpid pid stat opts"]) (use l(3) in simp_all)
  show "lib_returns (lib_wait stat) (\<lambda>_. sys_waitpid (- 1) (word_of_int stat) 0)"
    unfolding libs by (rule stub_returns [where c = S_waitpid and ld = "?l3 S_waitpid (- 1) stat 0"]) (use l(3) in simp_all)
  show "lib_returns lib_setsid (\<lambda>_. runst sys_setsid)"
    unfolding libs by (rule stub_returns [where c = S_setsid and ld = "?l0 S_setsid"]) (use l(1) in simp_all)
  show "lib_returns (syscall0 S_fork) (\<lambda>f. sys_fork (fork_regs.truncate f))"
    unfolding libs by (rule stub_returns [where c = S_fork and ld = "?l0 S_fork"]) (use l(1) in \<open>simp_all add: fork_regs.defs\<close>)
  show "lib_returns (syscall0 S_pause) (\<lambda>_. sys_pause)"
    unfolding libs by (rule stub_returns [where c = S_pause and ld = "?l0 S_pause"]) (use l(1) in simp_all)
  show "lib_returns (syscall0 S_setup) (\<lambda>_. sys_setup)"
    unfolding libs by (rule stub_returns [where c = S_setup and ld = "?l0 S_setup"]) (use l(1) in simp_all)
  show "lib_returns (syscall0 S_sync) (\<lambda>_. sys_sync)"
    unfolding libs by (rule stub_returns [where c = S_sync and ld = "?l0 S_sync"]) (use l(1) in simp_all)
qed

lemma lib_execve_contract:
  assumes "do_execve (word_of_int (r_cs f)) (word_of_int name) (word_of_int argv) (word_of_int envp) s e = Ok (r, new) s1 e1" "undisturbed s1"
  shows "\<exists>f'. lib_execve name argv envp errno f s e = Ok (if 0 \<le> r then r else - 1, if 0 \<le> r then errno else wrap32 (- r), f') s1 e1 \<and>
    (case new of None \<Rightarrow> r_eip f' = r_eip f \<and> r_esp f' = r_esp f | Some (entry, sp) \<Rightarrow> r_eip f' = sint entry \<and> r_esp f' = sint sp)"
proof -
  let ?f = "f\<lparr>r_eax := sint (NR S_execve), r_ebx := name, r_ecx := argv, r_edx := envp\<rparr>"
  let ?f' = "case new of None \<Rightarrow> ?f\<lparr>r_eax := r\<rparr> | Some (entry, sp) \<Rightarrow> ?f\<lparr>r_eax := r, r_eip := sint entry, r_esp := sint sp\<rparr>"
  have n: "r_eax ?f = sint (NR S_execve)" by simp
  have "call_table S_execve ?f s e = Ok ?f' s1 e1" using assms(1) by (cases new) (auto simp: sys_execve_def bnd_run)
  then have "system_call ?f s e = Ok ?f' s1 e1" by (rule system_call_back [OF n _ assms(2)])
  moreover have "r_eax ?f' = r" by (simp split: option.split prod.split)
  ultimately have "lib_execve name argv envp errno f s e = Ok (if 0 \<le> r then r else - 1, if 0 \<le> r then errno else wrap32 (- r), ?f') s1 e1"
    by (simp add: lib_execve_def syscall3_def bnd_run stub_result_def)
  then show ?thesis by (intro exI [of _ ?f']) (simp split: option.split)
qed

lemma lib_exit_contract:
  assumes "\<forall>r s1 e1. sys_exit code s e \<noteq> Ok r s1 e1"
  shows "lib_exit code f s e = bnd (sys_exit code) g s e"
proof -
  let ?f = "f\<lparr>r_eax := sint (NR S_exit), r_ebx := code\<rparr>"
  have n: "r_eax ?f = sint (NR S_exit)" and t: "call_table S_exit ?f = returns ?f (sys_exit code)" by simp_all
  show ?thesis unfolding lib_exit_def system_call_number [OF n] t returns_def bnd_assoc using assms by (rule bnd_not_Ok)
qed

text \<open>
  C26: the library and the kernel agree. Each function of the library, and each of the four calls that \<^verbatim>\<open>init\<close> makes through \<^verbatim>\<open>_syscall0\<close>, runs the function of the
  same name in the kernel, with its arguments, and returns its result, or -1 with the error in \<^verbatim>\<open>errno\<close>, to the place of the call; \<^verbatim>\<open>execve\<close> that succeeds goes on at
  the entry point of the new program, with its stack, and \<^verbatim>\<open>_exit\<close> does not come back when the function of the kernel does not. So does any of the 67 numbers of the library reach its entry of
  the table of the kernel, through the stub for three arguments; a number past its end returns -1 and touches nothing. All this for a process that the kernel does not stop
  on the way back, to give the processor to another or to deliver a signal.
\<close>

theorem system_call_dispatch:
  "(word_of_int n > (66 :: u32) \<longrightarrow> system_call (f\<lparr>r_eax := n\<rparr>) s e = Ok (f\<lparr>r_eax := - 1\<rparr>) s e) \<and>
   lib_returns (lib_close fd) (\<lambda>_. sys_close (word_of_int fd)) \<and>
   lib_returns (lib_open name flag mode) (\<lambda>_. sys_open (word_of_int name) (word_of_int flag) (word_of_int mode)) \<and>
   lib_returns (lib_dup fd) (\<lambda>_. sys_dup (word_of_int fd)) \<and>
   lib_returns (lib_write fd buf len) (\<lambda>_. sys_write (word_of_int fd) (word_of_int buf) len) \<and>
   lib_returns (lib_waitpid pid stat opts) (\<lambda>_. sys_waitpid pid (word_of_int stat) (word_of_int opts)) \<and>
   lib_returns (lib_wait stat) (\<lambda>_. sys_waitpid (- 1) (word_of_int stat) 0) \<and>
   lib_returns lib_setsid (\<lambda>_. runst sys_setsid) \<and>
   lib_returns (syscall0 S_fork) (\<lambda>f. sys_fork (fork_regs.truncate f)) \<and>
   lib_returns (syscall0 S_pause) (\<lambda>_. sys_pause) \<and>
   lib_returns (syscall0 S_setup) (\<lambda>_. sys_setup) \<and>
   lib_returns (syscall0 S_sync) (\<lambda>_. sys_sync) \<and>
   (do_execve (word_of_int (r_cs f)) (word_of_int name) (word_of_int argv) (word_of_int envp) s e = Ok (r, new) s1 e1 \<longrightarrow> undisturbed s1 \<longrightarrow>
      (\<exists>f'. lib_execve name argv envp errno f s e = Ok (if 0 \<le> r then r else - 1, if 0 \<le> r then errno else wrap32 (- r), f') s1 e1 \<and>
         (case new of None \<Rightarrow> r_eip f' = r_eip f \<and> r_esp f' = r_esp f | Some (entry, sp) \<Rightarrow> r_eip f' = sint entry \<and> r_esp f' = sint sp))) \<and>
   ((\<forall>r s1 e1. sys_exit code s e \<noteq> Ok r s1 e1) \<longrightarrow> lib_exit code f s e = bnd (sys_exit code) g s e) \<and>
   (call_table c (f\<lparr>r_eax := sint (NR c), r_ebx := x, r_ecx := y, r_edx := z\<rparr>) s e = Ok f1 s1 e1 \<longrightarrow> undisturbed s1 \<longrightarrow>
      syscall3 c x y z errno f s e = Ok (if 0 \<le> r_eax f1 then r_eax f1 else - 1, if 0 \<le> r_eax f1 then errno else wrap32 (- r_eax f1), f1) s1 e1)"
proof -
  have "syscall3 c x y z errno f s e = Ok (if 0 \<le> r_eax f1 then r_eax f1 else - 1, if 0 \<le> r_eax f1 then errno else wrap32 (- r_eax f1), f1) s1 e1"
    if "call_table c (f\<lparr>r_eax := sint (NR c), r_ebx := x, r_ecx := y, r_edx := z\<rparr>) s e = Ok f1 s1 e1" "undisturbed s1"
    using system_call_back [OF _ that] by (simp add: syscall3_def bnd_run stub_result_def)
  moreover have "word_of_int n > (66 :: u32) \<Longrightarrow> system_call (f\<lparr>r_eax := n\<rparr>) s e = Ok (f\<lparr>r_eax := - 1\<rparr>) s e"
    by (simp add: system_call_def)
  ultimately show ?thesis
    by (intro conjI impI lib_contracts lib_execve_contract lib_exit_contract) blast+
qed

text \<open>A frame of a process in user mode.\<close>

definition ex_frame :: frame where
  "ex_frame = \<lparr>r_ebp = 0, r_edi = 0, r_esi = 0, r_gs = 0x17, r_ebx = 0, r_ecx = 0, r_edx = 0, r_fs = 0x17, r_es = 0x17, r_ds = 0x17,
     r_eip = 0x100, r_cs = 0x0f, r_eflags = 0x202, r_esp = 0x3fff000, r_ss = 0x17, r_eax = 0\<rparr>"

text \<open>Closing a descriptor that cannot exist; and a call with the first number that has no entry.\<close>

theorem system_call_dispatch_witness:
  "(\<exists>f'. lib_close 100 0 ex_frame ex_proc [] = Ok (- 1, EINVAL, f') ex_proc [] \<and> r_eip f' = r_eip ex_frame) \<and>
   system_call (ex_frame\<lparr>r_eax := 67\<rparr>) ex_proc [] = Ok (ex_frame\<lparr>r_eax := - 1\<rparr>) ex_proc []"
proof -
  have c: "sys_close (word_of_int 100) ex_proc [] = Ok (- EINVAL) ex_proc []" by (simp add: sys_close_def NR_OPEN_def)
  have u: "undisturbed ex_proc" by (simp add: undisturbed_def ex_proc_sel ex_parent_def INIT_TASK_def)
  have l: "lib_returns (lib_close 100) (\<lambda>_. sys_close (word_of_int 100) :: (procst, int) km)"
    by (rule conjunct1 [OF conjunct2 [OF system_call_dispatch]])
  have "\<exists>f'. lib_close 100 0 ex_frame ex_proc [] = Ok (- 1, EINVAL, f') ex_proc [] \<and> r_eip f' = r_eip ex_frame"
    using lib_returnsD [OF l c u, of 0 ex_frame] by (auto simp: EINVAL_def in_range32_def)
  moreover have "word_of_int 67 > (66 :: u32) \<longrightarrow> system_call (ex_frame\<lparr>r_eax := 67\<rparr>) ex_proc [] = Ok (ex_frame\<lparr>r_eax := - 1\<rparr>) ex_proc []"
    by (rule conjunct1 [OF system_call_dispatch])
  ultimately show ?thesis by simp
qed

section \<open>Signals\<close>

definition dropped :: "(nat \<Rightarrow> int) \<Rightarrow> nat \<Rightarrow> bool" where
  "dropped h i \<longleftrightarrow> h i = 1 \<or> h i = 0 \<and> i + 1 = SIG_CHLD"

lemma bsf_None: "bsf w = None \<longleftrightarrow> w = (0 :: u32)"
  by (auto simp: bsf_def find_None_iff intro!: bit_word_eqI)

lemma take_signal_None:
  "take_signal h w = (None, w') \<Longrightarrow> w' = 0 \<and> (\<forall>i. bit w i \<longrightarrow> dropped h i)"
proof (induction h w rule: take_signal.induct)
  case (1 h w)
  show ?case
  proof (cases "bsf w")
    case None
    then have "w' = w" using 1(2) by simp
    moreover have "w = 0" using None by (simp only: bsf_None)
    ultimately show ?thesis by simp
  next
    case (Some i)
    then have d: "dropped h i" and r: "take_signal h (unset_bit i w) = (None, w')"
      using 1(2) by (auto simp: dropped_def split: if_splits)
    have "w' = 0 \<and> (\<forall>j. bit (unset_bit i w) j \<longrightarrow> dropped h j)"
      using 1(1) [OF Some _ r] d by (simp add: dropped_def)
    then show ?thesis using d by (metis bit_unset_bit_iff)
  qed
qed

lemma take_signal_Some:
  "take_signal h w = (Some i, w') \<Longrightarrow>
     bit w i \<and> \<not> dropped h i \<and> (\<forall>j < i. bit w j \<longrightarrow> dropped h j) \<and> (\<forall>j. bit w' j \<longleftrightarrow> bit w j \<and> i < j)"
proof (induction h w rule: take_signal.induct)
  case (1 h w)
  obtain k where k: "bsf w = Some k" using 1(2) by (cases "bsf w") auto
  note b = bsf_bit [OF k]
  show ?case
  proof (cases "dropped h k")
    case False
    then have "i = k" "w' = unset_bit k w" using 1(2) k by (auto simp: dropped_def split: if_splits)
    then show ?thesis using b False by (auto simp: bit_unset_bit_iff) (metis linorder_neqE_nat)
  next
    case True
    then have r: "take_signal h (unset_bit k w) = (Some i, w')" using 1(2) k by (auto simp: dropped_def split: if_splits)
    have "bit (unset_bit k w) i \<and> \<not> dropped h i \<and> (\<forall>j < i. bit (unset_bit k w) j \<longrightarrow> dropped h j) \<and>
        (\<forall>j. bit w' j \<longleftrightarrow> bit (unset_bit k w) j \<and> i < j)"
      using 1(1) [OF k _ r] True by (simp add: dropped_def)
    then show ?thesis using b True by (auto simp: bit_unset_bit_iff)
  qed
qed

text \<open>The seven words below the old stack pointer.\<close>

definition signal_frame :: "int \<Rightarrow> nat \<Rightarrow> frame \<Rightarrow> u32 list" where
  "signal_frame restorer i f = [word_of_int restorer, of_nat (i + 1), word_of_int (r_eax f), word_of_int (r_ecx f), word_of_int (r_edx f),
     word_of_int (r_eflags f), word_of_int (r_eip f)]"

lemma get_put_fs_long_same: "get_fs_long a (put_fs_long v a s) = v"
proof (rule bit_word_eqI)
  fix n
  assume "n < LENGTH(32)"
  then consider "n < 8" | "8 \<le> n \<and> n < 16" | "16 \<le> n \<and> n < 24" | "24 \<le> n \<and> n < 32" by fastforce
  then show "bit (get_fs_long a (put_fs_long v a s)) n = bit v n"
    by cases (auto simp: get_fs_long_def put_fs_long_def bit_simps)
qed

lemma put_fs_long_other: "x \<notin> {b, b + 1, b + 2, b + 3} \<Longrightarrow> fs_mem (put_fs_long v b s) x = fs_mem s x"
  by (simp add: put_fs_long_def)

primrec put_longs :: "u32 list \<Rightarrow> u32 \<Rightarrow> 'z sched_scheme \<Rightarrow> 'z sched_scheme" where
  "put_longs [] a s = s"
| "put_longs (v # vs) a s = put_longs vs (a + 4) (put_fs_long v a s)"


lemma put_longs_frame [simp]: "tstruct (put_longs vs a s) = tstruct s" "current (put_longs vs a s) = current s"
  by (induction vs arbitrary: a s) (simp_all add: put_fs_long_def)

lemma put_longs_other:
  assumes "\<forall>k < 4 * length vs. x \<noteq> a + of_nat k"
  shows "fs_mem (put_longs vs a s) x = fs_mem s x"
  using assms
proof (induction vs arbitrary: a s)
  case (Cons v vs)
  have "x \<noteq> a + 4 + of_nat k" if "k < 4 * length vs" for k
    using Cons.prems [rule_format, of "k + 4"] that by (simp add: ac_simps)
  then have "fs_mem (put_longs vs (a + 4) (put_fs_long v a s)) x = fs_mem (put_fs_long v a s) x"
    using Cons.IH by blast
  moreover have "x \<notin> {a, a + 1, a + 2, a + 3}"
    using Cons.prems [rule_format, of 0] Cons.prems [rule_format, of 1] Cons.prems [rule_format, of 2] Cons.prems [rule_format, of 3] by auto
  ultimately show ?case using put_fs_long_other by simp
qed simp

lemma get_put_longs:
  assumes "k < length vs" "4 * length vs < 2 ^ 32"
  shows "get_fs_long (a + 4 * of_nat k) (put_longs vs a s) = vs ! k"
  using assms
proof (induction vs arbitrary: a s k)
  case (Cons v vs)
  show ?case
  proof (cases k)
    case 0
    have "fs_mem (put_longs vs (a + 4) (put_fs_long v a s)) (a + of_nat i) = fs_mem (put_fs_long v a s) (a + of_nat i)" if i: "i < 4" for i
    proof (rule put_longs_other, intro allI impI)
      fix j
      assume "j < 4 * length vs"
      then have "4 + j < 2 ^ LENGTH(32)" using Cons.prems(2) by simp
      then have "(of_nat i :: u32) \<noteq> of_nat (4 + j)" using i using word_of_nat_eq_iff [of i "4 + j", where ?'a = 32] by (simp add: take_bit_nat_eq_self)
      then show "a + of_nat i \<noteq> a + 4 + of_nat j" by (simp add: add.assoc)
    qed
    from this [of 0] this [of 1] this [of 2] this [of 3] have "get_fs_long a (put_longs vs (a + 4) (put_fs_long v a s)) = get_fs_long a (put_fs_long v a s)"
      by (simp add: get_fs_long_def)
    then show ?thesis using 0 by (simp add: get_put_fs_long_same)
  next
    case (Suc n)
    then have "get_fs_long (a + 4 + 4 * of_nat n) (put_longs vs (a + 4) (put_fs_long v a s)) = vs ! n" using Cons by simp
    then show ?thesis using Suc by (simp add: algebra_simps)
  qed
qed simp

text \<open>A page that is not shared for reading only: \<^verbatim>\<open>write_verify\<close> has nothing to do.\<close>

definition unprotected :: "u32 \<Rightarrow> 'z mm_scheme \<Rightarrow> bool" where
  "unprotected a s \<longleftrightarrow> \<not> (present (phys s 0 (dir_index a)) \<and> 3 AND phys s (Memory.frame (phys s 0 (dir_index a))) (table_index a) = 1)"

lemma verify_pages_unprotected:
  "(\<forall>k < n. unprotected (start + 4096 * of_nat k) s) \<Longrightarrow> verify_pages n start s e = Ok () s e"
proof (induction n arbitrary: start)
  case (Suc n)
  have "write_verify start s e = Ok () s e"
    using Suc.prems [rule_format, of 0] by (auto simp: write_verify_def unprotected_def whenK_def bnd_run gets_def ret_def)
  moreover have "verify_pages n (start + 4096) s e = Ok () s e"
  proof (rule Suc.IH, intro allI impI)
    fix k
    assume "k < n"
    then show "unprotected (start + 4096 + 4096 * of_nat k) s"
      using Suc.prems [rule_format, of "k + 1"] by (simp add: algebra_simps)
  qed
  ultimately show ?case by (simp add: seqK_def)
qed (simp add: ret_def)

lemma verify_area_unprotected:
  assumes "\<forall>k < 2. unprotected ((a AND 0xfffff000) + get_base (t_ldt (cur s) 2) + 4096 * of_nat k) s"
  shows "verify_area a 28 s e = Ok () s e"
proof -
  let ?n = "nat ((wrap32 (28 + uint (a AND 0xfff)) + 4095) div 4096)"
  have "a AND 0xfff \<le> 0xfff" by (rule word_and_le1)
  then have u: "uint (a AND 0xfff) \<le> 0xfff" by (simp add: word_le_def)
  then have "wrap32 (28 + uint (a AND 0xfff)) = 28 + uint (a AND 0xfff)" by (intro wrap32_id) (simp add: in_range32_def)
  then have "?n \<le> 2" using u by auto
  then have "verify_pages ?n ((a AND 0xfffff000) + get_base (t_ldt (cur s) 2)) s e = Ok () s e"
    using assms by (intro verify_pages_unprotected) auto
  then show ?thesis by (simp add: verify_area_def Let_def bnd_run gets_def)
qed


lemma take_signal_first:
  assumes "bit w i" "\<not> dropped h i" "\<forall>j < i. bit w j \<longrightarrow> dropped h j"
  shows "\<exists>w'. take_signal h w = (Some i, w') \<and> (\<forall>j. bit w' j \<longleftrightarrow> bit w j \<and> i < j)"
proof -
  obtain r w' where t: "take_signal h w = (r, w')" by (cases "take_signal h w")
  show ?thesis
  proof (cases r)
    case None
    then show ?thesis using take_signal_None t assms(1,2) by blast
  next
    case (Some k)
    note k = take_signal_Some [OF t [unfolded Some]]
    then have "k = i" using assms by (metis linorder_neqE_nat)
    then show ?thesis using t Some k by blast
  qed
qed

lemma push_signal_run:
  assumes "verify_area (word_of_int (r_esp f) - 28) 28 s e = Ok () s1 e1"
  shows "push_signal act i r f s e = Ok (f\<lparr>r_eip := act, r_esp := sint (word_of_int (r_esp f) - 28 :: u32)\<rparr>)
    (put_longs (signal_frame r i f) (word_of_int (r_esp f) - 28) s1) e1"
  using assms by (simp add: push_signal_def signal_frame_def Let_def seqK_def bnd_run modify_def ret_def add.assoc)

text \<open>
  C10: on the way back to user mode the lowest pending signal that is not ignored is delivered. If it has a handler, the process continues in it, once:
  the handler is reset, the seven words the restorer needs to resume the program, the old return address among them, are on the user stack and
  nothing else in user memory has changed. This signal and the ignored ones below it are no longer pending, all others still are.
\<close>

theorem signal_delivered:
  fixes s :: "'z ttyst_scheme" and f :: frame
  defines "esp \<equiv> word_of_int (r_esp f) - 28 :: u32" and "h \<equiv> t_sig_fn (cur s)" and "w \<equiv> t_signal (cur s)"
  assumes user: "current s \<noteq> task s 0" "r_cs f AND 3 \<noteq> 0" "r_ss f AND 0xffff = 0x17"
    and first: "bit w i" "\<not> dropped h i" "\<forall>j < i. bit w j \<longrightarrow> dropped h j"
    and handler: "h i \<noteq> 0"
    and stack: "\<forall>k < 2. unprotected ((esp AND 0xfffff000) + get_base (t_ldt (cur s) 2) + 4096 * of_nat k) s"
  shows "\<exists>s'. ret_from_sys_call f s e = Ok (f\<lparr>r_eip := h i, r_esp := sint esp\<rparr>) s' e \<and>
    (\<forall>k < 7. get_fs_long (esp + 4 * of_nat k) s' = signal_frame (t_sig_restorer (cur s)) i f ! k) \<and>
    (\<forall>x. (\<forall>k < 28. x \<noteq> esp + of_nat k) \<longrightarrow> fs_mem s' x = fs_mem s x) \<and>
    t_sig_fn (cur s') = h(i := 0) \<and> (\<forall>j. bit (t_signal (cur s')) j \<longleftrightarrow> bit w j \<and> i < j)"
proof -
  let ?fr = "signal_frame (t_sig_restorer (cur s)) i f"
  obtain w' where t: "take_signal h w = (Some i, w')" and w': "\<And>j. bit w' j \<longleftrightarrow> bit w j \<and> i < j"
    using take_signal_first [OF first] by blast
  define s1 where "s1 = upd_cur (\<lambda>t. t\<lparr>t_sig_fn := (t_sig_fn t)(i := 0)\<rparr>) (upd_cur (\<lambda>t. t\<lparr>t_signal := w'\<rparr>) s)"
  have c: "current s1 = current s" "phys s1 = phys s" "fs_mem s1 = fs_mem s"
    and cur: "tstruct s1 (current s) = (cur s)\<lparr>t_signal := w', t_sig_fn := h(i := 0)\<rparr>"
    by (simp_all add: s1_def upd_cur_def upd_task_def h_def)
  have "\<forall>k < 2. unprotected ((esp AND 0xfffff000) + get_base (t_ldt (cur s1) 2) + 4096 * of_nat k) s1"
    using stack by (simp add: cur c unprotected_def)
  then have va: "verify_area esp 28 s1 e = Ok () s1 e" by (rule verify_area_unprotected)
  have "deliver f s e = Ok (f\<lparr>r_eip := h i, r_esp := sint esp\<rparr>) (put_longs ?fr esp s1) e"
    using push_signal_run [OF va [unfolded esp_def]] t handler
    by (simp add: deliver_def h_def w_def esp_def s1_def bnd_run gets_def seqK_def modify_def)
  then have "ret_from_sys_call f s e = Ok (f\<lparr>r_eip := h i, r_esp := sint esp\<rparr>) (put_longs ?fr esp s1) e"
    using user by (simp add: ret_from_sys_call_def bnd_run gets_def)
  moreover have "get_fs_long (esp + 4 * of_nat k) (put_longs ?fr esp s1) = ?fr ! k" if "k < 7" for k
    using that by (intro get_put_longs) (simp_all add: signal_frame_def)
  moreover have "fs_mem (put_longs ?fr esp s1) x = fs_mem s x" if "\<forall>k < 28. x \<noteq> esp + of_nat k" for x
    using put_longs_other [of ?fr x esp s1] that by (simp add: signal_frame_def c)
  ultimately show ?thesis
    by (intro exI [of _ "put_longs ?fr esp s1"]) (simp add: c(1) cur w')
qed


text \<open>Signals 1, ignored, and 2, with a handler, are pending.\<close>

definition ex_signalled :: procst where
  "ex_signalled = ex_proc\<lparr>tstruct := (\<lambda>_. ex_parent\<lparr>t_signal := 3, t_sig_fn := (\<lambda>_. 0)(0 := 1, 1 := 0x2000)\<rparr>)\<rparr>"

theorem signal_delivered_witness:
  "\<exists>s'. ret_from_sys_call ex_frame ex_signalled [] = Ok (ex_frame\<lparr>r_eip := 0x2000, r_esp := 0x3ffefe4\<rparr>) s' [] \<and>
     get_fs_long 0x3ffeffc s' = 0x100 \<and> \<not> bit (t_signal (cur s')) 1"
proof -
  have sel: "phys ex_signalled = (\<lambda>_ _. 0)" "current ex_signalled = page_addr 5" "task ex_signalled 0 = 0"
    "tstruct ex_signalled = (\<lambda>_. ex_parent\<lparr>t_signal := 3, t_sig_fn := (\<lambda>_. 0)(0 := 1, 1 := 0x2000)\<rparr>)"
    by (simp_all add: ex_signalled_def ex_proc_sel)
  have "page_addr 5 \<noteq> 0" by (simp add: page_addr_def)
  moreover have "unprotected a ex_signalled" for a by (simp add: unprotected_def sel not_present_0)
  moreover have "dropped (t_sig_fn (cur ex_signalled)) 0" "\<not> dropped (t_sig_fn (cur ex_signalled)) 1"
    by (simp_all add: dropped_def sel SIG_CHLD_def)
  ultimately have "\<exists>s'. ret_from_sys_call ex_frame ex_signalled [] = Ok (ex_frame\<lparr>r_eip := t_sig_fn (cur ex_signalled) 1, r_esp := sint (word_of_int (r_esp ex_frame) - 28 :: u32)\<rparr>) s' [] \<and>
    (\<forall>k < 7. get_fs_long (word_of_int (r_esp ex_frame) - 28 + 4 * of_nat k) s' = signal_frame (t_sig_restorer (cur ex_signalled)) 1 ex_frame ! k) \<and>
    (\<forall>x. (\<forall>k < 28. x \<noteq> word_of_int (r_esp ex_frame) - 28 + of_nat k) \<longrightarrow> fs_mem s' x = fs_mem ex_signalled x) \<and>
    t_sig_fn (cur s') = (t_sig_fn (cur ex_signalled))(1 := 0) \<and> (\<forall>j. bit (t_signal (cur s')) j \<longleftrightarrow> bit (t_signal (cur ex_signalled)) j \<and> 1 < j)"
    by (intro signal_delivered) (simp_all add: sel ex_frame_def bit_simps)
  then obtain s' where s': "ret_from_sys_call ex_frame ex_signalled [] = Ok (ex_frame\<lparr>r_eip := 0x2000, r_esp := 0x3ffefe4\<rparr>) s' []"
    and fr: "\<forall>k < 7. get_fs_long (word_of_int (r_esp ex_frame) - 28 + 4 * of_nat k) s' = signal_frame (t_sig_restorer (cur ex_signalled)) 1 ex_frame ! k"
    and sg: "\<forall>j. bit (t_signal (cur s')) j \<longleftrightarrow> bit (t_signal (cur ex_signalled)) j \<and> 1 < j"
    by (auto simp: sel ex_frame_def)
  have "get_fs_long 0x3ffeffc s' = 0x100"
    using fr [rule_format, of 6] by (simp add: signal_frame_def ex_frame_def)
  then show ?thesis using s' sg by blast
qed

end
