(* ===== verification/Traps.thy ===== *)
theory Traps
  imports Process Vsprintf
begin

text \<open>
  Messages, traps and the interrupt descriptor table: \<^verbatim>\<open>src/kernel/printk.c\<close>, \<^verbatim>\<open>src/kernel/traps.c\<close>, the gate macros of
  \<^verbatim>\<open>src/include/asm/system.h\<close>, and the gates the other parts of the kernel set when it starts.

  The other components use the fact that a message changes nothing but the console and leave it out; here, where a message is all
  a handler does before it ends the process, it is printed. The addresses of the entry points are known to the linker only: they are a
  function argument on the names of the entry points.
\<close>

section \<open>Gates\<close>

text \<open>\<^verbatim>\<open>_set_gate\<close>: \<^verbatim>\<open>eax\<close> is the selector 8 above the low half of the address, \<^verbatim>\<open>edx\<close> the high half above the type bits.\<close>

definition set_gate :: "u32 \<Rightarrow> u32 \<Rightarrow> u32 \<Rightarrow> desc_struct" where
  "set_gate type dpl addr = \<lparr>
     desc_a = push_bit 16 (drop_bit 16 0x00080000) OR take_bit 16 addr,
     desc_b = push_bit 16 (drop_bit 16 addr) OR take_bit 16 (0x8000 + push_bit 13 dpl + push_bit 8 type)\<rparr>"

type_synonym idt = "nat \<Rightarrow> desc_struct"

definition set_intr_gate :: "nat \<Rightarrow> u32 \<Rightarrow> idt \<Rightarrow> idt" where
  "set_intr_gate n addr I = I(n := set_gate 14 0 addr)"

definition set_trap_gate :: "nat \<Rightarrow> u32 \<Rightarrow> idt \<Rightarrow> idt" where
  "set_trap_gate n addr I = I(n := set_gate 15 0 addr)"

definition set_system_gate :: "nat \<Rightarrow> u32 \<Rightarrow> idt \<Rightarrow> idt" where
  "set_system_gate n addr I = I(n := set_gate 15 3 addr)"

datatype entry = E_divide_error | E_debug | E_nmi | E_int3 | E_overflow | E_bounds | E_invalid_op | E_device_not_available | E_double_fault
  | E_coprocessor_segment_overrun | E_invalid_TSS | E_segment_not_present | E_stack_segment | E_general_protection | E_page_fault
  | E_reserved | E_coprocessor_error | E_timer_interrupt | E_system_call | E_hd_interrupt | E_keyboard_interrupt | E_rs1_interrupt | E_rs2_interrupt

definition trap_init :: "(entry \<Rightarrow> u32) \<Rightarrow> idt \<Rightarrow> idt" where
  "trap_init at I0 =
     (let I1 = set_trap_gate 0 (at E_divide_error) I0;
          I2 = set_trap_gate 1 (at E_debug) I1;
          I3 = set_trap_gate 2 (at E_nmi) I2;
          I4 = set_system_gate 3 (at E_int3) I3;
          I5 = set_system_gate 4 (at E_overflow) I4;
          I6 = set_system_gate 5 (at E_bounds) I5;
          I7 = set_trap_gate 6 (at E_invalid_op) I6;
          I8 = set_trap_gate 7 (at E_device_not_available) I7;
          I9 = set_trap_gate 8 (at E_double_fault) I8;
          I10 = set_trap_gate 9 (at E_coprocessor_segment_overrun) I9;
          I11 = set_trap_gate 10 (at E_invalid_TSS) I10;
          I12 = set_trap_gate 11 (at E_segment_not_present) I11;
          I13 = set_trap_gate 12 (at E_stack_segment) I12;
          I14 = set_trap_gate 13 (at E_general_protection) I13;
          I15 = set_trap_gate 14 (at E_page_fault) I14;
          I16 = set_trap_gate 15 (at E_reserved) I15;
          I17 = set_trap_gate 16 (at E_coprocessor_error) I16
      in fold (\<lambda>i. set_trap_gate i (at E_reserved)) [17..<32] I17)"

text \<open>The gates that \<^verbatim>\<open>rs_init\<close>, \<^verbatim>\<open>con_init\<close>, \<^verbatim>\<open>sched_init\<close> and \<^verbatim>\<open>hd_init\<close> set.\<close>

definition rs_gates :: "(entry \<Rightarrow> u32) \<Rightarrow> idt \<Rightarrow> idt" where
  "rs_gates at I = set_intr_gate 0x23 (at E_rs2_interrupt) (set_intr_gate 0x24 (at E_rs1_interrupt) I)"

definition con_gates :: "(entry \<Rightarrow> u32) \<Rightarrow> idt \<Rightarrow> idt" where
  "con_gates at I = set_trap_gate 0x21 (at E_keyboard_interrupt) I"

definition sched_gates :: "(entry \<Rightarrow> u32) \<Rightarrow> idt \<Rightarrow> idt" where
  "sched_gates at I = set_system_gate 0x80 (at E_system_call) (set_intr_gate 0x20 (at E_timer_interrupt) I)"

definition hd_gates :: "(entry \<Rightarrow> u32) \<Rightarrow> idt \<Rightarrow> idt" where
  "hd_gates at I = set_trap_gate 0x2E (at E_hd_interrupt) I"

text \<open>The order of the calls in \<^verbatim>\<open>main\<close>: \<^verbatim>\<open>tty_init\<close>, which calls \<^verbatim>\<open>rs_init\<close> and \<^verbatim>\<open>con_init\<close>, \<^verbatim>\<open>trap_init\<close>, \<^verbatim>\<open>sched_init\<close>, \<^verbatim>\<open>hd_init\<close>.\<close>

definition main_gates :: "(entry \<Rightarrow> u32) \<Rightarrow> idt \<Rightarrow> idt" where
  "main_gates at I = hd_gates at (sched_gates at (trap_init at (con_gates at (rs_gates at I))))"

section \<open>Messages\<close>

text \<open>
  \<^verbatim>\<open>printk\<close>. While it calls \<^verbatim>\<open>tty_write\<close> the segment register \<^verbatim>\<open>fs\<close> points to the data of the kernel, where the text is in
  \<^verbatim>\<open>buf\<close>, whose address is 0 here; afterwards it points to the memory of the process again. The buffer has 1024 bytes, with the final 0.
\<close>

definition text_mem :: "string \<Rightarrow> u32 \<Rightarrow> u8" where
  "text_mem cs a = (if unat a < length cs then of_char (cs ! unat a) else 0)"

definition printk :: "(u32 \<Rightarrow> string) \<Rightarrow> string \<Rightarrow> u32 list \<Rightarrow> ('z ttyst_scheme, int) km" where
  "printk S fmt as = (case vsprintf S fmt as of
     None \<Rightarrow> fault ''printk arguments''
   | Some (i, cs, st) \<Rightarrow>
       if i \<ge> 1024 \<or> st \<noteq> [] then fault ''printk buffer''
       else bnd (gets fs_mem) (\<lambda>M.
         seqK (modify (\<lambda>s. s\<lparr>fs_mem := text_mem cs\<rparr>))
           (seqK (tty_write 0 0 i)
             (seqK (modify (\<lambda>s. s\<lparr>fs_mem := M\<rparr>)) (ret i)))))"

abbreviation "nl \<equiv> CHR 0x0A"
abbreviation "crt \<equiv> CHR 0x0D"
abbreviation "tabc \<equiv> CHR 0x09"


section \<open>Handlers\<close>

text \<open>
  \<^verbatim>\<open>str(n)\<close>: the number of the current task, from the task register. The instruction \<^verbatim>\<open>str\<close> itself gives the selector \<^verbatim>\<open>_TSS(n)\<close>.
\<close>

definition task_nr :: "'z sched_scheme \<Rightarrow> nat" where
  "task_nr s = (case find (\<lambda>i. task s i = current s) [0..<NR_TASKS] of None \<Rightarrow> 0 | Some i \<Rightarrow> i)"

definition task_register :: "'z sched_scheme \<Rightarrow> u32" where
  "task_register s = push_bit 4 (of_nat (task_nr s)) + push_bit 3 4"

definition str_nr :: "'z sched_scheme \<Rightarrow> u32" where
  "str_nr s = drop_bit 4 (task_register s - push_bit 3 4)"

text \<open>
  \<^verbatim>\<open>get_seg_byte\<close> with the code segment of the process, whose base is that of its data segment, or with that of the kernel, whose contents are the
  argument \<open>K\<close>; \<^verbatim>\<open>get_seg_long\<close> with the data segment of the process.
\<close>

definition get_seg_byte :: "(u32 \<Rightarrow> u8) \<Rightarrow> u32 \<Rightarrow> u32 \<Rightarrow> 'z sched_scheme \<Rightarrow> u8" where
  "get_seg_byte K seg a s = (if seg = 0x0f then get_fs_byte a s else K a)"

definition get_seg_long :: "u32 \<Rightarrow> 'z sched_scheme \<Rightarrow> u32" where
  "get_seg_long a s = get_fs_long a s"

text \<open>
  \<^verbatim>\<open>die\<close>. The list \<open>esp\<close> has the five words the processor has pushed; \<^verbatim>\<open>_fs()\<close> is the data segment of the kernel, which the
  entry code has loaded.
\<close>

definition die :: "(u32 \<Rightarrow> u8) \<Rightarrow> string \<Rightarrow> u32 list \<Rightarrow> u32 \<Rightarrow> ('z ttyst_scheme, unit) km" where
  "die K msg esp nr =
     seqK (printk (\<lambda>_. msg) (''%s: %04x'' @ [nl, crt]) [0, nr AND 0xffff])
      (seqK (printk (\<lambda>_. []) (''EIP:'' @ [tabc] @ ''%04x:%p'' @ [nl] @ ''EFLAGS:'' @ [tabc] @ ''%p'' @ [nl] @ ''ESP:'' @ [tabc] @ ''%04x:%p'' @ [nl])
          [esp ! 1, esp ! 0, esp ! 2, esp ! 4, esp ! 3])
       (seqK (printk (\<lambda>_. []) (''fs: %04x'' @ [nl]) [0x10])
        (seqK (bnd (gets (\<lambda>s. t_ldt (cur s))) (\<lambda>ldt. printk (\<lambda>_. []) (''base: %p, limit: %p'' @ [nl]) [get_base (ldt 1), get_limit (ldt 2)]))
         (seqK (whenK (esp ! 4 = 0x17)
             (seqK (printk (\<lambda>_. []) ''Stack: '' [])
               (seqK (forK [0..<4] (\<lambda>i. bnd (gets (get_seg_long (esp ! 3 + 4 * of_nat i))) (\<lambda>v. seqK (printk (\<lambda>_. []) ''%p '' [v]) (ret ()))))
                 (seqK (printk (\<lambda>_. []) [nl] []) (ret ())))))
          (seqK (bnd (gets (\<lambda>s. (t_pid (cur s), str_nr s))) (\<lambda>(pid, i).
                   printk (\<lambda>_. []) (''Pid: %d, process nr: %d'' @ [nl, crt]) [word_of_int pid, 0xffff AND i]))
           (seqK (forK [0..<10] (\<lambda>i. bnd (gets (get_seg_byte K (esp ! 1) (esp ! 0 + of_nat i))) (\<lambda>v.
                   seqK (printk (\<lambda>_. []) ''%02x '' [0xff AND ucast v]) (ret ()))))
            (seqK (printk (\<lambda>_. []) [nl, crt] [])
             (seqK (do_exit 11) (ret ())))))))))"

definition do_double_fault :: "(u32 \<Rightarrow> u8) \<Rightarrow> u32 list \<Rightarrow> u32 \<Rightarrow> ('z ttyst_scheme, unit) km" where
  "do_double_fault K esp error_code = die K ''double fault'' esp error_code"

definition do_general_protection :: "(u32 \<Rightarrow> u8) \<Rightarrow> u32 list \<Rightarrow> u32 \<Rightarrow> ('z ttyst_scheme, unit) km" where
  "do_general_protection K esp error_code = die K ''general protection'' esp error_code"

definition do_divide_error :: "(u32 \<Rightarrow> u8) \<Rightarrow> u32 list \<Rightarrow> u32 \<Rightarrow> ('z ttyst_scheme, unit) km" where
  "do_divide_error K esp error_code = die K ''divide error'' esp error_code"

definition do_nmi :: "(u32 \<Rightarrow> u8) \<Rightarrow> u32 list \<Rightarrow> u32 \<Rightarrow> ('z ttyst_scheme, unit) km" where
  "do_nmi K esp error_code = die K ''nmi'' esp error_code"

definition do_debug :: "(u32 \<Rightarrow> u8) \<Rightarrow> u32 list \<Rightarrow> u32 \<Rightarrow> ('z ttyst_scheme, unit) km" where
  "do_debug K esp error_code = die K ''debug'' esp error_code"

definition do_overflow :: "(u32 \<Rightarrow> u8) \<Rightarrow> u32 list \<Rightarrow> u32 \<Rightarrow> ('z ttyst_scheme, unit) km" where
  "do_overflow K esp error_code = die K ''overflow'' esp error_code"

definition do_bounds :: "(u32 \<Rightarrow> u8) \<Rightarrow> u32 list \<Rightarrow> u32 \<Rightarrow> ('z ttyst_scheme, unit) km" where
  "do_bounds K esp error_code = die K ''bounds'' esp error_code"

definition do_invalid_op :: "(u32 \<Rightarrow> u8) \<Rightarrow> u32 list \<Rightarrow> u32 \<Rightarrow> ('z ttyst_scheme, unit) km" where
  "do_invalid_op K esp error_code = die K ''invalid operand'' esp error_code"

definition do_device_not_available :: "(u32 \<Rightarrow> u8) \<Rightarrow> u32 list \<Rightarrow> u32 \<Rightarrow> ('z ttyst_scheme, unit) km" where
  "do_device_not_available K esp error_code = die K ''device not available'' esp error_code"

definition do_coprocessor_segment_overrun :: "(u32 \<Rightarrow> u8) \<Rightarrow> u32 list \<Rightarrow> u32 \<Rightarrow> ('z ttyst_scheme, unit) km" where
  "do_coprocessor_segment_overrun K esp error_code = die K ''coprocessor segment overrun'' esp error_code"

definition do_invalid_TSS :: "(u32 \<Rightarrow> u8) \<Rightarrow> u32 list \<Rightarrow> u32 \<Rightarrow> ('z ttyst_scheme, unit) km" where
  "do_invalid_TSS K esp error_code = die K ''invalid TSS'' esp error_code"

definition do_segment_not_present :: "(u32 \<Rightarrow> u8) \<Rightarrow> u32 list \<Rightarrow> u32 \<Rightarrow> ('z ttyst_scheme, unit) km" where
  "do_segment_not_present K esp error_code = die K ''segment not present'' esp error_code"

definition do_stack_segment :: "(u32 \<Rightarrow> u8) \<Rightarrow> u32 list \<Rightarrow> u32 \<Rightarrow> ('z ttyst_scheme, unit) km" where
  "do_stack_segment K esp error_code = die K ''stack segment'' esp error_code"

definition do_coprocessor_error :: "(u32 \<Rightarrow> u8) \<Rightarrow> u32 list \<Rightarrow> u32 \<Rightarrow> ('z ttyst_scheme, unit) km" where
  "do_coprocessor_error K esp error_code = die K ''coprocessor error'' esp error_code"

definition do_reserved :: "(u32 \<Rightarrow> u8) \<Rightarrow> u32 list \<Rightarrow> u32 \<Rightarrow> ('z ttyst_scheme, unit) km" where
  "do_reserved K esp error_code = die K ''reserved (15,17-31) error'' esp error_code"

text \<open>\<^verbatim>\<open>do_int3\<close> prints the registers of the interrupted program, saved on the stack at \<open>esp_addr\<close>, and returns.\<close>

record regs =
  reg_eax :: u32
  reg_ebx :: u32
  reg_ecx :: u32
  reg_edx :: u32
  reg_esi :: u32
  reg_edi :: u32
  reg_ebp :: u32
  reg_ds :: u32
  reg_es :: u32
  reg_fs :: u32

definition do_int3 :: "u32 \<Rightarrow> u32 list \<Rightarrow> regs \<Rightarrow> ('z ttyst_scheme, unit) km" where
  "do_int3 esp_addr esp r =
     bnd (gets task_register) (\<lambda>tr.
       seqK (printk (\<lambda>_. []) (''eax'' @ [tabc, tabc] @ ''ebx'' @ [tabc, tabc] @ ''ecx'' @ [tabc, tabc] @ ''edx'' @ [nl, crt] @
              ''%8x'' @ [tabc] @ ''%8x'' @ [tabc] @ ''%8x'' @ [tabc] @ ''%8x'' @ [nl, crt]) [reg_eax r, reg_ebx r, reg_ecx r, reg_edx r])
        (seqK (printk (\<lambda>_. []) (''esi'' @ [tabc, tabc] @ ''edi'' @ [tabc, tabc] @ ''ebp'' @ [tabc, tabc] @ ''esp'' @ [nl, crt] @
              ''%8x'' @ [tabc] @ ''%8x'' @ [tabc] @ ''%8x'' @ [tabc] @ ''%8x'' @ [nl, crt]) [reg_esi r, reg_edi r, reg_ebp r, esp_addr])
         (seqK (printk (\<lambda>_. []) ([nl, crt] @ ''ds'' @ [tabc] @ ''es'' @ [tabc] @ ''fs'' @ [tabc] @ ''tr'' @ [nl, crt] @
              ''%4x'' @ [tabc] @ ''%4x'' @ [tabc] @ ''%4x'' @ [tabc] @ ''%4x'' @ [nl, crt]) [reg_ds r, reg_es r, reg_fs r, tr])
          (seqK (printk (\<lambda>_. []) (''EIP: %8x   CS: %4x  EFLAGS: %8x'' @ [nl, crt]) [esp ! 0, esp ! 1, esp ! 2]) (ret ())))))"

end
