(* ===== verification/Trap_Props.thy ===== *)
theory Trap_Props
  imports Traps
begin

text \<open>
  The interrupt descriptor table after the kernel has started: which handler serves which vector, and which vectors a process can reach with an
  \<^verbatim>\<open>int\<close> instruction.
\<close>

text \<open>How the processor reads a gate.\<close>

definition gate_handler :: "desc_struct \<Rightarrow> u32" where
  "gate_handler g = take_bit 16 (desc_a g) OR push_bit 16 (drop_bit 16 (desc_b g))"

definition gate_selector :: "desc_struct \<Rightarrow> u32" where
  "gate_selector g = drop_bit 16 (desc_a g)"

definition gate_present :: "desc_struct \<Rightarrow> bool" where
  "gate_present g = bit (desc_b g) 15"

definition gate_dpl :: "desc_struct \<Rightarrow> u32" where
  "gate_dpl g = take_bit 2 (drop_bit 13 (desc_b g))"

definition gate_type :: "desc_struct \<Rightarrow> u32" where
  "gate_type g = take_bit 5 (drop_bit 8 (desc_b g))"

lemma take_13_2: "take_bit 2 (drop_bit 13 (push_bit 16 (a :: u32))) = 0"
  by (rule bit_word_eqI) (auto simp: bit_simps)

lemma take_8_5: "take_bit 5 (drop_bit 8 (push_bit 16 (a :: u32))) = 0"
  by (rule bit_word_eqI) (auto simp: bit_simps)

lemma gate_handler_set [simp]: "gate_handler (set_gate type dpl addr) = addr"
  by (rule bit_word_eqI) (auto simp: gate_handler_def set_gate_def bit_simps)

lemma gate_selector_set [simp]: "gate_selector (set_gate type dpl addr) = 8"
proof -
  have "drop_bit 16 (push_bit 16 8 OR take_bit 16 addr) = drop_bit 16 (push_bit 16 8) OR drop_bit 16 (take_bit 16 addr)"
    by (simp only: drop_bit_or)
  also have "drop_bit 16 (take_bit 16 addr) = 0" by (rule bit_word_eqI) (simp add: bit_simps)
  finally show ?thesis by (simp add: gate_selector_def set_gate_def)
qed

lemma gate_bits_set [simp]:
  assumes "type = 14 \<or> type = 15" "dpl = 0 \<or> dpl = 3"
  shows "gate_present (set_gate type dpl addr)" "gate_dpl (set_gate type dpl addr) = dpl" "gate_type (set_gate type dpl addr) = type"
  using assms by (auto simp: gate_present_def gate_dpl_def gate_type_def set_gate_def take_13_2 take_8_5 bit_simps)

text \<open>What the table has to be: type, privilege and entry point of each vector.\<close>

definition trap_entries :: "entry list" where
  "trap_entries = [E_divide_error, E_debug, E_nmi, E_int3, E_overflow, E_bounds, E_invalid_op, E_device_not_available, E_double_fault,
     E_coprocessor_segment_overrun, E_invalid_TSS, E_segment_not_present, E_stack_segment, E_general_protection, E_page_fault,
     E_reserved, E_coprocessor_error]"

definition gate_spec :: "nat \<Rightarrow> (u32 \<times> u32 \<times> entry) option" where
  "gate_spec n =
     (if n < 17 then Some (15, if n \<in> {3, 4, 5} then 3 else 0, trap_entries ! n)
      else if n < 32 then Some (15, 0, E_reserved)
      else map_of [(0x20, (14, 0, E_timer_interrupt)), (0x21, (15, 0, E_keyboard_interrupt)), (0x23, (14, 0, E_rs2_interrupt)),
        (0x24, (14, 0, E_rs1_interrupt)), (0x2E, (15, 0, E_hd_interrupt)), (0x80, (15, 3, E_system_call))] n)"

lemmas gate_inits = main_gates_def hd_gates_def sched_gates_def con_gates_def rs_gates_def trap_init_def set_trap_gate_def set_system_gate_def
  set_intr_gate_def

lemma fold_gates: "fold (\<lambda>i. set_trap_gate i a) xs I n = (if n \<in> set xs then set_gate 15 0 a else I n)"
  by (induction xs arbitrary: I) (auto simp: set_trap_gate_def)

lemma less_17: "n < 17 \<Longrightarrow> n \<in> {0, 1, 2, 3, 4, 5, 6, 7, 8, 9, 10, 11, 12, 13, 14, 15, 16 :: nat}"
  by (simp add: eval_nat_numeral less_Suc_eq)

lemma trap_init_spec:
  "trap_init at I n = (if n < 32 then case gate_spec n of Some (t, p, e) \<Rightarrow> set_gate t p (at e) | None \<Rightarrow> I n else I n)"
proof (cases "n < 17")
  case True
  then have "n \<in> {0, 1, 2, 3, 4, 5, 6, 7, 8, 9, 10, 11, 12, 13, 14, 15, 16}" by (rule less_17)
  then show ?thesis
    unfolding trap_init_def Let_def fold_gates set_upt
    by (elim insertE emptyE) (simp_all add: set_trap_gate_def set_system_gate_def gate_spec_def trap_entries_def)
next
  case False
  then show ?thesis
    unfolding trap_init_def Let_def fold_gates set_upt
    by (simp add: set_trap_gate_def set_system_gate_def gate_spec_def)
qed

lemma main_gates_spec:
  "main_gates at I n = (case gate_spec n of Some (t, p, e) \<Rightarrow> set_gate t p (at e) | None \<Rightarrow> I n)"
  by (simp add: main_gates_def hd_gates_def sched_gates_def con_gates_def rs_gates_def trap_init_spec set_trap_gate_def set_system_gate_def
      set_intr_gate_def gate_spec_def split: option.splits)


lemma main_gates_dpl:
  assumes "\<forall>n. gate_dpl (I n) = 0"
  shows "gate_dpl (main_gates at I n) = (if n \<in> {3, 4, 5, 0x80} then 3 else 0)"
proof (cases "gate_spec n")
  case None
  then have "n \<notin> {3, 4, 5, 0x80}" by (auto simp: gate_spec_def split: if_splits)
  then show ?thesis using None assms by (simp add: main_gates_spec)
next
  case (Some x)
  obtain t p e where x: "x = (t, p, e)" by (cases x)
  have "t = 14 \<or> t = 15" "p = (if n \<in> {3, 4, 5, 0x80} then 3 else 0)"
    using Some unfolding x by (auto simp: gate_spec_def split: if_splits)
  then show ?thesis by (simp add: main_gates_spec Some x)
qed

text \<open>
  C25: after the calls of \<^verbatim>\<open>main\<close> every one of the 32 vectors of the processor, the five device interrupts and the system call have a present
  gate to their own entry point in the kernel's code segment, the timer and the serial lines with interrupts off. If no gate was open to
  processes before, exactly \<^verbatim>\<open>int3\<close>, \<^verbatim>\<open>overflow\<close>, \<^verbatim>\<open>bounds\<close> and the system call are open to them after. Every other gate is as it was.
\<close>

theorem main_gates_protect:
  assumes "\<forall>n. gate_dpl (I n) = 0"
  shows "(gate_dpl (main_gates at I n) = 3 \<longleftrightarrow> n \<in> {3, 4, 5, 0x80}) \<and>
    (gate_dpl (main_gates at I n) = 0 \<longleftrightarrow> n \<notin> {3, 4, 5, 0x80}) \<and>
    (case gate_spec n of
       Some (t, _, e) \<Rightarrow> gate_present (main_gates at I n) \<and> gate_selector (main_gates at I n) = 8 \<and>
         gate_type (main_gates at I n) = t \<and> gate_handler (main_gates at I n) = at e
     | None \<Rightarrow> main_gates at I n = I n)"
proof -
  have "gate_dpl (main_gates at I n) = 3 \<longleftrightarrow> n \<in> {3, 4, 5, 0x80}" "gate_dpl (main_gates at I n) = 0 \<longleftrightarrow> n \<notin> {3, 4, 5, 0x80}"
    unfolding main_gates_dpl [OF assms] by simp_all
  moreover have "case gate_spec n of
       Some (t, _, e) \<Rightarrow> gate_present (main_gates at I n) \<and> gate_selector (main_gates at I n) = 8 \<and>
         gate_type (main_gates at I n) = t \<and> gate_handler (main_gates at I n) = at e
     | None \<Rightarrow> main_gates at I n = I n"
  proof (cases "gate_spec n")
    case (Some x)
    obtain t p e where x: "x = (t, p, e)" by (cases x)
    have "t = 14 \<or> t = 15" "p = 0 \<or> p = 3"
      using Some unfolding x by (auto simp: gate_spec_def split: if_splits)
    then show ?thesis by (simp add: main_gates_spec Some x)
  qed (simp add: main_gates_spec)
  ultimately show ?thesis by blast
qed

theorem main_gates_protect_witness:
  "gate_dpl (main_gates (\<lambda>_. 0x7000) (\<lambda>_. set_gate 14 0 0x5428) 0x80) = 3 \<and>
   gate_dpl (main_gates (\<lambda>_. 0x7000) (\<lambda>_. set_gate 14 0 0x5428) 14) = 0"
  using main_gates_protect [where I = "\<lambda>_. set_gate 14 0 0x5428" and at = "\<lambda>_. 0x7000" and n = "0x80"]
    main_gates_protect [where I = "\<lambda>_. set_gate 14 0 0x5428" and at = "\<lambda>_. 0x7000" and n = 14]
  by simp

end
