(* ===== verification/Mktime.thy ===== *)
theory Mktime
  imports Kernel_Prelude
begin

text \<open>
  The clock at boot: \<^verbatim>\<open>kernel_mktime\<close> of \<^verbatim>\<open>src/kernel/mktime.c\<close> and \<^verbatim>\<open>time_init\<close> of \<^verbatim>\<open>src/init/main.c\<close>, and that the arithmetic agrees with the
  calendar.
\<close>

record tm =
  tm_sec :: int
  tm_min :: int
  tm_hour :: int
  tm_mday :: int
  tm_mon :: int
  tm_year :: int

definition MINUTE :: int where "MINUTE = 60"
definition HOUR :: int where "HOUR = 60 * MINUTE"
definition DAY :: int where "DAY = 24 * HOUR"
definition YEAR :: int where "YEAR = 365 * DAY"

text \<open>The table \<^verbatim>\<open>month\<close>: seconds before a month in a leap year.\<close>

definition month :: "int list" where
  "month = [0, DAY * 31, DAY * (31+29), DAY * (31+29+31), DAY * (31+29+31+30), DAY * (31+29+31+30+31), DAY * (31+29+31+30+31+30),
     DAY * (31+29+31+30+31+30+31), DAY * (31+29+31+30+31+30+31+31), DAY * (31+29+31+30+31+30+31+31+30),
     DAY * (31+29+31+30+31+30+31+31+30+31), DAY * (31+29+31+30+31+30+31+31+30+31+30)]"

text \<open>\<open>None\<close>: the index into \<^verbatim>\<open>month\<close> is outside the table.\<close>

definition kernel_mktime :: "tm \<Rightarrow> int option" where
  "kernel_mktime t =
     (if tm_mon t < 0 \<or> tm_mon t \<ge> 12 then None
      else let year = tm_year t - 70;
               r1 = YEAR * year + DAY * c_div (year + 1) 4;
               r2 = r1 + month ! nat (tm_mon t);
               r3 = (if tm_mon t > 1 \<and> c_mod (year + 2) 4 \<noteq> 0 then r2 - DAY else r2)
           in Some (wrap32 (r3 + DAY * (tm_mday t - 1) + HOUR * tm_hour t + MINUTE * tm_min t + tm_sec t)))"

section \<open>Reading the clock chip\<close>

definition BCD_TO_BIN :: "int \<Rightarrow> int" where
  "BCD_TO_BIN v = (v AND 15) + drop_bit 4 v * 10"

text \<open>
  The reading loop: \<open>rd n k\<close> is what the \<open>k\<close>-th of the seven accesses of round \<open>n\<close> returns. It ends when the seconds did not change.
\<close>

partial_function (option) cmos_loop :: "(nat \<Rightarrow> nat \<Rightarrow> int) \<Rightarrow> nat \<Rightarrow> tm option" where
  "cmos_loop rd n =
     (if rd n 0 \<noteq> rd n 6 then cmos_loop rd (n + 1)
      else Some \<lparr>tm_sec = rd n 0, tm_min = rd n 1, tm_hour = rd n 2, tm_mday = rd n 3, tm_mon = rd n 4 - 1, tm_year = rd n 5\<rparr>)"

definition bcd_tm :: "tm \<Rightarrow> tm" where
  "bcd_tm t = \<lparr>tm_sec = BCD_TO_BIN (tm_sec t), tm_min = BCD_TO_BIN (tm_min t), tm_hour = BCD_TO_BIN (tm_hour t),
     tm_mday = BCD_TO_BIN (tm_mday t), tm_mon = BCD_TO_BIN (tm_mon t), tm_year = BCD_TO_BIN (tm_year t)\<rparr>"

text \<open>
  The outcomes of \<^verbatim>\<open>time_init\<close>: the value it gives \<^verbatim>\<open>startup_time\<close>; an access to the table \<^verbatim>\<open>month\<close> at an index outside of it, whose result the source
  does not determine; or a reading loop that never ends.
\<close>

datatype clock = Startup int | Month_outside int | Never_stable

definition time_init :: "(nat \<Rightarrow> nat \<Rightarrow> int) \<Rightarrow> clock" where
  "time_init rd = (case cmos_loop rd 0 of None \<Rightarrow> Never_stable
     | Some t \<Rightarrow> (case kernel_mktime (bcd_tm t) of None \<Rightarrow> Month_outside (tm_mon (bcd_tm t)) | Some r \<Rightarrow> Startup r))"

section \<open>The calendar\<close>

text \<open>The reference: Gregorian leap years, lengths of months, and days counted one year and one month at a time from 1970.\<close>

definition leap :: "nat \<Rightarrow> bool" where
  "leap y \<longleftrightarrow> y mod 4 = 0 \<and> (y mod 100 \<noteq> 0 \<or> y mod 400 = 0)"

definition month_days :: "nat \<Rightarrow> nat \<Rightarrow> nat" where
  "month_days y m = [31, if leap y then 29 else 28, 31, 30, 31, 30, 31, 31, 30, 31, 30, 31] ! m"

definition days_since_1970 :: "nat \<Rightarrow> nat \<Rightarrow> nat \<Rightarrow> nat" where
  "days_since_1970 y m d =
     sum_list (map (\<lambda>k. if leap k then 366 else 365) [1970..<y]) + sum_list (map (month_days y) [0..<m]) + d"

definition calendar_seconds :: "nat \<Rightarrow> nat \<Rightarrow> nat \<Rightarrow> nat \<Rightarrow> nat \<Rightarrow> nat \<Rightarrow> nat" where
  "calendar_seconds y m d h mi sc = 86400 * days_since_1970 y m d + 3600 * h + 60 * mi + sc"

lemma month_cases: "m < 12 \<Longrightarrow> m \<in> {0, 1, 2, 3, 4, 5, 6, 7, 8, 9, 10, 11 :: nat}"
  by (simp, presburger)

lemma leap_1970: "k < 130 \<Longrightarrow> leap (1970 + k) \<longleftrightarrow> (k + 2) mod 4 = 0"
  unfolding leap_def by presburger

lemma years_days:
  "k < 130 \<Longrightarrow> sum_list (map (\<lambda>y. if leap y then 366 else 365) [1970..<1970 + k]) = 365 * k + (k + 1) div 4"
proof (induction k)
  case (Suc k)
  have "[1970..<1970 + Suc k] = [1970..<1970 + k] @ [1970 + k]" by (metis add_Suc_right le_add1 upt_Suc_append)
  moreover have "(k + 2) div 4 = (k + 1) div 4 + (if (k + 2) mod 4 = 0 then 1 else 0)" by presburger
  ultimately show ?case using Suc leap_1970 [of k] by simp
qed simp

lemma month_table:
  assumes "k < 130" "m < 12"
  shows "month ! m - (if 1 < m \<and> (k + 2) mod 4 \<noteq> 0 then DAY else 0) = 86400 * int (sum_list (map (month_days (1970 + k)) [0..<m]))"
proof -
  show ?thesis
    using month_cases [OF assms(2)] leap_1970 [OF assms(1)]
    by (elim insertE emptyE) (simp_all add: month_def month_days_def DAY_def HOUR_def MINUTE_def upt_rec)
qed

lemma kernel_mktime_run:
  assumes "k < 68" "m < 12" "d < month_days (1970 + k) m" "h < 24" "mi < 60" "sc < 60"
  shows "kernel_mktime \<lparr>tm_sec = int sc, tm_min = int mi, tm_hour = int h, tm_mday = int d + 1, tm_mon = int m, tm_year = int k + 70\<rparr> =
    Some (int (calendar_seconds (1970 + k) m d h mi sc))"
proof -
  have mm: "month_days (1970 + k) m \<le> 31"
  proof -
    show ?thesis using month_cases [OF assms(2)] by (elim insertE emptyE) (simp_all add: month_days_def)
  qed
  have mb: "month ! m \<le> 86400 * 335"
  proof -
    show ?thesis using month_cases [OF assms(2)] by (elim insertE emptyE) (simp_all add: month_def DAY_def HOUR_def MINUTE_def)
  qed
  have mod4: "(int k + 2) mod 4 \<noteq> 0 \<longleftrightarrow> (k + 2) mod 4 \<noteq> 0" by presburger
  have mt: "month ! m - (if 1 < m \<and> (k + 2) mod 4 \<noteq> 0 then DAY else 0) = 86400 * int (sum_list (map (month_days (1970 + k)) [0..<m]))"
    using month_table [of k m] assms by simp
  let ?v = "int (calendar_seconds (1970 + k) m d h mi sc)"
  have v: "?v = 86400 * (365 * int k + (int k + 1) div 4) + 86400 * int (sum_list (map (month_days (1970 + k)) [0..<m]))
      + 86400 * int d + 3600 * int h + 60 * int mi + int sc"
    using years_days [of k] assms by (simp add: calendar_seconds_def days_since_1970_def zdiv_int)
  have "86400 * int (sum_list (map (month_days (1970 + k)) [0..<m])) \<le> 86400 * 335"
    using mt mb by (auto simp: DAY_def HOUR_def MINUTE_def split: if_splits)
  then have r: "in_range32 ?v"
    using v assms mm by (simp add: in_range32_def)
  have "YEAR * int k + DAY * ((int k + 1) div 4) + month ! m - (if 1 < m \<and> (k + 2) mod 4 \<noteq> 0 then DAY else 0)
      + DAY * int d + HOUR * int h + MINUTE * int mi + int sc = ?v"
    using v mt by (simp add: YEAR_def DAY_def HOUR_def MINUTE_def)
  then show ?thesis
    using assms r mod4 by (auto simp: kernel_mktime_def Let_def split: if_splits)
qed

text \<open>
  C34: for every date from 1970 to 2037, \<^verbatim>\<open>kernel_mktime\<close> returns the number of seconds since the beginning of 1970 as the Gregorian calendar
  counts them; its table of a leap year and its two magic offsets get every year and month right.
\<close>

theorem kernel_mktime_calendar:
  assumes "k < 68" "m < 12" "d < month_days (1970 + k) m" "h < 24" "mi < 60" "sc < 60"
  shows "kernel_mktime \<lparr>tm_sec = int sc, tm_min = int mi, tm_hour = int h, tm_mday = int d + 1, tm_mon = int m, tm_year = int k + 70\<rparr> =
    Some (int (calendar_seconds (1970 + k) m d h mi sc))"
  by (rule kernel_mktime_run [OF assms])

text \<open>The leap day of 1992, noon.\<close>

lemma kernel_mktime_calendar_witness:
  "kernel_mktime \<lparr>tm_sec = 0, tm_min = 0, tm_hour = 12, tm_mday = 29, tm_mon = 1, tm_year = 92\<rparr> = Some 699364800"
proof -
  have l: "month_days 1992 1 = 29" by (simp add: month_days_def leap_def)
  have "int (calendar_seconds 1992 1 28 12 0 0) = 699364800"
    using years_days [of 22] by (simp add: calendar_seconds_def days_since_1970_def month_days_def)
  then show ?thesis using kernel_mktime_calendar [of 22 1 28 12 0 0] l by simp
qed

section \<open>From the chip to the calendar\<close>

text \<open>A number of two decimal digits as the chip gives it, and the seven readings of a round on a date; days and months count from 0.\<close>

definition bcd :: "nat \<Rightarrow> int" where
  "bcd v = 16 * int (v div 10) + int (v mod 10)"

definition cmos_round :: "nat \<Rightarrow> nat \<Rightarrow> nat \<Rightarrow> nat \<Rightarrow> nat \<Rightarrow> nat \<Rightarrow> int list" where
  "cmos_round y m d h mi sc = [bcd sc, bcd mi, bcd h, bcd (d + 1), bcd (m + 1), bcd y, bcd sc]"

lemma BCD_TO_BIN_digits: "0 \<le> b \<Longrightarrow> b < 16 \<Longrightarrow> BCD_TO_BIN (16 * a + b) = 10 * a + b"
proof -
  assume b: "0 \<le> b" "b < 16"
  have "(16 * a + b) AND 15 = take_bit 4 (16 * a + b)" by (simp add: take_bit_eq_mask mask_eq_exp_minus_1)
  then show ?thesis using b by (simp add: BCD_TO_BIN_def take_bit_eq_mod drop_bit_eq_div)
qed

lemma BCD_TO_BIN_bcd: "BCD_TO_BIN (bcd v) = int v"
  unfolding bcd_def by (subst BCD_TO_BIN_digits) (simp_all add: zdiv_int zmod_int)

text \<open>\<^verbatim>\<open>CMOS_READ(8)-1\<close> subtracts from the coded month: right but for a multiple of ten.\<close>

lemma BCD_TO_BIN_month:
  assumes "m < 12"
  shows "BCD_TO_BIN (bcd (m + 1) - 1) = (if m = 9 then 15 else int m)"
proof (cases "m = 9")
  case True
  then show ?thesis using BCD_TO_BIN_digits [of 15 0] by (simp add: bcd_def)
next
  case False
  let ?a = "int ((m + 1) div 10)" and ?b = "int ((m + 1) mod 10)"
  have "1 \<le> (m + 1) mod 10" using assms False by presburger
  then have "BCD_TO_BIN (16 * ?a + (?b - 1)) = 10 * ?a + (?b - 1)" by (intro BCD_TO_BIN_digits) auto
  moreover have "10 * ?a + ?b = int m + 1" by presburger
  ultimately show ?thesis using False by (simp add: bcd_def add_diff_eq)
qed

text \<open>The loop ends in the first round in which the seconds stand still.\<close>

lemma cmos_loop_stable:
  assumes "rd (n + N) 0 = rd (n + N) 6" "\<And>j. j < N \<Longrightarrow> rd (n + j) 0 \<noteq> rd (n + j) 6"
  shows "cmos_loop rd n = Some \<lparr>tm_sec = rd (n + N) 0, tm_min = rd (n + N) 1, tm_hour = rd (n + N) 2, tm_mday = rd (n + N) 3,
     tm_mon = rd (n + N) 4 - 1, tm_year = rd (n + N) 5\<rparr>"
  using assms
proof (induction N arbitrary: n)
  case 0
  then show ?case by (subst cmos_loop.simps) simp
next
  case (Suc N)
  have "cmos_loop rd n = cmos_loop rd (Suc n)" using Suc.prems(2) [of 0] by (subst cmos_loop.simps) simp
  then show ?case using Suc.IH [of "Suc n"] Suc.prems(1) Suc.prems(2) [of "Suc _"] by simp
qed

text \<open>
  C40: the clock at boot is right, but never in October. If the chip counts on while it is read, so that the seconds change in \<open>N\<close> rounds, and then holds still for a
  round, on a date of the years 1970 to 1999 given in BCD, \<^verbatim>\<open>time_init\<close> ends, and sets \<^verbatim>\<open>startup_time\<close> to the seconds since 1970 of that date. In October it does not:
  it subtracts one from the month before it converts it, \<open>0x10\<close> becomes \<open>0x0F\<close>, which converts to 15, and \<^verbatim>\<open>kernel_mktime\<close> is called with
  a month outside its table of 12.
\<close>

theorem time_init_month:
  assumes "k < 30" "m < 12" "d < month_days (1970 + k) m" "h < 24" "mi < 60" "sc < 60"
    and turning: "\<And>j. j < N \<Longrightarrow> rd j 0 \<noteq> rd j 6" and still: "\<forall>i<7. rd N i = cmos_round (70 + k) m d h mi sc ! i"
  shows "time_init rd = (if m = 9 then Month_outside 15 else Startup (int (calendar_seconds (1970 + k) m d h mi sc)))"
proof -
  have r: "rd N 0 = bcd sc" "rd N 1 = bcd mi" "rd N 2 = bcd h" "rd N 3 = bcd (d + 1)" "rd N 4 = bcd (m + 1)" "rd N 5 = bcd (70 + k)" "rd N 6 = bcd sc"
    using still by (simp_all add: cmos_round_def)
  let ?t = "\<lparr>tm_sec = int sc, tm_min = int mi, tm_hour = int h, tm_mday = int d + 1, tm_mon = (if m = 9 then 15 else int m), tm_year = int k + 70\<rparr>"
  let ?c = "\<lparr>tm_sec = bcd sc, tm_min = bcd mi, tm_hour = bcd h, tm_mday = bcd (d + 1), tm_mon = bcd (m + 1) - 1, tm_year = bcd (70 + k)\<rparr>"
  have "bcd_tm ?c = ?t" unfolding bcd_tm_def tm.select_convs BCD_TO_BIN_bcd BCD_TO_BIN_month [OF assms(2)] by simp
  moreover have "cmos_loop rd 0 = Some ?c"
    using cmos_loop_stable [of rd 0 N] turning r by simp
  ultimately have "time_init rd = (case kernel_mktime ?t of None \<Rightarrow> Month_outside (tm_mon ?t) | Some r \<Rightarrow> Startup r)"
    by (simp only: time_init_def option.case)
  then show ?thesis
    using kernel_mktime_run [OF _ assms(2-6)] assms(1) by (cases "m = 9") (simp add: kernel_mktime_def, simp)
qed

text \<open>17 September 1991, noon, read in the second round; and a month later.\<close>

theorem time_init_month_witness:
  "time_init (\<lambda>n i. if n = 0 then [0x59, 0x59, 0x11, 0x17, 9, 0x91, 0] ! i else [0, 0, 0x12, 0x17, 9, 0x91, 0] ! i) = Startup 685108800 \<and>
   time_init (\<lambda>n i. [0, 0, 0x12, 0x17, 0x10, 0x91, 0] ! i) = Month_outside 15"
proof -
  let ?rd = "\<lambda>n i. if n = 0 then [0x59, 0x59, 0x11, 0x17, 9, 0x91, 0 :: int] ! i else [0, 0, 0x12, 0x17, 9, 0x91, 0] ! i"
  have l: "month_days 1991 8 = 30" "month_days 1991 9 = 31" by (simp_all add: month_days_def)
  have b: "cmos_round 91 8 16 12 0 0 = [0, 0, 0x12, 0x17, 9, 0x91, 0]" "cmos_round 91 9 16 12 0 0 = [0, 0, 0x12, 0x17, 0x10, 0x91, 0]"
    by (simp_all add: cmos_round_def bcd_def)
  have v: "calendar_seconds 1991 8 16 12 0 0 = 685108800"
    using years_days [of 21] by (simp add: calendar_seconds_def days_since_1970_def month_days_def leap_def upt_rec)
  have "time_init ?rd = Startup 685108800"
    using time_init_month [of 21 8 16 12 0 0 1 ?rd] l b v by simp
  moreover have "time_init (\<lambda>n i. [0, 0, 0x12, 0x17, 0x10, 0x91, 0] ! i) = Month_outside 15"
    using time_init_month [of 21 9 16 12 0 0 0 "\<lambda>n i. [0, 0, 0x12, 0x17, 0x10, 0x91, 0] ! i"] l b by simp
  ultimately show ?thesis by simp
qed

end
