(* ===== verification/Boot.thy ===== *)
theory Boot
  imports Trap_Props Mktime Buffer_Props Fork_Props
begin

text \<open>
  The start of the kernel, \<^verbatim>\<open>main\<close> of \<^verbatim>\<open>src/init/main.c\<close> up to \<^verbatim>\<open>move_to_user_mode\<close>, and the invariants it establishes for the other
  components. What the machine and the boot code supply is the arguments: the CMOS clock \<open>rd\<close>, the cursor position \<open>col\<close>, \<open>row\<close> saved by the boot
  sector, the end of the kernel image \<open>end_addr\<close> and the addresses \<open>at\<close> of the entry points. The model has no
  result when the loop that reads the clock never ends, and none when it reads outside the table of months, as the source does not say what is there.
\<close>

definition main_init :: "(nat \<Rightarrow> nat \<Rightarrow> int) \<Rightarrow> u8 \<Rightarrow> u8 \<Rightarrow> nat \<Rightarrow> (entry \<Rightarrow> u32) \<Rightarrow> 'z procst_scheme \<times> idt \<Rightarrow> ('z procst_scheme \<times> idt) option" where
  "main_init rd col row end_addr at = (\<lambda>(s, I).
     case time_init rd of Never_stable \<Rightarrow> None | Month_outside _ \<Rightarrow> None
     | Startup t \<Rightarrow>
         let s1 = s\<lparr>startup_time := t\<rparr>;
             (s2, I2) = (tty_init col row s1, con_gates at (rs_gates at I));
             I3 = trap_init at I2;
             (s4, I4) = (sched_init (INIT_TASK_PTR + TSS_OFFSET) (INIT_TASK_PTR + LDT_OFFSET) s2, sched_gates at I3);
             s5 = buffer_init end_addr s4;
             (s6, I6) = (hd_init s5, hd_gates at I4)
         in Some (s6, I6))"

section \<open>The parts of the state each initialisation touches\<close>

lemma fold_init_slot:
  "fold init_slot xs s = s\<lparr>task := (\<lambda>i. if i \<in> set xs then 0 else task s i),
     gdt := (\<lambda>i. if \<exists>j\<in>set xs. i = FIRST_TSS_ENTRY + 2 * j \<or> i = FIRST_TSS_ENTRY + 2 * j + 1 then \<lparr>desc_a = 0, desc_b = 0\<rparr> else gdt s i)\<rparr>"
proof (induction xs arbitrary: s)
  case (Cons x xs)
  show ?case unfolding fold_simps comp_def Cons.IH by (auto simp: init_slot_def fun_eq_iff)
qed simp

lemma buffer_init_frame:
  "\<exists>B n H. buffer_init end_addr s = s\<lparr>nr_buffers := n, free_list := 1, bufs := B, hash_table := H\<rparr>"
  by (auto simp: buffer_init_def Let_def split: prod.splits)

lemma free_request_init: "free_request (hd_init s) = 1"
proof -
  have "[1..<NR_REQUEST + 1] = 1 # [2..<NR_REQUEST + 1]" by (simp add: upt_conv_Cons NR_REQUEST_def)
  then show ?thesis by (simp add: free_request_def hd_init_def NR_REQUEST_def)
qed


lemma hd_init_sel [simp]:
  "bufs (hd_init s) = bufs s" "this_request (hd_init s) = this_request s" "do_hd (hd_init s) = do_hd s" "sorting (hd_init s) = sorting s"
  "wait_for_request (hd_init s) = wait_for_request s" "task (hd_init s) = task s" "tstruct (hd_init s) = tstruct s" "current (hd_init s) = current s"
  "gdt (hd_init s) = gdt s" "startup_time (hd_init s) = startup_time s"
  by (simp_all add: hd_init_def)

lemma hd_init_cache [simp]:
  "free_list (hd_init s) = free_list s" "hash_table (hd_init s) = hash_table s" "nr_buffers (hd_init s) = nr_buffers s"
  "buffer_wait (hd_init s) = buffer_wait s"
  by (simp_all add: hd_init_def)

lemma buffer_init_sel [simp]:
  "this_request (buffer_init a s) = this_request s" "do_hd (buffer_init a s) = do_hd s" "sorting (buffer_init a s) = sorting s"
  "wait_for_request (buffer_init a s) = wait_for_request s" "task (buffer_init a s) = task s" "tstruct (buffer_init a s) = tstruct s"
  "current (buffer_init a s) = current s" "gdt (buffer_init a s) = gdt s" "startup_time (buffer_init a s) = startup_time s"
  "buffer_wait (buffer_init a s) = buffer_wait s"
  using buffer_init_frame [of a s] by auto

lemma buffer_init_console [simp]: "console (hd_init (buffer_init a s)) = console s"
  using buffer_init_frame [of a s] by (auto simp: hd_init_def)

lemma queues_hd_init [simp]: "queues (hd_init s) F C \<longleftrightarrow> queues s F C"
  by (simp add: queues_def)

text \<open>The whole drives, minor numbers 0 and 5, do not overlap: they are two drives.\<close>

lemma parts_ok_drives: "parts_ok {0x300, 0x305} s"
  by (auto simp: parts_ok_def dev_drive_def MINOR_def)

lemma init_cache:
  assumes "end_addr + 64 + 2048 \<le> unat BUFFER_END" "nr_buffers s = 0" "buffer_wait s = 0"
    and "this_request s = 0" "do_hd s = No_handler" "\<not> sorting s" "wait_for_request s = 0"
    and rest: "\<And>x. x \<notin> heads (buffer_init end_addr s) \<Longrightarrow> b_lock (bufs s x) = 0 \<and> b_wait (bufs s x) = 0"
  shows "calm {0x300, 0x305} (hd_init (buffer_init end_addr s))"
proof -
  let ?b = "buffer_init end_addr s"
  have n: "2 \<le> nr_buffers ?b" and q: "queues ?b [1..<nr_buffers ?b + 1] (\<lambda>_. [])"
    and h: "\<And>x. x \<in> heads ?b \<Longrightarrow> b_dev (bufs ?b x) = 0 \<and> b_count (bufs ?b x) = 0 \<and> b_lock (bufs ?b x) = 0 \<and> b_dirt (bufs ?b x) = 0 \<and>
      b_wait (bufs ?b x) = 0"
    and o: "\<And>x. x \<notin> heads ?b \<Longrightarrow> bufs ?b x = bufs s x"
    using buffer_init_queues [OF assms(1,2)] by blast+
  have "b_lock (bufs ?b x) = 0 \<and> b_wait (bufs ?b x) = 0" for x using h o rest by (cases "x \<in> heads ?b") auto
  moreover have "hd_idle (hd_init ?b)" using assms(4-7) by (simp add: hd_idle_def free_request_init NR_REQUEST_def)
  ultimately have "quiet (hd_init ?b)" using assms(3) by (simp add: quiet_def)
  then have "store {0x300, 0x305} (hd_init ?b)" using h by (auto simp: store_def parts_ok_drives buf_ok_def)
  moreover have "set [1..<nr_buffers ?b + 1] = heads ?b" by auto
  ultimately have c: "cache {0x300, 0x305} (hd_init ?b)" using n q unfolding cache_def by auto
  have "1 \<in> heads ?b" using n by simp
  then show ?thesis using c h unfolding calm_def by auto
qed


section \<open>After the start\<close>

text \<open>
  The data of the kernel as it is loaded: the variables without an initial value are 0, task 0 is \<^verbatim>\<open>INIT_TASK\<close>, the console variables have their
  static values and the rest of the table of buffers, past the buffers there is room for, is never used.
\<close>

definition loaded :: "nat \<Rightarrow> 'z procst_scheme \<Rightarrow> bool" where
  "loaded end_addr s \<longleftrightarrow> nr_buffers s = 0 \<and> buffer_wait s = 0 \<and> this_request s = 0 \<and> do_hd s = No_handler \<and> \<not> sorting s \<and>
     wait_for_request s = 0 \<and> (\<exists>M. console s = con_static M) \<and> task s 0 = INIT_TASK_PTR \<and> current s = INIT_TASK_PTR \<and>
     tstruct s INIT_TASK_PTR = INIT_TASK \<and>
     (\<forall>x. x \<notin> heads (buffer_init end_addr s) \<longrightarrow> b_lock (bufs s x) = 0 \<and> b_wait (bufs s x) = 0)"

lemma sched_init_sel [simp]:
  "task (sched_init t l s) i = (if 1 \<le> i \<and> i < 64 then 0 else task s i)" "tstruct (sched_init t l s) = tstruct s"
  "current (sched_init t l s) = current s" "startup_time (sched_init t l s) = startup_time s"
  by (simp_all add: sched_init_def fold_init_slot NR_TASKS_def)

lemma sched_init_gdt: "gdt (sched_init t l s) 4 = set_tss_desc t" "gdt (sched_init t l s) 5 = set_ldt_desc l"
  by (simp_all add: sched_init_def fold_init_slot FIRST_TSS_ENTRY_def FIRST_LDT_ENTRY_def)

lemma sched_init_up [simp]:
  "nr_buffers (sched_init t l s) = nr_buffers s" "buffer_wait (sched_init t l s) = buffer_wait s" "this_request (sched_init t l s) = this_request s"
  "do_hd (sched_init t l s) = do_hd s" "sorting (sched_init t l s) = sorting s" "wait_for_request (sched_init t l s) = wait_for_request s"
  "bufs (sched_init t l s) = bufs s" "console (sched_init t l s) = console s"
  by (simp_all add: sched_init_def fold_init_slot)

lemma tty_init_sel [simp]:
  "nr_buffers (tty_init c r s) = nr_buffers s" "buffer_wait (tty_init c r s) = buffer_wait s" "this_request (tty_init c r s) = this_request s"
  "do_hd (tty_init c r s) = do_hd s" "sorting (tty_init c r s) = sorting s" "wait_for_request (tty_init c r s) = wait_for_request s"
  "bufs (tty_init c r s) = bufs s" "task (tty_init c r s) = task s" "tstruct (tty_init c r s) = tstruct s" "current (tty_init c r s) = current s"
  "startup_time (tty_init c r s) = startup_time s" "console (tty_init c r s) = con_init c r (console s)"
  by (simp_all add: tty_init_def)

lemma buffer_init_nr: "nr_buffers (buffer_init a s) = nr_buffers s + fst (init_buffers (unat BUFFER_END) a 0 (bufs s))"
  by (simp add: buffer_init_def Let_def split: prod.splits)

text \<open>
  C8: if the clock gives a time and the kernel leaves room for two buffers, the initialisation in \<^verbatim>\<open>main\<close> runs to its end and leaves the invariants on which
  the other theorems rest: the scheduler's bounds with task 0 the only task and its descriptors in place, a consistent and quiet buffer cache on both
  drives with every buffer free, a console whose cursor is on the screen, and a descriptor table whose gates are closed to processes but for the four that
  are meant for them.
\<close>

theorem main_init_ready:
  fixes s :: "'z procst_scheme"
  assumes ld: "loaded end_addr s" and room: "end_addr + 64 + 2048 \<le> unat BUFFER_END" and t: "time_init rd = Startup t"
    and scr: "col < 80" "row < 25" and I: "\<forall>n. gate_dpl (I n) = 0"
  shows "\<exists>s' I'. main_init rd col row end_addr at (s, I) = Some (s', I') \<and>
    sched_ok s' \<and> (\<forall>i. 1 \<le> i \<longrightarrow> i < 64 \<longrightarrow> task s' i = 0) \<and> task s' 0 = current s' \<and> cur s' = INIT_TASK \<and>
    get_base (gdt s' 4) = INIT_TASK_PTR + TSS_OFFSET \<and> get_base (gdt s' 5) = INIT_TASK_PTR + LDT_OFFSET \<and>
    calm {0x300, 0x305} s' \<and> con_ok (console s') \<and> startup_time s' = t \<and>
    (\<forall>n. gate_dpl (I' n) = 3 \<longleftrightarrow> n \<in> {3, 4, 5, 0x80})"
proof -
  define s4 where "s4 = sched_init (INIT_TASK_PTR + TSS_OFFSET) (INIT_TASK_PTR + LDT_OFFSET) (tty_init col row (s\<lparr>startup_time := t\<rparr>))"
  let ?s = "hd_init (buffer_init end_addr s4)"
  have run: "main_init rd col row end_addr at (s, I) = Some (?s, main_gates at I)"
    by (simp add: main_init_def t s4_def main_gates_def)
  obtain M where M: "console s = con_static M" using ld by (auto simp: loaded_def)
  have tk: "task ?s i = (if 1 \<le> i \<and> i < 64 then 0 else task s i)" for i by (simp add: s4_def)
  then have "sched_ok ?s" by (auto simp: sched_ok_def slots_inj_def in_slot_def)
  moreover have "cur ?s = INIT_TASK" "task ?s 0 = current ?s" using ld by (simp_all add: s4_def loaded_def)
  moreover have "get_base (gdt ?s 4) = INIT_TASK_PTR + TSS_OFFSET" "get_base (gdt ?s 5) = INIT_TASK_PTR + LDT_OFFSET"
    by (simp_all add: s4_def sched_init_gdt set_tss_desc_def set_ldt_desc_def set_tssldt_base)
  moreover have "calm {0x300, 0x305} ?s"
  proof (rule init_cache [OF room])
    have "nr_buffers (buffer_init end_addr s4) = nr_buffers (buffer_init end_addr s)" by (simp add: buffer_init_nr s4_def)
    then show "b_lock (bufs s4 x) = 0 \<and> b_wait (bufs s4 x) = 0" if "x \<notin> heads (buffer_init end_addr s4)" for x
      using ld that by (simp add: loaded_def s4_def)
  qed (use ld in \<open>simp_all add: loaded_def s4_def\<close>)
  moreover have "con_ok (console ?s)" using con_init_ok [OF scr] by (simp add: s4_def M)
  moreover have "startup_time ?s = t" by (simp add: s4_def)
  moreover have "gate_dpl (main_gates at I n) = 3 \<longleftrightarrow> n \<in> {3, 4, 5, 0x80}" for n by (simp add: main_gates_dpl [OF I])
  ultimately show ?thesis using run tk by (intro exI [of _ ?s] exI [of _ "main_gates at I"]) auto
qed


text \<open>A kernel just loaded, and the clock on 17 September 1991, 12:00:00.\<close>

definition ex_loaded :: procst where
  "ex_loaded = ex_proc\<lparr>nr_buffers := 0, buffer_wait := 0, this_request := 0, do_hd := No_handler, sorting := False, wait_for_request := 0,
     console := con_static (\<lambda>_. 0), task := (\<lambda>_. 0)(0 := INIT_TASK_PTR), current := INIT_TASK_PTR, tstruct := (\<lambda>_. INIT_TASK),
     bufs := (\<lambda>_. ex_buf\<lparr>b_lock := 0, b_wait := 0\<rparr>)\<rparr>"

lemma ex_clock: "time_init (\<lambda>n k. [0, 0, 0x12, 0x17, 9, 0x91, 0] ! k) = Startup 685108800"
  by (simp add: time_init_def cmos_loop.simps bcd_tm_def)
    (simp add: BCD_TO_BIN_def kernel_mktime_def drop_bit_eq_div month_def YEAR_def DAY_def HOUR_def MINUTE_def c_div_def c_mod_def wrap32_def signed_take_bit_eq_take_bit_minus)

theorem main_init_ready_witness:
  "\<exists>s' I'. main_init (\<lambda>n k. [0, 0, 0x12, 0x17, 9, 0x91, 0] ! k) 5 24 0x20000 (\<lambda>_. 0x7000) (ex_loaded, \<lambda>_. set_gate 14 0 0x5428) = Some (s', I') \<and>
     startup_time s' = 685108800 \<and> calm {0x300, 0x305} s' \<and> gate_dpl (I' 0x80) = 3"
proof -
  have "loaded 0x20000 ex_loaded" by (auto simp: loaded_def ex_loaded_def)
  moreover have "0x20000 + 64 + 2048 \<le> unat BUFFER_END" by (simp add: BUFFER_END_def)
  moreover have "(5 :: u8) < 80" "(24 :: u8) < 25" "\<forall>n :: nat. gate_dpl (set_gate 14 0 0x5428) = 0" by simp_all
  ultimately show ?thesis using main_init_ready [OF _ _ ex_clock, of "0x20000" ex_loaded 5 24 "\<lambda>_. set_gate 14 0 0x5428" "\<lambda>_. 0x7000"] by auto
qed

end
