(* ===== verification/Fd_Props.thy ===== *)
theory Fd_Props
  imports Fork_Props
begin

text \<open>
  The reference counts of the file table: \<^verbatim>\<open>f_count\<close> of an open file is the number of descriptors of all processes that refer to it.
\<close>

definition refs :: "(nat \<Rightarrow> nat) \<Rightarrow> nat \<Rightarrow> nat" where
  "refs g f = length (filter (\<lambda>i. g i = f) [0..<NR_OPEN])"

definition slot_refs :: "'z sched_scheme \<Rightarrow> nat \<Rightarrow> nat \<Rightarrow> nat" where
  "slot_refs s f i = (if task s i = 0 then 0 else refs (t_filp (tstruct s (task s i))) f)"

definition fd_refs :: "'z sched_scheme \<Rightarrow> nat \<Rightarrow> nat" where
  "fd_refs s f = (\<Sum>i<NR_TASKS. slot_refs s f i)"

definition counted :: "'z fs_scheme \<Rightarrow> bool" where
  "counted s \<longleftrightarrow> (\<forall>f. f \<noteq> 0 \<longrightarrow> f_count (file_table s f) = of_nat (fd_refs s f))"

text \<open>The current process has slot \<open>m\<close>, no other slot has its task structure, and no task structure lies in a free page.\<close>

definition tasks_ok :: "nat \<Rightarrow> 'z sched_scheme \<Rightarrow> bool" where
  "tasks_ok m s \<longleftrightarrow> m < NR_TASKS \<and> task s m = current s \<and> current s \<noteq> 0 \<and> (\<forall>i<NR_TASKS. task s i = current s \<longrightarrow> i = m) \<and>
     (\<forall>i<NR_TASKS. \<forall>k<PAGING_PAGES. mem_map s k = 0 \<longrightarrow> task s i \<noteq> page_addr k)"

section \<open>Counting\<close>

lemma refs_le: "refs g f \<le> 20"
  using length_filter_le [of "\<lambda>i. g i = f" "[0..<NR_OPEN]"] by (simp add: refs_def NR_OPEN_def)

lemma fd_refs_bound: "fd_refs s f < 65536"
proof -
  have "fd_refs s f \<le> (\<Sum>i<NR_TASKS. 20)" unfolding fd_refs_def by (intro sum_mono) (simp add: slot_refs_def refs_le)
  then show ?thesis by (simp add: NR_TASKS_def)
qed

lemma refs_upd:
  assumes "n < NR_OPEN"
  shows "refs (g(n := f')) f + of_bool (g n = f) = refs g f + of_bool (f' = f)"
proof -
  have split: "[0..<NR_OPEN] = [0..<n] @ n # [Suc n..<NR_OPEN]"
    using assms upt_add_eq_append [of 0 n "NR_OPEN - n"] upt_conv_Cons [OF assms] by simp
  have same: "filter (\<lambda>i. (g(n := f')) i = f) xs = filter (\<lambda>i. g i = f) xs" if "n \<notin> set xs" for xs
    using that by (intro filter_cong) auto
  have "filter (\<lambda>i. (g(n := f')) i = f) [0..<n] = filter (\<lambda>i. g i = f) [0..<n]" by (rule same) simp
  moreover have "filter (\<lambda>i. (g(n := f')) i = f) [Suc n..<NR_OPEN] = filter (\<lambda>i. g i = f) [Suc n..<NR_OPEN]" by (rule same) simp
  ultimately show ?thesis
    unfolding refs_def split filter_append filter.simps length_append by (simp only: fun_upd_same length_Cons split: if_splits) simp
qed

lemma fd_refs_pos:
  assumes "tasks_ok m s" "n < NR_OPEN" "t_filp (cur s) n = f"
  shows "0 < fd_refs s f"
proof -
  have "n \<in> set (filter (\<lambda>i. t_filp (cur s) i = f) [0..<NR_OPEN])" using assms by simp
  then have "0 < refs (t_filp (cur s)) f" unfolding refs_def by (rule length_pos_if_in_set)
  then have "0 < slot_refs s f m" using assms(1) by (simp add: slot_refs_def tasks_ok_def)
  then show ?thesis unfolding fd_refs_def using assms(1) by (intro sum_pos2 [of _ m]) (auto simp: tasks_ok_def)
qed

text \<open>The current process changes one descriptor.\<close>

lemma fd_refs_set:
  assumes "tasks_ok m s" "n < NR_OPEN" and s': "task s' = task s" "tstruct s' = (tstruct s)(current s := t')"
    and t': "t_filp t' = (t_filp (cur s))(n := f')"
  shows "fd_refs s' f + of_bool (t_filp (cur s) n = f) = fd_refs s f + of_bool (f' = f)"
proof -
  have m: "m < NR_TASKS" "task s m = current s" "current s \<noteq> 0" using assms(1) by (simp_all add: tasks_ok_def)
  have "slot_refs s' f i = slot_refs s f i" if "i < NR_TASKS" "i \<noteq> m" for i
    using assms(1) that by (auto simp: slot_refs_def s' tasks_ok_def)
  then have "(\<Sum>i\<in>{..<NR_TASKS} - {m}. slot_refs s' f i) = (\<Sum>i\<in>{..<NR_TASKS} - {m}. slot_refs s f i)" by (intro sum.cong) auto
  moreover have "slot_refs s' f m + of_bool (t_filp (cur s) n = f) = slot_refs s f m + of_bool (f' = f)"
    using m refs_upd [OF assms(2), of "t_filp (cur s)" f' f] by (simp add: slot_refs_def s' t')
  ultimately show ?thesis
    unfolding fd_refs_def using m(1) by (simp add: sum.remove [of "{..<NR_TASKS}" m])
qed


section \<open>The operations\<close>

lemma dupfd_counted:
  assumes "tasks_ok m s" "counted s"
  shows "counted (snd (dupfd fd arg s))"
proof (cases "fd \<ge> of_nat NR_OPEN \<or> cur_filp fd s = 0 \<or> arg \<ge> of_nat NR_OPEN \<or> free_fd (unat arg) s = None")
  case True
  then have "snd (dupfd fd arg s) = s" by (auto simp: dupfd_def)
  then show ?thesis using assms(2) by simp
next
  case False
  then obtain n where n: "free_fd (unat arg) s = Some n" by auto
  then have n': "n < NR_OPEN" "t_filp (cur s) n = 0" by (auto simp: free_fd_def find_Some_iff)
  let ?f = "cur_filp fd s" and ?s = "snd (dupfd fd arg s)"
  have s: "?s = upd_file ?f (\<lambda>x. x\<lparr>f_count := f_count x + 1\<rparr>) (set_filp n ?f (clear_cloexec n s))"
    using False n by (simp add: dupfd_def)
  have "task ?s = task s" unfolding s by (simp add: upd_file_def set_filp_def clear_cloexec_def upd_cur_def upd_task_def)
  moreover have "tstruct ?s = (tstruct s)(current s := (cur s)\<lparr>t_close_on_exec := t_close_on_exec (cur s) AND NOT (push_bit n 1), t_filp := (t_filp (cur s))(n := ?f)\<rparr>)"
    unfolding s by (simp add: upd_file_def set_filp_def clear_cloexec_def upd_cur_def upd_task_def)
  ultimately have r: "fd_refs ?s f + of_bool (0 = f) = fd_refs s f + of_bool (?f = f)" for f
    using fd_refs_set [OF assms(1) n'(1), of ?s _ ?f f] n'(2) by simp
  have c: "f_count (file_table ?s f) = f_count (file_table s f) + of_bool (?f = f)" for f
    unfolding s by (simp add: upd_file_def set_filp_def clear_cloexec_def upd_cur_def upd_task_def)
  show ?thesis
    unfolding counted_def
  proof (intro allI impI)
    fix f :: nat
    assume "f \<noteq> 0"
    then show "f_count (file_table ?s f) = of_nat (fd_refs ?s f)" using assms(2) r [of f] c [of f] by (auto simp: counted_def)
  qed
qed

text \<open>Up to the release of the inode; a descriptor in use never meets the count 0.\<close>

definition closed :: "u32 \<Rightarrow> 'z fs_scheme \<Rightarrow> 'z fs_scheme" where
  "closed fd s = upd_file (cur_filp fd s) (\<lambda>x. x\<lparr>f_count := f_count x - 1\<rparr>) (set_filp (unat fd) 0 (clear_cloexec (unat fd) s))"

lemma sys_close_counted:
  assumes "tasks_ok m s" "counted s" "fd < of_nat NR_OPEN" "cur_filp fd s \<noteq> 0"
  shows "counted (closed fd s)"
    and "sys_close fd s e = (if f_count (file_table s (cur_filp fd s)) = 1 then seqK (iput (f_inode (file_table s (cur_filp fd s)))) (ret 0) (closed fd s) e
      else Ok 0 (closed fd s) e)"
proof -
  let ?f = "cur_filp fd s" and ?s = "closed fd s" and ?n = "unat fd"
  have n: "?n < NR_OPEN" using assms(3) by (simp add: word_less_nat_alt NR_OPEN_def)
  have pos: "0 < fd_refs s ?f" using fd_refs_pos [OF assms(1) n] by (simp add: cur_filp_def)
  have "task ?s = task s" by (simp add: closed_def upd_file_def set_filp_def clear_cloexec_def upd_cur_def upd_task_def)
  moreover have "tstruct ?s = (tstruct s)(current s := (cur s)\<lparr>t_close_on_exec := t_close_on_exec (cur s) AND NOT (push_bit ?n 1), t_filp := (t_filp (cur s))(?n := 0)\<rparr>)"
    by (simp add: closed_def upd_file_def set_filp_def clear_cloexec_def upd_cur_def upd_task_def)
  ultimately have r: "fd_refs ?s f + of_bool (?f = f) = fd_refs s f + of_bool (0 = f)" for f
    using fd_refs_set [OF assms(1) n, of ?s _ 0 f] by (simp add: cur_filp_def)
  have c: "f_count (file_table ?s f) = f_count (file_table s f) - of_bool (?f = f)" for f
    by (simp add: closed_def upd_file_def set_filp_def clear_cloexec_def upd_cur_def upd_task_def)
  have "f_count (file_table ?s f) = of_nat (fd_refs ?s f)" if "f \<noteq> 0" for f
  proof (cases "f = ?f")
    case True
    then have "fd_refs s f = fd_refs ?s f + 1" using r [of f] that by simp
    then show ?thesis using assms(2) that c [of f] True by (simp add: counted_def)
  next
    case False
    then show ?thesis using assms(2) that c [of f] r [of f] by (simp add: counted_def)
  qed
  then show "counted ?s" by (simp add: counted_def)
  have "f_count (file_table s ?f) = of_nat (fd_refs s ?f)" using assms(2,4) by (simp add: counted_def)
  then have "unat (f_count (file_table s ?f)) = fd_refs s ?f" using fd_refs_bound [of s ?f] by (simp add: unsigned_of_nat take_bit_nat_eq_self)
  then have "f_count (file_table s ?f) \<noteq> 0" using pos by auto
  moreover have "\<not> of_nat NR_OPEN \<le> fd" using assms(3) by simp
  ultimately show "sys_close fd s e = (if f_count (file_table s ?f) = 1 then seqK (iput (f_inode (file_table s ?f))) (ret 0) ?s e else Ok 0 ?s e)"
    using assms(4) unfolding closed_def
    by (simp add: sys_close_def seqK_def bnd_run gets_def modify_def ret_def cur_filp_def clear_cloexec_def set_filp_def upd_cur_def upd_task_def upd_file_def)
qed


lemma forked_counted:
  assumes ok: "tasks_ok m s" "counted s" and f: "forked ext k nr rg p s s'" and nr: "nr < NR_TASKS" "task s nr = 0"
  shows "counted s'"
proof -
  let ?p = "page_addr p"
  have p: "p < PAGING_PAGES" "mem_map s p = 0" and tk: "task s' = (task s)(nr := ?p)" and ch: "t_filp (tstruct s' ?p) = t_filp (cur s)"
    and ts: "\<And>q. q \<noteq> ?p \<Longrightarrow> tstruct s' q = tstruct s q"
    and fc: "\<And>f. f \<noteq> 0 \<Longrightarrow> f_count (file_table s' f) = f_count (file_table s f) + of_nat (refs (t_filp (cur s)) f)"
    using f by (auto simp: forked_def child_of_def refs_def)
  have old: "slot_refs s' f i = slot_refs s f i" if "i < NR_TASKS" "i \<noteq> nr" for f i
  proof -
    have "task s i \<noteq> ?p" using ok(1) p that(1) by (auto simp: tasks_ok_def)
    then show ?thesis using that by (simp add: slot_refs_def tk ts)
  qed
  have "slot_refs s' f nr = refs (t_filp (cur s)) f" for f using p(1) by (simp add: slot_refs_def tk ch)
  moreover have "slot_refs s f nr = 0" for f using nr by (simp add: slot_refs_def)
  moreover have "(\<Sum>i\<in>{..<NR_TASKS} - {nr}. slot_refs s' f i) = (\<Sum>i\<in>{..<NR_TASKS} - {nr}. slot_refs s f i)" for f
    using old by (intro sum.cong) auto
  ultimately have "fd_refs s' f = fd_refs s f + refs (t_filp (cur s)) f" for f
    unfolding fd_refs_def using nr(1) by (simp add: sum.remove [of "{..<NR_TASKS}" nr])
  then show ?thesis using fc ok(2) by (simp add: counted_def)
qed

lemma fork_undone_counted:
  assumes ok: "tasks_ok m s" "counted s" and f: "fork_undone ext k nr s s'"
  shows "counted s'"
proof -
  have tk: "task s' = task s" "file_table s' = file_table s"
    and ts: "\<And>q. (\<forall>k<PAGING_PAGES. mem_map s k = 0 \<longrightarrow> q \<noteq> page_addr k) \<Longrightarrow> tstruct s' q = tstruct s q"
    using f by (simp_all add: fork_undone_def)
  have "slot_refs s' f i = slot_refs s f i" if "i < NR_TASKS" for f i
    using ok(1) that ts [of "task s i"] by (simp add: slot_refs_def tk tasks_ok_def)
  then have "fd_refs s' f = fd_refs s f" for f unfolding fd_refs_def by (intro sum.cong) auto
  then show ?thesis using ok(2) by (simp add: counted_def tk)
qed

text \<open>
  C9: the count of every open file is the number of descriptors, in all processes, that refer to it, and stays so: when a process duplicates a descriptor, when it closes
  one (which never meets a count of 0, and releases the inode exactly with the last reference), and when it forks, whether the fork succeeds or not.
\<close>

theorem file_counts_exact:
  fixes s :: "'z procst_scheme"
  assumes "tasks_ok m s" "counted s" "fork_ready ext k nr s" "task s nr = 0"
  shows "counted (snd (dupfd fd arg s)) \<and>
    (fd < of_nat NR_OPEN \<longrightarrow> cur_filp fd s \<noteq> 0 \<longrightarrow> counted (closed fd s) \<and>
       sys_close fd s e = (if f_count (file_table s (cur_filp fd s)) = 1 then seqK (iput (f_inode (file_table s (cur_filp fd s)))) (ret 0) (closed fd s) e
         else Ok 0 (closed fd s) e)) \<and>
    (\<exists>r s'. copy_process nr rg s e = Ok r s' e \<and> counted s')"
proof -
  have "page_addr k \<noteq> current s" if "k < PAGING_PAGES" "mem_map s k = 0" for k
    using assms(1) that unfolding tasks_ok_def by metis
  moreover have "nr < NR_TASKS" using assms(3) by (simp add: fork_ready_def NR_TASKS_def)
  ultimately have "\<exists>r s'. copy_process nr rg s e = Ok r s' e \<and> counted s'"
    using copy_process_run [OF assms(3), of rg e] forked_counted [OF assms(1,2) _ _ assms(4)] fork_undone_counted [OF assms(1,2)]
    by (simp split: if_splits) blast+
  then show ?thesis using dupfd_counted [OF assms(1,2)] sys_close_counted [OF assms(1,2)] by blast
qed


text \<open>The process of the fork example; its descriptors 0 and 1 refer to file 1.\<close>

definition ex_counted :: procst where
  "ex_counted = ex_proc\<lparr>file_table := (\<lambda>f. (file_table ex_proc f)\<lparr>f_count := (if f = 1 then 2 else 0)\<rparr>)\<rparr>"

lemma ex_counted_sel:
  "task ex_counted = (\<lambda>_. 0)(1 := page_addr 5)" "current ex_counted = page_addr 5" "tstruct ex_counted = (\<lambda>_. ex_parent)"
  "mem_map ex_counted = (\<lambda>i. of_nat (ex_frames i))" "f_count (file_table ex_counted f) = (if f = 1 then 2 else 0)"
  by (simp_all add: ex_counted_def ex_proc_sel)

lemma ex_refs: "f \<noteq> 0 \<Longrightarrow> refs (t_filp ex_parent) f = (if f = 1 then 2 else 0)"
  by (simp add: refs_def ex_parent_def NR_OPEN_def upt_conv_Cons)

lemma ex_counted_ok: "counted ex_counted" "tasks_ok 1 ex_counted" "fork_ready ex_frames 1 2 ex_counted"
proof -
  have "slot_refs ex_counted f i = (if i = 1 then refs (t_filp ex_parent) f else 0)" for f i
    by (simp add: slot_refs_def ex_counted_sel)
  then have "fd_refs ex_counted f = refs (t_filp ex_parent) f" for f by (simp add: fd_refs_def NR_TASKS_def)
  then show "counted ex_counted" by (simp add: counted_def ex_refs ex_counted_sel)
  have "page_addr 5 \<noteq> page_addr k \<and> 0 \<noteq> page_addr k" if "k < PAGING_PAGES" "mem_map ex_counted k = 0" for k
    using that page_addr_inj [of k 5] by (auto simp: ex_counted_sel ex_frames_def)
  then show "tasks_ok 1 ex_counted" by (auto simp: tasks_ok_def ex_counted_sel NR_TASKS_def)
  show "fork_ready ex_frames 1 2 ex_counted" using ex_fork_ready by (simp add: fork_ready_def ex_counted_def)
qed

theorem file_counts_exact_witness:
  "counted (snd (dupfd 0 0 ex_counted)) \<and> sys_close 1 ex_counted [] = Ok 0 (closed 1 ex_counted) [] \<and>
   (\<exists>r s'. copy_process 2 ex_regs ex_counted [] = Ok r s' [] \<and> counted s')"
proof -
  have "task ex_counted 2 = 0" "cur_filp 1 ex_counted = 1" "(1 :: u32) < of_nat NR_OPEN"
    by (simp_all add: ex_counted_sel cur_filp_def ex_parent_def NR_OPEN_def)
  then show ?thesis
    using file_counts_exact [OF ex_counted_ok(2,1,3), of 0 0 "[]" ex_regs] file_counts_exact [OF ex_counted_ok(2,1,3), of 1 0 "[]" ex_regs]
    by (simp add: ex_counted_sel)
qed

end
