(* ===== verification/Init.thy ===== *)
theory Init
  imports Syscall Vsprintf
begin

text \<open>
  The first user process: \<^verbatim>\<open>printf\<close> and \<^verbatim>\<open>init\<close> of \<^verbatim>\<open>src/init/main.c\<close> as a program over the system calls. A computation carries \<^verbatim>\<open>errno\<close> and the
  registers from call to call. \<^verbatim>\<open>fork\<close> returns in the child as well, with the result 0; the branches for both results are part of the program. A successful
  \<^verbatim>\<open>execve\<close> replaces it, so that the program ends there.
\<close>

text \<open>The addresses the linker gives to the strings and variables of the file, and that of the local variable \<^verbatim>\<open>i\<close>.\<close>

record init_addr =
  at_update :: int
  at_tty0 :: int
  at_sh :: int
  at_argv :: int
  at_envp :: int
  at_printbuf :: u32
  at_i :: u32

type_synonym user = "int \<times> int \<times> frame"

definition printf :: "init_addr \<Rightarrow> string \<Rightarrow> u32 list \<Rightarrow> int \<Rightarrow> frame \<Rightarrow> ('z procst_scheme, user) km" where
  "printf A fmt as errno f = (case vsprintf (\<lambda>_. []) fmt as of
     None \<Rightarrow> fault ''printf arguments''
   | Some (i, cs, st) \<Rightarrow>
       if i \<ge> 1024 \<or> st \<noteq> [] then fault ''printf buffer''
       else seqK (modify (put_fs_bytes (map of_char cs @ [0]) (at_printbuf A)))
         (bnd (lib_write 1 (sint (at_printbuf A)) i errno f) (\<lambda>(_, errno, f). ret (i, errno, f))))"

text \<open>\<^verbatim>\<open>_exit(execve(...))\<close>: on success the new program runs, otherwise the process exits.\<close>

definition exec_or_exit :: "int \<Rightarrow> int \<Rightarrow> int \<Rightarrow> int \<Rightarrow> frame \<Rightarrow> ('z procst_scheme, frame) km" where
  "exec_or_exit name argv envp errno f =
     bnd (lib_execve name argv envp errno f) (\<lambda>(r, errno, f). if r \<ge> 0 then ret f else lib_exit r f)"

definition O_RDWR :: int where "O_RDWR = 2"

text \<open>The child that becomes the shell.\<close>

definition init_shell :: "init_addr \<Rightarrow> int \<Rightarrow> frame \<Rightarrow> ('z procst_scheme, frame) km" where
  "init_shell A errno f =
     bnd (lib_close 0 errno f) (\<lambda>(_, errno, f). bnd (lib_close 1 errno f) (\<lambda>(_, errno, f). bnd (lib_close 2 errno f) (\<lambda>(_, errno, f).
     bnd (lib_setsid errno f) (\<lambda>(_, errno, f).
     bnd (lib_open (at_tty0 A) O_RDWR 0 errno f) (\<lambda>(_, errno, f).
     bnd (lib_dup 0 errno f) (\<lambda>(_, errno, f). bnd (lib_dup 0 errno f) (\<lambda>(_, errno, f).
     exec_or_exit (at_sh A) (at_argv A) (at_envp A) errno f)))))))"

definition init :: "init_addr \<Rightarrow> int \<Rightarrow> frame \<Rightarrow> ('z procst_scheme, frame) km" where
  "init A errno f =
     bnd (syscall0 S_setup errno f) (\<lambda>(_, errno, f).
     bnd (syscall0 S_fork errno f) (\<lambda>(r, errno, f).
     if r = 0 then exec_or_exit (at_update A) 0 0 errno f
     else
     bnd (lib_open (at_tty0 A) O_RDWR 0 errno f) (\<lambda>(_, errno, f).
     bnd (lib_dup 0 errno f) (\<lambda>(_, errno, f). bnd (lib_dup 0 errno f) (\<lambda>(_, errno, f).
     bnd (gets nr_buffers) (\<lambda>n.
     bnd (printf A (''%d buffers = %d bytes buffer space'' @ [CHR 0x0A, CHR 0x0D]) [of_nat n, of_nat n * of_nat BLOCK_SIZE] errno f) (\<lambda>(_, errno, f).
     bnd (printf A ('' Ok.'' @ [CHR 0x0A, CHR 0x0D]) [] errno f) (\<lambda>(_, errno, f).
     bnd (syscall0 S_fork errno f) (\<lambda>(i, errno, f).
     seqK (modify (put_fs_long (word_of_int i) (at_i A)))
     (bnd (if i < 0 then bnd (printf A (''Fork failed in init'' @ [CHR 0x0D, CHR 0x0A]) [] errno f) (\<lambda>(_, errno, f). ret (Inr (errno, f)))
          else if i = 0 then bnd (init_shell A errno f) (\<lambda>f. ret (Inl f))
          else ret (Inr (errno, f))) (\<lambda>x. case x of
       Inl f \<Rightarrow> ret f
     | Inr (errno, f) \<Rightarrow>
       bnd (lib_wait (sint (at_i A)) errno f) (\<lambda>(j, errno, f).
       bnd (gets (get_fs_long (at_i A))) (\<lambda>i.
       bnd (printf A (''child %d died with code %04x'' @ [CHR 0x0A]) [word_of_int j, i] errno f) (\<lambda>(_, errno, f).
       bnd (syscall0 S_sync errno f) (\<lambda>(_, errno, f). lib_exit 0 f)))))))))))))))"

end
