(* ===== verification/Serial_Int.thy ===== *)
theory Serial_Int
  imports Ports
begin

text \<open>
  The interrupt routines of the serial lines, \<^verbatim>\<open>src/kernel/rs_io.s\<close>.

  \<open>d port n\<close> is what the devices answer when \<open>port\<close> is read, \<open>n\<close> counting the reads of the interrupt routines; the writes are logged. \<^verbatim>\<open>_table_list\<close> holds the
  read and the write queue of terminal \<open>t\<close> at entries \<open>2t\<close> and \<open>2t + 1\<close>, so a routine is given the number of its terminal. The accesses to the
  interrupt enable register that \<^verbatim>\<open>rs_write\<close> makes when a character is echoed are \<open>rs_write_io\<close> and are not in the log.
\<close>

section \<open>Port accesses\<close>

record iost = ttyst +
  io_reads :: nat
  io_writes :: "(u16 \<times> u8) list"

definition port_in :: "(u16 \<Rightarrow> nat \<Rightarrow> u8) \<Rightarrow> u16 \<Rightarrow> 'z iost_scheme \<Rightarrow> u8 \<times> 'z iost_scheme" where
  "port_in d port s = (d port (io_reads s), s\<lparr>io_reads := io_reads s + 1\<rparr>)"

definition port_out :: "u8 \<Rightarrow> u16 \<Rightarrow> 'z iost_scheme \<Rightarrow> 'z iost_scheme" where
  "port_out v port s = s\<lparr>io_writes := io_writes s @ [(port, v)]\<rparr>"

text \<open>The process in \<^verbatim>\<open>proc_list\<close>, if there is one, is made ready; unlike \<^verbatim>\<open>wake_up\<close> this leaves \<^verbatim>\<open>proc_list\<close> as it is.\<close>

definition wake_sleeper :: "u32 \<Rightarrow> 'z sched_scheme \<Rightarrow> 'z sched_scheme" where
  "wake_sleeper p s = (if p \<noteq> 0 then wake_task p s else s)"

section \<open>The interrupt sources\<close>

abbreviation rs_addr :: "nat \<Rightarrow> 'z ttyst_scheme \<Rightarrow> u16" where
  "rs_addr t s \<equiv> ucast (q_data (read_q (tty_table s t)))"

definition modem_status :: "(u16 \<Rightarrow> nat \<Rightarrow> u8) \<Rightarrow> nat \<Rightarrow> 'z iost_scheme \<Rightarrow> 'z iost_scheme" where
  "modem_status d t s = snd (port_in d (rs_addr t s + 6) s)"

definition line_status :: "(u16 \<Rightarrow> nat \<Rightarrow> u8) \<Rightarrow> nat \<Rightarrow> 'z iost_scheme \<Rightarrow> 'z iost_scheme" where
  "line_status d t s = snd (port_in d (rs_addr t s + 5) s)"

definition read_char :: "(u16 \<Rightarrow> nat \<Rightarrow> u8) \<Rightarrow> nat \<Rightarrow> 'z iost_scheme \<Rightarrow> 'z iost_scheme option" where
  "read_char d t s =
     (let (al, s1) = port_in d (rs_addr t s) s; q = read_q (tty_table s t);
          q1 = q\<lparr>q_buf := (q_buf q)(unat (q_head q) := al)\<rparr>; ebx = (q_head q + 1) AND (TTY_BUF_SIZE - 1) in
      if ebx = q_tail q then Some (upd_tty t (\<lambda>y. y\<lparr>read_q := q1\<rparr>) s1)
      else do_tty_interrupt t (upd_tty t (\<lambda>y. y\<lparr>read_q := q1\<lparr>q_head := ebx\<rparr>\<rparr>) s1))"

definition write_buffer_empty :: "(u16 \<Rightarrow> nat \<Rightarrow> u8) \<Rightarrow> nat \<Rightarrow> 'z iost_scheme \<Rightarrow> 'z iost_scheme" where
  "write_buffer_empty d t s =
     (let (al, s1) = port_in d (rs_addr t s + 1) (wake_sleeper (q_proc_list (write_q (tty_table s t))) s)
      in port_out (al AND 0xd) (rs_addr t s + 1) s1)"

definition write_char :: "(u16 \<Rightarrow> nat \<Rightarrow> u8) \<Rightarrow> nat \<Rightarrow> 'z iost_scheme \<Rightarrow> 'z iost_scheme" where
  "write_char d t s =
     (let q = write_q (tty_table s t); n = (q_head q - q_tail q) AND (TTY_BUF_SIZE - 1) in
      if n = 0 then write_buffer_empty d t s
      else let s1 = (if n \<le> 256 then wake_sleeper (q_proc_list q) s else s);
               s2 = port_out (q_buf q (unat (q_tail q))) (rs_addr t s) s1;
               ebx = (q_tail q + 1) AND (TTY_BUF_SIZE - 1);
               s3 = upd_tty t (\<lambda>y. y\<lparr>write_q := q\<lparr>q_tail := ebx\<rparr>\<rparr>) s2
           in if ebx = q_head q then write_buffer_empty d t s3 else s3)"

text \<open>\<^verbatim>\<open>jmp_table\<close>, indexed by the interrupt identification.\<close>

definition rs_source :: "(u16 \<Rightarrow> nat \<Rightarrow> u8) \<Rightarrow> nat \<Rightarrow> u8 \<Rightarrow> 'z iost_scheme \<Rightarrow> 'z iost_scheme option" where
  "rs_source d t al s =
     (if al = 0 then Some (modem_status d t s) else if al = 2 then Some (write_char d t s)
      else if al = 4 then read_char d t s else Some (line_status d t s))"

text \<open>The loop over the pending sources. \<open>None\<close>: the device never stops asking, or the processing of a received character does not return.\<close>

partial_function (option) rs_int :: "(u16 \<Rightarrow> nat \<Rightarrow> u8) \<Rightarrow> nat \<Rightarrow> 'z iost_scheme \<Rightarrow> 'z iost_scheme option" where
  "rs_int d t s =
     (let (al, s1) = port_in d (rs_addr t s + 2) s in
      if al AND 1 \<noteq> 0 \<or> al > 6 then Some (port_out 0x20 0x20 s1)
      else Option.bind (rs_source d t al s1) (rs_int d t))"

definition rs1_interrupt :: "(u16 \<Rightarrow> nat \<Rightarrow> u8) \<Rightarrow> 'z iost_scheme \<Rightarrow> 'z iost_scheme option" where
  "rs1_interrupt d = rs_int d 1"

definition rs2_interrupt :: "(u16 \<Rightarrow> nat \<Rightarrow> u8) \<Rightarrow> 'z iost_scheme \<Rightarrow> 'z iost_scheme option" where
  "rs2_interrupt d = rs_int d 2"

section \<open>Sending\<close>

abbreviation to_send :: "nat \<Rightarrow> 'z ttyst_scheme \<Rightarrow> u8 list" where
  "to_send t s \<equiv> tty_ring.ring_list (write_q (tty_table s t))"

lemma wake_sleeper_tty [simp]: "tty_table (wake_sleeper p s) = tty_table s"
  by (simp add: wake_sleeper_def wake_task_def upd_task_def)

lemma wake_sleeper_io [simp]:
  "io_reads (wake_sleeper p s) = io_reads s" "io_writes (wake_sleeper p s) = io_writes s"
  by (simp_all add: wake_sleeper_def wake_task_def upd_task_def)

lemma wake_sleeper_wakes: "p \<noteq> 0 \<Longrightarrow> t_state (tstruct (wake_sleeper p s) p) = TASK_RUNNING"
  by (simp add: wake_sleeper_def wake_task_def upd_task_def)

lemma write_buffer_empty_effect [simp]:
  "tty_table (write_buffer_empty d t s) = tty_table s" "io_reads (write_buffer_empty d t s) = io_reads s + 1"
  "io_writes (write_buffer_empty d t s) = io_writes s @ [(rs_addr t s + 1, d (rs_addr t s + 1) (io_reads s) AND 0xd)]"
  "p = q_proc_list (write_q (tty_table s t)) \<Longrightarrow> p \<noteq> 0 \<Longrightarrow> t_state (tstruct (write_buffer_empty d t s) p) = TASK_RUNNING"
  using wake_sleeper_wakes [of p s] by (simp_all add: write_buffer_empty_def port_in_def port_out_def)

text \<open>One transmitter interrupt with characters to send.\<close>

lemma write_char_sends:
  assumes w: "tty_ring.ring_wf (write_q (tty_table s t))" and xs: "to_send t s = x # xs"
  shows "to_send t (write_char d t s) = xs"
    and "tty_ring.ring_wf (write_q (tty_table (write_char d t s) t))"
    and "read_q (tty_table (write_char d t s) t) = read_q (tty_table s t)"
    and "q_proc_list (write_q (tty_table (write_char d t s) t)) = q_proc_list (write_q (tty_table s t))"
    and "u \<noteq> t \<Longrightarrow> tty_table (write_char d t s) u = tty_table s u"
    and "xs \<noteq> [] \<Longrightarrow> io_reads (write_char d t s) = io_reads s \<and> io_writes (write_char d t s) = io_writes s @ [(rs_addr t s, x)]"
    and "xs = [] \<Longrightarrow> io_reads (write_char d t s) = io_reads s + 1 \<and> io_writes (write_char d t s) =
           io_writes s @ [(rs_addr t s, x), (rs_addr t s + 1, d (rs_addr t s + 1) (io_reads s) AND 0xd)] \<and>
           (\<forall>p. p = q_proc_list (write_q (tty_table s t)) \<longrightarrow> p \<noteq> 0 \<longrightarrow> t_state (tstruct (write_char d t s) p) = TASK_RUNNING)"
proof -
  let ?q = "write_q (tty_table s t)"
  let ?s1 = "if (q_head ?q - q_tail ?q) AND (TTY_BUF_SIZE - 1) \<le> 256 then wake_sleeper (q_proc_list ?q) s else s"
  define s3 where "s3 = upd_tty t (\<lambda>y. y\<lparr>write_q := snd (GETCH ?q)\<rparr>) (port_out (q_buf ?q (unat (q_tail ?q))) (rs_addr t s) ?s1)"
  have ne: "tty_ring.ring_list ?q \<noteq> []" using xs by simp
  have "unat ((q_head ?q - q_tail ?q) AND mask 10) = Suc (length xs)"
    using tty_ring.ring_chars [OF w] tty_ring.length_ring [of ?q] xs by simp
  then have n: "(q_head ?q - q_tail ?q) AND (TTY_BUF_SIZE - 1) \<noteq> 0" by (auto simp: tty_mask)
  have l: "q_buf ?q (unat (q_tail ?q)) = x" "tty_ring.ring_list (snd (GETCH ?q)) = xs"
    using tty_ring.get_list [OF w ne] xs by (simp_all add: GETCH_def)
  have w': "tty_ring.ring_wf (snd (GETCH ?q))" by (rule tty_ring.get_wf [OF w])
  have e: "xs = [] \<longleftrightarrow> (q_tail ?q + 1) AND (TTY_BUF_SIZE - 1) = q_head ?q"
    using tty_ring.ring_empty [OF w'] l by (auto simp: GETCH_def INC_def)
  have g: "snd (GETCH ?q) = ?q\<lparr>q_tail := (q_tail ?q + 1) AND (TTY_BUF_SIZE - 1)\<rparr>" by (simp add: GETCH_def INC_def)
  have s: "write_char d t s = (if xs = [] then write_buffer_empty d t s3 else s3)"
    unfolding s3_def write_char_def Let_def g e using n by (simp only: if_False)
  have t3: "tty_table s3 = (tty_table s)(t := (tty_table s t)\<lparr>write_q := snd (GETCH ?q)\<rparr>)"
    by (simp add: s3_def upd_tty_def port_out_def)
  have i3: "io_reads s3 = io_reads s" "io_writes s3 = io_writes s @ [(rs_addr t s, x)]"
    by (simp_all add: s3_def upd_tty_def port_out_def l)
  show "to_send t (write_char d t s) = xs" "tty_ring.ring_wf (write_q (tty_table (write_char d t s) t))"
    "read_q (tty_table (write_char d t s) t) = read_q (tty_table s t)"
    "q_proc_list (write_q (tty_table (write_char d t s) t)) = q_proc_list (write_q (tty_table s t))"
    "u \<noteq> t \<Longrightarrow> tty_table (write_char d t s) u = tty_table s u"
    by (simp_all add: s t3 l w') (simp add: g)
  show "xs \<noteq> [] \<Longrightarrow> io_reads (write_char d t s) = io_reads s \<and> io_writes (write_char d t s) = io_writes s @ [(rs_addr t s, x)]"
    by (simp add: s i3)
  show "xs = [] \<Longrightarrow> io_reads (write_char d t s) = io_reads s + 1 \<and> io_writes (write_char d t s) =
           io_writes s @ [(rs_addr t s, x), (rs_addr t s + 1, d (rs_addr t s + 1) (io_reads s) AND 0xd)] \<and>
           (\<forall>p. p = q_proc_list (write_q (tty_table s t)) \<longrightarrow> p \<noteq> 0 \<longrightarrow> t_state (tstruct (write_char d t s) p) = TASK_RUNNING)"
    by (simp add: s i3 t3 g)
qed

end
