(* ===== verification/Keyboard.thy ===== *)
theory Keyboard
  imports Serial_Int
begin

text \<open>
  The keyboard interrupt, \<^verbatim>\<open>src/kernel/keyboard.s\<close>. The three bytes \<^verbatim>\<open>mode\<close>, \<^verbatim>\<open>leds\<close> and \<^verbatim>\<open>e0\<close> extend the state; a routine of \<^verbatim>\<open>key_table\<close> is a value of
  \<open>kb_key\<close> and \<open>key_call\<close> runs it. The value of \<^verbatim>\<open>%ebx:%eax\<close> that \<^verbatim>\<open>put_queue\<close> takes is one 64-bit word. \<^verbatim>\<open>%ecx\<close> is a parameter: the routines never set it, so
  it is that of the interrupted program.
\<close>

section \<open>State and outcome\<close>

record kbst = iost +
  kb_mode :: u8
  kb_leds :: u8
  kb_e0 :: u8

text \<open>A routine returns, or the machine is reset; a wait for the controller that never ends is \<open>None\<close>.\<close>

datatype 's kb_end = Back 's | Rebooted 's

section \<open>The read queue of the console\<close>

lemma drop_byte_less: "(ucast (drop_bit 8 v) :: u32) \<noteq> 0 \<Longrightarrow> unat (drop_bit 8 (v :: 64 word)) < unat v"
proof -
  assume a: "(ucast (drop_bit 8 v) :: u32) \<noteq> 0"
  then have "drop_bit 8 v \<noteq> 0" by auto
  then have "v \<noteq> 0" by auto
  then have "unat v div 2 ^ 8 < unat v" by (intro div_less_dividend) (simp_all add: unat_gt_0)
  then show ?thesis by (simp add: drop_bit_eq_div unat_div)
qed

text \<open>The loop of \<^verbatim>\<open>put_queue\<close>: the new head, or \<open>None\<close> when the buffer is full; the characters are stored in either case.\<close>

function put_loop :: "64 word \<Rightarrow> u32 \<Rightarrow> tty_queue \<Rightarrow> u32 option \<times> tty_queue" where
  "put_loop v ecx q =
     (let q1 = q\<lparr>q_buf := (q_buf q)(unat ecx := ucast v)\<rparr>; h = (ecx + 1) AND (TTY_BUF_SIZE - 1); v1 = drop_bit 8 v in
      if h = q_tail q then (None, q1)
      else if (ucast v1 :: u32) = 0 then (Some h, q1)
      else put_loop v1 h q1)"
  by pat_completeness auto

termination
  by (relation "measure (\<lambda>(v, ecx, q). unat v)") (auto simp: drop_byte_less)

declare put_loop.simps [simp del]

definition put_queue :: "64 word \<Rightarrow> 'z ttyst_scheme \<Rightarrow> 'z ttyst_scheme" where
  "put_queue v s =
     (let q = read_q (tty_table s 0) in
      case put_loop v (q_head q) q of
        (None, q1) \<Rightarrow> upd_tty 0 (\<lambda>y. y\<lparr>read_q := q1\<rparr>) s
      | (Some h, q1) \<Rightarrow> wake_sleeper (q_proc_list q) (upd_tty 0 (\<lambda>y. y\<lparr>read_q := q1\<lparr>q_head := h\<rparr>\<rparr>) s))"

section \<open>The keyboard controller\<close>

partial_function (option) kb_wait :: "(u16 \<Rightarrow> nat \<Rightarrow> u8) \<Rightarrow> 'z iost_scheme \<Rightarrow> 'z iost_scheme option" where
  "kb_wait d s = (let (al, s1) = port_in d 0x64 s in if al AND 2 \<noteq> 0 then kb_wait d s1 else Some s1)"

definition set_leds :: "(u16 \<Rightarrow> nat \<Rightarrow> u8) \<Rightarrow> 'z kbst_scheme \<Rightarrow> 'z kbst_scheme kb_end option" where
  "set_leds d s = Option.bind (kb_wait d s) (\<lambda>s1. Option.bind (kb_wait d (port_out 0xed 0x60 s1)) (\<lambda>s2.
     Some (Back (port_out (kb_leds s2) 0x60 s2))))"

text \<open>The word at the address 0x472 is the upper half of entry 284 of page 0.\<close>

definition reboot :: "(u16 \<Rightarrow> nat \<Rightarrow> u8) \<Rightarrow> 'z kbst_scheme \<Rightarrow> 'z kbst_scheme kb_end option" where
  "reboot d s = Option.bind (kb_wait d s) (\<lambda>s1.
     Some (Rebooted (port_out 0xfc 0x64 (set_phys 0 284 ((phys s1 0 284 AND 0xffff) OR push_bit 16 0x1234) s1))))"

section \<open>Shift keys and lamps\<close>

definition side :: "u8 \<Rightarrow> 'z kbst_scheme \<Rightarrow> u8" where
  "side al s = (if kb_e0 s = 0 then al else al + al)"

definition key_press :: "u8 \<Rightarrow> 'z kbst_scheme \<Rightarrow> 'z kbst_scheme" where
  "key_press al s = s\<lparr>kb_mode := kb_mode s OR side al s\<rparr>"

definition key_release :: "u8 \<Rightarrow> 'z kbst_scheme \<Rightarrow> 'z kbst_scheme" where
  "key_release al s = s\<lparr>kb_mode := kb_mode s AND NOT (side al s)\<rparr>"

definition caps :: "(u16 \<Rightarrow> nat \<Rightarrow> u8) \<Rightarrow> 'z kbst_scheme \<Rightarrow> 'z kbst_scheme kb_end option" where
  "caps d s =
     (if kb_mode s AND 0x80 \<noteq> 0 then Some (Back s)
      else set_leds d (s\<lparr>kb_leds := kb_leds s XOR 4, kb_mode := (kb_mode s XOR 0x40) OR 0x80\<rparr>))"

section \<open>Keys that give characters\<close>

definition ascii :: "string \<Rightarrow> u8 list" where
  "ascii = map of_char"

definition num_table :: "u8 list" where "num_table = ascii ''789 456 1230,''"
definition cur_table :: "u8 list" where "cur_table = ascii ''HA5 DGC YB623''"

definition func_table :: "u32 list" where
  "func_table = [0x415b5b1b, 0x425b5b1b, 0x435b5b1b, 0x445b5b1b, 0x455b5b1b, 0x465b5b1b, 0x475b5b1b, 0x485b5b1b,
     0x495b5b1b, 0x4a5b5b1b, 0x4b5b5b1b, 0x4c5b5b1b]"

definition key_map :: "u8 list" where
  "key_map = [0, 27] @ ascii ''1234567890+'' @ [0x27, 127, 9] @ ascii ''qwertyuiop}'' @ [0, 10, 0] @ ascii ''asdfghjkl|{'' @ [0, 0, 0x27]
     @ ascii ''zxcvbnm,.-'' @ [0] @ ascii ''*'' @ [0, 32] @ replicate 16 0 @ ascii ''-'' @ [0, 0, 0] @ ascii ''+'' @ replicate 7 0 @ ascii ''<'' @ replicate 10 0"

definition shift_map :: "u8 list" where
  "shift_map = [0, 27] @ ascii ''!'' @ [0x22] @ ascii ''#$%&/()=?'' @ [0x60, 127, 9] @ ascii ''QWERTYUIOP]^'' @ [10, 0] @ ascii ''ASDFGHJKL'' @ [0x5c] @ ascii ''['' @ [0, 0]
     @ ascii ''*ZXCVBNM;:_'' @ [0] @ ascii ''*'' @ [0, 32] @ replicate 16 0 @ ascii ''-'' @ [0, 0, 0] @ ascii ''+'' @ replicate 7 0 @ ascii ''>'' @ replicate 10 0"

definition alt_map :: "u8 list" where
  "alt_map = [0, 0, 0] @ ascii ''@'' @ [0] @ ascii ''$'' @ [0, 0] @ ascii ''{[]}'' @ [0x5c, 0, 0, 0] @ replicate 11 0 @ ascii ''~'' @ [10, 0] @ replicate 11 0
     @ [0, 0] @ replicate 11 0 @ replicate 4 0 @ replicate 16 0 @ replicate 5 0 @ replicate 7 0 @ ascii ''|'' @ replicate 10 0"

definition cur_key :: "u8 \<Rightarrow> 'z ttyst_scheme \<Rightarrow> 'z ttyst_scheme" where
  "cur_key al s =
     (let c = cur_table ! unat al; ax = (if c > 0x39 then ucast c else ucast c OR push_bit 8 0x7e) :: u32
      in put_queue (ucast (push_bit 16 ax OR 0x5b1b)) s)"

definition cursor :: "(u16 \<Rightarrow> nat \<Rightarrow> u8) \<Rightarrow> u8 \<Rightarrow> 'z kbst_scheme \<Rightarrow> 'z kbst_scheme kb_end option" where
  "cursor d sc s =
     (let al = sc - 0x47 in
      if sc < 0x47 \<or> al > 12 then Some (Back s)
      else if al = 12 \<and> kb_mode s AND 0x0c \<noteq> 0 \<and> kb_mode s AND 0x30 \<noteq> 0 then reboot d s
      else if kb_e0 s = 1 \<or> kb_leds s AND 2 = 0 \<or> kb_mode s AND 3 \<noteq> 0 then Some (Back (cur_key al s))
      else Some (Back (put_queue (ucast (num_table ! unat al)) s)))"

text \<open>The comparison \<^verbatim>\<open>cmpl $4,%ecx\<close> is meant to find out whether there is room in the queue.\<close>

definition func :: "u32 \<Rightarrow> u8 \<Rightarrow> 'z kbst_scheme \<Rightarrow> 'z kbst_scheme" where
  "func ecx sc s =
     (let al = sc - 0x3b; al' = (if al \<le> 9 then al else al - 18) in
      if sc < 0x3b \<or> (al > 9 \<and> (al' < 10 \<or> al' > 11)) \<or> sint ecx < 4 then s
      else put_queue (ucast (func_table ! unat al')) s)"

text \<open>The character of an ordinary key in a mode: \<open>None\<close> if it has none.\<close>

definition self_char :: "u8 \<Rightarrow> u8 \<Rightarrow> u8 option" where
  "self_char mode sc =
     (let al = (if mode AND 0x20 \<noteq> 0 then alt_map else if mode AND 3 \<noteq> 0 then shift_map else key_map) ! unat sc in
      if al = 0 then None
      else let al2 = (if mode AND 0x4c \<noteq> 0 \<and> 0x61 \<le> al \<and> al \<le> 0x7a then al - 32 else al);
               al3 = (if mode AND 0x0c \<noteq> 0 \<and> 64 \<le> al2 \<and> al2 < 64 + 32 then al2 - 64 else al2)
           in Some (if mode AND 0x10 \<noteq> 0 then al3 OR 0x80 else al3))"

definition do_self :: "u8 \<Rightarrow> 'z kbst_scheme \<Rightarrow> 'z kbst_scheme" where
  "do_self sc s = (case self_char (kb_mode s) sc of None \<Rightarrow> s | Some al \<Rightarrow> put_queue (ucast al) s)"

definition minus_key :: "u8 \<Rightarrow> 'z kbst_scheme \<Rightarrow> 'z kbst_scheme" where
  "minus_key sc s = (if kb_e0 s \<noteq> 1 then do_self sc s else put_queue 0x2f s)"

section \<open>The table of routines\<close>

datatype kb_key = K_none | K_do_self | K_minus | K_ctrl | K_alt | K_unctrl | K_unalt | K_lshift | K_unlshift | K_rshift | K_unrshift
  | K_caps | K_uncaps | K_scroll | K_num | K_cursor | K_func

definition key_table :: "kb_key list" where
  "key_table = [K_none] @ replicate 28 K_do_self @ [K_ctrl] @ replicate 12 K_do_self @ [K_lshift] @ replicate 10 K_do_self
     @ [K_minus, K_rshift, K_do_self, K_alt, K_do_self, K_caps] @ replicate 10 K_func @ [K_num, K_scroll, K_cursor, K_cursor, K_cursor, K_do_self]
     @ replicate 3 K_cursor @ [K_do_self] @ replicate 5 K_cursor @ [K_none, K_none, K_do_self, K_func, K_func] @ replicate 68 K_none @ [K_unctrl]
     @ replicate 12 K_none @ [K_unlshift] @ replicate 11 K_none @ [K_unrshift, K_none, K_unalt, K_none, K_uncaps] @ replicate 69 K_none"

definition key_call :: "(u16 \<Rightarrow> nat \<Rightarrow> u8) \<Rightarrow> u32 \<Rightarrow> u8 \<Rightarrow> 'z kbst_scheme \<Rightarrow> 'z kbst_scheme kb_end option" where
  "key_call d ecx sc s = (case key_table ! unat sc of
     K_none \<Rightarrow> Some (Back s)
   | K_do_self \<Rightarrow> Some (Back (do_self sc s))
   | K_minus \<Rightarrow> Some (Back (minus_key sc s))
   | K_ctrl \<Rightarrow> Some (Back (key_press 0x04 s))
   | K_alt \<Rightarrow> Some (Back (key_press 0x10 s))
   | K_unctrl \<Rightarrow> Some (Back (key_release 0x04 s))
   | K_unalt \<Rightarrow> Some (Back (key_release 0x10 s))
   | K_lshift \<Rightarrow> Some (Back (s\<lparr>kb_mode := kb_mode s OR 0x01\<rparr>))
   | K_unlshift \<Rightarrow> Some (Back (s\<lparr>kb_mode := kb_mode s AND 0xfe\<rparr>))
   | K_rshift \<Rightarrow> Some (Back (s\<lparr>kb_mode := kb_mode s OR 0x02\<rparr>))
   | K_unrshift \<Rightarrow> Some (Back (s\<lparr>kb_mode := kb_mode s AND 0xfd\<rparr>))
   | K_caps \<Rightarrow> caps d s
   | K_uncaps \<Rightarrow> Some (Back (s\<lparr>kb_mode := kb_mode s AND 0x7f\<rparr>))
   | K_scroll \<Rightarrow> set_leds d (s\<lparr>kb_leds := kb_leds s XOR 1\<rparr>)
   | K_num \<Rightarrow> set_leds d (s\<lparr>kb_leds := kb_leds s XOR 2\<rparr>)
   | K_cursor \<Rightarrow> cursor d sc s
   | K_func \<Rightarrow> Some (Back (func ecx sc s)))"

section \<open>The interrupt\<close>

definition key_code :: "(u16 \<Rightarrow> nat \<Rightarrow> u8) \<Rightarrow> u32 \<Rightarrow> u8 \<Rightarrow> 'z kbst_scheme \<Rightarrow> 'z kbst_scheme kb_end option" where
  "key_code d ecx al s =
     (if al = 0xe0 then Some (Back (s\<lparr>kb_e0 := 1\<rparr>))
      else if al = 0xe1 then Some (Back (s\<lparr>kb_e0 := 2\<rparr>))
      else map_option (\<lambda>r. case r of Back s1 \<Rightarrow> Back (s1\<lparr>kb_e0 := 0\<rparr>) | Rebooted s1 \<Rightarrow> Rebooted s1) (key_call d ecx al s))"

definition keyboard_interrupt :: "(u16 \<Rightarrow> nat \<Rightarrow> u8) \<Rightarrow> u32 \<Rightarrow> 'z kbst_scheme \<Rightarrow> 'z kbst_scheme kb_end option" where
  "keyboard_interrupt d ecx s =
     (let (sc, s1) = port_in d 0x60 s in
      Option.bind (key_code d ecx sc s1) (\<lambda>r. case r of
        Rebooted s2 \<Rightarrow> Some (Rebooted s2)
      | Back s2 \<Rightarrow>
          (let (al, s3) = port_in d 0x61 s2; al1 = al OR 0x80;
               s4 = port_out 0x20 0x20 (port_out (al1 AND 0x7f) 0x61 (port_out al1 0x61 s3))
           in map_option Back (do_tty_interrupt 0 s4))))"

end
