(* ===== verification/Serial_Props.thy ===== *)
theory Serial_Props
  imports Serial_Int File_Examples
begin

text \<open>
  The transmitter side of \<^verbatim>\<open>rs_io.s\<close>: the write queue, the ring of \<^verbatim>\<open>tty_ring\<close>, leaves the machine first in, first out, and the interrupt is switched off
  exactly when nothing is left. On the receiver side a character that finds the queue full is lost and nothing else.
\<close>

lemmas rs_int_step = rs_int.simps [of d t s for d t s, unfolded port_in_def Let_def prod.case]

lemma rs_int_end:
  "d (rs_addr t s + 2) (io_reads s) AND 1 \<noteq> 0 \<Longrightarrow> rs_int d t s = Some (port_out 0x20 0x20 (s\<lparr>io_reads := Suc (io_reads s)\<rparr>))"
  by (subst rs_int_step) simp

lemma rs_int_write:
  "d (rs_addr t s + 2) (io_reads s) = 2 \<Longrightarrow> rs_int d t s = rs_int d t (write_char d t (s\<lparr>io_reads := Suc (io_reads s)\<rparr>))"
  by (subst rs_int_step) (simp add: rs_source_def)

text \<open>Any number of transmitter interrupts that leave something in the queue.\<close>

lemma rs_int_sends:
  assumes "tty_ring.ring_wf (write_q (tty_table s t))" "to_send t s = xs @ ys" "ys \<noteq> []"
    and "\<forall>i < length xs. d (rs_addr t s + 2) (io_reads s + i) = 2"
  shows "\<exists>s'. rs_int d t s = rs_int d t s' \<and> to_send t s' = ys \<and> tty_ring.ring_wf (write_q (tty_table s' t)) \<and>
     read_q (tty_table s' t) = read_q (tty_table s t) \<and> q_proc_list (write_q (tty_table s' t)) = q_proc_list (write_q (tty_table s t)) \<and>
     (\<forall>u. u \<noteq> t \<longrightarrow> tty_table s' u = tty_table s u) \<and> io_reads s' = io_reads s + length xs \<and>
     io_writes s' = io_writes s @ map (Pair (rs_addr t s)) xs"
  using assms
proof (induction xs arbitrary: s)
  case (Cons x xs)
  let ?s1 = "s\<lparr>io_reads := Suc (io_reads s)\<rparr>"
  let ?s2 = "write_char d t ?s1"
  have w1: "tty_ring.ring_wf (write_q (tty_table ?s1 t))" and l1: "to_send t ?s1 = x # (xs @ ys)" using Cons.prems by simp_all
  note sent = write_char_sends [OF w1 l1, where d = d]
  have a2: "rs_addr t ?s2 = rs_addr t s" using sent(3) by simp
  have io: "io_reads ?s2 = io_reads s + 1" "io_writes ?s2 = io_writes s @ [(rs_addr t s, x)]" using sent(6) Cons.prems(3) by simp_all
  have u: "tty_table ?s2 u = tty_table s u" if "u \<noteq> t" for u using sent(5) [OF that] by simp
  have "\<forall>i < length xs. d (rs_addr t ?s2 + 2) (io_reads ?s2 + i) = 2"
  proof (intro allI impI)
    fix i assume "i < length xs"
    then show "d (rs_addr t ?s2 + 2) (io_reads ?s2 + i) = 2" using Cons.prems(4) [rule_format, of "Suc i"] by (simp add: a2 io)
  qed
  from Cons.IH [OF sent(2) sent(1) Cons.prems(3) this] obtain s' where
    s': "rs_int d t ?s2 = rs_int d t s'" "to_send t s' = ys" "tty_ring.ring_wf (write_q (tty_table s' t))"
      "read_q (tty_table s' t) = read_q (tty_table s t)" "q_proc_list (write_q (tty_table s' t)) = q_proc_list (write_q (tty_table s t))"
      "\<forall>u. u \<noteq> t \<longrightarrow> tty_table s' u = tty_table s u" "io_reads s' = io_reads s + length (x # xs)"
      "io_writes s' = io_writes s @ map (Pair (rs_addr t s)) (x # xs)"
    using sent(3,4) u io a2 by auto
  have "rs_int d t s = rs_int d t ?s2" using rs_int_write Cons.prems(4) [rule_format, of 0] by simp
  then show ?case using s' by metis
qed auto

text \<open>
  C29: when the write queue of a serial line holds the characters \<open>xs\<close> and the line keeps asking for the next one, one interrupt sends all of \<open>xs\<close> to the data
  port in the order in which they were put in, then clears the transmit bit of the interrupt enable register and no other of its four bits, makes the process that waits for the queue ready,
  acknowledges the interrupt and returns. The queue is empty, and the read queue and the other terminals are untouched.
\<close>

theorem rs_interrupt_drains:
  assumes "tty_ring.ring_wf (write_q (tty_table s t))" and xs: "tty_ring.ring_list (write_q (tty_table s t)) = xs" "xs \<noteq> []"
    and port: "port = ucast (q_data (read_q (tty_table s t)))" and n: "n = io_reads s"
    and ask: "\<forall>i < length xs. d (port + 2) (n + i) = 2" and quiet: "d (port + 2) (n + length xs + 1) AND 1 \<noteq> 0"
  shows "\<exists>s'. rs_int d t s = Some s' \<and> tty_ring.ring_list (write_q (tty_table s' t)) = [] \<and>
     io_writes s' = io_writes s @ map (Pair port) xs @ [(port + 1, d (port + 1) (n + length xs) AND 0xd), (0x20, 0x20)] \<and>
     (\<forall>p. p = q_proc_list (write_q (tty_table s t)) \<longrightarrow> p \<noteq> 0 \<longrightarrow> t_state (tstruct s' p) = TASK_RUNNING) \<and>
     read_q (tty_table s' t) = read_q (tty_table s t) \<and> (\<forall>u. u \<noteq> t \<longrightarrow> tty_table s' u = tty_table s u)"
proof -
  obtain ys x where yx: "xs = ys @ [x]" using xs(2) by (metis append_butlast_last_id)
  obtain s1 where s1: "rs_int d t s = rs_int d t s1" "to_send t s1 = [x]" "tty_ring.ring_wf (write_q (tty_table s1 t))"
      "read_q (tty_table s1 t) = read_q (tty_table s t)" "q_proc_list (write_q (tty_table s1 t)) = q_proc_list (write_q (tty_table s t))"
      "\<forall>u. u \<noteq> t \<longrightarrow> tty_table s1 u = tty_table s u" "io_reads s1 = n + length ys" "io_writes s1 = io_writes s @ map (Pair port) ys"
    using rs_int_sends [of s t ys "[x]" d] assms yx by (auto simp: n port)
  let ?s2 = "s1\<lparr>io_reads := Suc (io_reads s1)\<rparr>"
  let ?s3 = "write_char d t ?s2"
  have w2: "tty_ring.ring_wf (write_q (tty_table ?s2 t))" and l2: "to_send t ?s2 = [x]" using s1 by simp_all
  note sent = write_char_sends [OF w2 l2, where d = d]
  have a1: "rs_addr t s1 = port" using s1(4) port by simp
  have "d (port + 2) (n + length ys) = 2" using ask yx by simp
  then have r: "rs_int d t s = rs_int d t ?s3" using s1(1) rs_int_write [where s = s1 and d = d and t = t] a1 s1(7) by simp
  have io: "io_reads ?s3 = n + length xs + 1"
    "io_writes ?s3 = io_writes s @ map (Pair port) xs @ [(port + 1, d (port + 1) (n + length xs) AND 0xd)]"
    "\<forall>p. p = q_proc_list (write_q (tty_table s t)) \<longrightarrow> p \<noteq> 0 \<longrightarrow> t_state (tstruct ?s3 p) = TASK_RUNNING"
    using sent(7) s1(5,7,8) a1 yx by simp_all
  have a3: "rs_addr t ?s3 = port" using sent(3) a1 by simp
  let ?s' = "port_out 0x20 0x20 (?s3\<lparr>io_reads := Suc (io_reads ?s3)\<rparr>)"
  have "rs_int d t s = Some ?s'" unfolding r using quiet a3 io(1) by (intro rs_int_end) simp
  moreover have "tty_table ?s' = tty_table ?s3" "tstruct ?s' = tstruct ?s3" "io_writes ?s' = io_writes ?s3 @ [(0x20, 0x20)]"
    by (simp_all add: port_out_def)
  ultimately show ?thesis using sent(1,3,5) s1(4,6) io by auto
qed

section \<open>An instance\<close>

definition ex_serial :: iost where
  "ex_serial = ttyst.extend (fs.extend ex_fs (ttyst.fields (init_tty_table(2 := (init_tty_table 2)\<lparr>write_q := PUTCH 0x69 (PUTCH 0x68 (empty_queue 0x2f8))\<rparr>))
     (con_static (\<lambda>_. 0)) False)) (iost.fields 0 [])"

lemma ex_serial [simp]:
  "write_q (tty_table ex_serial 2) = PUTCH 0x69 (PUTCH 0x68 (empty_queue 0x2f8))" "q_data (read_q (tty_table ex_serial 2)) = 0x2f8"
  "io_reads ex_serial = 0" "io_writes ex_serial = []"
  by (simp_all add: ex_serial_def ttyst.defs fs.defs iost.defs init_tty_table_def empty_queue_def)

lemma ex_serial_queue:
  "tty_ring.ring_wf (PUTCH 0x69 (PUTCH 0x68 (empty_queue 0x2f8))) \<and> tty_ring.ring_list (PUTCH 0x69 (PUTCH 0x68 (empty_queue 0x2f8))) = [0x68, 0x69]"
proof -
  have "tty_ring.ring_wf (empty_queue 0x2f8)" "tty_ring.ring_list (empty_queue 0x2f8) = []" "tty_ring.ring_count (empty_queue 0x2f8) = 0"
    by (simp_all add: tty_ring.ring_wf_def tty_ring.ring_list_def tty_ring.ring_count_def empty_queue_def)
  then show ?thesis using tty_ring.puts_list [of "empty_queue 0x2f8" "[0x68, 0x69]"] by simp
qed

theorem rs_interrupt_drains_witness:
  "\<exists>s'. rs_int (\<lambda>p n. if p = 0x2fa then [2, 2, 0, 1] ! n else 0x0f) 2 ex_serial = Some s' \<and>
     io_writes s' = [(0x2f8, 0x68), (0x2f8, 0x69), (0x2f9, 0x0d), (0x20, 0x20)] \<and> tty_ring.ring_list (write_q (tty_table s' 2)) = []"
proof -
  have "\<forall>i < length [0x68, 0x69 :: u8]. (if (0x2f8 :: u16) + 2 = 0x2fa then [2, 2, 0, 1] ! (0 + i) else 0x0f) = (2 :: u8)"
    by (auto simp: less_Suc_eq_0_disj)
  then show ?thesis
    using rs_interrupt_drains [of ex_serial 2 "[0x68, 0x69]" "0x2f8" 0 "\<lambda>p n. if p = 0x2fa then [2, 2, 0, 1] ! n else 0x0f"] ex_serial_queue by auto
qed

end
