(* ===== verification/Keyboard_Props.thy ===== *)
theory Keyboard_Props
  imports Keyboard Serial_Props
begin

text \<open>
  What the keyboard does. An abstract keyboard knows which shift keys are held and which locks are on, and gives the characters of a key from that;
  the bytes \<^verbatim>\<open>mode\<close> and \<^verbatim>\<open>leds\<close> implement it, and a key puts all of its characters into the read queue or none.
\<close>

section \<open>Putting characters into the queue\<close>

text \<open>The value of \<^verbatim>\<open>%ebx:%eax\<close> for a sequence of characters.\<close>

primrec kb_word :: "u8 list \<Rightarrow> 64 word" where
  "kb_word [] = 0"
| "kb_word (b # bs) = ucast b OR push_bit 8 (kb_word bs)"

text \<open>The sequences that \<^verbatim>\<open>put_queue\<close> can be asked for: up to four characters, the last of which is not 0 unless it is alone.\<close>

definition kb_seq :: "u8 list \<Rightarrow> bool" where
  "kb_seq bs \<longleftrightarrow> bs \<noteq> [] \<and> length bs \<le> 4 \<and> (length bs = 1 \<or> last bs \<noteq> 0)"

lemma ucast_kb_word: "(ucast (kb_word (b # bs)) :: u8) = b"
  by (rule bit_eqI) (simp add: bit_simps)

lemma bit_byte: "bit (b :: u8) n \<Longrightarrow> n < 8"
  using bit_imp_le_length [of b n] by simp

lemma bit_kb_word: "bit (kb_word bs) n \<Longrightarrow> n < 8 * length bs"
proof (induction bs arbitrary: n)
  case (Cons b bs)
  then have "bit b n \<or> (8 \<le> n \<and> bit (kb_word bs) (n - 8))" by (auto simp: bit_simps)
  then show ?case using Cons.IH [of "n - 8"] bit_byte [of b n] by auto
qed simp

lemma drop_kb_word: "length bs \<le> 7 \<Longrightarrow> drop_bit 8 (kb_word (b # bs)) = kb_word bs"
proof (rule bit_eqI)
  fix n
  assume "length bs \<le> 7"
  then show "bit (drop_bit 8 (kb_word (b # bs))) n = bit (kb_word bs) n"
    using bit_kb_word [of bs n] bit_byte [of b "8 + n"] by (auto simp: bit_simps)
qed

lemma kb_word_nonzero: "bs \<noteq> [] \<Longrightarrow> length bs \<le> 4 \<Longrightarrow> last bs \<noteq> 0 \<Longrightarrow> (ucast (kb_word bs) :: u32) \<noteq> 0"
proof -
  assume a: "bs \<noteq> []" "length bs \<le> 4" "last bs \<noteq> 0"
  have "kb_word bs \<noteq> 0" using a
  proof (induction bs)
    case (Cons b bs)
    show ?case
    proof (cases "bs = []")
      case True
      then show ?thesis using Cons.prems ucast_kb_word [of b "[]"] by auto
    next
      case False
      then have "kb_word bs \<noteq> 0" using Cons by simp
      moreover have "drop_bit 8 (kb_word (b # bs)) = kb_word bs" using Cons.prems(2) by (intro drop_kb_word) simp
      ultimately show ?thesis by (metis drop_bit_of_0)
    qed
  qed simp
  then obtain n where n: "bit (kb_word bs) n" by (metis bit_eqI bit_0_eq bot_apply bot_bool_def)
  then have "n < 32" using bit_kb_word [OF n] a(2) by linarith
  then have "bit (ucast (kb_word bs) :: u32) n" using n by (simp add: bit_simps)
  then show ?thesis by auto
qed

lemma kb_seq_tl: "kb_seq (b # bs) \<Longrightarrow> (ucast (kb_word bs) :: u32) = 0 \<longleftrightarrow> bs = []" and kb_seq_step: "kb_seq (b # bs) \<Longrightarrow> bs \<noteq> [] \<Longrightarrow> kb_seq bs"
  using kb_word_nonzero [of bs] by (auto simp: kb_seq_def split: if_splits)

abbreviation at_head :: "u32 \<Rightarrow> tty_queue \<Rightarrow> tty_queue" where
  "at_head h q \<equiv> q\<lparr>q_head := h\<rparr>"

lemma put_loop_step:
  assumes "kb_seq (b # bs)"
  shows "put_loop (kb_word (b # bs)) h q =
    (let Q = PUTCH b (at_head h q) in
     if q_head Q = q_tail q then (None, at_head (q_head q) Q)
     else if bs = [] then (Some (q_head Q), at_head (q_head q) Q) else put_loop (kb_word bs) (q_head Q) (at_head (q_head q) Q))"
proof -
  have "length bs \<le> 7" using assms by (simp add: kb_seq_def)
  then show ?thesis
    using kb_seq_tl [OF assms] ucast_kb_word [of b bs] drop_kb_word [of bs b]
    by (subst put_loop.simps) (simp add: Let_def PUTCH_def INC_def del: kb_word.simps)
qed

text \<open>When there is room the loop is a sequence of \<^verbatim>\<open>PUTCH\<close>.\<close>

lemma put_loop_fits:
  assumes "kb_seq bs" "tty_ring.ring_wf (at_head h q)" "tty_ring.ring_count (at_head h q) + length bs < 1024"
  shows "put_loop (kb_word bs) h q = (Some (q_head (fold PUTCH bs (at_head h q))), at_head (q_head q) (fold PUTCH bs (at_head h q)))"
  using assms
proof (induction bs arbitrary: h q)
  case (Cons b bs)
  let ?Q = "PUTCH b (at_head h q)"
  have c: "tty_ring.ring_count ?Q = tty_ring.ring_count (at_head h q) + 1" and w: "tty_ring.ring_wf ?Q"
    using Cons.prems tty_ring.put_count [of "at_head h q" b] tty_ring.put_wf by auto
  have "q_head ?Q \<noteq> q_tail q"
    using tty_ring.put_full [OF Cons.prems(2)] Cons.prems(3) by (simp add: PUTCH_def INC_def tty_mask)
  moreover have "at_head (q_head ?Q) (at_head (q_head q) ?Q) = ?Q" by simp
  ultimately show ?case
    using put_loop_step [OF Cons.prems(1), of h q] Cons.IH [OF kb_seq_step [OF Cons.prems(1)], of "q_head ?Q" "at_head (q_head q) ?Q"] Cons.prems(3) w c
    by (auto simp: Let_def)
qed (simp add: kb_seq_def)

text \<open>When there is not, it writes free cells only.\<close>

lemma put_loop_full:
  assumes "kb_seq bs" "tty_ring.ring_wf (at_head h q)" "1024 \<le> tty_ring.ring_count (at_head h q) + length bs"
  shows "\<exists>f. put_loop (kb_word bs) h q = (None, q\<lparr>q_buf := f\<rparr>) \<and>
     (\<forall>i < tty_ring.ring_count (at_head h q). f ((unat (q_tail q) + i) mod 1024) = q_buf q ((unat (q_tail q) + i) mod 1024))"
  using assms
proof (induction bs arbitrary: h q)
  case (Cons b bs)
  let ?q = "at_head h q" let ?Q = "PUTCH b ?q"
  have free: "(unat (q_tail q) + i) mod 1024 \<noteq> unat h" if "i < tty_ring.ring_count ?q" for i
    using tty_ring.hd_free [OF Cons.prems(2) that] by simp
  show ?case
  proof (cases "tty_ring.ring_count ?q = 1023")
    case True
    then have "q_head ?Q = q_tail q" using tty_ring.put_full [OF Cons.prems(2)] by (simp add: PUTCH_def INC_def tty_mask)
    then have "put_loop (kb_word (b # bs)) h q = (None, q\<lparr>q_buf := (q_buf q)(unat h := b)\<rparr>)"
      using put_loop_step [OF Cons.prems(1), of h q] by (simp add: Let_def PUTCH_def)
    then show ?thesis using free by fastforce
  next
    case False
    then have l: "tty_ring.ring_count ?q < 1023" using tty_ring.ring_count_less [of ?q] by simp
    then have c: "tty_ring.ring_count ?Q = tty_ring.ring_count ?q + 1" and w: "tty_ring.ring_wf ?Q"
      using Cons.prems tty_ring.put_count [of ?q b] tty_ring.put_wf by auto
    have ne: "bs \<noteq> []" using Cons.prems(3) l by auto
    have h: "q_head ?Q \<noteq> q_tail q" using tty_ring.put_full [OF Cons.prems(2)] l by (simp add: PUTCH_def INC_def tty_mask)
    have Q: "at_head (q_head ?Q) (at_head (q_head q) ?Q) = ?Q" by simp
    obtain f where f: "put_loop (kb_word bs) (q_head ?Q) (at_head (q_head q) ?Q) = (None, (at_head (q_head q) ?Q)\<lparr>q_buf := f\<rparr>)"
      "\<forall>i < tty_ring.ring_count ?Q. f ((unat (q_tail q) + i) mod 1024) = q_buf ?Q ((unat (q_tail q) + i) mod 1024)"
      using Cons.IH [OF kb_seq_step [OF Cons.prems(1) ne], of "q_head ?Q" "at_head (q_head q) ?Q"] w c Cons.prems(3) unfolding Q
      by (auto simp: PUTCH_def)
    have "put_loop (kb_word (b # bs)) h q = (None, q\<lparr>q_buf := f\<rparr>)"
      using put_loop_step [OF Cons.prems(1), of h q] h ne f(1) by (simp add: Let_def PUTCH_def)
    moreover have "\<forall>i < tty_ring.ring_count ?q. f ((unat (q_tail q) + i) mod 1024) = q_buf q ((unat (q_tail q) + i) mod 1024)"
      using f(2) c free by (simp add: PUTCH_def)
    ultimately show ?thesis by blast
  qed
qed (simp add: kb_seq_def)

abbreviation typed :: "'z ttyst_scheme \<Rightarrow> u8 list" where
  "typed s \<equiv> tty_ring.ring_list (read_q (tty_table s 0))"

definition kb_wf :: "'z ttyst_scheme \<Rightarrow> bool" where
  "kb_wf s \<longleftrightarrow> tty_ring.ring_wf (read_q (tty_table s 0))"

lemma put_queue_whole:
  assumes b: "kb_seq bs" and w: "kb_wf s"
  shows "typed (put_queue (kb_word bs) s) = (if length (typed s) + length bs < 1024 then typed s @ bs else typed s)"
    and "kb_wf (put_queue (kb_word bs) s)"
proof -
  let ?q = "read_q (tty_table s 0)" let ?s = "put_queue (kb_word bs) s"
  have w: "tty_ring.ring_wf (at_head (q_head ?q) ?q)" using w by (simp add: kb_wf_def)
  have "typed ?s = (if length (typed s) + length bs < 1024 then typed s @ bs else typed s) \<and> kb_wf ?s"
  proof (cases "length (typed s) + length bs < 1024")
    case True
    then have "tty_ring.ring_list (fold PUTCH bs ?q) = tty_ring.ring_list ?q @ bs \<and> tty_ring.ring_wf (fold PUTCH bs ?q)"
      using tty_ring.puts_list [of ?q bs] w by simp
    then show ?thesis using put_loop_fits [OF b w] True by (simp add: put_queue_def Let_def upd_tty_def kb_wf_def)
  next
    case False
    then obtain f where "put_loop (kb_word bs) (q_head ?q) ?q = (None, ?q\<lparr>q_buf := f\<rparr>)"
      "\<forall>i < tty_ring.ring_count ?q. f ((unat (q_tail ?q) + i) mod 1024) = q_buf ?q ((unat (q_tail ?q) + i) mod 1024)"
      using put_loop_full [OF b w] by auto
    then show ?thesis using False w
      by (simp add: put_queue_def Let_def upd_tty_def kb_wf_def tty_ring.ring_wf_def tty_ring.ring_list_def tty_ring.ring_count_def)
  qed
  then show "typed ?s = (if length (typed s) + length bs < 1024 then typed s @ bs else typed s)" "kb_wf ?s" by simp_all
qed

section \<open>The abstract keyboard\<close>

datatype modkey = LShift | RShift | LCtrl | RCtrl | LAlt | AltGr | Caps

record keyboard =
  held :: "modkey set"
  lock_caps :: bool
  lock_num :: bool
  lock_scroll :: bool

text \<open>Which of these keys a scan code belongs to, without its top bit; \<open>ext\<close> tells whether a prefix code came before it.\<close>

definition mod_key :: "bool \<Rightarrow> u8 \<Rightarrow> modkey option" where
  "mod_key ext c =
     (if c = 0x2a then Some LShift else if c = 0x36 then Some RShift else if c = 0x1d then Some (if ext then RCtrl else LCtrl)
      else if c = 0x38 then Some (if ext then AltGr else LAlt) else if c = 0x3a then Some Caps else None)"

text \<open>A scan code with the top bit set tells that a key was released. Caps lock changes when its key goes down, not while it repeats.\<close>

definition kb_press :: "bool \<Rightarrow> u8 \<Rightarrow> keyboard \<Rightarrow> keyboard" where
  "kb_press ext sc K = (case mod_key ext (sc AND 0x7f) of
     Some k \<Rightarrow> if 0x80 \<le> sc then K\<lparr>held := held K - {k}\<rparr>
       else K\<lparr>held := insert k (held K), lock_caps := (lock_caps K \<noteq> (k = Caps \<and> Caps \<notin> held K))\<rparr>
   | None \<Rightarrow> if sc = 0x45 then K\<lparr>lock_num := \<not> lock_num K\<rparr> else if sc = 0x46 then K\<lparr>lock_scroll := \<not> lock_scroll K\<rparr> else K)"

definition shifted :: "keyboard \<Rightarrow> bool" where "shifted K \<longleftrightarrow> LShift \<in> held K \<or> RShift \<in> held K"
definition ctrled :: "keyboard \<Rightarrow> bool" where "ctrled K \<longleftrightarrow> LCtrl \<in> held K \<or> RCtrl \<in> held K"

text \<open>The characters of an ordinary key, of a key of the numeric pad and of a function key.\<close>

definition plain_chars :: "u8 \<Rightarrow> keyboard \<Rightarrow> u8 list" where
  "plain_chars sc K =
     (let c = (if AltGr \<in> held K then alt_map else if shifted K then shift_map else key_map) ! unat sc;
          c1 = (if (ctrled K \<or> lock_caps K) \<and> c \<in> {0x61..0x7a} then c - 32 else c);
          c2 = (if ctrled K \<and> c1 \<in> {64..<96} then c1 - 64 else c1)
      in if c = 0 then [] else [if LAlt \<in> held K then c2 OR 0x80 else c2])"

definition pad_chars :: "bool \<Rightarrow> nat \<Rightarrow> keyboard \<Rightarrow> u8 list" where
  "pad_chars grey i K =
     (if grey \<or> \<not> lock_num K \<or> shifted K then [27, 0x5b, cur_table ! i] @ (if cur_table ! i \<le> 0x39 then [0x7e] else []) else [num_table ! i])"

definition func_chars :: "nat \<Rightarrow> u8 list" where
  "func_chars i = [27, 0x5b, 0x5b, 0x41 + of_nat i]"

definition kb_chars :: "bool \<Rightarrow> u8 \<Rightarrow> keyboard \<Rightarrow> u8 list" where
  "kb_chars grey sc K = (case key_table ! unat sc of
     K_do_self \<Rightarrow> plain_chars sc K
   | K_minus \<Rightarrow> if grey then [0x2f] else plain_chars sc K
   | K_cursor \<Rightarrow> pad_chars grey (unat sc - 0x47) K
   | K_func \<Rightarrow> func_chars (if sc \<le> 0x44 then unat sc - 0x3b else unat sc - 0x4d)
   | _ \<Rightarrow> [])"

text \<open>
  The defect of the function keys: \<^verbatim>\<open>func\<close> compares the register \<^verbatim>\<open>ecx\<close> with 4 to see whether there is room, but nothing has put the room there; it holds what the
  interrupted code left in it, and if that is less than 4 the key is lost.
\<close>

definition func_lost :: "u32 \<Rightarrow> u8 \<Rightarrow> bool" where
  "func_lost ecx sc \<longleftrightarrow> key_table ! unat sc = K_func \<and> sint ecx < 4"

definition sent_chars :: "u32 \<Rightarrow> bool \<Rightarrow> u8 \<Rightarrow> keyboard \<Rightarrow> u8 list" where
  "sent_chars ecx grey sc K = (if func_lost ecx sc then [] else kb_chars grey sc K)"

lemmas sent_defs = sent_chars_def func_lost_def kb_chars_def

lemma sent_chars_typed:
  "(let cs = sent_chars ecx g sc K in if n + length cs < 1024 then t @ cs else t) =
   (let cs = kb_chars g sc K in if n + length cs < 1024 \<and> \<not> func_lost ecx sc then t @ cs else t)"
  by (simp add: sent_chars_def Let_def)

section \<open>How the bytes implement it\<close>

primrec mod_bit :: "modkey \<Rightarrow> nat" where
  "mod_bit LShift = 0" | "mod_bit RShift = 1" | "mod_bit LCtrl = 2" | "mod_bit RCtrl = 3" | "mod_bit LAlt = 4" | "mod_bit AltGr = 5" | "mod_bit Caps = 7"

definition kb_view :: "'z kbst_scheme \<Rightarrow> keyboard" where
  "kb_view s = \<lparr>held = {k. bit (kb_mode s) (mod_bit k)}, lock_caps = bit (kb_mode s) 6, lock_num = bit (kb_leds s) 1, lock_scroll = bit (kb_leds s) 0\<rparr>"

text \<open>The lamp of caps lock shows the lock.\<close>

definition caps_lamp :: "'z kbst_scheme \<Rightarrow> bool" where
  "caps_lamp s \<longleftrightarrow> bit (kb_leds s) 2 = bit (kb_mode s) 6"

lemma mod_bit_props [simp]: "mod_bit a = mod_bit b \<longleftrightarrow> a = b" "mod_bit a \<noteq> 6" "mod_bit a < 8"
  by (cases a; cases b; simp) (cases a; simp)+

lemma and_or_zero: "(m :: u8) AND (a OR b) = 0 \<longleftrightarrow> m AND a = 0 \<and> m AND b = 0"
  by (auto simp: bit_eq_iff bit_simps)

lemma mode_tests:
  "(m :: u8) AND 1 = 0 \<longleftrightarrow> \<not> bit m 0" "m AND 2 = 0 \<longleftrightarrow> \<not> bit m 1" "m AND 4 = 0 \<longleftrightarrow> \<not> bit m 2" "m AND 8 = 0 \<longleftrightarrow> \<not> bit m 3"
  "m AND 0x10 = 0 \<longleftrightarrow> \<not> bit m 4" "m AND 0x20 = 0 \<longleftrightarrow> \<not> bit m 5" "m AND 0x40 = 0 \<longleftrightarrow> \<not> bit m 6" "m AND 0x80 = 0 \<longleftrightarrow> \<not> bit m 7"
  using and_exp_eq_0_iff_not_bit [of m 0] and_exp_eq_0_iff_not_bit [of m 1] and_exp_eq_0_iff_not_bit [of m 2] and_exp_eq_0_iff_not_bit [of m 3]
    and_exp_eq_0_iff_not_bit [of m 4] and_exp_eq_0_iff_not_bit [of m 5] and_exp_eq_0_iff_not_bit [of m 6] and_exp_eq_0_iff_not_bit [of m 7] by simp_all

lemma mode_masks:
  "(m :: u8) AND 3 = 0 \<longleftrightarrow> \<not> bit m 0 \<and> \<not> bit m 1" "m AND 0x0c = 0 \<longleftrightarrow> \<not> bit m 2 \<and> \<not> bit m 3"
  "m AND 0x30 = 0 \<longleftrightarrow> \<not> bit m 4 \<and> \<not> bit m 5" "m AND 0x4c = 0 \<longleftrightarrow> \<not> bit m 2 \<and> \<not> bit m 3 \<and> \<not> bit m 6"
  using and_or_zero [of m 1 2] and_or_zero [of m 4 8] and_or_zero [of m "0x10" "0x20"] and_or_zero [of m "0x0c" "0x40"] by (simp_all add: mode_tests)

lemma exp_bit: "j < 8 \<Longrightarrow> bit (2 ^ j :: u8) n \<longleftrightarrow> n = j"
  by (auto simp: bit_exp_iff)

lemma single_bits:
  "bit (1 :: u8) n \<longleftrightarrow> n = 0" "bit (2 :: u8) n \<longleftrightarrow> n = 1" "bit (4 :: u8) n \<longleftrightarrow> n = 2" "bit (0x40 :: u8) n \<longleftrightarrow> n = 6" "bit (0x80 :: u8) n \<longleftrightarrow> n = 7"
  using exp_bit [of 0 n] exp_bit [of 1 n] exp_bit [of 2 n] exp_bit [of 6 n] exp_bit [of 7 n] by simp_all

text \<open>Setting and clearing the bit of a key.\<close>

lemma set_held: "{k. bit (m OR 2 ^ mod_bit j :: u8) (mod_bit k)} = insert j {k. bit m (mod_bit k)}"
  and set_caps: "bit (m OR 2 ^ mod_bit j :: u8) 6 = bit m 6"
  using mod_bit_props(2) [of j] by (auto simp: bit_or_iff exp_bit simp del: mod_bit_props(2))

lemma clear_held: "{k. bit (m AND NOT (2 ^ mod_bit j) :: u8) (mod_bit k)} = {k. bit m (mod_bit k)} - {j}"
  and clear_caps: "bit (m AND NOT (2 ^ mod_bit j) :: u8) 6 = bit m 6"
  using mod_bit_props(2) [of j] by (auto simp: bit_and_iff bit_not_iff exp_bit dest: bit_byte simp del: mod_bit_props(2))

section \<open>The table\<close>

fun codes_from :: "kb_key \<Rightarrow> nat \<Rightarrow> kb_key list \<Rightarrow> nat list" where
  "codes_from k n [] = []"
| "codes_from k n (x # xs) = (if x = k then [n] else []) @ codes_from k (n + 1) xs"

definition key_codes :: "kb_key \<Rightarrow> nat list" where
  "key_codes k = codes_from k 0 key_table"

lemma codes_from_append [simp]: "codes_from k n (xs @ ys) = codes_from k n xs @ codes_from k (n + length xs) ys"
  by (induction xs arbitrary: n) auto

lemma codes_from_replicate [simp]: "codes_from k n (replicate m x) = (if x = k then [n..<n + m] else [])"
  by (induction m arbitrary: n) (auto simp: upt_conv_Cons simp del: upt_Suc)

lemma codes_from_iff: "n \<le> i \<Longrightarrow> i < n + length xs \<Longrightarrow> xs ! (i - n) = k \<longleftrightarrow> i \<in> set (codes_from k n xs)"
proof (induction xs arbitrary: n)
  case (Cons x xs)
  have low: "j \<in> set (codes_from k m xs) \<Longrightarrow> m \<le> j" for j m
    by (induction xs arbitrary: m) (auto split: if_splits dest: Suc_leD)
  show ?case
  proof (cases "i = n")
    case True
    then show ?thesis using low [of n "n + 1"] by auto
  next
    case False
    then show ?thesis using Cons.IH [of "n + 1"] Cons.prems by (simp add: nth_Cons')
  qed
qed simp

lemma key_codes_iff: "key_table ! unat (sc :: u8) = k \<longleftrightarrow> unat sc \<in> set (key_codes k)"
proof -
  have "unat sc < 256" using unsigned_less [of sc, where ?'a = nat] by simp
  then have "unat sc < 0 + length key_table" by (simp add: key_table_def)
  then show ?thesis using codes_from_iff [of 0 "unat sc" key_table k] by (simp add: key_codes_def)
qed

lemma key_codes_mod:
  "key_codes K_ctrl = [0x1d]" "key_codes K_alt = [0x38]" "key_codes K_unctrl = [0x9d]" "key_codes K_unalt = [0xb8]"
  "key_codes K_lshift = [0x2a]" "key_codes K_unlshift = [0xaa]" "key_codes K_rshift = [0x36]" "key_codes K_unrshift = [0xb6]"
  "key_codes K_caps = [0x3a]" "key_codes K_uncaps = [0xba]" "key_codes K_scroll = [0x46]" "key_codes K_num = [0x45]"
  by (simp_all add: key_codes_def key_table_def)

lemma key_codes_cursor: "key_codes K_cursor = [0x47, 0x48, 0x49, 0x4b, 0x4c, 0x4d, 0x4f, 0x50, 0x51, 0x52, 0x53]"
  and key_codes_func: "key_codes K_func = [0x3b, 0x3c, 0x3d, 0x3e, 0x3f, 0x40, 0x41, 0x42, 0x43, 0x44, 0x57, 0x58]"
  and key_codes_minus: "key_codes K_minus = [0x35]"
  by (simp_all add: key_codes_def key_table_def upt_rec)

text \<open>A routine with a single scan code.\<close>

lemma key_code_unique: "key_codes k = [n] \<Longrightarrow> key_table ! unat (sc :: u8) = k \<longleftrightarrow> unat sc = n"
  by (simp add: key_codes_iff)

lemma key_code_word: "key_codes k = [n] \<Longrightarrow> key_table ! unat (sc :: u8) = k \<Longrightarrow> sc = of_nat n"
  using key_code_unique [of k n sc] by auto

lemma low_bits: "(sc :: u8) AND 0x7f = c \<Longrightarrow> sc = c \<or> sc = c + 0x80"
proof -
  assume c: "sc AND 0x7f = c"
  have "unat (sc AND mask 7) = unat sc mod 128" by (simp add: take_bit_eq_mod flip: take_bit_eq_mask) (simp add: unat_mod)
  then have "unat c = unat sc mod 128" using c by (simp add: mask_eq_exp_minus_1)
  moreover have "unat sc < 256" using unsigned_less [of sc, where ?'a = nat] by simp
  ultimately have "unat sc = unat c \<or> unat sc = unat c + 128" by (auto simp: mod_if)
  then have "(of_nat (unat sc) :: u8) = of_nat (unat c) \<or> (of_nat (unat sc) :: u8) = of_nat (unat c + 128)" by metis
  then show ?thesis by simp
qed

lemma kb_press_other:
  assumes "key_table ! unat sc \<in> {K_none, K_do_self, K_minus, K_cursor, K_func}"
  shows "kb_press ext sc K = K"
proof -
  note t = key_codes_mod [THEN key_code_unique]
  have u: "unat sc \<notin> {0x1d, 0x38, 0x9d, 0xb8, 0x2a, 0xaa, 0x36, 0xb6, 0x3a, 0xba, 0x46, 0x45}"
  proof -
    have "key_table ! unat sc \<notin> {K_ctrl, K_alt, K_unctrl, K_unalt, K_lshift, K_unlshift, K_rshift, K_unrshift, K_caps, K_uncaps, K_scroll, K_num}"
      using assms by auto
    then show ?thesis unfolding insert_iff t by blast
  qed
  then have "sc \<noteq> 0x45" "sc \<noteq> 0x46" by auto
  moreover have "mod_key ext (sc AND 0x7f) = None"
    using u by (auto simp: mod_key_def dest!: low_bits)
  ultimately show ?thesis by (simp add: kb_press_def)
qed

section \<open>The routines\<close>

text \<open>The controller never stays busy for good.\<close>

definition kb_ready :: "(u16 \<Rightarrow> nat \<Rightarrow> u8) \<Rightarrow> bool" where
  "kb_ready d \<longleftrightarrow> (\<forall>n. \<exists>m \<ge> n. d 0x64 m AND 2 = 0)"

lemma kb_wait_until: "d 0x64 (io_reads s + k) AND 2 = 0 \<Longrightarrow> \<exists>n. kb_wait d s = Some (s\<lparr>io_reads := n\<rparr>)"
proof (induction k arbitrary: s)
  case 0
  then show ?case by (subst kb_wait.simps) (auto simp: port_in_def)
next
  case (Suc k)
  have "\<exists>n. kb_wait d (s\<lparr>io_reads := io_reads s + 1\<rparr>) = Some (s\<lparr>io_reads := n\<rparr>)"
    using Suc.IH [of "s\<lparr>io_reads := io_reads s + 1\<rparr>"] Suc.prems by simp
  then show ?case by (subst kb_wait.simps) (auto simp: port_in_def)
qed

lemma kb_wait_returns: "kb_ready d \<Longrightarrow> \<exists>n. kb_wait d s = Some (s\<lparr>io_reads := n\<rparr>)"
proof -
  assume "kb_ready d"
  then obtain m where "io_reads s \<le> m" "d 0x64 m AND 2 = 0" unfolding kb_ready_def by blast
  then show ?thesis using kb_wait_until [of d s "m - io_reads s"] by simp
qed

lemma set_leds_sends:
  assumes "kb_ready d"
  shows "\<exists>n. set_leds d s = Some (Back (s\<lparr>io_reads := n, io_writes := io_writes s @ [(0x60, 0xed), (0x60, kb_leds s)]\<rparr>))"
proof -
  obtain n1 where n1: "kb_wait d s = Some (s\<lparr>io_reads := n1\<rparr>)" using kb_wait_returns [OF assms] by blast
  obtain n2 where "kb_wait d (port_out 0xed 0x60 (s\<lparr>io_reads := n1\<rparr>)) = Some ((port_out 0xed 0x60 (s\<lparr>io_reads := n1\<rparr>))\<lparr>io_reads := n2\<rparr>)"
    using kb_wait_returns [OF assms] by blast
  then show ?thesis using n1 by (auto simp: set_leds_def port_out_def)
qed

definition type_out :: "u8 list \<Rightarrow> 'z ttyst_scheme \<Rightarrow> 'z ttyst_scheme" where
  "type_out cs s = (if cs = [] then s else put_queue (kb_word cs) s)"

lemma put_queue_frame [simp]:
  "kb_mode (put_queue v s) = kb_mode s" "kb_leds (put_queue v s) = kb_leds s" "kb_e0 (put_queue v s) = kb_e0 s" "io_writes (put_queue v s) = io_writes s"
  by (simp_all add: put_queue_def Let_def upd_tty_def wake_sleeper_def wake_task_def upd_task_def split: prod.splits option.splits)

lemma do_self_types: "do_self sc s = type_out (plain_chars sc (kb_view s)) s"
proof -
  let ?m = "kb_mode s" let ?K = "kb_view s"
  have m: "(?m AND 0x20 \<noteq> 0) = (AltGr \<in> held ?K)" "(?m AND 3 \<noteq> 0) = shifted ?K" "(?m AND 0x4c \<noteq> 0) = (ctrled ?K \<or> lock_caps ?K)"
    "(?m AND 0x0c \<noteq> 0) = ctrled ?K" "(?m AND 0x10 \<noteq> 0) = (LAlt \<in> held ?K)"
    by (auto simp: kb_view_def shifted_def ctrled_def mode_tests mode_masks)
  define al where "al = (if AltGr \<in> held ?K then alt_map else if shifted ?K then shift_map else key_map) ! unat sc"
  have "plain_chars sc ?K = (case self_char ?m sc of None \<Rightarrow> [] | Some c \<Rightarrow> [c])"
    unfolding self_char_def plain_chars_def m al_def [symmetric] Let_def by simp
  then show ?thesis by (simp add: do_self_def type_out_def split: option.splits)
qed

lemma plain_seq: "plain_chars sc K \<noteq> [] \<Longrightarrow> kb_seq (plain_chars sc K)"
  by (auto simp: plain_chars_def kb_seq_def Let_def split: if_splits)

lemma cursor_index:
  fixes sc :: u8
  assumes "key_table ! unat sc = K_cursor"
  obtains i where "sc = of_nat i + 0x47" "i \<in> {0, 1, 2, 4, 5, 6, 8, 9, 10, 11, 12}" "unat sc - 0x47 = i"
proof -
  have "unat sc \<in> {0x47, 0x48, 0x49, 0x4b, 0x4c, 0x4d, 0x4f, 0x50, 0x51, 0x52, 0x53}" using assms unfolding key_codes_iff by (simp add: key_codes_cursor)
  then have "unat sc - 0x47 \<in> {0, 1, 2, 4, 5, 6, 8, 9, 10, 11, 12} \<and> 0x47 \<le> unat sc" by auto
  moreover from this have "sc = of_nat (unat sc - 0x47) + 0x47" by (simp add: of_nat_diff)
  ultimately show ?thesis using that by blast
qed

lemma cur_table_seq:
  assumes "i \<in> {0, 1, 2, 4, 5, 6, 8, 9, 10, 11, 12 :: nat}"
  shows "kb_seq ([27, 0x5b, cur_table ! i] @ (if cur_table ! i \<le> 0x39 then [0x7e] else []))" "kb_seq [num_table ! i]"
    and "kb_word ([27, 0x5b, cur_table ! i] @ (if cur_table ! i \<le> 0x39 then [0x7e] else [])) =
      ucast (push_bit 16 (if cur_table ! i > 0x39 then ucast (cur_table ! i) else ucast (cur_table ! i) OR push_bit 8 0x7e :: u32) OR 0x5b1b)"
  using assms by (auto simp: kb_seq_def cur_table_def num_table_def ascii_def)

lemma cursor_types:
  assumes k: "key_table ! unat sc = K_cursor"
    and reset: "\<not> (sc = 0x53 \<and> ctrled (kb_view s) \<and> (LAlt \<in> held (kb_view s) \<or> AltGr \<in> held (kb_view s)))"
  shows "cursor d sc s = Some (Back (type_out (pad_chars (kb_e0 s = 1) (unat sc - 0x47) (kb_view s)) s))"
    and "kb_seq (pad_chars grey (unat sc - 0x47) K)"
proof -
  obtain i where i: "sc = of_nat i + 0x47" "i \<in> {0, 1, 2, 4, 5, 6, 8, 9, 10, 11, 12}" "unat sc - 0x47 = i" using cursor_index [OF k] by blast
  show "kb_seq (pad_chars grey (unat sc - 0x47) K)" using cur_table_seq [OF i(2)] by (simp add: pad_chars_def i(3))
  have a: "\<not> sc < 0x47" "\<not> sc - 0x47 > 12" "unat (sc - 0x47) = i" "sc - 0x47 = 12 \<longleftrightarrow> sc = 0x53" using i(1,2) by auto
  have "kb_mode s AND 0x0c \<noteq> 0 \<longleftrightarrow> ctrled (kb_view s)" "kb_mode s AND 0x30 \<noteq> 0 \<longleftrightarrow> LAlt \<in> held (kb_view s) \<or> AltGr \<in> held (kb_view s)"
    "kb_leds s AND 2 = 0 \<longleftrightarrow> \<not> lock_num (kb_view s)" "kb_mode s AND 3 \<noteq> 0 \<longleftrightarrow> shifted (kb_view s)"
    by (auto simp: kb_view_def ctrled_def shifted_def mode_tests mode_masks)
  note m = this
  have "cur_key (sc - 0x47) s = type_out ([27, 0x5b, cur_table ! i] @ (if cur_table ! i \<le> 0x39 then [0x7e] else [])) s"
    unfolding cur_key_def a Let_def type_out_def cur_table_seq(3) [OF i(2)] by simp
  then have "type_out (pad_chars (kb_e0 s = 1) (unat sc - 0x47) (kb_view s)) s =
      (if kb_e0 s = 1 \<or> \<not> lock_num (kb_view s) \<or> shifted (kb_view s) then cur_key (sc - 0x47) s else put_queue (ucast (num_table ! i)) s)"
    unfolding pad_chars_def i(3) by (simp add: type_out_def)
  moreover have "cursor d sc s = Some (Back (if kb_e0 s = 1 \<or> \<not> lock_num (kb_view s) \<or> shifted (kb_view s) then cur_key (sc - 0x47) s
      else put_queue (ucast (num_table ! i)) s))"
    unfolding cursor_def Let_def m a using reset a by (simp only: if_False if_True simp_thms if_distrib [of Back] if_distrib [of Some])
  ultimately show "cursor d sc s = Some (Back (type_out (pad_chars (kb_e0 s = 1) (unat sc - 0x47) (kb_view s)) s))" by simp
qed

lemma func_seq: "i \<in> {0, 1, 2, 3, 4, 5, 6, 7, 8, 9, 10, 11 :: nat} \<Longrightarrow> kb_word (func_chars i) = ucast (func_table ! i) \<and> kb_seq (func_chars i)"
  by (auto simp: func_chars_def func_table_def kb_seq_def)

lemma func_types:
  assumes k: "key_table ! unat sc = K_func"
  shows "func ecx sc s = type_out (if sint ecx < 4 then [] else func_chars (if sc \<le> 0x44 then unat sc - 0x3b else unat sc - 0x4d)) s"
    and "(if sc \<le> 0x44 then unat sc - 0x3b else unat sc - 0x4d) \<in> {0, 1, 2, 3, 4, 5, 6, 7, 8, 9, 10, 11}"
proof -
  have "unat sc \<in> {0x3b, 0x3c, 0x3d, 0x3e, 0x3f, 0x40, 0x41, 0x42, 0x43, 0x44, 0x57, 0x58}"
    using k unfolding key_codes_iff by (simp add: key_codes_func)
  then have "sc \<in> of_nat ` {0x3b, 0x3c, 0x3d, 0x3e, 0x3f, 0x40, 0x41, 0x42, 0x43, 0x44, 0x57, 0x58}" by (intro image_eqI [of sc _ "unat sc"]) simp_all
  then have sc: "sc \<in> {0x3b, 0x3c, 0x3d, 0x3e, 0x3f, 0x40, 0x41, 0x42, 0x43, 0x44, 0x57, 0x58}" by simp
  then show i: "(if sc \<le> 0x44 then unat sc - 0x3b else unat sc - 0x4d) \<in> {0, 1, 2, 3, 4, 5, 6, 7, 8, 9, 10, 11}" by auto
  let ?al = "sc - 0x3b" let ?al' = "if ?al \<le> 9 then ?al else ?al - 18"
  let ?j = "if sc \<le> 0x44 then unat sc - 0x3b else unat sc - 0x4d"
  have j: "unat ?al' = ?j" and c: "(sc < 0x3b) = False" "(?al > 9 \<and> (?al' < 10 \<or> ?al' > 11)) = False" using sc by auto
  have "func ecx sc s = (if sint ecx < 4 then s else put_queue (ucast (func_table ! ?j)) s)"
    unfolding func_def Let_def j by (simp only: c simp_thms)
  moreover have "type_out (func_chars ?j) s = put_queue (kb_word (func_chars ?j)) s" by (simp add: type_out_def func_chars_def)
  ultimately show "func ecx sc s = type_out (if sint ecx < 4 then [] else func_chars ?j) s"
    using func_seq [OF i, THEN conjunct1] by (cases "sint ecx < 4") (simp_all only: if_True if_False type_out_def simp_thms)
qed

section \<open>One key\<close>

definition key_done :: "u32 \<Rightarrow> u8 \<Rightarrow> 'z kbst_scheme \<Rightarrow> 'z kbst_scheme \<Rightarrow> bool" where
  "key_done ecx sc s s' \<longleftrightarrow> kb_wf s' \<and> caps_lamp s' \<and> kb_view s' = kb_press (kb_e0 s \<noteq> 0) sc (kb_view s) \<and>
     typed s' = (let cs = sent_chars ecx (kb_e0 s = 1) sc (kb_view s) in if length (typed s) + length cs < 1024 then typed s @ cs else typed s) \<and>
     io_writes s' = io_writes s @ (if kb_leds s' = kb_leds s then [] else [(0x60, 0xed), (0x60, kb_leds s')])"

lemma type_out_frame [simp]:
  "kb_mode (type_out cs s) = kb_mode s" "kb_leds (type_out cs s) = kb_leds s" "io_writes (type_out cs s) = io_writes s"
  by (simp_all add: type_out_def)

lemma done_typing:
  assumes "kb_wf s" "caps_lamp s" "key_table ! unat sc \<in> {K_none, K_do_self, K_minus, K_cursor, K_func}"
    and cs: "cs = sent_chars ecx (kb_e0 s = 1) sc (kb_view s)" "cs = [] \<or> kb_seq cs"
  shows "key_done ecx sc s (type_out cs s)"
proof -
  have "kb_view (type_out cs s) = kb_view s" "caps_lamp (type_out cs s)" using assms(2) by (simp_all add: kb_view_def caps_lamp_def)
  moreover have "typed (type_out cs s) = (if length (typed s) + length cs < 1024 then typed s @ cs else typed s) \<and> kb_wf (type_out cs s)"
    using cs(2) put_queue_whole [of cs s] assms(1) by (auto simp: type_out_def)
  ultimately show ?thesis using kb_press_other [OF assms(3)] by (simp add: key_done_def Let_def flip: cs(1))
qed

text \<open>The routines that only change the mode, or the lamps.\<close>

lemma done_silent:
  assumes "kb_wf s" "key_table ! unat sc \<notin> {K_do_self, K_minus, K_cursor, K_func}" "tty_table s' = tty_table s" "caps_lamp s'"
    and "kb_view s' = kb_press (kb_e0 s \<noteq> 0) sc (kb_view s)"
    and "io_writes s' = io_writes s @ (if kb_leds s' = kb_leds s then [] else [(0x60, 0xed), (0x60, kb_leds s')])"
  shows "key_done ecx sc s s'"
  using assms by (auto simp: key_done_def sent_defs kb_wf_def split: kb_key.splits)

lemma done_press:
  assumes "kb_wf s" "caps_lamp s" "key_table ! unat sc \<notin> {K_do_self, K_minus, K_cursor, K_func}"
    and "mod_key (kb_e0 s \<noteq> 0) (sc AND 0x7f) = Some k" "\<not> 0x80 \<le> sc" "k \<noteq> Caps \<or> bit (kb_mode s) 7" "m = kb_mode s OR 2 ^ mod_bit k"
  shows "key_done ecx sc s (s\<lparr>kb_mode := m\<rparr>)"
  using assms by (intro done_silent) (auto simp: caps_lamp_def kb_view_def kb_press_def set_held set_caps)

lemma done_release:
  assumes "kb_wf s" "caps_lamp s" "key_table ! unat sc \<notin> {K_do_self, K_minus, K_cursor, K_func}"
    and "mod_key (kb_e0 s \<noteq> 0) (sc AND 0x7f) = Some k" "0x80 \<le> sc" "m = kb_mode s AND NOT (2 ^ mod_bit k)"
  shows "key_done ecx sc s (s\<lparr>kb_mode := m\<rparr>)"
  using assms by (intro done_silent) (auto simp: caps_lamp_def kb_view_def kb_press_def clear_held clear_caps)

definition reset_keys :: "u8 \<Rightarrow> keyboard \<Rightarrow> bool" where
  "reset_keys sc K \<longleftrightarrow> sc = 0x53 \<and> ctrled K \<and> (LAlt \<in> held K \<or> AltGr \<in> held K)"

lemma call_typing:
  assumes w: "kb_wf s" "caps_lamp s" and k: "key_table ! unat sc \<in> {K_none, K_do_self, K_minus, K_cursor, K_func}" and r: "\<not> reset_keys sc (kb_view s)"
  shows "\<exists>s'. key_call d ecx sc s = Some (Back s') \<and> key_done ecx sc s s'"
proof -
  let ?cs = "sent_chars ecx (kb_e0 s = 1) sc (kb_view s)"
  have "key_call d ecx sc s = Some (Back (type_out ?cs s)) \<and> (?cs = [] \<or> kb_seq ?cs)"
  proof (cases "key_table ! unat sc")
    case K_do_self
    then show ?thesis using plain_seq [of sc] by (auto simp: key_call_def sent_defs do_self_types)
  next
    case K_minus
    have "put_queue 0x2f s = type_out [0x2f] s" "kb_seq [0x2f]" by (simp_all add: type_out_def kb_seq_def)
    then show ?thesis using K_minus plain_seq [of sc] by (auto simp: key_call_def sent_defs minus_key_def do_self_types)
  next
    case K_cursor
    then show ?thesis using cursor_types [OF K_cursor, of s] r by (auto simp: key_call_def sent_defs reset_keys_def)
  next
    case K_func
    then show ?thesis
      using func_types(1) [OF K_func, of ecx s] func_seq [OF func_types(2) [OF K_func], THEN conjunct2]
      by (cases "sint ecx < 4") (simp_all only: key_call_def sent_defs kb_key.case if_True if_False simp_thms)
  qed (use k in \<open>auto simp: key_call_def sent_defs type_out_def\<close>)
  then show ?thesis using done_typing [OF w k refl] by blast
qed

lemma call_shift:
  assumes w: "kb_wf s" "caps_lamp s"
    and k: "key_table ! unat sc \<in> {K_ctrl, K_alt, K_unctrl, K_unalt, K_lshift, K_unlshift, K_rshift, K_unrshift, K_uncaps}"
  shows "\<exists>s'. key_call d ecx sc s = Some (Back s') \<and> key_done ecx sc s s'"
proof -
  note press = done_press [OF w] and rel = done_release [OF w]
  note code = key_codes_mod [THEN key_code_word]
  note defs = key_call_def key_press_def key_release_def side_def mod_key_def
  have n: "(- 2 :: u8) = 0xfe" "(- 3 :: u8) = 0xfd" "(- 129 :: u8) = 0x7f" by simp_all
  show ?thesis
  proof (cases "key_table ! unat sc")
    case K_ctrl
    then show ?thesis using code(1) [OF K_ctrl] press [of sc "if kb_e0 s \<noteq> 0 then RCtrl else LCtrl"] by (auto simp: defs)
  next
    case K_alt
    then show ?thesis using code(2) [OF K_alt] press [of sc "if kb_e0 s \<noteq> 0 then AltGr else LAlt"] by (auto simp: defs)
  next
    case K_unctrl
    then show ?thesis using code(3) [OF K_unctrl] rel [of sc "if kb_e0 s \<noteq> 0 then RCtrl else LCtrl"] by (auto simp: defs)
  next
    case K_unalt
    then show ?thesis using code(4) [OF K_unalt] rel [of sc "if kb_e0 s \<noteq> 0 then AltGr else LAlt"] by (auto simp: defs)
  next
    case K_lshift
    then show ?thesis using code(5) [OF K_lshift] press [of sc LShift] by (auto simp: defs)
  next
    case K_unlshift
    then show ?thesis using code(6) [OF K_unlshift] rel [of sc LShift] by (auto simp: defs n)
  next
    case K_rshift
    then show ?thesis using code(7) [OF K_rshift] press [of sc RShift] by (auto simp: defs)
  next
    case K_unrshift
    then show ?thesis using code(8) [OF K_unrshift] rel [of sc RShift] by (auto simp: defs n)
  next
    case K_uncaps
    then show ?thesis using code(10) [OF K_uncaps] rel [of sc Caps] by (auto simp: defs n)
  qed (use k in auto)
qed

text \<open>The key of caps lock goes down.\<close>

lemma caps_down:
  "{k. bit ((m XOR 0x40) OR 0x80 :: u8) (mod_bit k)} = insert Caps {k. bit m (mod_bit k)}" "bit ((m XOR 0x40) OR 0x80 :: u8) 6 \<longleftrightarrow> \<not> bit m 6"
proof -
  have "bit ((m XOR 0x40) OR 0x80 :: u8) (mod_bit k) \<longleftrightarrow> k = Caps \<or> bit m (mod_bit k)" for k
    by (cases k) (simp_all add: bit_or_iff bit_xor_iff single_bits)
  then show "{k. bit ((m XOR 0x40) OR 0x80 :: u8) (mod_bit k)} = insert Caps {k. bit m (mod_bit k)}" by blast
qed (simp add: bit_or_iff bit_xor_iff single_bits)

lemma call_locks:
  assumes w: "kb_wf s" "caps_lamp s" and d: "kb_ready d" and k: "key_table ! unat sc \<in> {K_caps, K_scroll, K_num}"
  shows "\<exists>s'. key_call d ecx sc s = Some (Back s') \<and> key_done ecx sc s s'"
proof -
  note code = key_codes_mod [THEN key_code_word]
  note quiet = done_silent [OF w(1)]
  have x: "a XOR b \<noteq> a" if "b \<noteq> 0" for a b :: u8 using that by (metis xor.left_neutral xor.right_neutral xor.assoc xor_self_eq)
  note views = kb_view_def kb_press_def mod_key_def caps_lamp_def bit_xor_iff bit_or_iff single_bits x
  show ?thesis
  proof (cases "key_table ! unat sc")
    case K_caps
    note sc = code(9) [OF K_caps, simplified]
    show ?thesis
    proof (cases "bit (kb_mode s) 7")
      case True
      then have "key_call d ecx sc s = Some (Back s)" using K_caps by (simp add: key_call_def caps_def mode_tests)
      moreover have "key_done ecx sc s s" using True w K_caps sc by (intro quiet) (auto simp: views)
      ultimately show ?thesis by blast
    next
      case False
      let ?s = "s\<lparr>kb_leds := kb_leds s XOR 4, kb_mode := (kb_mode s XOR 0x40) OR 0x80\<rparr>"
      obtain n where n: "set_leds d ?s = Some (Back (?s\<lparr>io_reads := n, io_writes := io_writes s @ [(0x60, 0xed), (0x60, kb_leds s XOR 4)]\<rparr>))"
        using set_leds_sends [OF d, of ?s] by auto
      have "key_done ecx sc s (?s\<lparr>io_reads := n, io_writes := io_writes s @ [(0x60, 0xed), (0x60, kb_leds s XOR 4)]\<rparr>)"
        using False w K_caps sc by (intro quiet) (simp_all add: kb_view_def kb_press_def mod_key_def caps_lamp_def caps_down bit_xor_iff single_bits x)
      then show ?thesis using n False K_caps by (simp add: key_call_def caps_def mode_tests)
    qed
  next
    case K_scroll
    obtain n where n: "set_leds d (s\<lparr>kb_leds := kb_leds s XOR 1\<rparr>) =
        Some (Back (s\<lparr>kb_leds := kb_leds s XOR 1, io_reads := n, io_writes := io_writes s @ [(0x60, 0xed), (0x60, kb_leds s XOR 1)]\<rparr>))"
      using set_leds_sends [OF d, of "s\<lparr>kb_leds := kb_leds s XOR 1\<rparr>"] by auto
    have "key_done ecx sc s (s\<lparr>kb_leds := kb_leds s XOR 1, io_reads := n, io_writes := io_writes s @ [(0x60, 0xed), (0x60, kb_leds s XOR 1)]\<rparr>)"
      using w K_scroll code(11) [OF K_scroll, simplified] by (intro quiet) (auto simp: views)
    then show ?thesis using n K_scroll by (simp add: key_call_def)
  next
    case K_num
    obtain n where n: "set_leds d (s\<lparr>kb_leds := kb_leds s XOR 2\<rparr>) =
        Some (Back (s\<lparr>kb_leds := kb_leds s XOR 2, io_reads := n, io_writes := io_writes s @ [(0x60, 0xed), (0x60, kb_leds s XOR 2)]\<rparr>))"
      using set_leds_sends [OF d, of "s\<lparr>kb_leds := kb_leds s XOR 2\<rparr>"] by auto
    have "key_done ecx sc s (s\<lparr>kb_leds := kb_leds s XOR 2, io_reads := n, io_writes := io_writes s @ [(0x60, 0xed), (0x60, kb_leds s XOR 2)]\<rparr>)"
      using w K_num code(12) [OF K_num, simplified] by (intro quiet) (auto simp: views)
    then show ?thesis using n K_num by (simp add: key_call_def)
  qed (use k in auto)
qed

lemma key_call_done:
  assumes "kb_wf s" "caps_lamp s" "kb_ready d" "\<not> reset_keys sc (kb_view s)"
  shows "\<exists>s'. key_call d ecx sc s = Some (Back s') \<and> key_done ecx sc s s'"
  using call_typing [OF assms(1,2) _ assms(4)] call_shift [OF assms(1,2)] call_locks [OF assms(1-3)]
  by (cases "key_table ! unat sc") auto

lemma key_call_reset:
  assumes "kb_ready d" "reset_keys sc (kb_view s)"
  shows "\<exists>s'. key_call d ecx sc s = Some (Rebooted s') \<and> io_writes s' = io_writes s @ [(0x64, 0xfc)]"
proof -
  have "key_table ! unat (0x53 :: u8) = K_cursor" unfolding key_codes_iff by (simp add: key_codes_cursor)
  moreover have "sc = 0x53" "kb_mode s AND 0x0c \<noteq> 0" "kb_mode s AND 0x30 \<noteq> 0"
    using assms(2) by (auto simp: reset_keys_def kb_view_def ctrled_def mode_masks)
  moreover obtain n where "kb_wait d s = Some (s\<lparr>io_reads := n\<rparr>)" using kb_wait_returns [OF assms(1)] by blast
  ultimately show ?thesis by (simp add: key_call_def cursor_def reboot_def port_out_def set_phys_def)
qed

text \<open>
  C28: the keyboard routines implement the abstract keyboard for every scan code, as long as the controller does not stay busy for good. A prefix is remembered for the next code. Control, alt and delete together
  reset the machine. Any other code is handled and forgets the prefix: \<^verbatim>\<open>mode\<close> and \<^verbatim>\<open>leds\<close> then say which keys are held and which locks are on, the caps lock lamp agrees
  with the lock, the lamps are sent to the keyboard exactly when they changed, and the characters of the key go to the end of the read queue of the console, all of them or, when they do not
  fit into its 1023 cells, none. One defect is part of the statement: a function key is lost, even with the queue empty, when the register \<^verbatim>\<open>ecx\<close>, which the comment
  in the source takes for the room in the queue and which nothing sets, happens to be less than 4 (\<open>func_lost\<close>).
\<close>

theorem key_code_refines:
  assumes "kb_wf s" "caps_lamp s" "kb_ready d"
  shows "if sc \<in> {0xe0, 0xe1} then key_code d ecx sc s = Some (Back (s\<lparr>kb_e0 := sc - 0xdf\<rparr>))
    else if reset_keys sc (kb_view s) then \<exists>s'. key_code d ecx sc s = Some (Rebooted s') \<and> io_writes s' = io_writes s @ [(0x64, 0xfc)]
    else \<exists>s'. key_code d ecx sc s = Some (Back s') \<and> kb_e0 s' = 0 \<and> kb_wf s' \<and> caps_lamp s' \<and>
      kb_view s' = kb_press (kb_e0 s \<noteq> 0) sc (kb_view s) \<and>
      typed s' = (let cs = kb_chars (kb_e0 s = 1) sc (kb_view s) in if length (typed s) + length cs < 1024 \<and> \<not> func_lost ecx sc then typed s @ cs else typed s) \<and>
      io_writes s' = io_writes s @ (if kb_leds s' = kb_leds s then [] else [(0x60, 0xed), (0x60, kb_leds s')])"
proof -
  have "\<exists>s'. key_code d ecx sc s = Some (Back s') \<and> kb_e0 s' = 0 \<and> key_done ecx sc s s'"
    if a: "sc \<notin> {0xe0, 0xe1}" and b: "\<not> reset_keys sc (kb_view s)"
  proof -
    obtain s1 where "key_call d ecx sc s = Some (Back s1)" "key_done ecx sc s s1" using key_call_done [OF assms b] by blast
    moreover from this(2) have "key_done ecx sc s (s1\<lparr>kb_e0 := 0\<rparr>)" by (simp add: key_done_def kb_wf_def caps_lamp_def kb_view_def)
    ultimately show ?thesis using a by (simp add: key_code_def)
  qed
  moreover have "\<exists>s'. key_code d ecx sc s = Some (Rebooted s') \<and> io_writes s' = io_writes s @ [(0x64, 0xfc)]"
    if "sc \<notin> {0xe0, 0xe1}" "reset_keys sc (kb_view s)"
    using key_call_reset [OF assms(3) that(2), of ecx] that(1) by (auto simp: key_code_def)
  moreover have "key_code d ecx sc s = Some (Back (s\<lparr>kb_e0 := sc - 0xdf\<rparr>))" if "sc \<in> {0xe0, 0xe1}" using that by (auto simp: key_code_def)
  ultimately show ?thesis unfolding key_done_def sent_chars_typed by simp
qed

section \<open>The whole interrupt\<close>

text \<open>What the line discipline does with the characters leaves the state of the keyboard alone.\<close>

lemma tty_intr_more: "ttyst.more (tty_intr t sig s) = ttyst.more s"
proof -
  have "ttyst.more (fold (\<lambda>i s. if P i s then upd_task (task s i) (g i s) s else s) is s) = ttyst.more s" for P g "is" and s :: "'a ttyst_scheme"
    by (induction "is" arbitrary: s) (simp_all add: upd_task_def)
  then show ?thesis by (simp add: tty_intr_def)
qed

lemma cook_char_more: "cook_char t c s = Next s' \<or> cook_char t c s = Write s' f \<Longrightarrow> ttyst.more s' = ttyst.more s"
  by (auto simp: cook_char_def Let_def upd_tty_def tty_intr_more split: if_splits)

lemma tty_run_more:
  assumes "tty_run j s = Some s'"
  shows "ttyst.more s' = ttyst.more s"
  using _ assms
proof (rule tty_run.raw_induct [where P = "\<lambda>j s s'. ttyst.more s' = ttyst.more s"], goal_cases)
  case (1 run j s s')
  then show ?case
  proof (cases j)
    case (Con n t)
    then show ?thesis using 1 by (fastforce simp: Let_def upd_tty_def split: if_splits prod.splits bind_splits)
  next
    case (Cooked t)
    then show ?thesis using 1
      by (auto simp: Let_def upd_tty_def wake_up_def secondary_waitq_def wake_task_def upd_task_def split: if_splits prod.splits bind_splits option.splits cooked.splits
        dest!: cook_char_more [OF disjI1] cook_char_more [OF disjI2])
  qed
qed

lemma do_tty_interrupt_kb:
  assumes "do_tty_interrupt t s = Some (s' :: 'z kbst_scheme)"
  shows "kb_mode s' = kb_mode s" "kb_leds s' = kb_leds s" "kb_e0 s' = kb_e0 s"
proof -
  have "ttyst.more s' = ttyst.more s" using assms tty_run_more by (simp add: do_tty_interrupt_def copy_to_cooked_def)
  then show "kb_mode s' = kb_mode s" "kb_leds s' = kb_leds s" "kb_e0 s' = kb_e0 s" by (cases s; cases s'; simp)+
qed

text \<open>
  So the abstract keyboard follows the interrupts one by one: each that returns has done the step of the scan code it read from the port 0x60.
\<close>

theorem keyboard_interrupt_refines:
  assumes "kb_wf s" "caps_lamp s" "kb_ready d" and i: "keyboard_interrupt d ecx s = Some (Back s')" and sc: "sc = d 0x60 (io_reads s)"
  shows "caps_lamp s' \<and> kb_e0 s' = (if sc \<in> {0xe0, 0xe1} then sc - 0xdf else 0) \<and>
    kb_view s' = (if sc \<in> {0xe0, 0xe1} then kb_view s else kb_press (kb_e0 s \<noteq> 0) sc (kb_view s))"
proof -
  let ?s1 = "s\<lparr>io_reads := io_reads s + 1\<rparr>"
  have s1: "kb_wf ?s1" "caps_lamp ?s1" "kb_view ?s1 = kb_view s" "kb_e0 ?s1 = kb_e0 s" using assms by (simp_all add: kb_wf_def caps_lamp_def kb_view_def)
  obtain s2 s4 where s2: "key_code d ecx sc ?s1 = Some (Back s2)" "do_tty_interrupt 0 s4 = Some s'"
      "kb_mode s4 = kb_mode s2" "kb_leds s4 = kb_leds s2" "kb_e0 s4 = kb_e0 s2"
    using i by (auto simp: keyboard_interrupt_def port_in_def port_out_def Let_def sc split: bind_splits kb_end.splits)
  have v: "kb_view s' = kb_view s2" "caps_lamp s' = caps_lamp s2" "kb_e0 s' = kb_e0 s2"
    using do_tty_interrupt_kb [OF s2(2)] s2(3-5) by (simp_all add: kb_view_def caps_lamp_def)
  show ?thesis
  proof (cases "sc \<in> {0xe0, 0xe1}")
    case True
    then have "s2 = ?s1\<lparr>kb_e0 := sc - 0xdf\<rparr>" using s2(1) by (auto simp: key_code_def)
    then show ?thesis using True v assms(2) by (simp add: kb_view_def caps_lamp_def)
  next
    case False
    have nr: "\<not> reset_keys sc (kb_view ?s1)" using key_call_reset [OF assms(3), of sc ?s1 ecx] s2(1) False by (auto simp: key_code_def)
    obtain s3 where "key_call d ecx sc ?s1 = Some (Back s3)" "key_done ecx sc ?s1 s3" using key_call_done [OF s1(1,2) assms(3) nr] by blast
    then have "s2 = s3\<lparr>kb_e0 := 0\<rparr>" "kb_view s3 = kb_press (kb_e0 s \<noteq> 0) sc (kb_view s)" "caps_lamp s3"
      using s2(1) False s1 by (auto simp: key_code_def key_done_def)
    then show ?thesis using v False by (simp add: kb_view_def caps_lamp_def)
  qed
qed

section \<open>An instance: the key A with the left shift key held, and the key F1\<close>

definition ex_keyboard :: kbst where
  "ex_keyboard = iost.extend ex_serial (kbst.fields 1 2 0)"

lemma ex_keyboard [simp]:
  "tty_table ex_keyboard 0 = init_tty_table 0" "kb_mode ex_keyboard = 1" "kb_leds ex_keyboard = 2" "kb_e0 ex_keyboard = 0"
  by (simp_all add: ex_keyboard_def iost.defs kbst.defs ex_serial_def ttyst.defs fs.defs)

theorem key_code_refines_witness:
  "(\<exists>s'. key_code (\<lambda>_ _. 0) 0 0x1e ex_keyboard = Some (Back s') \<and> typed s' = [0x41] \<and> held (kb_view s') = {LShift}) \<and>
   (\<exists>s'. key_code (\<lambda>_ _. 0) 4 0x3b ex_keyboard = Some (Back s') \<and> typed s' = [27, 0x5b, 0x5b, 0x41]) \<and>
   (\<exists>s'. key_code (\<lambda>_ _. 0) 0 0x3b ex_keyboard = Some (Back s') \<and> typed s' = [])"
proof -
  have e: "typed ex_keyboard = []" "kb_wf ex_keyboard" "caps_lamp ex_keyboard"
    by (simp_all add: kb_wf_def caps_lamp_def single_bits init_tty_table_def empty_queue_def tty_ring.ring_wf_def tty_ring.ring_list_def tty_ring.ring_count_def)
  have v: "held (kb_view ex_keyboard) = {LShift}" "\<not> lock_caps (kb_view ex_keyboard)"
  proof -
    have "mod_bit k = 0 \<longleftrightarrow> k = LShift" for k by (cases k) simp_all
    then show "held (kb_view ex_keyboard) = {LShift}" "\<not> lock_caps (kb_view ex_keyboard)" by (simp_all add: kb_view_def single_bits)
  qed
  have t: "key_table ! unat (0x1e :: u8) = K_do_self" "key_table ! unat (0x3b :: u8) = K_func" by code_simp+
  have c: "kb_chars False 0x1e (kb_view ex_keyboard) = [0x41]" "kb_press False 0x1e (kb_view ex_keyboard) = kb_view ex_keyboard"
    "kb_chars False 0x3b (kb_view ex_keyboard) = [27, 0x5b, 0x5b, 0x41]" "\<not> func_lost 0 0x1e" "\<not> func_lost 4 0x3b" "func_lost 0 0x3b"
    using t v by (simp_all add: kb_chars_def plain_chars_def shifted_def ctrled_def shift_map_def ascii_def kb_press_def mod_key_def func_chars_def func_lost_def)
  have r: "\<not> reset_keys 0x1e (kb_view ex_keyboard)" "\<not> reset_keys 0x3b (kb_view ex_keyboard)" by (simp_all add: reset_keys_def)
  have d: "kb_ready (\<lambda>_ _. 0)" by (auto simp: kb_ready_def)
  have n: "tty_ring.ring_count (read_q (init_tty_table 0)) = 0" using e(1) tty_ring.length_ring [of "read_q (init_tty_table 0)"] by simp
  note ref = key_code_refines [OF e(2,3) d]
  have "\<exists>s'. key_code (\<lambda>_ _. 0) 0 0x1e ex_keyboard = Some (Back s') \<and> typed s' = [0x41] \<and> held (kb_view s') = {LShift}"
    using ref [of "0x1e" 0] c r n e(1) v by (auto simp: Let_def)
  moreover have "\<exists>s'. key_code (\<lambda>_ _. 0) 4 0x3b ex_keyboard = Some (Back s') \<and> typed s' = [27, 0x5b, 0x5b, 0x41]"
    using ref [of "0x3b" 4] c r n e(1) by (auto simp: Let_def)
  moreover have "\<exists>s'. key_code (\<lambda>_ _. 0) 0 0x3b ex_keyboard = Some (Back s') \<and> typed s' = []"
    using ref [of "0x3b" 0] c r n e(1) by (auto simp: Let_def)
  ultimately show ?thesis by blast
qed

end
