(* ===== verification/Spec2Isabelle.thy ===== *)
theory Spec2Isabelle
  imports Hd_Elevator Console_Props Super Process_Props Pipe_Props Vsprintf_Props Sched_Live Cstring_Props Port_Props
    Syscall_Props Boot Fd_Props Init Keyboard_Props
begin

text \<open>
  A verification of the Linux 0.01 kernel: its C sources under \<^verbatim>\<open>src/mm\<close>, \<^verbatim>\<open>src/kernel\<close>, \<^verbatim>\<open>src/fs\<close>, \<^verbatim>\<open>src/init\<close>, \<^verbatim>\<open>src/lib\<close>
  and \<^verbatim>\<open>src/include\<close>, the parts of \<^verbatim>\<open>src/kernel/system_call.s\<close> that connect them, and the interrupt routines \<^verbatim>\<open>rs_io.s\<close> and \<^verbatim>\<open>keyboard.s\<close>.

  \<^bold>\<open>The machine.\<close> The state is one record, extended from theory to theory in the order the components build on one another: \<open>mm\<close> (physical memory and
  \<^verbatim>\<open>mem_map\<close>), \<open>sched\<close> (task table, task structures, descriptors, clock, the memory of the current process), \<open>hdst\<close> (buffer heads, request queue,
  drives), \<open>cache\<close> (queues of the buffer cache), \<open>fs\<close> (inode, file and super block tables), \<open>ttyst\<close> (terminals and console), \<open>procst\<close> (\<^verbatim>\<open>last_pid\<close>);
  beside \<open>procst\<close>, \<open>iost\<close> and \<open>kbst\<close> for the interrupts of the terminals (port accesses, the bytes of the keyboard).
  Operations are polymorphic in the extension, so that a lower component runs unchanged in every larger state. Code that can sleep, panic or run into undefined behaviour is a
  computation \<open>km\<close> of \<^verbatim>\<open>Kernel_Prelude\<close>: a function of the state and of a script that says what the rest of the machine does at the points where the
  process gives up the processor. Its result is a value and state, a panic, a fault (an access outside an object), a process that is not run again, a loop that
  does not end, or an exit. C integers are words of their width or integers wrapped to 32 bits; pointers into kernel arrays are numbers with 0 for \<^verbatim>\<open>NULL\<close>.

  \<^bold>\<open>The parts and their theories.\<close>
  \<^item> \<^verbatim>\<open>mm/memory.c\<close>: \<^verbatim>\<open>Memory\<close>; the reference counts of page frames, copy on write, sharing and freeing of page tables in \<^verbatim>\<open>Memory_Refs\<close>, the faults in
    \<^verbatim>\<open>Memory_Fault\<close>, instances in \<^verbatim>\<open>Memory_Examples\<close>.
  \<^item> Descriptors of \<^verbatim>\<open>sched.h\<close> and \<^verbatim>\<open>system.h\<close>: \<^verbatim>\<open>Segments\<close>.
  \<^item> \<^verbatim>\<open>kernel/sched.c\<close>: \<^verbatim>\<open>Sched\<close>; the choice of \<^verbatim>\<open>schedule\<close>, the bounds of the slices and sleeping in \<^verbatim>\<open>Sched_Props\<close>, freedom from starvation in
    \<^verbatim>\<open>Sched_Live\<close>. The locale \<open>wait_queue\<close> is the contract of the pointers processes sleep on; every queue of the kernel is an interpretation.
  \<^item> \<^verbatim>\<open>kernel/hd.c\<close>: \<^verbatim>\<open>Hd\<close>; transfers and retries in \<^verbatim>\<open>Hd_Props\<close>, the elevator in \<^verbatim>\<open>Hd_Elevator\<close>, partition tables in \<^verbatim>\<open>Hd_Setup\<close>. The port programs
    of \<^verbatim>\<open>hd.c\<close>, \<^verbatim>\<open>serial.c\<close>, \<^verbatim>\<open>console.c\<close> and \<^verbatim>\<open>sched_init\<close> are trees of reads and writes in \<^verbatim>\<open>Ports\<close>, played against any answers of the devices;
    \<^verbatim>\<open>Port_Props\<close> shows that the command block addresses the sector of the driver model.
  \<^item> \<^verbatim>\<open>fs/buffer.c\<close>: \<^verbatim>\<open>Buffer\<close>; free list and hash chains as lists in \<^verbatim>\<open>Buffer_Queues\<close> (over \<^verbatim>\<open>Ring\<close>), the relation of buffers and disk in \<^verbatim>\<open>Buffer_Store\<close>,
    and in \<^verbatim>\<open>Buffer_Props\<close> the cache as an interpretation of a store of blocks in which the last write wins.
  \<^item> The file system: tables and disk formats in \<^verbatim>\<open>Fs_State\<close>, \<^verbatim>\<open>bitmap.c\<close> and \<^verbatim>\<open>truncate.c\<close> in \<^verbatim>\<open>Bitmap\<close>, \<^verbatim>\<open>inode.c\<close> in \<^verbatim>\<open>Inode\<close>, \<^verbatim>\<open>super.c\<close> in
    \<^verbatim>\<open>Super\<close>, \<^verbatim>\<open>namei.c\<close> in \<^verbatim>\<open>Namei\<close> and \<^verbatim>\<open>Namei_Calls\<close>, \<^verbatim>\<open>file_dev.c\<close>, \<^verbatim>\<open>pipe.c\<close>, \<^verbatim>\<open>block_dev.c\<close>, \<^verbatim>\<open>char_dev.c\<close> and \<^verbatim>\<open>read_write.c\<close>
    in \<^verbatim>\<open>Files\<close>, \<^verbatim>\<open>open.c\<close>, \<^verbatim>\<open>fcntl.c\<close>, \<^verbatim>\<open>stat.c\<close> and \<^verbatim>\<open>ioctl.c\<close> in \<^verbatim>\<open>Open\<close>, \<^verbatim>\<open>exec.c\<close> in \<^verbatim>\<open>Exec\<close>, \<^verbatim>\<open>verify_area\<close> and loops in \<^verbatim>\<open>User_Area\<close>.
    \<^verbatim>\<open>File_Blocks\<close> relates \<^verbatim>\<open>bmap\<close> to the logical index of a file, \<^verbatim>\<open>File_Props\<close> and \<^verbatim>\<open>File_Write\<close> show that reading and writing are those of a sequence of bytes
    (instances in \<^verbatim>\<open>File_Examples\<close>), \<^verbatim>\<open>Pipe_Props\<close> that a pipe is a queue of bytes.
  \<^item> Terminals: \<^verbatim>\<open>console.c\<close> in \<^verbatim>\<open>Console\<close>, its screen invariant in \<^verbatim>\<open>Console_Props\<close>; \<^verbatim>\<open>tty_io.c\<close> and \<^verbatim>\<open>tty_ioctl.c\<close> in \<^verbatim>\<open>Tty\<close> and \<^verbatim>\<open>Tty_Calls\<close>.
    The interrupts that fill and empty their queues: \<^verbatim>\<open>rs_io.s\<close> in \<^verbatim>\<open>Serial_Int\<close>, \<^verbatim>\<open>keyboard.s\<close> in \<^verbatim>\<open>Keyboard\<close>. \<^verbatim>\<open>Serial_Props\<close> shows that characters leave in
    order, \<^verbatim>\<open>Keyboard_Props\<close> that the routines implement an abstract keyboard and that a key puts in all of its characters or none, but for a
    function key that a test of an unset register loses.
  \<^item> Processes: \<^verbatim>\<open>fork.c\<close>, \<^verbatim>\<open>exit.c\<close> and \<^verbatim>\<open>sys.c\<close> in \<^verbatim>\<open>Process\<close>; when a fork succeeds and what it leaves behind in \<^verbatim>\<open>Fork_Props\<close>, process numbers in \<^verbatim>\<open>Process_Props\<close>, the counts of open files
    in \<^verbatim>\<open>Fd_Props\<close>.
  \<^item> The system call interface, \<^verbatim>\<open>unistd.h\<close>, \<^verbatim>\<open>sys.h\<close>, \<^verbatim>\<open>system_call.s\<close> and \<^verbatim>\<open>src/lib\<close>: \<^verbatim>\<open>Syscall\<close>; the contract between the library and the kernel, and
    the delivery of signals, in \<^verbatim>\<open>Syscall_Props\<close>.
  \<^item> \<^verbatim>\<open>traps.c\<close>, \<^verbatim>\<open>printk.c\<close> and the gates: \<^verbatim>\<open>Traps\<close> and \<^verbatim>\<open>Trap_Props\<close>. \<^verbatim>\<open>main.c\<close>: \<^verbatim>\<open>Boot\<close>, which shows that the start establishes the invariants
    the other theorems assume, and the program \<^verbatim>\<open>init\<close> in \<^verbatim>\<open>Init\<close>.
  \<^item> Libraries: \<^verbatim>\<open>mktime.c\<close> and the CMOS clock in \<^verbatim>\<open>Mktime\<close>, \<^verbatim>\<open>vsprintf.c\<close> in \<^verbatim>\<open>Vsprintf\<close> and \<^verbatim>\<open>Vsprintf_Props\<close>, \<^verbatim>\<open>string.h\<close> instruction by
    instruction in \<^verbatim>\<open>Cstring\<close> and \<^verbatim>\<open>Cstring_Props\<close>.

  \<^bold>\<open>Loops.\<close> Structural recursion where the bound is in the code. A loop that waits for something is \<open>loopK\<close> or \<open>loopX\<close>: a round that sleeps consumes the script, a round that makes
  no progress takes the next entry of the script as an interrupt. Other loops that might not end are partial functions with the value \<open>None\<close>, and the theorems that say they
  return prove it. The only fuel is that of \<open>put_chars\<close>, the size of the write queue, one more than the characters it can take.

  \<^bold>\<open>Not modelled.\<close> The boot sector and \<^verbatim>\<open>head.s\<close>, interrupts in the middle of the keyboard interrupt, which is a trap gate, the image builder
  \<^verbatim>\<open>tools/build.c\<close> (a program of the host), \<^verbatim>\<open>move_to_user_mode\<close> and the loop of task 0. In the driver \<^verbatim>\<open>Hd\<close> the controller is ready in time; what happens
  when it is not is modelled at the ports only. A write of \<^verbatim>\<open>buffer.c\<close> through a null pointer, which damages the page directory, is left out (see \<^verbatim>\<open>Buffer\<close>). TLB invalidation has no effect on the state. Messages of \<^verbatim>\<open>printk\<close>
  are printed by the handlers of \<^verbatim>\<open>traps.c\<close>; the other components leave them out, as they change nothing but the console. User memory is one array of bytes per process,
  to which the page tables are not tied: the theorems on page tables speak of physical frames, those on system calls of the bytes of the process.
\<close>

end
